(* ===== verification/Prelude.thy ===== *)
theory Prelude
  imports Complex_Main "HOL-Library.AList" "HOL-Library.Product_Lexorder"
    "HOL-Library.List_Lexorder" "HOL-Library.Char_ord"
begin

text \<open>
  Shared vocabulary of the development: the collections of rewrite rules, the result type of code
  that may raise, rows of database tables addressed by a key (with the locale that gives every
  table of the model the same laws), Python's string helpers, and ordered selection
  (\<open>ORDER BY ... LIMIT 1\<close>).
\<close>

named_theorems db_simps \<open>effects of the database primitives on the tables\<close>
named_theorems frame_simps \<open>tables an operation leaves alone\<close>
named_theorems inv_intros \<open>operations that keep an invariant\<close>

type_synonym uuid = nat

text \<open>Time is counted in microseconds, the resolution of Python's \<open>datetime\<close>.\<close>

type_synonym time = int
type_synonym bytes = string

definition secs :: "int \<Rightarrow> time" where
  "secs n = n * 1000000"

lemma secs_mono [simp]: "secs m \<le> secs n \<longleftrightarrow> m \<le> n" "secs m < secs n \<longleftrightarrow> m < n"
  by (simp_all add: secs_def)

lemma secs_nonneg [simp]: "0 \<le> secs n \<longleftrightarrow> 0 \<le> n" "0 < secs n \<longleftrightarrow> 0 < n"
  by (simp_all add: secs_def)


section \<open>Rows addressed by a key\<close>

definition get_row :: "('r \<Rightarrow> 'k) \<Rightarrow> 'k \<Rightarrow> 'r list \<Rightarrow> 'r option" where
  "get_row key k rs = find (\<lambda>r. key r = k) rs"

definition upd_row :: "('r \<Rightarrow> 'k) \<Rightarrow> 'k \<Rightarrow> ('r \<Rightarrow> 'r) \<Rightarrow> 'r list \<Rightarrow> 'r list" where
  "upd_row key k f rs = map (\<lambda>r. if key r = k then f r else r) rs"

lemma get_row_Nil [simp]: "get_row key k [] = None"
  by (simp add: get_row_def)

lemma get_row_Cons [simp]: "get_row key k (r # rs) = (if key r = k then Some r else get_row key k rs)"
  by (simp add: get_row_def)

lemma get_row_append:
  "get_row key k (rs @ qs) = (case get_row key k rs of None \<Rightarrow> get_row key k qs | Some r \<Rightarrow> Some r)"
  by (induction rs) auto

lemma get_row_SomeD: "get_row key k rs = Some r \<Longrightarrow> r \<in> set rs \<and> key r = k"
  by (induction rs) (auto split: if_splits)

lemma get_row_None_iff: "get_row key k rs = None \<longleftrightarrow> k \<notin> key ` set rs"
  by (induction rs) auto

lemma get_row_in: "distinct (map key rs) \<Longrightarrow> r \<in> set rs \<Longrightarrow> get_row key (key r) rs = Some r"
  by (induction rs) (auto simp: image_iff)

lemma get_row_Some_iff:
  "distinct (map key rs) \<Longrightarrow> get_row key k rs = Some r \<longleftrightarrow> r \<in> set rs \<and> key r = k"
  using get_row_SomeD get_row_in by fastforce

lemma key_inj: "distinct (map key rs) \<Longrightarrow> r \<in> set rs \<Longrightarrow> q \<in> set rs \<Longrightarrow> key r = key q \<Longrightarrow> r = q"
  by (metis get_row_in option.inject)

lemma upd_row_Nil [simp]: "upd_row key k f [] = []"
  by (simp add: upd_row_def)

lemma upd_row_Cons [simp]:
  "upd_row key k f (r # rs) = (if key r = k then f r else r) # upd_row key k f rs"
  by (simp add: upd_row_def)

lemma length_upd_row [simp]: "length (upd_row key k f rs) = length rs"
  by (simp add: upd_row_def)

lemma upd_row_append [simp]: "upd_row key k f (rs @ qs) = upd_row key k f rs @ upd_row key k f qs"
  by (simp add: upd_row_def)

lemma upd_row_notin: "k \<notin> key ` set rs \<Longrightarrow> upd_row key k f rs = rs"
  by (induction rs) auto

lemma upd_row_ident: "(\<And>r. r \<in> set rs \<Longrightarrow> key r = k \<Longrightarrow> f r = r) \<Longrightarrow> upd_row key k f rs = rs"
  by (induction rs) auto

lemma set_upd_row: "set (upd_row key k f rs) = (\<lambda>r. if key r = k then f r else r) ` set rs"
  by (simp add: upd_row_def)

lemma ball_upd_row:
  "(\<forall>r\<in>set (upd_row key k f rs). P r) \<longleftrightarrow> (\<forall>r\<in>set rs. if key r = k then P (f r) else P r)"
  by (auto simp: upd_row_def)

lemma map_upd_row:
  "(\<And>r. r \<in> set rs \<Longrightarrow> key r = k \<Longrightarrow> g (f r) = g r) \<Longrightarrow> map g (upd_row key k f rs) = map g rs"
  by (simp add: upd_row_def)

lemma keys_bounded:
  assumes "map key xs = map key ys" "\<forall>y\<in>set ys. key y < n" "n \<le> (m::nat)"
  shows "\<forall>x\<in>set xs. key x < m"
proof
  fix x assume "x \<in> set xs"
  then have "key x \<in> set (map key ys)" by (simp flip: assms(1))
  with assms(2,3) show "key x < m" by fastforce
qed

lemma get_row_upd_row_same:
  "(\<And>r. key r = k \<Longrightarrow> key (f r) = k) \<Longrightarrow>
   get_row key k (upd_row key k f rs) = map_option f (get_row key k rs)"
  by (induction rs) auto

lemma get_row_upd_row_other:
  "(\<And>r. key r = k \<Longrightarrow> key (f r) = k) \<Longrightarrow> k' \<noteq> k \<Longrightarrow>
   get_row key k' (upd_row key k f rs) = get_row key k' rs"
  by (induction rs) auto

lemma filter_upd_row:
  "(\<And>r. r \<in> set rs \<Longrightarrow> key r = k \<Longrightarrow> \<not> P r \<and> \<not> P (f r)) \<Longrightarrow>
   filter P (upd_row key k f rs) = filter P rs"
  by (induction rs) auto

text \<open>
  Every table of the database is one field of the state record. The locale takes the primary key,
  the field and its update function and gives the lookup laws that all tables share.
\<close>

locale table =
  fixes key :: "'r \<Rightarrow> uuid"
    and rows :: "'w \<Rightarrow> 'r list"
    and set_rows :: "('r list \<Rightarrow> 'r list) \<Rightarrow> 'w \<Rightarrow> 'w"
  assumes rows_set_rows: "rows (set_rows F w) = F (rows w)"
    and set_rows_comp: "set_rows F (set_rows G w) = set_rows (\<lambda>rs. F (G rs)) w"
begin

lemma lookup_insert_new:
  "get_row key (key r) (rows w) = None \<Longrightarrow>
   get_row key (key r) (rows (set_rows (\<lambda>rs. rs @ [r]) w)) = Some r"
  by (simp add: rows_set_rows get_row_append)

lemma lookup_insert_other:
  "k \<noteq> key r \<Longrightarrow> get_row key k (rows (set_rows (\<lambda>rs. rs @ [r]) w)) = get_row key k (rows w)"
  by (simp add: rows_set_rows get_row_append split: option.splits)

lemma lookup_update:
  assumes "\<And>r. key (f r) = key r"
  shows "get_row key k' (rows (set_rows (upd_row key k f) w)) =
    (if k' = k then map_option f (get_row key k (rows w)) else get_row key k' (rows w))"
  using assms by (simp add: rows_set_rows get_row_upd_row_same get_row_upd_row_other)

lemma keys_update:
  assumes "\<And>r. key (f r) = key r"
  shows "map key (rows (set_rows (upd_row key k f) w)) = map key (rows w)"
  using assms by (simp add: rows_set_rows map_upd_row)

lemma update_update:
  assumes "\<And>r. key (f r) = key r"
  shows "set_rows (upd_row key k g) (set_rows (upd_row key k f) w) =
    set_rows (upd_row key k (\<lambda>r. g (f r))) w"
proof -
  have "upd_row key k g (upd_row key k f rs) = upd_row key k (\<lambda>r. g (f r)) rs" for rs
    using assms by (induction rs) auto
  then show ?thesis by (simp add: set_rows_comp)
qed

end


section \<open>Ordered selection\<close>

text \<open>\<open>SELECT ... ORDER BY key LIMIT 1\<close>: the first row of the ordered rows, if there is one.\<close>

definition first_by :: "('a \<Rightarrow> 'k::linorder) \<Rightarrow> 'a list \<Rightarrow> 'a option" where
  "first_by k xs = (case sort_key k xs of [] \<Rightarrow> None | x # _ \<Rightarrow> Some x)"

lemma first_by_None_iff [simp]: "first_by k xs = None \<longleftrightarrow> xs = []"
  by (auto simp: first_by_def split: list.splits) (metis length_0_conv length_sort)

lemma first_by_SomeD:
  assumes "first_by k xs = Some x"
  shows "x \<in> set xs" and "\<forall>y\<in>set xs. k x \<le> k y"
proof -
  obtain ys where ys: "sort_key k xs = x # ys"
    using assms by (auto simp: first_by_def split: list.splits)
  have eq: "set (x # ys) = set xs"
    using ys by (metis set_sort)
  then show "x \<in> set xs" by auto
  have "sorted (map k (x # ys))"
    using ys by (metis sorted_sort_key)
  then show "\<forall>y\<in>set xs. k x \<le> k y"
    using eq by (auto simp: eq[symmetric])
qed

lemma find_SomeD: "find P xs = Some x \<Longrightarrow> x \<in> set xs \<and> P x"
  by (induction xs) (auto split: if_splits)

lemma distinct_map_filter: "distinct (map f xs) \<Longrightarrow> distinct (map f (filter P xs))"
  by (induction xs) auto

lemma sum_list_map_nonneg: "(\<And>x. x \<in> set xs \<Longrightarrow> (0::'a::ordered_comm_monoid_add) \<le> f x) \<Longrightarrow> 0 \<le> sum_list (map f xs)"
  by (rule sum_list_nonneg) auto


section \<open>Python strings\<close>

text \<open>
  A \<open>str\<close> is modelled by its code points up to 255 (\<^typ>\<open>char\<close>). \<open>str.strip\<close> removes
  whitespace at both ends and \<open>str.lower\<close> maps the Latin capitals.
\<close>

definition is_space :: "char \<Rightarrow> bool" where
  "is_space c = (let n = of_char c :: nat in
     (9 \<le> n \<and> n \<le> 13) \<or> (28 \<le> n \<and> n \<le> 32) \<or> n = 133 \<or> n = 160)"

definition py_strip :: "string \<Rightarrow> string" where
  "py_strip s = rev (dropWhile is_space (rev (dropWhile is_space s)))"

definition lower_char :: "char \<Rightarrow> char" where
  "lower_char c = (let n = of_char c :: nat in
     if (65 \<le> n \<and> n \<le> 90) \<or> (192 \<le> n \<and> n \<le> 222 \<and> n \<noteq> 215) then char_of (n + 32) else c)"

definition py_lower :: "string \<Rightarrow> string" where
  "py_lower s = map lower_char s"

lemma lower_char_idem [simp]: "lower_char (lower_char c) = lower_char c"
proof -
  have "(of_char c :: nat) < 256" by simp
  then show ?thesis
    by (auto simp: lower_char_def Let_def of_char_of)
qed

lemma py_lower_idem [simp]: "py_lower (py_lower s) = py_lower s"
  by (simp add: py_lower_def)

lemma length_py_lower [simp]: "length (py_lower s) = length s"
  by (simp add: py_lower_def)

lemma length_py_strip: "length (py_strip s) \<le> length s"
  by (simp add: py_strip_def) (metis length_dropWhile_le length_rev order_trans)

text \<open>\<open>list(dict.fromkeys(xs))\<close>: duplicates removed, first occurrences kept in order.\<close>

definition fromkeys :: "'a list \<Rightarrow> 'a list" where
  "fromkeys xs = fold (\<lambda>x acc. if x \<in> set acc then acc else acc @ [x]) xs []"

lemma fromkeys_fold:
  "set (fold (\<lambda>x acc. if x \<in> set acc then acc else acc @ [x]) xs acc) = set acc \<union> set xs"
  "distinct acc \<Longrightarrow> distinct (fold (\<lambda>x acc. if x \<in> set acc then acc else acc @ [x]) xs acc)"
  by (induction xs arbitrary: acc) auto

lemma set_fromkeys [simp]: "set (fromkeys xs) = set xs"
  by (simp add: fromkeys_def fromkeys_fold)

lemma distinct_fromkeys [simp]: "distinct (fromkeys xs)"
  by (simp add: fromkeys_def fromkeys_fold)

lemma fromkeys_distinct:
  assumes "distinct xs"
  shows "fromkeys xs = xs"
proof -
  have "distinct (acc @ xs) \<Longrightarrow>
    fold (\<lambda>x acc. if x \<in> set acc then acc else acc @ [x]) xs acc = acc @ xs" for acc
    by (induction xs arbitrary: acc) auto
  with assms show ?thesis by (simp add: fromkeys_def)
qed

text \<open>Decimal and hexadecimal numerals, and the text form of a UUID.\<close>

definition digit_char :: "nat \<Rightarrow> char" where
  "digit_char d = (if d < 10 then char_of (48 + d) else char_of (87 + d))"

fun show_nat :: "nat \<Rightarrow> string" where
  "show_nat n = (if n < 10 then [digit_char n] else show_nat (n div 10) @ [digit_char (n mod 10)])"

declare show_nat.simps [simp del]

definition hex_of :: "nat \<Rightarrow> nat \<Rightarrow> string" where
  "hex_of k n = map (\<lambda>i. digit_char (n div 16 ^ (k - 1 - i) mod 16)) [0..<k]"

definition digit_val :: "char \<Rightarrow> nat option" where
  "digit_val c = (let n = of_char c :: nat in
     if 48 \<le> n \<and> n \<le> 57 then Some (n - 48)
     else if 97 \<le> n \<and> n \<le> 102 then Some (n - 87)
     else if 65 \<le> n \<and> n \<le> 70 then Some (n - 55) else None)"

fun hex_val :: "string \<Rightarrow> nat \<Rightarrow> nat option" where
  "hex_val [] acc = Some acc"
| "hex_val (c # cs) acc = (case digit_val c of None \<Rightarrow> None | Some d \<Rightarrow> hex_val cs (16 * acc + d))"

text \<open>\<open>str(uuid)\<close> is 32 hexadecimal digits grouped 8-4-4-4-12.\<close>

definition uuid_str :: "uuid \<Rightarrow> string" where
  "uuid_str u = (let h = hex_of 32 u in
     take 8 h @ ''-'' @ take 4 (drop 8 h) @ ''-'' @ take 4 (drop 12 h) @ ''-'' @
     take 4 (drop 16 h) @ ''-'' @ drop 20 h)"

text \<open>
  \<open>UUID(text)\<close> drops the words \<open>urn:\<close> and \<open>uuid:\<close>, braces at the ends and all hyphens, and reads
  exactly 32 remaining characters with \<open>int(_, 16)\<close>, which accepts white space around the numeral, a
  plus sign, the prefix \<open>0x\<close> and single underscores between digits; anything else is a
  \<open>ValueError\<close>, here \<open>None\<close>.
\<close>

function py_remove :: "string \<Rightarrow> string \<Rightarrow> string" where
  "py_remove p [] = []"
| "py_remove p (c # cs) =
     (if p \<noteq> [] \<and> take (length p) (c # cs) = p then py_remove p (drop (length p - 1) cs)
      else c # py_remove p cs)"
  by pat_completeness auto
termination
  by (relation "measure (\<lambda>(p, s). length s)") auto

definition strip_braces :: "string \<Rightarrow> string" where
  "strip_braces s = rev (dropWhile (\<lambda>c. c \<in> set ''{}'') (rev (dropWhile (\<lambda>c. c \<in> set ''{}'') s)))"

fun numeral16 :: "string \<Rightarrow> nat \<Rightarrow> nat option" where
  "numeral16 [] acc = None"
| "numeral16 [c] acc = map_option (\<lambda>d. 16 * acc + d) (digit_val c)"
| "numeral16 (c # c' # cs) acc =
     (case digit_val c of
        None \<Rightarrow> None
      | Some d \<Rightarrow> if c' = CHR ''_'' then numeral16 cs (16 * acc + d) else numeral16 (c' # cs) (16 * acc + d))"

definition int16 :: "string \<Rightarrow> nat option" where
  "int16 s =
     (let t = py_strip s;
          u = (if take 1 t = ''+'' then drop 1 t else t)
      in if take 2 u = ''0x'' \<or> take 2 u = ''0X''
         then let v = drop 2 u in numeral16 (if take 1 v = ''_'' then drop 1 v else v) 0
         else numeral16 u 0)"

definition uuid_parse :: "string \<Rightarrow> uuid option" where
  "uuid_parse s =
     (let h = filter (\<lambda>c. c \<noteq> CHR ''-'') (strip_braces (py_remove ''uuid:'' (py_remove ''urn:'' s)))
      in if length h = 32 then int16 h else None)"

lemma digit_val_digit_char: "d < 16 \<Longrightarrow> digit_val (digit_char d) = Some d"
  by (auto simp: digit_val_def digit_char_def Let_def of_char_of)

lemma hex_of_Suc: "hex_of (Suc k) n = digit_char (n div 16 ^ k mod 16) # hex_of k n"
proof -
  have "[0..<Suc k] = 0 # map Suc [0..<k]"
    by (metis map_Suc_upt upt_conv_Cons zero_less_Suc)
  then show ?thesis
    by (simp add: hex_of_def comp_def)
qed

lemma length_hex_of [simp]: "length (hex_of k n) = k"
  by (simp add: hex_of_def)

lemma hex_val_hex_of: "hex_val (hex_of k n) acc = Some (acc * 16 ^ k + n mod 16 ^ k)"
proof (induction k arbitrary: acc)
  case 0
  then show ?case by (simp add: hex_of_def)
next
  case (Suc k)
  have "n mod 16 ^ Suc k = 16 ^ k * (n div 16 ^ k mod 16) + n mod 16 ^ k"
    by (simp only: power_Suc2 mod_mult2_eq)
  then show ?case
    by (simp add: hex_of_Suc digit_val_digit_char Suc.IH algebra_simps)
qed

lemma digit_char_not_hyphen: "d < 16 \<Longrightarrow> digit_char d \<noteq> CHR ''-''"
proof
  assume "d < 16" and "digit_char d = CHR ''-''"
  then have "digit_val (CHR ''-'') = Some d" by (metis digit_val_digit_char)
  then show False by (simp add: digit_val_def)
qed

lemma digit_val_class:
  "digit_val c \<noteq> None \<Longrightarrow> \<not> is_space c \<and> c \<notin> set ''+_{}-:xX''"
  by (auto simp: digit_val_def is_space_def Let_def split: if_splits)

lemma digits_of_hex: "\<forall>c\<in>set (hex_of k n). digit_val c \<noteq> None"
  by (auto simp: hex_of_def digit_val_digit_char)

lemma py_remove_absent: "d \<in> set p \<Longrightarrow> d \<notin> set s \<Longrightarrow> py_remove p s = s"
proof (induction p s rule: py_remove.induct)
  case (2 p c cs)
  then have "take (length p) (c # cs) \<noteq> p" using set_take_subset[of "length p" "c # cs"] by auto
  with 2 show ?case by simp
qed simp

lemma strip_none:
  assumes "\<forall>c\<in>set s. \<not> P c"
  shows "rev (dropWhile P (rev (dropWhile P s))) = s"
proof -
  have id: "dropWhile P xs = xs" if "\<forall>c\<in>set xs. \<not> P c" for xs
    using that by (cases xs) auto
  show ?thesis using assms id[of s] id[of "rev s"] by simp
qed

lemma numeral16_digits:
  "s \<noteq> [] \<Longrightarrow> (\<forall>c\<in>set s. digit_val c \<noteq> None) \<Longrightarrow> numeral16 s acc = hex_val s acc"
proof (induction s acc rule: numeral16.induct)
  case (3 c c' cs acc)
  then have "c' \<noteq> CHR ''_''" using digit_val_class[of c'] by auto
  with 3 show ?case by (auto split: option.splits)
qed (auto split: option.splits)

lemma int16_digits:
  assumes "s \<noteq> []" "\<forall>c\<in>set s. digit_val c \<noteq> None"
  shows "int16 s = hex_val s 0"
proof -
  have cls: "\<forall>c\<in>set s. \<not> is_space c \<and> c \<notin> set ''+_{}-:xX''"
    using assms(2) digit_val_class by blast
  then have strip: "py_strip s = s" unfolding py_strip_def by (intro strip_none) blast
  have "take 1 s \<noteq> ''+''" "take 2 s \<noteq> ''0x''" "take 2 s \<noteq> ''0X''"
    using cls by (cases s; cases "tl s"; simp)+
  then show ?thesis using assms by (simp add: int16_def strip numeral16_digits)
qed

text \<open>\<open>UUID(str(u))\<close> gives \<open>u\<close> back, for every 128-bit identifier.\<close>

lemma uuid_parse_str:
  assumes "u < 16 ^ 32"
  shows "uuid_parse (uuid_str u) = Some u"
proof -
  have nh: "\<forall>c\<in>set (hex_of 32 u). c \<noteq> CHR ''-''"
    by (auto simp: hex_of_def digit_char_not_hyphen)
  have sub: "filter (\<lambda>c. c \<noteq> CHR ''-'') xs = xs" if "set xs \<subseteq> set (hex_of 32 u)" for xs
    using that nh by (auto intro!: filter_True)
  have parts: "take 8 h @ take 4 (drop 8 h) @ take 4 (drop 12 h) @ take 4 (drop 16 h) @ drop 20 h = h"
    for h :: string
  proof -
    have step: "take 4 (drop n h) @ drop (n + 4) h = drop n h" for n
      by (metis add.commute append_take_drop_id drop_drop)
    show ?thesis
      using step[of 8] step[of 12] step[of 16] by (simp add: append_take_drop_id)
  qed
  have "filter (\<lambda>c. c \<noteq> CHR ''-'') (uuid_str u) = hex_of 32 u"
    unfolding uuid_str_def Let_def
    by (simp only: filter_append sub set_take_subset set_drop_subset
        subset_trans[OF set_take_subset set_drop_subset]) (simp add: parts)
  moreover have sub: "set (uuid_str u) \<subseteq> set (hex_of 32 u) \<union> {CHR ''-''}"
    unfolding uuid_str_def Let_def by (auto dest: in_set_takeD in_set_dropD)
  have cls: "\<forall>c\<in>set (uuid_str u). c \<notin> set ''{}:''"
  proof
    fix c assume "c \<in> set (uuid_str u)"
    with sub consider "c \<in> set (hex_of 32 u)" | "c = CHR ''-''" by blast
    then show "c \<notin> set ''{}:''"
    proof cases
      case 1
      then have "digit_val c \<noteq> None" using digits_of_hex by blast
      from digit_val_class[OF this] show ?thesis by simp
    qed simp
  qed
  have "py_remove ''urn:'' (uuid_str u) = uuid_str u" "py_remove ''uuid:'' (uuid_str u) = uuid_str u"
    by (rule py_remove_absent[where d = "CHR '':''"]; use cls in force)+
  moreover have "strip_braces (uuid_str u) = uuid_str u"
    unfolding strip_braces_def by (rule strip_none) (use cls in auto)
  moreover have "hex_of 32 u \<noteq> []" using length_hex_of[of 32 u] by fastforce
  then have "int16 (hex_of 32 u) = hex_val (hex_of 32 u) 0" using digits_of_hex by (rule int16_digits)
  ultimately show ?thesis
    using assms by (auto simp: uuid_parse_def hex_val_hex_of Let_def)
qed

end
