(* ===== verification/Errors.thy ===== *)
theory Errors
  imports Prelude
begin

text \<open>
  JSON values, the exceptions the services raise, the mapping of exceptions to API responses
  (\<open>errors.py\<close>) and the correlation identifier of a request (\<open>middleware.py\<close>).
  Code that may raise returns a value of type \<open>'a res\<close>: \<open>Inl\<close> the exception, \<open>Inr\<close> the result.
\<close>

datatype json =
    JNull
  | JBool bool
  | JInt int
  | JFloat rat
  | JStr string
  | JList "json list"
  | JObj "(string \<times> json) list"

type_synonym dict = "(string \<times> json) list"

record app_error =
  err_code :: string
  err_message :: string
  err_status_code :: int
  err_details :: dict

text \<open>
  \<open>StaleDataError\<close> is the ORM's optimistic-lock failure, \<open>IntegrityError\<close> a violated constraint
  of the database, \<open>MissingGreenlet\<close> the ORM's refusal to load an expired attribute outside an
  awaited call; \<open>OtherError\<close> is any other exception, by its class name.
\<close>

datatype exn =
    AppError app_error
  | StaleDataError
  | IntegrityError
  | ValidationError
  | ArtifactStorageError string
  | FileNotFoundError
  | KeyError
  | ValueError
  | RuntimeError string
  | MissingGreenlet
  | OtherError string

type_synonym 'a res = "exn + 'a"

definition res_bind :: "'a res \<Rightarrow> ('a \<Rightarrow> 'b res) \<Rightarrow> 'b res" where
  "res_bind m f = (case m of Inl e \<Rightarrow> Inl e | Inr x \<Rightarrow> f x)"

text \<open>A loop whose body may raise.\<close>

fun res_fold :: "('a \<Rightarrow> 's \<Rightarrow> 's res) \<Rightarrow> 'a list \<Rightarrow> 's \<Rightarrow> 's res" where
  "res_fold f [] s = Inr s"
| "res_fold f (x # xs) s = res_bind (f x s) (res_fold f xs)"

lemma res_bind_simps [simp]: "res_bind (Inl e) f = Inl e" "res_bind (Inr x) f = f x"
  by (simp_all add: res_bind_def)

lemma res_bind_Inr_iff: "res_bind m f = Inr y \<longleftrightarrow> (\<exists>x. m = Inr x \<and> f x = Inr y)"
  by (cases m) auto

lemma res_bind_Inl_iff: "res_bind m f = Inl e \<longleftrightarrow> m = Inl e \<or> (\<exists>x. m = Inr x \<and> f x = Inl e)"
  by (cases m) auto

definition is_ok :: "'a res \<Rightarrow> bool" where
  "is_ok m = (case m of Inl _ \<Rightarrow> False | Inr _ \<Rightarrow> True)"

lemma is_ok_simps [simp]: "is_ok (Inr x)" "\<not> is_ok (Inl e)"
  by (simp_all add: is_ok_def)

definition app_err :: "string \<Rightarrow> string \<Rightarrow> int \<Rightarrow> dict \<Rightarrow> exn" where
  "app_err code message status details =
     AppError \<lparr>err_code = code, err_message = message, err_status_code = status, err_details = details\<rparr>"

text \<open>\<open>type(exc).__name__\<close>.\<close>

fun exn_name :: "exn \<Rightarrow> string" where
  "exn_name (AppError _) = ''AppError''"
| "exn_name StaleDataError = ''StaleDataError''"
| "exn_name IntegrityError = ''IntegrityError''"
| "exn_name ValidationError = ''ValidationError''"
| "exn_name (ArtifactStorageError _) = ''ArtifactStorageError''"
| "exn_name FileNotFoundError = ''FileNotFoundError''"
| "exn_name KeyError = ''KeyError''"
| "exn_name ValueError = ''ValueError''"
| "exn_name (RuntimeError _) = ''RuntimeError''"
| "exn_name MissingGreenlet = ''MissingGreenlet''"
| "exn_name (OtherError n) = n"


section \<open>The correlation identifier of a request\<close>

text \<open>
  \<open>CorrelationIdMiddleware.dispatch\<close>: the request header if it is a non-empty string, a fresh UUID
  otherwise, cut to 128 characters. \<open>fresh\<close> is the UUID the call to \<open>uuid4\<close> returns.
\<close>

definition dispatch_correlation_id :: "string option \<Rightarrow> uuid \<Rightarrow> string" where
  "dispatch_correlation_id header fresh =
     take 128 (case header of Some (c # cs) \<Rightarrow> c # cs | _ \<Rightarrow> uuid_str fresh)"

text \<open>\<open>errors.request_correlation_id\<close>: the first non-empty of three sources, cut to 128 characters.\<close>

definition request_correlation_id :: "string \<Rightarrow> string \<Rightarrow> string option \<Rightarrow> string" where
  "request_correlation_id state_id context_id header =
     take 128 (if state_id \<noteq> [] then state_id
               else if context_id \<noteq> [] then context_id
               else case header of None \<Rightarrow> [] | Some h \<Rightarrow> h)"

record json_response =
  resp_status :: int
  resp_content :: json
  resp_headers :: "(string \<times> string) list"

definition error_body :: "string \<Rightarrow> string \<Rightarrow> dict \<Rightarrow> string \<Rightarrow> json" where
  "error_body code message details cid =
     JObj [(''error'', JObj [(''code'', JStr code), (''message'', JStr message),
       (''details'', JObj details), (''correlation_id'', JStr cid)])]"

definition app_error_handler :: "string \<Rightarrow> app_error \<Rightarrow> json_response" where
  "app_error_handler cid e =
     \<lparr>resp_status = err_status_code e,
      resp_content = error_body (err_code e) (err_message e) (err_details e) cid,
      resp_headers = [(''X-Correlation-ID'', cid)]\<rparr>"

definition unexpected_error_handler :: "string \<Rightarrow> json_response" where
  "unexpected_error_handler cid =
     \<lparr>resp_status = 500,
      resp_content = error_body ''internal_error'' ''An unexpected internal error occurred'' [] cid,
      resp_headers = [(''X-Correlation-ID'', cid)]\<rparr>"

text \<open>
  \<open>main.create_app\<close> registers the two handlers: an \<open>AppError\<close> goes to the first, every other
  exception to the second.
\<close>

definition handle_exception :: "string \<Rightarrow> exn \<Rightarrow> json_response" where
  "handle_exception cid e = (case e of AppError a \<Rightarrow> app_error_handler cid a | _ \<Rightarrow> unexpected_error_handler cid)"

lemma length_uuid_str [simp]: "length (uuid_str u) = 36"
  by (simp add: uuid_str_def Let_def)

lemma dispatch_correlation_id_bounds:
  "1 \<le> length (dispatch_correlation_id h u) \<and> length (dispatch_correlation_id h u) \<le> 128"
  by (simp add: dispatch_correlation_id_def split: option.split list.split)

lemma request_correlation_id_dispatch:
  "request_correlation_id (dispatch_correlation_id h u) ctx h' = dispatch_correlation_id h u"
proof -
  have "dispatch_correlation_id h u \<noteq> []"
    using dispatch_correlation_id_bounds[of h u] by auto
  then show ?thesis
    using dispatch_correlation_id_bounds[of h u] by (simp add: request_correlation_id_def)
qed

end
