(* ===== verification/Contracts.thy ===== *)
theory Contracts
  imports Errors
begin

text \<open>
  The message contracts shared by the services (\<open>packages/contracts/runscope_contracts/events.py\<close>).
  Building an envelope validates the field constraints, as the Pydantic model does; the JSON form an
  envelope is stored in (\<open>model_dump(mode="json")\<close>) is identified with the envelope, and reading it
  back (\<open>model_validate\<close>) checks the same constraints again.
\<close>

record event_envelope =
  ev_event_id :: uuid
  ev_event_version :: int
  ev_event_type :: string
  ev_occurred_at :: time
  ev_correlation_id :: string
  ev_run_id :: "uuid option"
  ev_worker_id :: "uuid option"
  ev_payload :: dict

definition envelope_ok :: "event_envelope \<Rightarrow> bool" where
  "envelope_ok e \<longleftrightarrow> 1 \<le> ev_event_version e
     \<and> 3 \<le> length (ev_event_type e) \<and> length (ev_event_type e) \<le> 100
     \<and> 1 \<le> length (ev_correlation_id e) \<and> length (ev_correlation_id e) \<le> 128"

definition validate_envelope :: "event_envelope \<Rightarrow> event_envelope res" where
  "validate_envelope e = (if envelope_ok e then Inr e else Inl ValidationError)"

text \<open>The constructor call \<open>EventEnvelope(...)\<close> with the default version 1.\<close>

definition mk_envelope ::
  "uuid \<Rightarrow> string \<Rightarrow> time \<Rightarrow> string \<Rightarrow> uuid option \<Rightarrow> uuid option \<Rightarrow> dict \<Rightarrow> event_envelope res" where
  "mk_envelope eid etype occurred corr rid wid payload =
     validate_envelope \<lparr>ev_event_id = eid, ev_event_version = 1, ev_event_type = etype,
       ev_occurred_at = occurred, ev_correlation_id = corr, ev_run_id = rid, ev_worker_id = wid,
       ev_payload = payload\<rparr>"

record live_event =
  le_event_id :: uuid
  le_event_type :: string
  le_occurred_at :: time
  le_run_id :: uuid
  le_payload :: dict

definition live_event_ok :: "live_event \<Rightarrow> bool" where
  "live_event_ok e \<longleftrightarrow> 3 \<le> length (le_event_type e) \<and> length (le_event_type e) \<le> 100"

lemma validate_envelope_Inr [simp]: "validate_envelope e = Inr e' \<longleftrightarrow> envelope_ok e \<and> e' = e"
  by (auto simp: validate_envelope_def)

lemma mk_envelope_Inr:
  "mk_envelope eid ty t corr rid wid p = Inr e \<Longrightarrow>
   envelope_ok e \<and> ev_event_id e = eid \<and> ev_event_type e = ty \<and> ev_run_id e = rid \<and>
   ev_worker_id e = wid \<and> ev_payload e = p \<and> ev_correlation_id e = corr"
  by (auto simp: mk_envelope_def)

lemma mk_envelope_ok:
  assumes "3 \<le> length ty" "length ty \<le> 100" "1 \<le> length corr" "length corr \<le> 128"
  shows "\<exists>e. mk_envelope eid ty t corr rid wid p = Inr e"
  using assms by (simp add: mk_envelope_def validate_envelope_def envelope_ok_def)

end
