(* ===== verification/Templates.thy ===== *)
theory Templates
  imports Errors Contracts
begin

text \<open>
  The trusted training templates (\<open>templates/\<close>): parameter models with their bounds, the registry,
  and the executor of the classification template. Two libraries are parameters: the coercion of
  JSON values to field types by pydantic (record \<open>pydantic\<close>) and the training itself (scikit-learn and
  joblib), which yields the measured scores, the sizes of the split and the serialised model.
\<close>

record pydantic =
  coerce_int :: "json \<Rightarrow> int option"
  coerce_float :: "json \<Rightarrow> rat option"
  coerce_bool :: "json \<Rightarrow> bool option"

record iris_parameters =
  n_estimators :: int
  max_depth :: int
  test_size :: rat
  random_state :: int

record slow_parameters =
  duration_seconds :: rat
  interval_seconds :: rat
  fail_intentionally :: bool

datatype parameters = IrisParameters iris_parameters | SlowParameters slow_parameters

text \<open>A field of a model: its default when the key is missing, its coerced value otherwise.\<close>

definition field :: "(json \<Rightarrow> 'a option) \<Rightarrow> 'a \<Rightarrow> string \<Rightarrow> dict \<Rightarrow> 'a option" where
  "field coerce dflt name values =
     (case map_of values name of None \<Rightarrow> Some dflt | Some v \<Rightarrow> coerce v)"

definition iris_ok :: "iris_parameters \<Rightarrow> bool" where
  "iris_ok p \<longleftrightarrow> 10 \<le> n_estimators p \<and> n_estimators p \<le> 500 \<and> 1 \<le> max_depth p \<and> max_depth p \<le> 30 \<and>
     1/10 \<le> test_size p \<and> test_size p \<le> 1/2 \<and> 0 \<le> random_state p \<and> random_state p \<le> 2147483647"

definition slow_ok :: "slow_parameters \<Rightarrow> bool" where
  "slow_ok p \<longleftrightarrow> 2 \<le> duration_seconds p \<and> duration_seconds p \<le> 30 \<and>
     1/4 \<le> interval_seconds p \<and> interval_seconds p \<le> 2"

definition validate_iris :: "pydantic \<Rightarrow> dict \<Rightarrow> iris_parameters res" where
  "validate_iris px values =
     (if \<not> set (map fst values) \<subseteq> {''n_estimators'', ''max_depth'', ''test_size'', ''random_state''}
      then Inl ValidationError
      else case (field (coerce_int px) 100 ''n_estimators'' values, field (coerce_int px) 6 ''max_depth'' values,
                 field (coerce_float px) (1/5) ''test_size'' values, field (coerce_int px) 42 ''random_state'' values) of
        (Some n, Some d, Some t, Some r) \<Rightarrow>
          let p = \<lparr>n_estimators = n, max_depth = d, test_size = t, random_state = r\<rparr>
          in if iris_ok p then Inr p else Inl ValidationError
      | _ \<Rightarrow> Inl ValidationError)"

definition validate_slow :: "pydantic \<Rightarrow> dict \<Rightarrow> slow_parameters res" where
  "validate_slow px values =
     (if \<not> set (map fst values) \<subseteq> {''duration_seconds'', ''interval_seconds'', ''fail_intentionally''}
      then Inl ValidationError
      else case (field (coerce_float px) 8 ''duration_seconds'' values, field (coerce_float px) 1 ''interval_seconds'' values,
                 field (coerce_bool px) False ''fail_intentionally'' values) of
        (Some d, Some i, Some f) \<Rightarrow>
          let p = \<lparr>duration_seconds = d, interval_seconds = i, fail_intentionally = f\<rparr>
          in if slow_ok p then Inr p else Inl ValidationError
      | _ \<Rightarrow> Inl ValidationError)"

text \<open>\<open>model_dump(mode="json")\<close>.\<close>

fun dump_parameters :: "parameters \<Rightarrow> dict" where
  "dump_parameters (IrisParameters p) =
     [(''n_estimators'', JInt (n_estimators p)), (''max_depth'', JInt (max_depth p)),
      (''test_size'', JFloat (test_size p)), (''random_state'', JInt (random_state p))]"
| "dump_parameters (SlowParameters p) =
     [(''duration_seconds'', JFloat (duration_seconds p)), (''interval_seconds'', JFloat (interval_seconds p)),
      (''fail_intentionally'', JBool (fail_intentionally p))]"


section \<open>Results of a template\<close>

record generated_artifact =
  ga_name :: string
  ga_mime_type :: string
  ga_data :: bytes

record template_result =
  tr_metrics :: "(string \<times> rat) list"
  tr_logs :: "(string \<times> string) list"
  tr_artifacts :: "generated_artifact list"

text \<open>\<open>f"{x:.kf}"\<close>: the exact value rounded half to even at the last place.\<close>

definition round_half_even :: "rat \<Rightarrow> int" where
  "round_half_even x =
     (let n = \<lfloor>x\<rfloor>; d = x - of_int n
      in if d < 1/2 then n else if d > 1/2 then n + 1 else if even n then n else n + 1)"

definition pad_zeros :: "nat \<Rightarrow> string \<Rightarrow> string" where
  "pad_zeros k s = replicate (k - length s) CHR ''0'' @ s"

definition fmt_fixed :: "nat \<Rightarrow> rat \<Rightarrow> string" where
  "fmt_fixed k x =
     (let n = round_half_even (\<bar>x\<bar> * 10 ^ k); w = nat n div 10 ^ k; f = nat n mod 10 ^ k
      in (if x < 0 then ''-'' else '''') @ show_nat w @
         (if k = 0 then '''' else ''.'' @ pad_zeros k (show_nat f)))"

text \<open>
  \<open>metrics_chart_svg\<close>. The geometry of one bar is kept apart from the text around it.
\<close>

definition bar_x :: "nat \<Rightarrow> nat" where
  "bar_x index = 45 + index * (95 + 45)"

definition bar_height :: "rat \<Rightarrow> rat" where
  "bar_height v = max 0 (min 1 v) * 210"

definition bar_y :: "rat \<Rightarrow> rat" where
  "bar_y v = 245 - bar_height v"

definition svg_bar :: "nat \<Rightarrow> rat \<Rightarrow> string" where
  "svg_bar index v = ''<rect x=\"'' @ show_nat (bar_x index) @ ''\" y=\"'' @ fmt_fixed 2 (bar_y v) @
     ''\" width=\"95\" height=\"'' @ fmt_fixed 2 (bar_height v) @ ''\" rx=\"5\" fill=\"#64d7b3\"/>''"

definition svg_labels :: "nat \<Rightarrow> string \<Rightarrow> rat \<Rightarrow> string list" where
  "svg_labels index name v =
     [''<text x=\"'' @ fmt_fixed 1 (of_nat (bar_x index) + 95 / 2) @ ''\" y=\"270\" text-anchor=\"middle\" '' @
        ''fill=\"#d8e2ef\" font-size=\"14\">'' @ name @ ''</text>'',
      ''<text x=\"'' @ fmt_fixed 1 (of_nat (bar_x index) + 95 / 2) @ ''\" y=\"'' @ fmt_fixed 1 (max 20 (bar_y v - 8)) @
        ''\" text-anchor=\"middle\" fill=\"#d8e2ef\" font-size=\"13\">'' @ fmt_fixed 3 v @ ''</text>'']"

definition metrics_chart_svg :: "(string \<times> rat) list \<Rightarrow> bytes" where
  "metrics_chart_svg metrics =
     (let indexed = zip [0..<length metrics] metrics
      in ''<svg xmlns=\"http://www.w3.org/2000/svg\" width=\"640\" height=\"300\" '' @
         ''viewBox=\"0 0 640 300\" role=\"img\" aria-label=\"Classification metrics\">'' @
         ''<rect width=\"100%\" height=\"100%\" fill=\"#111a28\"/>'' @
         ''<line x1=\"35\" y1=\"245\" x2=\"610\" y2=\"245\" stroke=\"#42536a\"/>'' @
         concat (map (\<lambda>(i, name, v). svg_bar i v) indexed @
                 concat (map (\<lambda>(i, name, v). svg_labels i name v) indexed)) @ ''</svg>'')"

text \<open>
  What the training library returns, and the classification executor around it. \<open>dumps\<close> is
  \<open>json.dumps(metrics, indent=2, sort_keys=True)\<close> up to the spelling of floats.
\<close>

record training =
  tn_accuracy :: rat
  tn_precision :: rat
  tn_recall :: rat
  tn_f1 :: rat
  tn_train_size :: nat
  tn_test_size :: nat
  tn_model :: bytes

record library =
  lib_pydantic :: pydantic
  lib_train :: "iris_parameters \<Rightarrow> training res"
  lib_float_repr :: "rat \<Rightarrow> string"

definition dumps_metrics :: "(rat \<Rightarrow> string) \<Rightarrow> (string \<times> rat) list \<Rightarrow> bytes" where
  "dumps_metrics repr metrics =
     (let line = (\<lambda>(name, v). ''  \"'' @ name @ ''\": '' @ repr v);
          lines = map line (sort_key fst metrics)
      in if lines = [] then ''{}''
         else ''{'' @ [CHR 0x0A] @ foldr (\<lambda>l acc. l @ '','' @ [CHR 0x0A] @ acc) (butlast lines) (last lines) @ [CHR 0x0A] @ ''}'')"

definition execute_classification :: "library \<Rightarrow> iris_parameters \<Rightarrow> template_result res" where
  "execute_classification lib p =
     res_bind (lib_train lib p) (\<lambda>t.
       let metrics = [(''accuracy'', tn_accuracy t), (''precision'', tn_precision t),
                      (''recall'', tn_recall t), (''f1'', tn_f1 t)]
       in Inr \<lparr>tr_metrics = metrics,
            tr_logs = [(''INFO'', ''Loaded the built-in scikit-learn Iris dataset''),
              (''INFO'', ''Trained random forest on '' @ show_nat (tn_train_size t) @ '' examples; '' @
                 ''evaluating '' @ show_nat (tn_test_size t) @ '' examples''),
              (''INFO'', ''Evaluation and artifact generation completed'')],
            tr_artifacts =
              [\<lparr>ga_name = ''model.joblib'', ga_mime_type = ''application/octet-stream'', ga_data = tn_model t\<rparr>,
               \<lparr>ga_name = ''metrics.json'', ga_mime_type = ''application/json'',
                ga_data = dumps_metrics (lib_float_repr lib) metrics\<rparr>,
               \<lparr>ga_name = ''metrics-chart.svg'', ga_mime_type = ''image/svg+xml'',
                ga_data = metrics_chart_svg metrics\<rparr>]\<rparr>)"


section \<open>The registry\<close>

datatype parameter_model = IrisClassificationParameters | SlowDemoParameters

record template_definition =
  td_key :: string
  td_name :: string
  td_description :: string
  td_version :: string
  td_parameter_model :: parameter_model
  td_executable :: bool

fun model_validate :: "pydantic \<Rightarrow> parameter_model \<Rightarrow> dict \<Rightarrow> parameters res" where
  "model_validate px IrisClassificationParameters values =
     res_bind (validate_iris px values) (\<lambda>p. Inr (IrisParameters p))"
| "model_validate px SlowDemoParameters values =
     res_bind (validate_slow px values) (\<lambda>p. Inr (SlowParameters p))"

definition registry :: "template_definition list" where
  "registry =
     [\<lparr>td_key = ''sklearn-iris-classification'', td_name = ''Iris random-forest classification'',
       td_description = ''Loads scikit-learn's built-in Iris dataset, performs a stratified '' @
         ''train/test split, trains a trusted random forest, and reports '' @
         ''accuracy, precision, recall, and F1.'',
       td_version = ''1.0.0'', td_parameter_model = IrisClassificationParameters, td_executable = True\<rparr>,
      \<lparr>td_key = ''slow-demonstration'', td_name = ''Slow progress demonstration'',
       td_description = ''Runs a bounded, trusted timer workload that records honest progress, '' @
         ''checks for cancellation, and can fail intentionally. It does not '' @
         ''claim to train a model.'',
       td_version = ''1.0.0'', td_parameter_model = SlowDemoParameters, td_executable = False\<rparr>]"

definition registry_get :: "string \<Rightarrow> string \<Rightarrow> template_definition res" where
  "registry_get key version =
     (case find (\<lambda>d. td_key d = key \<and> td_version d = version) registry of
        None \<Rightarrow> Inl KeyError | Some d \<Rightarrow> Inr d)"

text \<open>
  \<open>definition.execute(validated)\<close>: the field holds \<open>execute_classification\<close> or nothing, which the
  caller turns into the error.
\<close>

definition run_executor :: "library \<Rightarrow> template_definition \<Rightarrow> parameters \<Rightarrow> template_result res" where
  "run_executor lib d p =
     (if \<not> td_executable d then Inl (RuntimeError ''Template has no registered executor'')
      else case p of
        IrisParameters q \<Rightarrow> execute_classification lib q
      | SlowParameters _ \<Rightarrow> Inl (OtherError ''AttributeError''))"


section \<open>Properties of the templates\<close>

text \<open>What the code relies on of pydantic: JSON numbers and booleans of the declared type pass as they are.\<close>

definition canonical :: "pydantic \<Rightarrow> bool" where
  "canonical px \<longleftrightarrow> (\<forall>n. coerce_int px (JInt n) = Some n) \<and> (\<forall>x. coerce_float px (JFloat x) = Some x) \<and>
     (\<forall>b. coerce_bool px (JBool b) = Some b)"

fun model_of :: "parameters \<Rightarrow> parameter_model" where
  "model_of (IrisParameters _) = IrisClassificationParameters"
| "model_of (SlowParameters _) = SlowDemoParameters"

fun parameters_ok :: "parameters \<Rightarrow> bool" where
  "parameters_ok (IrisParameters p) = iris_ok p"
| "parameters_ok (SlowParameters p) = slow_ok p"

lemma model_validate_ok:
  "model_validate px m values = Inr p \<Longrightarrow> parameters_ok p \<and> model_of p = m"
  by (cases m) (auto simp: res_bind_Inr_iff validate_iris_def validate_slow_def Let_def split: if_splits option.splits)

lemma dump_validate:
  assumes "canonical px" "parameters_ok p"
  shows "model_validate px (model_of p) (dump_parameters p) = Inr p"
  using assms by (cases p) (auto simp: validate_iris_def validate_slow_def field_def canonical_def Let_def
      iris_ok_def slow_ok_def)

text \<open>
  C24. Parameters survive storage: what the validation of a template accepts is within the declared
  bounds, and its JSON form, which is what a run stores, validates again to the same parameters, so
  a run is executed with exactly the parameters that were accepted when it was created.
\<close>

theorem parameters_roundtrip:
  assumes "canonical px" "model_validate px m values = Inr p"
  shows "parameters_ok p \<and> model_validate px m (dump_parameters p) = Inr p"
  using model_validate_ok[OF assms(2)] dump_validate[OF assms(1)] by blast

definition strict_pydantic :: pydantic where
  "strict_pydantic = \<lparr>coerce_int = (\<lambda>v. case v of JInt n \<Rightarrow> Some n | _ \<Rightarrow> None),
     coerce_float = (\<lambda>v. case v of JFloat x \<Rightarrow> Some x | JInt n \<Rightarrow> Some (of_int n) | _ \<Rightarrow> None),
     coerce_bool = (\<lambda>v. case v of JBool b \<Rightarrow> Some b | _ \<Rightarrow> None)\<rparr>"

lemma strict_canonical: "canonical strict_pydantic"
  by (simp add: canonical_def strict_pydantic_def)

theorem parameters_roundtrip_witness:
  "\<exists>p. model_validate strict_pydantic SlowDemoParameters [(''duration_seconds'', JInt 4)] = Inr p \<and>
     parameters_ok p \<and> model_validate strict_pydantic SlowDemoParameters (dump_parameters p) = Inr p"
proof -
  have "\<exists>p. model_validate strict_pydantic SlowDemoParameters [(''duration_seconds'', JInt 4)] = Inr p"
    by (simp add: validate_slow_def field_def strict_pydantic_def slow_ok_def)
  then show ?thesis using parameters_roundtrip[OF strict_canonical] by blast
qed

text \<open>The chart of a classification stays inside its frame.\<close>

lemma chart_within_frame:
  "0 \<le> bar_height v" "bar_height v \<le> 210" "35 \<le> bar_y v" "bar_y v \<le> 245" "bar_y v + bar_height v = 245"
  "i < 4 \<Longrightarrow> bar_x i + 95 \<le> 640"
  by (auto simp: bar_height_def bar_y_def bar_x_def min_def max_def)

end
