(* ===== verification/Models.thy ===== *)
theory Models
  imports Contracts
begin

text \<open>
  The database (\<open>models.py\<close>): enumerations, one record per table with the table's columns, and the
  state record that holds all tables. A table is the list of its rows in storage order; a query
  without \<open>ORDER BY\<close> returns rows in that order, about which nothing is assumed. The record also
  carries what the code reads from outside: the wall clock (\<open>datetime.now(UTC)\<close>, one reading after
  another), the start time of the current transaction (\<open>func.now()\<close>), the supply of \<open>uuid4\<close>, and the
  collation of the database as a key function on strings.
\<close>

datatype role = VIEWER | RESEARCHER | ADMINISTRATOR

datatype run_status =
  DRAFT | QUEUED | SCHEDULING | RUNNING | SUCCEEDED | FAILED | CANCELLING | CANCELLED | RETRYING

datatype worker_status = ONLINE | OFFLINE | STALE

fun status_value :: "run_status \<Rightarrow> string" where
  "status_value DRAFT = ''DRAFT''"
| "status_value QUEUED = ''QUEUED''"
| "status_value SCHEDULING = ''SCHEDULING''"
| "status_value RUNNING = ''RUNNING''"
| "status_value SUCCEEDED = ''SUCCEEDED''"
| "status_value FAILED = ''FAILED''"
| "status_value CANCELLING = ''CANCELLING''"
| "status_value CANCELLED = ''CANCELLED''"
| "status_value RETRYING = ''RETRYING''"

fun worker_status_value :: "worker_status \<Rightarrow> string" where
  "worker_status_value ONLINE = ''ONLINE''"
| "worker_status_value OFFLINE = ''OFFLINE''"
| "worker_status_value STALE = ''STALE''"

fun role_value :: "role \<Rightarrow> string" where
  "role_value VIEWER = ''viewer''"
| "role_value RESEARCHER = ''researcher''"
| "role_value ADMINISTRATOR = ''administrator''"

record user =
  u_id :: uuid
  u_email :: string
  u_password_hash :: string
  u_role :: role
  u_created_at :: time
  u_updated_at :: time

record project =
  pj_id :: uuid
  pj_name :: string
  pj_description :: string
  pj_created_by :: uuid
  pj_created_at :: time
  pj_updated_at :: time

text \<open>The JSON column \<open>tags\<close> of an experiment may hold the JSON value \<open>null\<close>, here \<open>None\<close>.\<close>

record experiment_row =
  x_id :: uuid
  x_project_id :: uuid
  x_name :: string
  x_description :: string
  x_tags :: "string list option"
  x_created_by :: uuid
  x_created_at :: time
  x_updated_at :: time

record training_template =
  t_id :: uuid
  t_key :: string
  t_name :: string
  t_description :: string
  t_version :: string
  t_parameter_schema :: dict
  t_enabled :: bool
  t_created_at :: time

record run =
  r_id :: uuid
  r_experiment_id :: uuid
  r_template_id :: uuid
  r_status :: run_status
  r_priority :: int
  r_requested_cpu :: rat
  r_requested_memory_mb :: int
  r_assigned_worker_id :: "uuid option"
  r_attempt_number :: int
  r_parent_run_id :: "uuid option"
  r_created_by :: uuid
  r_created_at :: time
  r_queued_at :: "time option"
  r_started_at :: "time option"
  r_completed_at :: "time option"
  r_failure_code :: "string option"
  r_failure_message :: "string option"
  r_notes :: string
  r_tags :: "string list"
  r_version :: int

record run_parameter =
  p_id :: uuid
  p_run_id :: uuid
  p_name :: string
  p_value :: json

record run_metric =
  m_id :: uuid
  m_run_id :: uuid
  m_name :: string
  m_value :: rat
  m_step :: int
  m_recorded_at :: time

record run_log =
  l_id :: uuid
  l_run_id :: uuid
  l_sequence_number :: int
  l_level :: string
  l_message :: string
  l_recorded_at :: time

record artifact =
  art_id :: uuid
  art_run_id :: uuid
  art_name :: string
  art_storage_key :: string
  art_mime_type :: string
  art_size_bytes :: int
  art_checksum :: string
  art_created_at :: time

record run_event =
  e_id :: uuid
  e_run_id :: uuid
  e_event_type :: string
  e_previous_status :: "run_status option"
  e_new_status :: "run_status option"
  e_event_metadata :: dict
  e_created_at :: time

record worker =
  w_id :: uuid
  w_name :: string
  w_status :: worker_status
  w_total_cpu :: rat
  w_available_cpu :: rat
  w_total_memory_mb :: int
  w_available_memory_mb :: int
  w_current_run_count :: int
  w_last_heartbeat_at :: time
  w_created_at :: time
  w_updated_at :: time

record resource_allocation =
  a_id :: uuid
  a_run_id :: uuid
  a_worker_id :: uuid
  a_cpu :: rat
  a_memory_mb :: int
  a_lease_token :: uuid
  a_lease_expires_at :: time
  a_released_at :: "time option"

record outbox_message =
  o_id :: uuid
  o_topic :: string
  o_partition_key :: string
  o_envelope :: event_envelope
  o_created_at :: time
  o_published_at :: "time option"
  o_publish_attempts :: int
  o_last_error :: "string option"

record processed_message =
  pm_id :: uuid
  pm_event_id :: uuid
  pm_consumer_name :: string
  pm_processed_at :: time

record db =
  users :: "user list"
  projects :: "project list"
  experiments :: "experiment_row list"
  training_templates :: "training_template list"
  runs :: "run list"
  run_parameters :: "run_parameter list"
  run_metrics :: "run_metric list"
  run_logs :: "run_log list"
  artifacts :: "artifact list"
  run_events :: "run_event list"
  workers :: "worker list"
  resource_allocations :: "resource_allocation list"
  outbox_messages :: "outbox_message list"
  processed_messages :: "processed_message list"
  clock :: "nat \<Rightarrow> time"
  ticks :: nat
  tx_now :: time
  next_uuid :: uuid
  collation :: "string \<Rightarrow> string"

interpretation runs_tab: table r_id runs runs_update
  by unfold_locales (auto simp: comp_def)

interpretation workers_tab: table w_id workers workers_update
  by unfold_locales (auto simp: comp_def)

interpretation allocations_tab: table a_id resource_allocations resource_allocations_update
  by unfold_locales (auto simp: comp_def)

interpretation outbox_tab: table o_id outbox_messages outbox_messages_update
  by unfold_locales (auto simp: comp_def)

interpretation events_tab: table e_id run_events run_events_update
  by unfold_locales (auto simp: comp_def)

end
