(* ===== verification/Storage.thy ===== *)
theory Storage
  imports Models Config
begin

text \<open>
  Artifact storage (\<open>storage.py\<close>): the retry wrapper, the local store on a file system, the S3
  store over its client library, and the choice of the backend. An operation takes the state of the
  world it acts on and returns its result with the next state. The pauses of the retry loop are
  returned as a list.
\<close>


section \<open>Bounded retries\<close>

definition show_int :: "int \<Rightarrow> string" where
  "show_int n = (if n < 0 then ''-'' @ show_nat (nat (- n)) else show_nat (nat n))"

text \<open>
  The loop \<open>for attempt in range(1, max_attempts + 1)\<close>: the list of the attempt numbers still to
  come. \<open>Inl\<close> of the loop means that every attempt raised.
\<close>

fun retry_loop ::
  "int \<Rightarrow> rat \<Rightarrow> ('w \<Rightarrow> 'a res \<times> 'w) \<Rightarrow> nat list \<Rightarrow> exn \<Rightarrow> 'w \<Rightarrow> 'a res \<times> rat list \<times> 'w" where
  "retry_loop max_attempts base call [] last_error w = (Inl last_error, [], w)"
| "retry_loop max_attempts base call (attempt # rest) last_error w =
     (case call w of
        (Inr x, w1) \<Rightarrow> (Inr x, [], w1)
      | (Inl e, w1) \<Rightarrow>
          let (r, ds, w2) = retry_loop max_attempts base call rest e w1
          in (r, (if int attempt < max_attempts then [base * 2 ^ (attempt - 1)] else []) @ ds, w2))"

definition retry ::
  "int \<Rightarrow> rat \<Rightarrow> string \<Rightarrow> ('w \<Rightarrow> 'a res \<times> 'w) \<Rightarrow> 'w \<Rightarrow> 'a res \<times> rat list \<times> 'w" where
  "retry max_attempts base operation call w =
     (case retry_loop max_attempts base call [1..<nat (max_attempts + 1)] (OtherError ''None'') w of
        (Inr x, ds, w1) \<Rightarrow> (Inr x, ds, w1)
      | (Inl _, ds, w1) \<Rightarrow>
          (Inl (ArtifactStorageError (''Artifact '' @ operation @ '' failed after '' @
             show_int max_attempts @ '' attempts'')), ds, w1))"

text \<open>
  The two methods of \<open>RetryingArtifactStore\<close>. The wrapped \<open>get\<close> may return something that is not
  \<open>bytes\<close>, here \<open>None\<close>.
\<close>

definition retrying_put ::
  "int \<Rightarrow> rat \<Rightarrow> ('w \<Rightarrow> string \<Rightarrow> bytes \<Rightarrow> string \<Rightarrow> unit res \<times> 'w) \<Rightarrow> 'w \<Rightarrow> string \<Rightarrow> bytes \<Rightarrow> string
    \<Rightarrow> unit res \<times> rat list \<times> 'w" where
  "retrying_put max_attempts base put w key data content_type =
     retry max_attempts base ''upload'' (\<lambda>w. put w key data content_type) w"

definition retrying_get ::
  "int \<Rightarrow> rat \<Rightarrow> ('w \<Rightarrow> string \<Rightarrow> bytes option res \<times> 'w) \<Rightarrow> 'w \<Rightarrow> string \<Rightarrow> bytes res \<times> rat list \<times> 'w" where
  "retrying_get max_attempts base get w key =
     (case retry max_attempts base ''download'' (\<lambda>w. get w key) w of
        (Inl e, ds, w1) \<Rightarrow> (Inl e, ds, w1)
      | (Inr None, ds, w1) \<Rightarrow> (Inl (ArtifactStorageError ''Artifact download returned invalid content''), ds, w1)
      | (Inr (Some data), ds, w1) \<Rightarrow> (Inr data, ds, w1))"


section \<open>The local store\<close>

text \<open>
  A resolved path is the list of its components below the root directory of the file system. The
  file system maps paths to nodes and holds no symbolic links, so that \<open>Path.resolve\<close> is the lexical
  normalisation: empty and \<open>.\<close> components vanish, \<open>..\<close> removes the component before it.
\<close>

type_synonym path = "string list"
datatype node = File bytes | Dir
type_synonym fs = "path \<Rightarrow> node option"

definition split_slash :: "string \<Rightarrow> string list" where
  "split_slash s = foldr (\<lambda>c acc. if c = CHR ''/'' then [] # acc else (c # hd acc) # tl acc) s [[]]"

fun normalise :: "path \<Rightarrow> string list \<Rightarrow> path" where
  "normalise acc [] = acc"
| "normalise acc (c # cs) =
     (if c = '''' \<or> c = ''.'' then normalise acc cs
      else if c = ''..'' then normalise (butlast acc) cs
      else normalise (acc @ [c]) cs)"

text \<open>\<open>(root / key).resolve()\<close>: an absolute key replaces the root.\<close>

definition resolve_path :: "path \<Rightarrow> string \<Rightarrow> path" where
  "resolve_path root_dir key =
     (if take 1 key = ''/'' then normalise [] (split_slash key) else normalise root_dir (split_slash key))"

definition parents :: "path \<Rightarrow> path list" where
  "parents p = map (\<lambda>i. take i p) [0..<length p]"

definition local_path :: "path \<Rightarrow> string \<Rightarrow> path res" where
  "local_path root_dir key =
     (let target = resolve_path root_dir key
      in if root_dir \<notin> set (parents target) then Inl ValueError else Inr target)"

text \<open>\<open>Path.mkdir(parents=True, exist_ok=True)\<close>.\<close>

definition is_file :: "node option \<Rightarrow> bool" where
  "is_file n = (case n of Some (File _) \<Rightarrow> True | _ \<Rightarrow> False)"

lemma is_file_iff: "is_file n \<longleftrightarrow> (\<exists>d. n = Some (File d))"
  by (auto simp: is_file_def split: option.splits node.splits)

definition mkdirs :: "fs \<Rightarrow> path \<Rightarrow> unit res \<times> fs" where
  "mkdirs fs p =
     (if list_ex (\<lambda>q. is_file (fs q)) (parents p) then (Inl (OtherError ''NotADirectoryError''), fs)
      else if is_file (fs p) then (Inl (OtherError ''FileExistsError''), fs)
      else (Inr (), \<lambda>q. if q \<in> set (parents p) \<or> q = p then Some Dir else fs q))"

definition write_bytes :: "fs \<Rightarrow> path \<Rightarrow> bytes \<Rightarrow> unit res \<times> fs" where
  "write_bytes fs p data =
     (case fs p of
        Some Dir \<Rightarrow> (Inl (OtherError ''IsADirectoryError''), fs)
      | _ \<Rightarrow> (Inr (), fs(p \<mapsto> File data)))"

definition read_bytes :: "fs \<Rightarrow> path \<Rightarrow> bytes res" where
  "read_bytes fs p =
     (if list_ex (\<lambda>q. is_file (fs q)) (parents p) then Inl (OtherError ''NotADirectoryError'')
      else case fs p of
        None \<Rightarrow> Inl FileNotFoundError
      | Some Dir \<Rightarrow> Inl (OtherError ''IsADirectoryError'')
      | Some (File data) \<Rightarrow> Inr data)"

definition local_put :: "path \<Rightarrow> fs \<Rightarrow> string \<Rightarrow> bytes \<Rightarrow> string \<Rightarrow> unit res \<times> fs" where
  "local_put root_dir fs key data content_type =
     (case local_path root_dir key of
        Inl e \<Rightarrow> (Inl e, fs)
      | Inr target \<Rightarrow>
          (case mkdirs fs (butlast target) of
             (Inl e, fs1) \<Rightarrow> (Inl e, fs1)
           | (Inr _, fs1) \<Rightarrow> write_bytes fs1 target data))"

definition local_get :: "path \<Rightarrow> fs \<Rightarrow> string \<Rightarrow> bytes option res \<times> fs" where
  "local_get root_dir fs key =
     (case local_path root_dir key of
        Inl e \<Rightarrow> (Inl e, fs)
      | Inr target \<Rightarrow> (case read_bytes fs target of Inl e \<Rightarrow> (Inl e, fs) | Inr d \<Rightarrow> (Inr (Some d), fs)))"


section \<open>The S3 store\<close>

text \<open>
  The client library is a parameter: each of its calls acts on the state \<open>'c\<close> of the remote side. A
  \<open>ClientError\<close> is the exception of that name.
\<close>

record 'c s3_client =
  head_bucket :: "'c \<Rightarrow> string \<Rightarrow> unit res \<times> 'c"
  create_bucket :: "'c \<Rightarrow> string \<Rightarrow> unit res \<times> 'c"
  put_object :: "'c \<Rightarrow> string \<Rightarrow> string \<Rightarrow> bytes \<Rightarrow> string \<Rightarrow> unit res \<times> 'c"
  get_object :: "'c \<Rightarrow> string \<Rightarrow> string \<Rightarrow> bytes res \<times> 'c"

record 'c s3_store =
  s3_remote :: 'c
  s3_bucket_ready :: bool

definition ensure_bucket :: "'c s3_client \<Rightarrow> string \<Rightarrow> 'c s3_store \<Rightarrow> unit res \<times> 'c s3_store" where
  "ensure_bucket c bucket st =
     (if s3_bucket_ready st then (Inr (), st)
      else case head_bucket c (s3_remote st) bucket of
        (Inr _, r) \<Rightarrow> (Inr (), st\<lparr>s3_remote := r, s3_bucket_ready := True\<rparr>)
      | (Inl e, r) \<Rightarrow>
          if exn_name e = ''ClientError'' then
            (case create_bucket c r bucket of
               (Inr _, r') \<Rightarrow> (Inr (), st\<lparr>s3_remote := r', s3_bucket_ready := True\<rparr>)
             | (Inl e', r') \<Rightarrow> (Inl e', st\<lparr>s3_remote := r'\<rparr>))
          else (Inl e, st\<lparr>s3_remote := r\<rparr>))"

definition s3_put :: "'c s3_client \<Rightarrow> string \<Rightarrow> 'c s3_store \<Rightarrow> string \<Rightarrow> bytes \<Rightarrow> string \<Rightarrow> unit res \<times> 'c s3_store" where
  "s3_put c bucket st key data content_type =
     (case ensure_bucket c bucket st of
        (Inl e, st1) \<Rightarrow> (Inl e, st1)
      | (Inr _, st1) \<Rightarrow> (case put_object c (s3_remote st1) bucket key data content_type of
          (r, rem) \<Rightarrow> (r, st1\<lparr>s3_remote := rem\<rparr>)))"

definition s3_get :: "'c s3_client \<Rightarrow> string \<Rightarrow> 'c s3_store \<Rightarrow> string \<Rightarrow> bytes option res \<times> 'c s3_store" where
  "s3_get c bucket st key =
     (case ensure_bucket c bucket st of
        (Inl e, st1) \<Rightarrow> (Inl e, st1)
      | (Inr _, st1) \<Rightarrow> (case get_object c (s3_remote st1) bucket key of
          (Inl e, rem) \<Rightarrow> (Inl e, st1\<lparr>s3_remote := rem\<rparr>)
        | (Inr d, rem) \<Rightarrow> (Inr (Some d), st1\<lparr>s3_remote := rem\<rparr>)))"

datatype store_kind =
    LocalArtifactStore string
  | RetryingS3 string string string string int rat

definition build_artifact_store :: "settings \<Rightarrow> store_kind res" where
  "build_artifact_store cfg =
     (if artifact_backend cfg = ''local'' then Inr (LocalArtifactStore (local_artifact_dir cfg))
      else if artifact_backend cfg = ''s3'' then
        Inr (RetryingS3 (s3_endpoint_url cfg) (s3_access_key cfg) (s3_secret_key cfg) (s3_bucket cfg)
          (storage_max_attempts cfg) (storage_retry_base_seconds cfg))
      else Inl (RuntimeError (''Unsupported artifact backend: '' @ artifact_backend cfg)))"


section \<open>The store interface\<close>

text \<open>What \<open>ArtifactStore\<close> promises its users: what was put can be got back.\<close>

locale artifact_store =
  fixes put :: "'w \<Rightarrow> string \<Rightarrow> bytes \<Rightarrow> string \<Rightarrow> unit res \<times> 'w"
    and get :: "'w \<Rightarrow> string \<Rightarrow> bytes option res \<times> 'w"
  assumes get_put: "put w key data ct = (Inr u, w') \<Longrightarrow> fst (get w' key) = Inr (Some data)"
begin

lemma loop_put:
  "retry_loop m base (\<lambda>w. put w key data ct) ns e w = (Inr u, ds, w') \<Longrightarrow> fst (get w' key) = Inr (Some data)"
proof (induction ns arbitrary: e w ds)
  case (Cons n ns)
  obtain r w1 where c: "put w key data ct = (r, w1)" by fastforce
  show ?case
  proof (cases r)
    case (Inl x)
    with Cons.prems c obtain ds' where "retry_loop m base (\<lambda>w. put w key data ct) ns x w1 = (Inr u, ds', w')"
      by (auto simp: case_prod_beta Let_def prod_eq_iff)
    then show ?thesis by (rule Cons.IH)
  next
    case (Inr x)
    with Cons.prems c get_put show ?thesis by (auto simp: unit_eq)
  qed
qed simp

text \<open>The retry wrapper passes the promise on, and the read needs only its first attempt.\<close>

lemma retrying_get_put:
  assumes "1 \<le> m" "retrying_put m base put w key data ct = (Inr u, ds, w')"
  shows "fst (retrying_get m base get w' key) = Inr data \<and> fst (snd (retrying_get m base get w' key)) = []"
proof -
  have "fst (get w' key) = Inr (Some data)"
    using assms(2) loop_put by (fastforce simp: retrying_put_def retry_def split: prod.splits sum.splits)
  moreover have "[1..<nat (m + 1)] = 1 # [2..<nat (m + 1)]"
    using assms(1) by (simp add: upt_conv_Cons numeral_2_eq_2)
  ultimately show ?thesis
    by (auto simp: retrying_get_def retry_def split: prod.splits)
qed

end

section \<open>The retry loop\<close>

text \<open>The state before the \<open>n\<close>-th repetition of a call (counted from 0).\<close>

definition after_calls :: "('w \<Rightarrow> 'a res \<times> 'w) \<Rightarrow> nat \<Rightarrow> 'w \<Rightarrow> 'w" where
  "after_calls call n w = ((\<lambda>w. snd (call w)) ^^ n) w"

lemma after_calls_simps [simp]:
  "after_calls call 0 w = w" "after_calls call (Suc n) w = after_calls call n (snd (call w))"
  by (simp_all add: after_calls_def funpow_Suc_right del: funpow.simps(2))

lemma upt_split: "i < j \<Longrightarrow> [i..<j] = i # [Suc i..<j]"
  by (rule upt_conv_Cons)

lemma retry_loop_success:
  assumes "\<forall>k<n. \<not> is_ok (fst (call (after_calls call k w)))" "fst (call (after_calls call n w)) = Inr x"
    and "int (a + n) < m + 1"
  shows "retry_loop m base call [a..<nat (m + 1)] e w =
    (Inr x, map (\<lambda>i. base * 2 ^ (i - 1)) [a..<a + n], after_calls call (Suc n) w)"
  using assms
proof (induction n arbitrary: a w e)
  case 0
  then have "[a..<nat (m + 1)] = a # [Suc a..<nat (m + 1)]" by (intro upt_split) simp
  with 0 show ?case by (auto split: prod.splits)
next
  case (Suc n)
  obtain r w1 where c: "call w = (r, w1)" by fastforce
  have r: "\<exists>x. r = Inl x" using Suc.prems(1) c by (cases r) (auto dest: spec[of _ 0])
  have up: "[a..<nat (m + 1)] = a # [Suc a..<nat (m + 1)]" "[a..<a + Suc n] = a # [Suc a..<Suc a + n]"
    using Suc.prems(3) by (auto intro: upt_split simp: upt_split[symmetric])
  have "\<forall>k<n. \<not> is_ok (fst (call (after_calls call k w1)))"
  proof (intro allI impI)
    fix k assume "k < n"
    with Suc.prems(1) show "\<not> is_ok (fst (call (after_calls call k w1)))" using c by (auto dest!: spec[of _ "Suc k"])
  qed
  moreover have "fst (call (after_calls call n w1)) = Inr x" using Suc.prems(2) c by simp
  moreover have "int (Suc a + n) < m + 1" using Suc.prems(3) by simp
  ultimately have IH: "retry_loop m base call [Suc a..<nat (m + 1)] e' w1 =
      (Inr x, map (\<lambda>i. base * 2 ^ (i - 1)) [Suc a..<Suc a + n], after_calls call (Suc n) w1)" for e'
    by (rule Suc.IH)
  have "int a < m" using Suc.prems(3) by simp
  then show ?case using r c unfolding up by (auto simp: IH simp del: upt_Suc)
qed

lemma retry_loop_failure:
  assumes "\<forall>k<nat (m + 1) - a. \<not> is_ok (fst (call (after_calls call k w)))" "1 \<le> a"
  shows "\<exists>e'. retry_loop m base call [a..<nat (m + 1)] e w =
    (Inl e', map (\<lambda>i. base * 2 ^ (i - 1)) [a..<nat m], after_calls call (nat (m + 1) - a) w)"
  using assms
proof (induction "nat (m + 1) - a" arbitrary: a w e)
  case 0
  then show ?case by simp
next
  case (Suc n)
  obtain r w1 where c: "call w = (r, w1)" by fastforce
  obtain x where r: "r = Inl x" using Suc.prems(1) Suc.hyps(2) c by (cases r) (auto dest!: spec[of _ 0])
  have up: "[a..<nat (m + 1)] = a # [Suc a..<nat (m + 1)]" using Suc.hyps(2) by (intro upt_split) simp
  have n: "n = nat (m + 1) - Suc a" using Suc.hyps(2) by simp
  have "\<forall>k<nat (m + 1) - Suc a. \<not> is_ok (fst (call (after_calls call k w1)))"
  proof (intro allI impI)
    fix k assume "k < nat (m + 1) - Suc a"
    then have "Suc k < nat (m + 1) - a" by simp
    with Suc.prems(1) show "\<not> is_ok (fst (call (after_calls call k w1)))"
      using c by (metis after_calls_simps(2) snd_conv)
  qed
  from Suc.hyps(1)[OF n this, of x] obtain e' where IH: "retry_loop m base call [Suc a..<nat (m + 1)] x w1 =
      (Inl e', map (\<lambda>i. base * 2 ^ (i - 1)) [Suc a..<nat m], after_calls call (nat (m + 1) - Suc a) w1)"
    by auto
  have "map (\<lambda>i. base * 2 ^ (i - 1)) [a..<nat m] =
      (if int a < m then [base * 2 ^ (a - 1)] else []) @ map (\<lambda>i. base * 2 ^ (i - 1)) [Suc a..<nat m]"
    using upt_split[of a "nat m"] by auto
  moreover have "nat (m + 1) - a = Suc (nat (m + 1) - Suc a)" using Suc.hyps(2) by simp
  ultimately show ?case using r c unfolding up by (auto simp: IH)
qed

lemma pauses_shift: "map (\<lambda>i. base * 2 ^ (i - 1)) [1..<Suc n] = map (\<lambda>i. base * 2 ^ i :: rat) [0..<n]"
  by (simp add: map_Suc_upt[symmetric] comp_def del: upt_Suc)


section \<open>Paths\<close>

definition clean :: "string \<Rightarrow> bool" where
  "clean c \<longleftrightarrow> c \<noteq> '''' \<and> c \<noteq> ''.'' \<and> c \<noteq> ''..'' \<and> CHR ''/'' \<notin> set c"

lemma split_slash_simps [simp]:
  "split_slash [] = [[]]"
  "split_slash (c # cs) = (if c = CHR ''/'' then [] # split_slash cs else (c # hd (split_slash cs)) # tl (split_slash cs))"
  by (simp_all add: split_slash_def)

lemma split_slash_not_Nil [simp]: "split_slash s \<noteq> []"
  by (cases s) auto

lemma split_slash_no_slash: "c \<in> set (split_slash s) \<Longrightarrow> CHR ''/'' \<notin> set c"
proof (induction s arbitrary: c)
  case (Cons d s)
  have "hd (split_slash s) \<in> set (split_slash s)" "set (tl (split_slash s)) \<subseteq> set (split_slash s)"
    by (auto intro: list.set_sel(2))
  with Cons show ?case by (auto split: if_splits)
qed simp

lemma split_slash_join:
  assumes "cs \<noteq> []" "\<forall>c\<in>set cs. CHR ''/'' \<notin> set c"
  shows "split_slash (foldr (\<lambda>c acc. c @ CHR ''/'' # acc) (butlast cs) (last cs)) = cs"
proof -
  have one: "split_slash c = [c]" if "CHR ''/'' \<notin> set c" for c
    using that by (induction c) auto
  have two: "split_slash (c @ CHR ''/'' # s) = c # split_slash s" if "CHR ''/'' \<notin> set c" for c s
    using that by (induction c) auto
  show ?thesis using assms
  proof (induction cs)
    case (Cons c cs)
    then show ?case by (cases "cs = []") (auto simp: one two)
  qed simp
qed

lemma normalise_clean:
  assumes "\<forall>i. n \<le> i \<longrightarrow> i < length acc \<longrightarrow> clean (acc ! i)" "\<forall>c\<in>set cs. CHR ''/'' \<notin> set c"
  shows "\<forall>i. n \<le> i \<longrightarrow> i < length (normalise acc cs) \<longrightarrow> clean (normalise acc cs ! i)"
  using assms
proof (induction cs arbitrary: acc)
  case (Cons c cs)
  have "\<forall>i. n \<le> i \<longrightarrow> i < length (butlast acc) \<longrightarrow> clean (butlast acc ! i)"
    using Cons.prems(1) by (auto simp: nth_butlast)
  moreover have "\<forall>i. n \<le> i \<longrightarrow> i < length (acc @ [c]) \<longrightarrow> clean ((acc @ [c]) ! i)" if "c \<noteq> ''''" "c \<noteq> ''.''" "c \<noteq> ''..''"
    using Cons.prems that by (auto simp: nth_append clean_def)
  ultimately show ?case using Cons by auto
qed simp

lemma normalise_id: "\<forall>c\<in>set cs. clean c \<Longrightarrow> normalise acc cs = acc @ cs"
  by (induction cs arbitrary: acc) (auto simp: clean_def)

lemma in_parents_iff: "p \<in> set (parents q) \<longleftrightarrow> (\<exists>rel. rel \<noteq> [] \<and> q = p @ rel)"
proof
  assume "p \<in> set (parents q)"
  then obtain i where "i < length q" "p = take i q" by (auto simp: parents_def)
  then have "drop i q \<noteq> []" "q = p @ drop i q" by auto
  then show "\<exists>rel. rel \<noteq> [] \<and> q = p @ rel" by blast
next
  assume "\<exists>rel. rel \<noteq> [] \<and> q = p @ rel"
  then obtain rel where "rel \<noteq> []" "q = p @ rel" by blast
  then show "p \<in> set (parents q)" by (auto simp: parents_def image_iff intro!: bexI[of _ "length p"])
qed

lemma local_path_Inr:
  "local_path root_dir key = Inr t \<longleftrightarrow> t = resolve_path root_dir key \<and> root_dir \<in> set (parents t)"
  by (auto simp: local_path_def Let_def)

lemma parents_butlast: "p \<noteq> [] \<Longrightarrow> set (parents p) = insert (butlast p) (set (parents (butlast p)))"
proof -
  assume "p \<noteq> []"
  then obtain q x where "p = q @ [x]" by (metis append_butlast_last_id)
  then show ?thesis by (auto simp: parents_def less_Suc_eq)
qed

lemma local_put_effect:
  assumes "local_put root_dir fs key data ct = (Inr u, fs')"
  obtains t where "local_path root_dir key = Inr t" "fs' t = Some (File data)"
    "\<And>q. q \<noteq> t \<Longrightarrow> q \<notin> set (parents t) \<Longrightarrow> fs' q = fs q" "\<And>q. q \<in> set (parents t) \<Longrightarrow> fs' q = Some Dir"
proof -
  obtain t where t: "local_path root_dir key = Inr t"
    using assms by (auto simp: local_put_def split: sum.splits)
  then have ne: "t \<noteq> []" by (auto simp: local_path_Inr parents_def)
  obtain fs1 where m: "mkdirs fs (butlast t) = (Inr (), fs1)" "write_bytes fs1 t data = (Inr u, fs')"
    using assms t by (auto simp: local_put_def split: prod.splits sum.splits)
  have f1: "fs1 = (\<lambda>q. if q \<in> set (parents t) then Some Dir else fs q)"
    unfolding parents_butlast[OF ne] using m(1) by (auto simp: mkdirs_def split: if_splits)
  have "t \<notin> set (parents t)" by (auto simp: in_parents_iff)
  with m(2) f1 have "fs' = fs1(t \<mapsto> File data)" by (auto simp: write_bytes_def split: option.splits node.splits)
  with f1 \<open>t \<notin> set (parents t)\<close> show thesis
    by (intro that[OF t]) (auto simp: is_file_def split: option.splits node.splits)
qed

lemma local_get_put:
  assumes "local_put root_dir fs key data ct = (Inr u, fs')"
  shows "local_get root_dir fs' key = (Inr (Some data), fs')"
proof (rule local_put_effect[OF assms])
  fix t assume "local_path root_dir key = Inr t" "fs' t = Some (File data)" "\<And>q. q \<in> set (parents t) \<Longrightarrow> fs' q = Some Dir"
  then show ?thesis by (auto simp: local_get_def read_bytes_def list_ex_iff is_file_def)
qed

interpretation local_store: artifact_store "local_put root_dir" "local_get root_dir" for root_dir
  by unfold_locales (simp add: local_get_put)

text \<open>
  S3 is read-after-write consistent: after a successful \<open>put_object\<close> the object is what was put. That
  is the documented behaviour of the service and all the store needs.
\<close>

definition s3_consistent :: "'c s3_client \<Rightarrow> bool" where
  "s3_consistent c \<longleftrightarrow> (\<forall>r b k d ct u r'. put_object c r b k d ct = (Inr u, r') \<longrightarrow> fst (get_object c r' b k) = Inr d)"

lemma ensure_bucket_ready: "ensure_bucket c b st = (Inr u, st') \<Longrightarrow> s3_bucket_ready st'"
  by (auto simp: ensure_bucket_def split: if_splits prod.splits sum.splits)

lemma s3_artifact_store:
  assumes "s3_consistent c"
  shows "artifact_store (s3_put c b) (s3_get c b)"
proof
  fix w key data ct u w'
  assume "s3_put c b w key data ct = (Inr u, w')"
  then obtain st1 rem where st: "ensure_bucket c b w = (Inr (), st1)"
    "put_object c (s3_remote st1) b key data ct = (Inr u, rem)" "w' = st1\<lparr>s3_remote := rem\<rparr>"
    by (auto simp: s3_put_def split: prod.splits sum.splits)
  with assms have "fst (get_object c rem b key) = Inr data" by (auto simp: s3_consistent_def)
  with st ensure_bucket_ready[OF st(1)] show "fst (s3_get c b w' key) = Inr (Some data)"
    by (auto simp: s3_get_def ensure_bucket_def split: prod.splits)
qed


section \<open>Properties of artifact storage\<close>

text \<open>
  C20. The retry wrapper calls the store until it succeeds, at most \<open>max_attempts\<close> times, pausing
  1, 2, 4, ... base delays between attempts. If attempt \<open>n\<close> (counted from 0) is the first to succeed,
  its result is returned after exactly \<open>n\<close> pauses and \<open>n + 1\<close> calls; if all attempts raise, the error
  is \<open>ArtifactStorageError\<close> after \<open>max_attempts\<close> calls and one pause less.
\<close>

theorem retry_spec:
  assumes "1 \<le> m"
  shows "(\<forall>n x. n < nat m \<longrightarrow> (\<forall>k<n. \<not> is_ok (fst (call (after_calls call k w)))) \<longrightarrow>
      fst (call (after_calls call n w)) = Inr x \<longrightarrow>
      retry m base op call w = (Inr x, map (\<lambda>i. base * 2 ^ i) [0..<n], after_calls call (Suc n) w)) \<and>
    ((\<forall>k<nat m. \<not> is_ok (fst (call (after_calls call k w)))) \<longrightarrow>
      retry m base op call w =
        (Inl (ArtifactStorageError (''Artifact '' @ op @ '' failed after '' @ show_int m @ '' attempts'')),
         map (\<lambda>i. base * 2 ^ i) [0..<nat m - 1], after_calls call (nat m) w))"
proof (intro conjI allI impI)
  fix n x assume "n < nat m" "\<forall>k<n. \<not> is_ok (fst (call (after_calls call k w)))"
    "fst (call (after_calls call n w)) = Inr x"
  then show "retry m base op call w = (Inr x, map (\<lambda>i. base * 2 ^ i) [0..<n], after_calls call (Suc n) w)"
    using retry_loop_success[of n call w x 1 m base] pauses_shift[of base n] by (simp add: retry_def)
next
  assume f: "\<forall>k<nat m. \<not> is_ok (fst (call (after_calls call k w)))"
  have "nat (m + 1) - 1 = nat m" "nat m = Suc (nat m - 1)" using assms by auto
  with retry_loop_failure[of m 1 call w base "OtherError ''None''"] f pauses_shift[of base "nat m - 1"]
  show "retry m base op call w =
      (Inl (ArtifactStorageError (''Artifact '' @ op @ '' failed after '' @ show_int m @ '' attempts'')),
       map (\<lambda>i. base * 2 ^ i) [0..<nat m - 1], after_calls call (nat m) w)"
    by (auto simp: retry_def)
qed

theorem retry_spec_witness:
  "retry 3 (1/10) ''upload'' (\<lambda>n. (if n < 2 then Inl KeyError else Inr n, Suc n)) (0::nat) =
     (Inr 2, [1/10, 2/10], 3)"
proof -
  let ?c = "\<lambda>n::nat. (if n < 2 then Inl KeyError else Inr n, Suc n)"
  have st: "after_calls ?c k 0 = k" for k by (simp add: after_calls_def)
  from retry_spec[of 3 ?c 0 "1/10" "''upload''"]
  have "retry 3 (1/10) ''upload'' ?c 0 = (Inr 2, map (\<lambda>i. 1/10 * 2 ^ i) [0..<2], after_calls ?c 3 0)"
    unfolding st by (auto dest!: spec[of _ 2] simp: numeral_3_eq_3)
  then show ?thesis by (simp add: st upt_rec)
qed

lemma local_path_join:
  assumes cs: "cs \<noteq> []" "\<forall>c\<in>set cs. clean c"
  shows "local_path root_dir (foldr (\<lambda>c acc. c @ CHR ''/'' # acc) (butlast cs) (last cs)) = Inr (root_dir @ cs)"
proof -
  let ?key = "foldr (\<lambda>c acc. c @ CHR ''/'' # acc) (butlast cs) (last cs)"
  have sp: "split_slash ?key = cs" using cs by (intro split_slash_join) (auto simp: clean_def)
  have "hd cs \<noteq> ''''" using cs by (auto simp: clean_def dest: bspec[OF _ hd_in_set])
  then have "take 1 ?key \<noteq> ''/''"
    using sp cs(1) by (cases ?key) auto
  then show ?thesis
    using cs by (auto simp: local_path_Inr resolve_path_def sp normalise_id in_parents_iff)
qed

text \<open>
  C21. No artifact key escapes the storage root. Whatever the key (absolute, with \<open>..\<close>, with empty
  components), the local store either refuses it with \<open>ValueError\<close> or uses a path strictly below the
  root, reached by proper file names only; and every key of proper file names is accepted.
\<close>

theorem local_path_contained:
  "(local_path root_dir key = Inr t \<longrightarrow>
      (\<exists>rel. rel \<noteq> [] \<and> t = root_dir @ rel \<and> (\<forall>c\<in>set rel. clean c))) \<and>
   (local_path root_dir key = Inl e \<longrightarrow> e = ValueError) \<and>
   (\<forall>cs. cs \<noteq> [] \<longrightarrow> (\<forall>c\<in>set cs. clean c) \<longrightarrow>
      local_path root_dir (foldr (\<lambda>c acc. c @ CHR ''/'' # acc) (butlast cs) (last cs)) = Inr (root_dir @ cs))"
proof (intro conjI allI impI)
  assume "local_path root_dir key = Inr t"
  then have t: "t = resolve_path root_dir key" "root_dir \<in> set (parents t)" by (auto simp: local_path_Inr)
  then obtain rel where rel: "rel \<noteq> []" "t = root_dir @ rel" by (auto simp: in_parents_iff)
  have "\<forall>i. length root_dir \<le> i \<longrightarrow> i < length t \<longrightarrow> clean (t ! i)"
    unfolding t(1) resolve_path_def
    using normalise_clean[of "length root_dir" root_dir "split_slash key"]
      normalise_clean[of "length root_dir" "[]" "split_slash key"] split_slash_no_slash by auto
  then have "\<forall>c\<in>set rel. clean c"
    unfolding rel(2) by (fastforce simp: in_set_conv_nth nth_append dest: spec[of _ "length root_dir + i" for i])
  with rel show "\<exists>rel. rel \<noteq> [] \<and> t = root_dir @ rel \<and> (\<forall>c\<in>set rel. clean c)" by blast
next
  assume "local_path root_dir key = Inl e"
  then show "e = ValueError" by (auto simp: local_path_def Let_def split: if_splits)
qed (rule local_path_join)

theorem local_path_contained_witness:
  "local_path [''data''] ''7/a.json'' = Inr [''data'', ''7'', ''a.json''] \<and>
   local_path [''data''] ''7/../../etc'' = Inl ValueError \<and>
   (\<exists>rel. rel \<noteq> [] \<and> [''data'', ''7'', ''a.json''] = [''data''] @ rel \<and> (\<forall>c\<in>set rel. clean c))"
proof -
  have ok: "local_path [''data''] ''7/a.json'' = Inr [''data'', ''7'', ''a.json'']"
    using local_path_contained[of "[''data'']" "''7/a.json''" "[]" ValueError, THEN conjunct2, THEN conjunct2,
        THEN spec[of _ "[''7'', ''a.json'']"]] by (simp add: clean_def)
  moreover have "local_path [''data''] ''7/../../etc'' = Inl ValueError" by code_simp
  ultimately show ?thesis using local_path_contained[of "[''data'']" "''7/a.json''" "[''data'', ''7'', ''a.json'']"] by blast
qed

text \<open>
  C22. What the local store has stored it returns: after a successful \<open>put\<close>, \<open>get\<close> of the same key
  returns the data, and every other file of the file system is as before.
\<close>

theorem local_store_roundtrip:
  assumes "local_put root_dir fs key data content_type = (Inr u, fs')"
  shows "local_get root_dir fs' key = (Inr (Some data), fs') \<and>
    (\<forall>q d. local_path root_dir key \<noteq> Inr q \<longrightarrow> (fs' q = Some (File d) \<longleftrightarrow> fs q = Some (File d)))"
proof
  show "local_get root_dir fs' key = (Inr (Some data), fs')" using assms by (rule local_get_put)
  obtain t fs1 where t: "local_path root_dir key = Inr t" "mkdirs fs (butlast t) = (Inr (), fs1)"
    "write_bytes fs1 t data = (Inr u, fs')"
    using assms by (auto simp: local_put_def split: prod.splits sum.splits)
  have old: "fs1 q = Some (File d) \<longleftrightarrow> fs q = Some (File d)" for q d
    using t(2) by (auto simp: mkdirs_def list_ex_iff is_file_iff split: if_splits)
  have "fs' = fs1(t \<mapsto> File data)" using t(3) by (auto simp: write_bytes_def split: option.splits node.splits)
  with t(1) old show "\<forall>q d. local_path root_dir key \<noteq> Inr q \<longrightarrow> (fs' q = Some (File d) \<longleftrightarrow> fs q = Some (File d))"
    by auto
qed

theorem local_store_roundtrip_witness:
  "\<exists>fs'. local_put [''srv''] (\<lambda>_. None) ''runs/1/model.json'' ''data'' ''application/json'' = (Inr (), fs') \<and>
     local_get [''srv''] fs' ''runs/1/model.json'' = (Inr (Some ''data''), fs')"
proof -
  have "\<exists>fs'. local_put [''srv''] (\<lambda>_. None) ''runs/1/model.json'' ''data'' ''application/json'' = (Inr (), fs')"
  proof -
    have "resolve_path [''srv''] ''runs/1/model.json'' = [''srv'', ''runs'', ''1'', ''model.json'']"
      by code_simp
    then have "local_path [''srv''] ''runs/1/model.json'' = Inr [''srv'', ''runs'', ''1'', ''model.json'']"
      by (simp add: local_path_Inr in_parents_iff)
    then show ?thesis by (simp add: local_put_def mkdirs_def is_file_def list_ex_iff write_bytes_def in_parents_iff)
  qed
  then show ?thesis using local_store_roundtrip by blast
qed

text \<open>
  C23. The S3 backend as the services build it, bounded retries around the S3 store, returns what was
  put, and without a pause, provided the object store itself is read-after-write consistent.
\<close>

theorem s3_backend_roundtrip:
  assumes "s3_consistent c" "1 \<le> m"
    and "retrying_put m base (s3_put c bucket) st key data ct = (Inr u, ds, st')"
  shows "fst (retrying_get m base (s3_get c bucket) st' key) = Inr data \<and>
    fst (snd (retrying_get m base (s3_get c bucket) st' key)) = []"
  using artifact_store.retrying_get_put[OF s3_artifact_store[OF assms(1)] assms(2,3)] .

text \<open>A client over a map of objects whose bucket does not exist at first.\<close>

definition demo_s3 :: "(string \<rightharpoonup> bytes) s3_client" where
  "demo_s3 = \<lparr>head_bucket = (\<lambda>m b. (Inl (OtherError ''ClientError''), m)), create_bucket = (\<lambda>m b. (Inr (), m)),
     put_object = (\<lambda>m b k d ct. (Inr (), m(k \<mapsto> d))),
     get_object = (\<lambda>m b k. (case m k of None \<Rightarrow> Inl (OtherError ''ClientError'') | Some d \<Rightarrow> Inr d, m))\<rparr>"

theorem s3_backend_roundtrip_witness:
  "\<exists>st'. retrying_put 3 (1/10) (s3_put demo_s3 ''b'') \<lparr>s3_remote = Map.empty, s3_bucket_ready = False\<rparr>
       ''k'' ''data'' ''text/plain'' = (Inr (), [], st') \<and>
     fst (retrying_get 3 (1/10) (s3_get demo_s3 ''b'') st' ''k'') = Inr ''data''"
proof -
  let ?st = "\<lparr>s3_remote = Map.empty, s3_bucket_ready = False\<rparr>"
  have "\<exists>st'. retrying_put 3 (1/10) (s3_put demo_s3 ''b'') ?st ''k'' ''data'' ''text/plain'' = (Inr (), [], st')"
    by (simp add: retrying_put_def retry_def s3_put_def ensure_bucket_def demo_s3_def upt_rec)
  moreover have "s3_consistent demo_s3" by (simp add: s3_consistent_def demo_s3_def)
  ultimately show ?thesis using s3_backend_roundtrip[of demo_s3 3] by fastforce
qed

end
