(* ===== verification/Logging.thy ===== *)
theory Logging
  imports Errors "HOL-Library.Sublist"
begin

text \<open>
  Structured logging (\<open>logging.py\<close>): the redaction of sensitive keys and the object a log line is
  made of. The text of the line is the JSON form of that object.
\<close>

definition SENSITIVE_KEYS :: "string list" where
  "SENSITIVE_KEYS = [''authorization'', ''cookie'', ''password'', ''secret'', ''token'']"

text \<open>\<open>fragment in text\<close>.\<close>

fun contains :: "string \<Rightarrow> string \<Rightarrow> bool" where
  "contains fragment [] \<longleftrightarrow> fragment = []"
| "contains fragment (c # cs) \<longleftrightarrow> take (length fragment) (c # cs) = fragment \<or> contains fragment cs"

definition is_sensitive_key :: "string \<Rightarrow> bool" where
  "is_sensitive_key key =
     (let normalized = map (\<lambda>c. if c = CHR ''-'' then CHR ''_'' else c) (py_lower key)
      in list_ex (\<lambda>fragment. contains fragment normalized) SENSITIVE_KEYS)"

fun redact :: "json \<Rightarrow> json" where
  "redact (JObj kvs) = JObj (map (\<lambda>(k, v). (k, if is_sensitive_key k then JStr ''[REDACTED]'' else redact v)) kvs)"
| "redact (JList vs) = JList (map redact vs)"
| "redact JNull = JNull"
| "redact (JBool b) = JBool b"
| "redact (JInt n) = JInt n"
| "redact (JFloat x) = JFloat x"
| "redact (JStr t) = JStr t"

text \<open>A log record: what the formatter reads of it.\<close>

record log_record =
  lr_levelname :: string
  lr_name :: string
  lr_message :: string
  lr_extra :: dict
  lr_exc_type :: "string option"

fun truthy :: "json \<Rightarrow> bool" where
  "truthy JNull = False"
| "truthy (JBool b) = b"
| "truthy (JInt n) = (n \<noteq> 0)"
| "truthy (JFloat x) = (x \<noteq> 0)"
| "truthy (JStr t) = (t \<noteq> [])"
| "truthy (JList vs) = (vs \<noteq> [])"
| "truthy (JObj kvs) = (kvs \<noteq> [])"

definition LOGGED_KEYS :: "string list" where
  "LOGGED_KEYS = [''correlation_id'', ''run_id'', ''worker_id'', ''user_id'', ''event_type'', ''outbox_id'',
     ''attempt'', ''assigned_count'', ''method'', ''path'', ''status_code'', ''error_code'']"

definition format_record :: "string \<Rightarrow> string \<Rightarrow> log_record \<Rightarrow> json" where
  "format_record timestamp context_id r =
     (let base = [(''timestamp'', JStr timestamp), (''level'', JStr (lr_levelname r)),
                  (''logger'', JStr (lr_name r)), (''message'', JStr (lr_message r))];
          extras = concat (map (\<lambda>k. case map_of (lr_extra r) k of
                     None \<Rightarrow> [] | Some v \<Rightarrow> if truthy v then [(k, v)] else []) LOGGED_KEYS);
          data = base @ extras;
          data1 = (if map_of data ''correlation_id'' = None \<and> context_id \<noteq> []
                   then data @ [(''correlation_id'', JStr context_id)] else data);
          data2 = (case lr_exc_type r of None \<Rightarrow> data1 | Some t \<Rightarrow> data1 @ [(''exception_type'', JStr t)])
      in redact (JObj data2))"


section \<open>What redaction guarantees\<close>

lemma take_is_prefix: "take (length f) t = f \<longleftrightarrow> prefix f t"
  by (metis append_eq_conv_conj append_take_drop_id prefix_def)

lemma contains_iff: "contains f t \<longleftrightarrow> sublist f t"
proof (induction t)
  case (Cons c cs)
  then show ?case unfolding contains.simps take_is_prefix by (simp add: sublist_Cons_right)
qed simp

text \<open>No sensitive key, at any depth, carries anything but the placeholder.\<close>

fun secret_free :: "json \<Rightarrow> bool" where
  "secret_free (JObj kvs) \<longleftrightarrow>
     (\<forall>kv\<in>set kvs. if is_sensitive_key (fst kv) then snd kv = JStr ''[REDACTED]'' else secret_free (snd kv))"
| "secret_free (JList vs) \<longleftrightarrow> (\<forall>v\<in>set vs. secret_free v)"
| "secret_free JNull \<longleftrightarrow> True"
| "secret_free (JBool b) \<longleftrightarrow> True"
| "secret_free (JInt n) \<longleftrightarrow> True"
| "secret_free (JFloat x) \<longleftrightarrow> True"
| "secret_free (JStr t) \<longleftrightarrow> True"

text \<open>
  A place in a document: the positions of the children to descend to. \<open>place\<close> gives the keys of the objects passed
  on the way and the value there; \<open>outline\<close> is a value without what its children hold, so a scalar itself.
\<close>

fun place :: "nat list \<Rightarrow> json \<Rightarrow> (string list \<times> json) option" where
  "place [] j = Some ([], j)"
| "place (i # p) (JObj kvs) =
     (if i < length kvs then map_option (\<lambda>(ks, v). (fst (kvs ! i) # ks, v)) (place p (snd (kvs ! i))) else None)"
| "place (i # p) (JList vs) = (if i < length vs then place p (vs ! i) else None)"
| "place (i # p) _ = None"

fun outline :: "json \<Rightarrow> json" where
  "outline (JObj kvs) = JObj (map (\<lambda>(k, v). (k, JNull)) kvs)"
| "outline (JList vs) = JList (map (\<lambda>v. JNull) vs)"
| "outline j = j"

lemma outline_redact: "outline (redact j) = outline j"
  by (cases j) (auto simp: case_prod_beta)

lemma at_redact:
  "place p j = Some (ks, v) \<Longrightarrow> \<forall>k\<in>set ks. \<not> is_sensitive_key k \<Longrightarrow> place p (redact j) = Some (ks, redact v)"
proof (induction p arbitrary: j ks)
  case (Cons i p)
  then show ?case by (cases j) (auto simp: case_prod_beta split: if_splits)
qed simp

lemma at_redacted:
  assumes "place p j = Some (ks, JObj kvs)" "\<forall>k\<in>set ks. \<not> is_sensitive_key k" "i < length kvs" "is_sensitive_key (fst (kvs ! i))"
  shows "place (p @ [i]) (redact j) = Some (ks @ [fst (kvs ! i)], JStr ''[REDACTED]'')"
  using assms(1,2)
proof (induction p arbitrary: j ks)
  case Nil
  then show ?case using assms(3,4) by (simp add: case_prod_beta)
next
  case (Cons x p)
  then show ?case by (cases j) (auto simp: case_prod_beta split: if_splits)
qed

lemma at_unredact: "place p (redact j) = Some (ks, v') \<Longrightarrow> \<exists>v. place p j = Some (ks, v)"
proof (induction p arbitrary: j ks)
  case (Cons i p)
  show ?case
  proof (cases j)
    case (JObj kvs)
    then obtain qs where i: "i < length kvs" "ks = fst (kvs ! i) # qs"
      and q: "place p (if is_sensitive_key (fst (kvs ! i)) then JStr ''[REDACTED]'' else redact (snd (kvs ! i))) = Some (qs, v')"
      using Cons.prems by (auto simp: case_prod_beta split: if_splits)
    have "\<exists>v. place p (snd (kvs ! i)) = Some (qs, v)"
      using q Cons.IH by (cases p) (auto split: if_splits)
    with JObj i show ?thesis by auto
  qed (use Cons in \<open>auto split: if_splits\<close>)
qed simp

lemma secret_free_redact: "secret_free (redact j)"
  by (induction j) auto

lemma redact_id: "secret_free j \<Longrightarrow> redact j = j"
  by (induction j) (auto intro!: map_idI split: if_splits)

text \<open>
  C32. Logs carry no credentials, and nothing else is lost. A key is sensitive if it contains one of the five
  words, in any case and with either separator. Redaction keeps every place that has no sensitive key above it:
  the same keys lead there, and the value is the same scalar, a list of as many elements or an object with the
  same keys in the same order. The value of a sensitive key is the placeholder, and there is no place that was
  not there before. So no sensitive key carries anything but the placeholder, at any depth; a document is logged
  as it is exactly if it has no secret; and redacting twice is redacting once.
\<close>

theorem redact_exact:
  "(\<forall>p ks v. place p j = Some (ks, v) \<longrightarrow> (\<forall>k\<in>set ks. \<not> is_sensitive_key k) \<longrightarrow>
      (\<exists>v'. place p (redact j) = Some (ks, v') \<and> outline v' = outline v)) \<and>
   (\<forall>p ks kvs i. place p j = Some (ks, JObj kvs) \<longrightarrow> (\<forall>k\<in>set ks. \<not> is_sensitive_key k) \<longrightarrow> i < length kvs \<longrightarrow>
      is_sensitive_key (fst (kvs ! i)) \<longrightarrow>
      place (p @ [i]) (redact j) = Some (ks @ [fst (kvs ! i)], JStr ''[REDACTED]'')) \<and>
   (\<forall>p ks v'. place p (redact j) = Some (ks, v') \<longrightarrow> (\<exists>v. place p j = Some (ks, v))) \<and>
   secret_free (redact j) \<and> (redact j = j \<longleftrightarrow> secret_free j) \<and> redact (redact j) = redact j \<and>
   (\<forall>k. is_sensitive_key k \<longleftrightarrow>
      (\<exists>w\<in>{''authorization'', ''cookie'', ''password'', ''secret'', ''token''}.
         sublist w (map (\<lambda>c. if c = CHR ''-'' then CHR ''_'' else c) (py_lower k))))"
proof (intro conjI allI impI)
  show "redact (redact j) = redact j" using secret_free_redact by (rule redact_id)
  show "redact j = j \<longleftrightarrow> secret_free j" using redact_id secret_free_redact[of j] by metis
  show "\<exists>v'. place p (redact j) = Some (ks, v') \<and> outline v' = outline v"
    if "place p j = Some (ks, v)" "\<forall>k\<in>set ks. \<not> is_sensitive_key k" for p ks v
    using at_redact[OF that] outline_redact by blast
  show "is_sensitive_key k \<longleftrightarrow> (\<exists>w\<in>{''authorization'', ''cookie'', ''password'', ''secret'', ''token''}.
         sublist w (map (\<lambda>c. if c = CHR ''-'' then CHR ''_'' else c) (py_lower k)))" for k
    by (simp add: is_sensitive_key_def contains_iff Let_def SENSITIVE_KEYS_def)
qed (auto intro: at_redacted at_unredact secret_free_redact)

definition demo_log :: json where
  "demo_log = JObj [(''items'', JList [JObj [(''Access-Token'', JStr ''abc''), (''n'', JInt 3)], JInt 7])]"

theorem redact_exact_witness:
  "place [0, 0, 0] (redact demo_log) = Some ([''items'', ''Access-Token''], JStr ''[REDACTED]'') \<and>
   (\<exists>v. place [0, 0, 1] (redact demo_log) = Some ([''items'', ''n''], v) \<and> outline v = JInt 3)"
proof -
  have k: "is_sensitive_key ''Access-Token''" "\<not> is_sensitive_key ''items''" "\<not> is_sensitive_key ''n''" by code_simp+
  have a: "place [0, 0] demo_log = Some ([''items''], JObj [(''Access-Token'', JStr ''abc''), (''n'', JInt 3)])"
    "place [0, 0, 1] demo_log = Some ([''items'', ''n''], JInt 3)"
    by (simp_all add: demo_log_def)
  note r = redact_exact[of demo_log]
  have "place ([0, 0] @ [0]) (redact demo_log) = Some ([''items''] @ [fst ([(''Access-Token'', JStr ''abc''), (''n'', JInt 3)] ! 0)], JStr ''[REDACTED]'')"
    using r[THEN conjunct2, THEN conjunct1, rule_format, OF a(1), of 0] k by simp
  moreover have "\<exists>v. place [0, 0, 1] (redact demo_log) = Some ([''items'', ''n''], v) \<and> outline v = outline (JInt 3)"
    by (rule r[THEN conjunct1, rule_format, OF a(2)]) (use k in auto)
  ultimately show ?thesis by simp
qed

lemma format_record_secret_free: "secret_free (format_record ts cid r)"
  unfolding format_record_def Let_def by (rule secret_free_redact)

end
