(* ===== verification/Scripts.thy ===== *)
theory Scripts
  imports Templates Storage Logging
begin

text \<open>
  The command-line scripts (\<open>scripts/demo.py\<close>, \<open>scripts/verify.py\<close>). The demonstration is a client of the
  public API: it signs in, creates a project, an experiment and a run, and polls the run until it has
  ended or the time is up. The HTTP client, the clock and \<open>time.sleep\<close> are parameters; the polling loop
  is a \<open>while\<close> loop that ends only if time passes, so its result is an \<open>option\<close>, and that it ends is proved.
  The verification script runs its gates one after the other and stops at the first that fails.
\<close>

section \<open>The HTTP client and Python's texts\<close>

record http_request =
  hq_method :: string
  hq_path :: string
  hq_bearer :: "string option"
  hq_json :: "json option"

text \<open>\<open>hr_failed\<close>: \<open>raise_for_status\<close> raises. \<open>hr_json\<close>: the body, or the text of the decoding error.\<close>

record http_response =
  hr_failed :: bool
  hr_status :: int
  hr_text :: string
  hr_json :: "string + json"

text \<open>Exceptions by what \<open>main\<close> distinguishes: \<open>Raised\<close> has the class and the text of any other one.\<close>

datatype demo_exn = DemoError string | RequestError string | Raised string string

text \<open>
  What the script uses of its surroundings: the client (its answer may be a \<open>RequestError\<close>), the monotonic clock,
  sleeping, the current time as the text of its format, and \<open>repr\<close> of numbers, lists and dictionaries.
\<close>

record 'w outside =
  os_send :: "http_request \<Rightarrow> 'w \<Rightarrow> (demo_exn + http_response) \<times> 'w"
  os_monotonic :: "'w \<Rightarrow> rat"
  os_sleep :: "rat \<Rightarrow> 'w \<Rightarrow> 'w"
  os_stamp :: "'w \<Rightarrow> string"
  os_repr :: "json \<Rightarrow> string"

text \<open>\<open>str(value)\<close> of a JSON value, as an f-string uses it.\<close>

fun py_str :: "(json \<Rightarrow> string) \<Rightarrow> json \<Rightarrow> string" where
  "py_str rp (JStr t) = t"
| "py_str rp JNull = ''None''"
| "py_str rp (JBool b) = (if b then ''True'' else ''False'')"
| "py_str rp (JInt n) = show_int n"
| "py_str rp v = rp v"

fun py_type :: "json \<Rightarrow> string" where
  "py_type JNull = ''NoneType''"
| "py_type (JBool _) = ''bool''"
| "py_type (JInt _) = ''int''"
| "py_type (JFloat _) = ''float''"
| "py_type (JStr _) = ''str''"
| "py_type (JList _) = ''list''"
| "py_type (JObj _) = ''dict''"

definition quoted :: "string \<Rightarrow> string" where
  "quoted t = CHR 0x27 # t @ [CHR 0x27]"

text \<open>\<open>value.get(key, default)\<close> of a JSON value and \<open>value[key]\<close> of a dictionary.\<close>

definition dict_get :: "json \<Rightarrow> string \<Rightarrow> json \<Rightarrow> demo_exn + json" where
  "dict_get v key dflt = (case v of
     JObj d \<Rightarrow> Inr (case map_of d key of None \<Rightarrow> dflt | Some x \<Rightarrow> x)
   | _ \<Rightarrow> Inl (Raised ''AttributeError'' (quoted (py_type v) @ '' object has no attribute '' @ quoted ''get'')))"

definition dict_item :: "dict \<Rightarrow> string \<Rightarrow> demo_exn + json" where
  "dict_item d key = (case map_of d key of None \<Rightarrow> Inl (Raised ''KeyError'' (quoted key)) | Some x \<Rightarrow> Inr x)"


section \<open>The demonstration\<close>

record demo_args =
  da_base_url :: string
  da_email :: string
  da_password :: string
  da_timeout_seconds :: rat
  da_poll_seconds :: rat

text \<open>The defaults, from the environment where it is set, and the check that ends \<open>parse_args\<close>.\<close>

definition default_args :: "(string \<Rightarrow> string option) \<Rightarrow> demo_args" where
  "default_args getenv =
     \<lparr>da_base_url = (case getenv ''RUNSCOPE_DEMO_BASE_URL'' of None \<Rightarrow> ''http://localhost:8000/api/v1'' | Some v \<Rightarrow> v),
      da_email = (case getenv ''RUNSCOPE_DEMO_EMAIL'' of None \<Rightarrow> ''researcher@runscope.dev'' | Some v \<Rightarrow> v),
      da_password = (case getenv ''RUNSCOPE_DEMO_PASSWORD'' of None \<Rightarrow> ''ResearcherDemo123!'' | Some v \<Rightarrow> v),
      da_timeout_seconds = 60, da_poll_seconds = 1/2\<rparr>"

definition args_ok :: "demo_args \<Rightarrow> bool" where
  "args_ok args \<longleftrightarrow> \<not> (da_timeout_seconds args \<le> 0 \<or> da_poll_seconds args \<le> 0)"

definition DEMO_TERMINAL_STATUSES :: "string list" where
  "DEMO_TERMINAL_STATUSES = [''SUCCEEDED'', ''FAILED'', ''CANCELLED'']"

text \<open>The message of a failed response: a body that is no JSON is quoted, one of an unexpected shape raises.\<close>

definition error_message :: "(json \<Rightarrow> string) \<Rightarrow> http_response \<Rightarrow> demo_exn + string" where
  "error_message rp response =
     (case hr_json response of
        Inl _ \<Rightarrow> Inr (hr_text response)
      | Inr body \<Rightarrow>
          (case dict_get body ''error'' (JObj []) of
             Inl e \<Rightarrow> Inl e
           | Inr err \<Rightarrow> map_sum id (py_str rp) (dict_get err ''message'' (JStr (hr_text response)))))"

definition require_json :: "(json \<Rightarrow> string) \<Rightarrow> http_response \<Rightarrow> string \<Rightarrow> demo_exn + json" where
  "require_json rp response action =
     (if hr_failed response then
        (case error_message rp response of
           Inl e \<Rightarrow> Inl e
         | Inr m \<Rightarrow> Inl (DemoError (action @ '' failed ('' @ show_int (hr_status response) @ ''): '' @ m)))
      else case hr_json response of Inl t \<Rightarrow> Inl (Raised ''ValueError'' t) | Inr v \<Rightarrow> Inr v)"

definition require_object :: "(json \<Rightarrow> string) \<Rightarrow> http_response \<Rightarrow> string \<Rightarrow> demo_exn + dict" where
  "require_object rp response action =
     (case require_json rp response action of
        Inl e \<Rightarrow> Inl e
      | Inr (JObj d) \<Rightarrow> Inr d
      | Inr _ \<Rightarrow> Inl (DemoError (action @ '' returned an unexpected response'')))"

definition require_list :: "(json \<Rightarrow> string) \<Rightarrow> http_response \<Rightarrow> string \<Rightarrow> demo_exn + json list" where
  "require_list rp response action =
     (case require_json rp response action of
        Inl e \<Rightarrow> Inl e
      | Inr (JList vs) \<Rightarrow> Inr vs
      | Inr _ \<Rightarrow> Inl (DemoError (action @ '' returned an unexpected response'')))"

text \<open>
  A step of the script may raise; its state is the world outside and the lines printed so far. The steps
  up to the polling loop return for certain, the loop may not: there the result is an option.
\<close>

type_synonym ('w, 'a) script = "'w \<times> string list \<Rightarrow> (demo_exn + 'a) \<times> 'w \<times> string list"

definition script_bind :: "('w, 'a) script \<Rightarrow> ('a \<Rightarrow> ('w, 'b) script) \<Rightarrow> ('w, 'b) script" where
  "script_bind m f st = (case m st of (Inl e, st1) \<Rightarrow> (Inl e, st1) | (Inr x, st1) \<Rightarrow> f x st1)"

definition lift_res :: "demo_exn + 'a \<Rightarrow> ('w, 'a) script" where
  "lift_res r st = (r, st)"

definition print_line :: "string \<Rightarrow> ('w, unit) script" where
  "print_line t = (\<lambda>(w, out). (Inr (), w, out @ [t]))"

definition call :: "'w outside \<Rightarrow> http_request \<Rightarrow> ('w, http_response) script" where
  "call os q = (\<lambda>(w, out). let (r, w1) = os_send os q w in (r, w1, out))"

definition post_object ::
  "'w outside \<Rightarrow> string option \<Rightarrow> string \<Rightarrow> dict \<Rightarrow> string \<Rightarrow> ('w, dict) script" where
  "post_object os bearer path body action =
     script_bind (call os \<lparr>hq_method = ''POST'', hq_path = path, hq_bearer = bearer, hq_json = Some (JObj body)\<rparr>)
       (\<lambda>r. lift_res (require_object (os_repr os) r action))"

definition get_request :: "string \<Rightarrow> string \<Rightarrow> http_request" where
  "get_request token path = \<lparr>hq_method = ''GET'', hq_path = path, hq_bearer = Some token, hq_json = None\<rparr>"

definition get_object :: "'w outside \<Rightarrow> string \<Rightarrow> string \<Rightarrow> string \<Rightarrow> ('w, dict) script" where
  "get_object os token path action =
     script_bind (call os (get_request token path)) (\<lambda>r. lift_res (require_object (os_repr os) r action))"

definition get_list :: "'w outside \<Rightarrow> string \<Rightarrow> string \<Rightarrow> string \<Rightarrow> ('w, json list) script" where
  "get_list os token path action =
     script_bind (call os (get_request token path)) (\<lambda>r. lift_res (require_list (os_repr os) r action))"

text \<open>Signing in, and the project, the experiment and the run: the token and the identifier of the run.\<close>

definition sign_in_demo :: "'w outside \<Rightarrow> demo_args \<Rightarrow> ('w, string) script" where
  "sign_in_demo os args =
     script_bind (post_object os None ''/auth/sign-in''
         [(''email'', JStr (da_email args)), (''password'', JStr (da_password args))] ''Sign in'') (\<lambda>d.
       lift_res (case map_of d ''access_token'' of
         Some (JStr token) \<Rightarrow> Inr token
       | _ \<Rightarrow> Inl (DemoError ''Sign in did not return an access token'')))"

definition demo_run_body :: "json \<Rightarrow> dict" where
  "demo_run_body experiment_id =
     [(''experiment_id'', experiment_id),
      (''template_key'', JStr ''sklearn-iris-classification''),
      (''template_version'', JStr ''1.0.0''),
      (''parameters'', JObj [(''n_estimators'', JInt 40), (''test_size'', JFloat (1/5)), (''random_state'', JInt 42),
         (''max_depth'', JInt 5)]),
      (''requested_cpu'', JFloat 1),
      (''requested_memory_mb'', JInt 512),
      (''priority'', JInt 0),
      (''notes'', JStr ''Created by scripts/demo.py''),
      (''tags'', JList [JStr ''demo''])]"

definition submit_named :: "'w outside \<Rightarrow> string \<Rightarrow> string \<Rightarrow> ('w, json) script" where
  "submit_named os token stamp =
     script_bind (post_object os (Some token) ''/projects''
         [(''name'', JStr (''API demo '' @ stamp)),
          (''description'', JStr ''Created by the bounded scripts/demo.py workflow'')] ''Project creation'') (\<lambda>project.
     script_bind (lift_res (dict_item project ''id'')) (\<lambda>project_id.
     script_bind (post_object os (Some token) ''/experiments''
         [(''project_id'', project_id), (''name'', JStr ''Iris baseline''),
          (''description'', JStr ''Real scikit-learn execution through the public API''),
          (''tags'', JList [JStr ''demo'', JStr ''iris''])] ''Experiment creation'') (\<lambda>experiment.
     script_bind (lift_res (dict_item experiment ''id'')) (\<lambda>experiment_id.
     script_bind (post_object os (Some token) ''/runs'' (demo_run_body experiment_id) ''Run submission'') (\<lambda>run.
     script_bind (lift_res (dict_item run ''id'')) (\<lambda>run_id.
     script_bind (print_line (''Submitted run '' @ py_str (os_repr os) run_id)) (\<lambda>_.
       lift_res (Inr run_id))))))))"

definition submit_demo :: "'w outside \<Rightarrow> string \<Rightarrow> ('w, json) script" where
  "submit_demo os token st = submit_named os token (os_stamp os (fst st)) st"

text \<open>One reading of the status, printed when it differs from the one before.\<close>

definition read_status ::
  "'w outside \<Rightarrow> string \<Rightarrow> string \<Rightarrow> string option \<Rightarrow> ('w, dict \<times> string) script" where
  "read_status os token rid previous =
     script_bind (get_object os token (''/runs/'' @ rid) ''Run status read'') (\<lambda>run.
     script_bind (lift_res (dict_item run ''status'')) (\<lambda>v.
       let status = py_str (os_repr os) v
       in script_bind (if Some status \<noteq> previous then print_line (''  status: '' @ status) else lift_res (Inr ())) (\<lambda>_.
          lift_res (Inr (run, status)))))"

partial_function (option) poll_run ::
  "'w outside \<Rightarrow> demo_args \<Rightarrow> string \<Rightarrow> string \<Rightarrow> rat \<Rightarrow> string option \<Rightarrow> 'w \<times> string list \<Rightarrow>
   ((demo_exn + dict) \<times> 'w \<times> string list) option" where
  "poll_run os args token rid deadline previous st =
     (if os_monotonic os (fst st) < deadline then
        (case read_status os token rid previous st of
           (Inl e, st1) \<Rightarrow> Some (Inl e, st1)
         | (Inr (run, status), w, out) \<Rightarrow>
             if status \<in> set DEMO_TERMINAL_STATUSES then Some (Inr run, w, out)
             else poll_run os args token rid deadline (Some status) (os_sleep os (da_poll_seconds args) w, out))
      else Some (Inl (DemoError (''Run '' @ rid @ '' did not reach a terminal state within '' @
        fmt_fixed 1 (da_timeout_seconds args) @ '' seconds'')), st))"

definition report_run :: "'w outside \<Rightarrow> demo_args \<Rightarrow> string \<Rightarrow> string \<Rightarrow> dict \<Rightarrow> ('w, unit) script" where
  "report_run os args token rid run =
     script_bind (lift_res (dict_item run ''status'')) (\<lambda>status.
       if status \<noteq> JStr ''SUCCEEDED'' then
         lift_res (Inl (DemoError (''Run '' @ rid @ '' ended in '' @ py_str (os_repr os) status @ '': '' @
           (case map_of run ''failure_message'' of
              Some m \<Rightarrow> if truthy m then py_str (os_repr os) m else ''no safe failure message''
            | None \<Rightarrow> ''no safe failure message''))))
       else
         script_bind (get_list os token (''/runs/'' @ rid @ ''/metrics'') ''Metric read'') (\<lambda>ms.
         script_bind (get_list os token (''/runs/'' @ rid @ ''/artifacts'') ''Artifact metadata read'') (\<lambda>as.
         script_bind (print_line (''Completed run: '' @ rev (dropWhile (\<lambda>c. c = CHR ''/'') (rev (da_base_url args))) @ ''/runs/'' @ rid)) (\<lambda>_.
         script_bind (print_line (''Metrics recorded: '' @ show_nat (length ms))) (\<lambda>_.
         script_bind (print_line (''Artifacts recorded: '' @ show_nat (length as))) (\<lambda>_.
           print_line ''Open the browser UI at http://localhost:5173 to inspect the run.''))))))"

definition run_demo :: "'w outside \<Rightarrow> demo_args \<Rightarrow> 'w \<times> string list \<Rightarrow> ((demo_exn + unit) \<times> 'w \<times> string list) option" where
  "run_demo os args st =
     (case script_bind (sign_in_demo os args) (\<lambda>token.
             script_bind (submit_demo os token) (\<lambda>v. lift_res (Inr (token, py_str (os_repr os) v)))) st of
        (Inl e, st1) \<Rightarrow> Some (Inl e, st1)
      | (Inr (token, rid), st1) \<Rightarrow>
          (case poll_run os args token rid (os_monotonic os (fst st1) + da_timeout_seconds args) None st1 of
             None \<Rightarrow> None
           | Some (Inl e, st2) \<Rightarrow> Some (Inl e, st2)
           | Some (Inr run, st2) \<Rightarrow> Some (report_run os args token rid run st2)))"

text \<open>The exit code; an exception that is not handled ends the process with its traceback.\<close>

fun demo_error_text :: "demo_exn \<Rightarrow> string option" where
  "demo_error_text (DemoError t) = Some t"
| "demo_error_text (RequestError t) = Some t"
| "demo_error_text (Raised cls t) = (if cls \<in> {''KeyError'', ''TypeError'', ''ValueError''} then Some t else None)"

definition demo_main :: "'w outside \<Rightarrow> demo_args \<Rightarrow> 'w \<Rightarrow> ((demo_exn + int) \<times> 'w \<times> string list) option" where
  "demo_main os args w =
     (if \<not> args_ok args then Some (Inr 2, w, [])
      else case run_demo os args (w, []) of
        None \<Rightarrow> None
      | Some (Inr _, st) \<Rightarrow> Some (Inr 0, st)
      | Some (Inl e, w1, out) \<Rightarrow>
          (case demo_error_text e of
             None \<Rightarrow> Some (Inl e, w1, out)
           | Some t \<Rightarrow> Some (Inr 1, w1, out @ [''Demo failed: '' @ t])))"


text \<open>
  The clock never goes back, and sleeping lets at least the requested time pass. With such a clock the
  demonstration ends, whatever the service answers.
\<close>

definition clock_runs :: "'w outside \<Rightarrow> bool" where
  "clock_runs os \<longleftrightarrow> (\<forall>q w. os_monotonic os w \<le> os_monotonic os (snd (os_send os q w))) \<and>
     (\<forall>d w. 0 < d \<longrightarrow> os_monotonic os w + d \<le> os_monotonic os (os_sleep os d w))"

lemma clock_runsD:
  assumes "clock_runs os"
  shows "os_send os q w = (r, w') \<Longrightarrow> os_monotonic os w \<le> os_monotonic os w'"
    and "0 < d \<Longrightarrow> os_monotonic os w + d \<le> os_monotonic os (os_sleep os d w)"
  using assms by (simp_all add: clock_runs_def) (metis snd_conv)

lemma script_bind_later:
  assumes "\<And>st. clk (fst st) \<le> clk (fst (snd (m st)))" "\<And>x st. clk (fst st) \<le> (clk (fst (snd (f x st))) :: rat)"
  shows "clk (fst st) \<le> clk (fst (snd (script_bind m f st)))"
proof -
  obtain r st1 where "m st = (r, st1)" by (cases "m st")
  then show ?thesis using assms(1)[of st] assms(2)[of st1] by (cases r) (auto simp: script_bind_def intro: order_trans)
qed

lemma read_status_later:
  assumes "clock_runs os"
  shows "os_monotonic os (fst st) \<le> os_monotonic os (fst (snd (read_status os token rid previous st)))"
  unfolding read_status_def get_object_def Let_def
  by (intro script_bind_later)
    (auto simp: lift_res_def print_line_def call_def split: prod.splits dest: clock_runsD(1)[OF assms])

theorem poll_run_returns:
  assumes "clock_runs os" "0 < da_poll_seconds args"
  shows "\<exists>r. poll_run os args token rid deadline previous st = Some r"
proof (induction "nat \<lceil>(deadline - os_monotonic os (fst st)) / da_poll_seconds args\<rceil>" arbitrary: st previous rule: less_induct)
  case less
  let ?t = "\<lambda>w. os_monotonic os w" and ?p = "da_poll_seconds args"
  show ?case
  proof (cases "?t (fst st) < deadline")
    case True
    obtain r w out where s: "read_status os token rid previous st = (r, w, out)" by (metis prod_cases3)
    have "?t (fst st) + ?p \<le> ?t (os_sleep os ?p w)"
      using read_status_later[OF assms(1), of st token rid previous] clock_runsD(2)[OF assms, of w] s by simp
    then have "(deadline - ?t (os_sleep os ?p w)) / ?p \<le> (deadline - ?t (fst st) - ?p) / ?p"
      using assms(2) by (intro divide_right_mono) simp_all
    then have "(deadline - ?t (os_sleep os ?p w)) / ?p \<le> (deadline - ?t (fst st)) / ?p - 1"
      using assms(2) by (simp add: diff_divide_distrib)
    moreover have "0 < (deadline - ?t (fst st)) / ?p" using True assms(2) by simp
    ultimately have "nat \<lceil>(deadline - ?t (os_sleep os ?p w)) / ?p\<rceil> < nat \<lceil>(deadline - ?t (fst st)) / ?p\<rceil>"
      by linarith
    from less.hyps[of "(os_sleep os ?p w, out)"] this show ?thesis
      using s by (subst poll_run.simps) (auto split: sum.splits)
  qed (subst poll_run.simps, simp)
qed

lemma demo_ends:
  assumes "clock_runs os"
  shows "\<exists>r. demo_main os args w = Some r"
proof (cases "args_ok args")
  case True
  then have p: "0 < da_poll_seconds args" by (simp add: args_ok_def)
  have poll: "poll_run os args token rid dl prev st \<noteq> None" for token rid dl prev st
    using poll_run_returns[OF assms p, of token rid dl prev st] by auto
  have "run_demo os args (w, []) \<noteq> None"
    unfolding run_demo_def by (simp add: poll split: prod.split sum.split option.split) (metis surj_pair)
  then show ?thesis using True by (simp add: demo_main_def split: prod.split sum.split option.split)
qed (simp add: demo_main_def)


text \<open>
  The exit code 0 is honest: it is returned only after a run was reported as succeeded. Nothing that was
  printed is taken back.
\<close>

lemma script_bind_InrE:
  assumes "script_bind m f st = (Inr y, st')"
  obtains x st1 where "m st = (Inr x, st1)" "f x st1 = (Inr y, st')"
  using assms by (auto simp: script_bind_def split: prod.splits sum.splits)

lemma script_bind_prints:
  assumes "\<And>st. set (snd st) \<subseteq> set (snd (snd (m st)))" "\<And>x st. set (snd st) \<subseteq> set (snd (snd (f x st)))"
  shows "set (snd st) \<subseteq> set (snd (snd (script_bind m f st)))"
proof -
  obtain r st1 where "m st = (r, st1)" by (cases "m st")
  then show ?thesis using assms(1)[of st] assms(2)[of st1] by (cases r) (auto simp: script_bind_def)
qed

lemma read_status_Inr:
  assumes "read_status os token rid previous st = (Inr (run, status), st')"
  shows "(\<exists>v. map_of run ''status'' = Some v \<and> status = py_str (os_repr os) v) \<and>
    (Some status \<noteq> previous \<longrightarrow> ''  status: '' @ status \<in> set (snd st'))"
  using assms
  by (auto simp: read_status_def lift_res_def print_line_def dict_item_def Let_def
      elim!: script_bind_InrE split: option.splits if_splits)

definition reported :: "'w outside \<Rightarrow> dict \<Rightarrow> string list \<Rightarrow> bool" where
  "reported os run out \<longleftrightarrow> (\<exists>v. map_of run ''status'' = Some v \<and> ''  status: '' @ py_str (os_repr os) v \<in> set out)"

definition still_going :: "string option \<Rightarrow> bool" where
  "still_going previous \<longleftrightarrow> (\<forall>t. previous = Some t \<longrightarrow> t \<notin> set DEMO_TERMINAL_STATUSES)"

lemma poll_run_reported:
  assumes ret: "poll_run os args token rid deadline previous st = Some r"
  shows "r = (Inr run, st') \<longrightarrow> still_going previous \<longrightarrow> reported os run (snd st')"
proof (rule poll_run.raw_induct[where P = "\<lambda>os args token rid deadline previous st r.
      r = (Inr run, st') \<longrightarrow> still_going previous \<longrightarrow> reported os run (snd st')", OF _ ret], intro impI)
  fix poll os args token rid deadline previous and st :: "'a \<times> string list" and r
  assume IH: "\<And>os args token rid deadline previous st r. poll os args token rid deadline previous st = Some r \<Longrightarrow>
      r = (Inr run, st') \<longrightarrow> still_going previous \<longrightarrow> reported os run (snd st')"
    and eq: "(if os_monotonic os (fst st) < deadline then
        (case read_status os token rid previous st of
           (Inl e, st1) \<Rightarrow> Some (Inl e, st1)
         | (Inr (run, status), w, out) \<Rightarrow>
             if status \<in> set DEMO_TERMINAL_STATUSES then Some (Inr run, w, out)
             else poll os args token rid deadline (Some status) (os_sleep os (da_poll_seconds args) w, out))
      else Some (Inl (DemoError (''Run '' @ rid @ '' did not reach a terminal state within '' @
        fmt_fixed 1 (da_timeout_seconds args) @ '' seconds'')), st)) = Some r"
    and r: "r = (Inr run, st')" and prev: "still_going previous"
  obtain x w out where s: "read_status os token rid previous st = (x, w, out)" by (metis prod_cases3)
  then obtain d status where x: "x = Inr (d, status)" "os_monotonic os (fst st) < deadline"
    using eq r by (cases x) (auto split: if_splits)
  show "reported os run (snd st')"
  proof (cases "status \<in> set DEMO_TERMINAL_STATUSES")
    case True
    then show ?thesis using eq r s x prev read_status_Inr[of os token rid previous st d status "(w, out)"]
      by (auto simp: reported_def still_going_def)
  next
    case False
    then show ?thesis using eq s x IH[of os args token rid deadline "Some status" _ r] r by (simp add: still_going_def)
  qed
qed

lemma report_run_Inr:
  assumes "report_run os args token rid run st = (Inr u, st')"
  shows "map_of run ''status'' = Some (JStr ''SUCCEEDED'') \<and> set (snd st) \<subseteq> set (snd st')"
proof -
  have "set (snd st) \<subseteq> set (snd (snd (report_run os args token rid run st)))"
    unfolding report_run_def get_list_def
    by (intro script_bind_prints) (auto simp: lift_res_def print_line_def call_def split: prod.splits
        intro!: subsetD[OF script_bind_prints])
  then show ?thesis using assms
    by (auto simp: report_run_def lift_res_def dict_item_def elim!: script_bind_InrE split: option.splits if_splits)
qed

lemma demo_exit_0:
  assumes "demo_main os args w = Some (Inr 0, w', out)"
  shows "''  status: SUCCEEDED'' \<in> set out"
proof -
  obtain u where d: "run_demo os args (w, []) = Some (Inr u, w', out)"
    using assms by (auto simp: demo_main_def split: if_splits option.splits prod.splits sum.splits)
  then obtain token rid st1 run st2 where p: "poll_run os args token rid (os_monotonic os (fst st1) + da_timeout_seconds args) None st1
        = Some (Inr run, st2)" "report_run os args token rid run st2 = (Inr u, w', out)"
    by (auto simp: run_demo_def split: prod.splits sum.splits option.splits)
  show ?thesis using poll_run_reported[OF p(1), of run st2] report_run_Inr[OF p(2)] by (auto simp: reported_def still_going_def)
qed



section \<open>The verification gates\<close>

text \<open>\<open>which\<close> is \<open>shutil.which\<close>, \<open>py\<close> the running interpreter and \<open>root_dir\<close> the repository.\<close>

record gate =
  g_name :: string
  g_command :: "string list"
  g_cwd :: path

definition executable :: "(string \<Rightarrow> string option) \<Rightarrow> string \<Rightarrow> string res" where
  "executable which name =
     (case which name of None \<Rightarrow> Inl (RuntimeError (''Required executable was not found: '' @ name)) | Some p \<Rightarrow> Inr p)"

definition gates :: "(string \<Rightarrow> string option) \<Rightarrow> string \<Rightarrow> path \<Rightarrow> bool \<Rightarrow> gate list res" where
  "gates which py root_dir with_e2e =
     res_bind (executable which ''npm'') (\<lambda>npm.
     res_bind (executable which ''docker'') (\<lambda>docker.
       let root_gate = (\<lambda>name command. \<lparr>g_name = name, g_command = command, g_cwd = root_dir\<rparr>);
           web_gate = (\<lambda>name command. \<lparr>g_name = name, g_command = command, g_cwd = root_dir @ [''apps'', ''web'']\<rparr>)
       in Inr ([root_gate ''Python format'' [py, ''-m'', ''ruff'', ''format'', ''--check'', ''.''],
            root_gate ''Python lint'' [py, ''-m'', ''ruff'', ''check'', ''.''],
            root_gate ''Python types'' [py, ''-m'', ''mypy''],
            root_gate ''Python tests'' [py, ''-m'', ''pytest''],
            web_gate ''Frontend lint'' [npm, ''run'', ''lint''],
            web_gate ''Frontend types'' [npm, ''run'', ''typecheck''],
            web_gate ''Frontend tests'' [npm, ''test''],
            web_gate ''Frontend build'' [npm, ''run'', ''build''],
            root_gate ''Compose configuration'' [docker, ''compose'', ''config'', ''--quiet'']] @
           (if with_e2e then [web_gate ''Chromium end to end'' [npm, ''run'', ''e2e'']] else []))))"

text \<open>The loop over the gates; \<open>run\<close> is \<open>subprocess.run\<close>, which may raise, with its exit code.\<close>

fun run_gates ::
  "(gate \<Rightarrow> 'w \<Rightarrow> int res \<times> 'w) \<Rightarrow> nat \<Rightarrow> nat \<Rightarrow> gate list \<Rightarrow> 'w \<Rightarrow> string list \<Rightarrow> int res \<times> 'w \<times> string list" where
  "run_gates run cnt index [] w out =
     (Inr 0, w, out @ [CHR 0x0A # ''All '' @ show_nat cnt @ '' verification gates passed.''])"
| "run_gates run cnt index (g # gs) w out =
     (let out1 = out @ [CHR 0x0A # ''['' @ show_nat index @ ''/'' @ show_nat cnt @ ''] '' @ g_name g]
      in case run g w of
           (Inl e, w1) \<Rightarrow> (Inl e, w1, out1)
         | (Inr code, w1) \<Rightarrow>
             if code \<noteq> 0
             then (Inr code, w1, out1 @ [CHR 0x0A # ''FAILED: '' @ g_name g @ '' (exit '' @ show_int code @ '')''])
             else run_gates run cnt (Suc index) gs w1 out1)"

definition verify_main ::
  "(string \<Rightarrow> string option) \<Rightarrow> (gate \<Rightarrow> 'w \<Rightarrow> int res \<times> 'w) \<Rightarrow> string \<Rightarrow> path \<Rightarrow> bool \<Rightarrow> 'w \<Rightarrow>
   int res \<times> 'w \<times> string list" where
  "verify_main which run py root_dir with_e2e w =
     (case gates which py root_dir with_e2e of
        Inl (RuntimeError t) \<Rightarrow> (Inr 2, w, [''Verification cannot start: '' @ t])
      | Inl e \<Rightarrow> (Inl e, w, [])
      | Inr checks \<Rightarrow> run_gates run (length checks) 1 checks w [])"

text \<open>What the gates answer when each is run after the one before.\<close>

fun gate_codes :: "(gate \<Rightarrow> 'w \<Rightarrow> int res \<times> 'w) \<Rightarrow> gate list \<Rightarrow> 'w \<Rightarrow> int res list" where
  "gate_codes run [] w = []"
| "gate_codes run (g # gs) w = (let (c, w1) = run g w in c # gate_codes run gs w1)"

lemma run_gates_result:
  "fst (run_gates run cnt index gs w out) =
     (case find (\<lambda>c. c \<noteq> Inr 0) (gate_codes run gs w) of None \<Rightarrow> Inr 0 | Some c \<Rightarrow> c)"
  by (induction gs arbitrary: index w out) (auto simp: Let_def split: prod.splits sum.splits)

text \<open>
  The script succeeds exactly when both tools are installed and every gate passes; otherwise it ends
  with the code of the first gate that does not.
\<close>

lemma verify_succeeds:
  "fst (verify_main which run py root_dir with_e2e w) = Inr 0 \<longleftrightarrow>
     (\<exists>npm docker checks. which ''npm'' = Some npm \<and> which ''docker'' = Some docker \<and>
        gates which py root_dir with_e2e = Inr checks \<and> length checks = (if with_e2e then 10 else 9) \<and>
        (\<forall>c\<in>set (gate_codes run checks w). c = Inr 0))"
proof (cases "gates which py root_dir with_e2e")
  case (Inl e)
  then have "\<exists>t. e = RuntimeError t"
    by (auto simp: gates_def executable_def Let_def split: option.splits)
  then show ?thesis using Inl by (auto simp: verify_main_def)
next
  case (Inr checks)
  then have "\<exists>npm docker. which ''npm'' = Some npm \<and> which ''docker'' = Some docker"
      "length checks = (if with_e2e then 10 else 9)"
    by (auto simp: gates_def executable_def Let_def split: option.splits if_splits)
  moreover have "fst (verify_main which run py root_dir with_e2e w) = Inr 0 \<longleftrightarrow> (\<forall>c\<in>set (gate_codes run checks w). c = Inr 0)"
    using Inr by (auto simp: verify_main_def run_gates_result find_None_iff find_Some_iff split: option.splits)
  ultimately show ?thesis using Inr by auto
qed

end
