(* ===== verification/Session.thy ===== *)
theory Session
  imports Models
begin

text \<open>
  What the code relies on of an ORM session: reading the clock, drawing a UUID, adding rows, writing
  a changed row back. A changed \<open>Run\<close> is written by an \<open>UPDATE\<close> that also demands the version the
  object was loaded with (\<open>version_id_col\<close>) and increments it; when another transaction got there
  first, no row matches and the session raises \<open>StaleDataError\<close>. A changed row with the timestamp
  mixin gets \<open>updated_at = func.now()\<close>.
\<close>

definition now_utc :: "db \<Rightarrow> time \<times> db" where
  "now_utc s = (clock s (ticks s), s\<lparr>ticks := Suc (ticks s)\<rparr>)"

definition uuid4 :: "db \<Rightarrow> uuid \<times> db" where
  "uuid4 s = (next_uuid s, s\<lparr>next_uuid := Suc (next_uuid s)\<rparr>)"

text \<open>The first statement after a commit begins a transaction: \<open>func.now()\<close> is its start.\<close>

definition begin_transaction :: "db \<Rightarrow> db" where
  "begin_transaction s = (let (t, s1) = now_utc s in s1\<lparr>tx_now := t\<rparr>)"

definition get_run :: "db \<Rightarrow> uuid \<Rightarrow> run option" where
  "get_run s rid = get_row r_id rid (runs s)"

definition get_worker :: "db \<Rightarrow> uuid \<Rightarrow> worker option" where
  "get_worker s wid = get_row w_id wid (workers s)"

definition get_template :: "db \<Rightarrow> uuid \<Rightarrow> training_template option" where
  "get_template s tid = get_row t_id tid (training_templates s)"

definition flush_run :: "db \<Rightarrow> run \<Rightarrow> (run \<times> db) res" where
  "flush_run s r =
     (case get_run s (r_id r) of
        None \<Rightarrow> Inl StaleDataError
      | Some d \<Rightarrow>
          if d = r then Inr (r, s)
          else if r_version d \<noteq> r_version r then Inl StaleDataError
          else let r' = r\<lparr>r_version := r_version r + 1\<rparr>
               in Inr (r', runs_update (upd_row r_id (r_id r) (\<lambda>_. r')) s))"

definition touch_worker :: "time \<Rightarrow> worker \<Rightarrow> worker \<Rightarrow> worker" where
  "touch_worker t w w' = (if w' = w then w else w'\<lparr>w_updated_at := t\<rparr>)"

definition save_worker :: "db \<Rightarrow> uuid \<Rightarrow> (worker \<Rightarrow> worker) \<Rightarrow> db" where
  "save_worker s wid f = workers_update (upd_row w_id wid (\<lambda>w. touch_worker (tx_now s) w (f w))) s"

definition add_event ::
  "db \<Rightarrow> uuid \<Rightarrow> string \<Rightarrow> run_status option \<Rightarrow> run_status option \<Rightarrow> dict \<Rightarrow> db" where
  "add_event s rid ty prev new md =
     (let (eid, s1) = uuid4 s
      in run_events_update (\<lambda>es. es @ [\<lparr>e_id = eid, e_run_id = rid, e_event_type = ty,
           e_previous_status = prev, e_new_status = new, e_event_metadata = md,
           e_created_at = tx_now s1\<rparr>]) s1)"

definition add_outbox :: "db \<Rightarrow> string \<Rightarrow> string \<Rightarrow> event_envelope \<Rightarrow> db" where
  "add_outbox s topic pkey env =
     (let (oid, s1) = uuid4 s
      in outbox_messages_update (\<lambda>ms. ms @ [\<lparr>o_id = oid, o_topic = topic, o_partition_key = pkey,
           o_envelope = env, o_created_at = tx_now s1, o_published_at = None,
           o_publish_attempts = 0, o_last_error = None\<rparr>]) s1)"

definition add_log :: "db \<Rightarrow> uuid \<Rightarrow> int \<Rightarrow> string \<Rightarrow> string \<Rightarrow> db" where
  "add_log s rid sq level msg =
     (let (lid, s1) = uuid4 s
      in run_logs_update (\<lambda>ls. ls @ [\<lparr>l_id = lid, l_run_id = rid, l_sequence_number = sq,
           l_level = level, l_message = msg, l_recorded_at = tx_now s1\<rparr>]) s1)"

definition add_metric :: "db \<Rightarrow> uuid \<Rightarrow> string \<Rightarrow> rat \<Rightarrow> int \<Rightarrow> db" where
  "add_metric s rid name val step =
     (let (mid, s1) = uuid4 s
      in run_metrics_update (\<lambda>ms. ms @ [\<lparr>m_id = mid, m_run_id = rid, m_name = name, m_value = val,
           m_step = step, m_recorded_at = tx_now s1\<rparr>]) s1)"

definition add_parameter :: "db \<Rightarrow> uuid \<Rightarrow> string \<Rightarrow> json \<Rightarrow> db" where
  "add_parameter s rid name val =
     (let (pid, s1) = uuid4 s
      in run_parameters_update (\<lambda>ps. ps @ [\<lparr>p_id = pid, p_run_id = rid, p_name = name,
           p_value = val\<rparr>]) s1)"


section \<open>Facts on the session primitives\<close>

lemma begin_transaction_simps [simp]:
  "users (begin_transaction s) = users s" "projects (begin_transaction s) = projects s"
  "experiments (begin_transaction s) = experiments s" "training_templates (begin_transaction s) = training_templates s"
  "runs (begin_transaction s) = runs s" "run_parameters (begin_transaction s) = run_parameters s"
  "run_events (begin_transaction s) = run_events s" "workers (begin_transaction s) = workers s"
  "resource_allocations (begin_transaction s) = resource_allocations s"
  "outbox_messages (begin_transaction s) = outbox_messages s" "next_uuid (begin_transaction s) = next_uuid s"
  by (simp_all add: begin_transaction_def now_utc_def)

lemma get_run_SomeD: "get_run s rid = Some r \<Longrightarrow> r \<in> set (runs s) \<and> r_id r = rid"
  unfolding get_run_def by (rule get_row_SomeD)

lemma get_worker_SomeD: "get_worker s wid = Some w \<Longrightarrow> w \<in> set (workers s) \<and> w_id w = wid"
  unfolding get_worker_def by (rule get_row_SomeD)

lemma touch_worker_simps [simp]:
  "w_id (touch_worker t w w') = w_id w'"
  "w_name (touch_worker t w w') = w_name w'"
  "w_status (touch_worker t w w') = w_status w'"
  "w_total_cpu (touch_worker t w w') = w_total_cpu w'"
  "w_available_cpu (touch_worker t w w') = w_available_cpu w'"
  "w_total_memory_mb (touch_worker t w w') = w_total_memory_mb w'"
  "w_available_memory_mb (touch_worker t w w') = w_available_memory_mb w'"
  "w_current_run_count (touch_worker t w w') = w_current_run_count w'"
  "w_last_heartbeat_at (touch_worker t w w') = w_last_heartbeat_at w'"
  "w_created_at (touch_worker t w w') = w_created_at w'"
  by (auto simp: touch_worker_def)

lemma workers_save_worker [db_simps]:
  "workers (save_worker s wid f) =
     upd_row w_id wid (\<lambda>w. touch_worker (tx_now s) w (f w)) (workers s)"
  by (simp add: save_worker_def)

lemma save_worker_frame [frame_simps]:
  "runs (save_worker s wid f) = runs s"
  "resource_allocations (save_worker s wid f) = resource_allocations s"
  "run_events (save_worker s wid f) = run_events s"
  "outbox_messages (save_worker s wid f) = outbox_messages s"
  "run_logs (save_worker s wid f) = run_logs s"
  "run_metrics (save_worker s wid f) = run_metrics s"
  "run_parameters (save_worker s wid f) = run_parameters s"
  "artifacts (save_worker s wid f) = artifacts s"
  "processed_messages (save_worker s wid f) = processed_messages s"
  "training_templates (save_worker s wid f) = training_templates s"
  "next_uuid (save_worker s wid f) = next_uuid s"
  "tx_now (save_worker s wid f) = tx_now s"
  "clock (save_worker s wid f) = clock s"
  "ticks (save_worker s wid f) = ticks s"
  "collation (save_worker s wid f) = collation s"
  "users (save_worker s wid f) = users s"
  "projects (save_worker s wid f) = projects s"
  "experiments (save_worker s wid f) = experiments s"
  by (simp_all add: save_worker_def)

lemma get_worker_save_worker:
  assumes "\<And>w. w_id (f w) = w_id w"
  shows "get_worker (save_worker s wid f) wid' =
    (if wid' = wid then map_option (\<lambda>w. touch_worker (tx_now s) w (f w)) (get_worker s wid)
     else get_worker s wid')"
  unfolding get_worker_def save_worker_def
  by (rule workers_tab.lookup_update) (simp add: assms)

text \<open>A successful write: the stored row is the object with the next version number.\<close>

lemma flush_run_Inr:
  assumes "flush_run s r = Inr (r', s')"
  obtains d where "get_run s (r_id r) = Some d" "r_version d = r_version r"
    "r' = (if d = r then r else r\<lparr>r_version := r_version r + 1\<rparr>)"
    "s' = runs_update (upd_row r_id (r_id r) (\<lambda>_. r')) s \<or> (d = r \<and> s' = s)"
  using assms by (auto simp: flush_run_def Let_def split: option.splits if_splits)

lemma flush_run_rows:
  assumes "flush_run s r = Inr (r', s')" "distinct (map r_id (runs s))"
  shows "runs s' = upd_row r_id (r_id r) (\<lambda>_. r') (runs s)"
proof -
  obtain d where d: "get_run s (r_id r) = Some d"
    and s': "s' = runs_update (upd_row r_id (r_id r) (\<lambda>_. r')) s \<or> (d = r \<and> s' = s)"
    and r': "r' = (if d = r then r else r\<lparr>r_version := r_version r + 1\<rparr>)"
    using assms(1) by (rule flush_run_Inr)
  show ?thesis
  proof (cases "d = r")
    case True
    have "upd_row r_id (r_id r) (\<lambda>_. r) (runs s) = runs s"
    proof (rule upd_row_ident)
      fix q assume "q \<in> set (runs s)" "r_id q = r_id r"
      moreover have "r \<in> set (runs s)" using d True by (auto dest: get_run_SomeD)
      ultimately show "r = q" using assms(2) by (metis key_inj)
    qed
    with True r' s' show ?thesis by auto
  next
    case False
    with s' show ?thesis by auto
  qed
qed

lemma flush_run_frame:
  assumes "flush_run s r = Inr (r', s')"
  shows "s' = s\<lparr>runs := runs s'\<rparr>"
  using assms by (auto simp: flush_run_def Let_def split: option.splits if_splits)

lemma flush_run_fields:
  assumes "flush_run s r = Inr (r', s')"
  shows "r_id r' = r_id r" "r_status r' = r_status r" "r_assigned_worker_id r' = r_assigned_worker_id r"
    "r_requested_cpu r' = r_requested_cpu r" "r_requested_memory_mb r' = r_requested_memory_mb r"
    "r_failure_code r' = r_failure_code r" "r_completed_at r' = r_completed_at r"
  using assms by (auto simp: flush_run_def Let_def split: option.splits if_splits)

text \<open>An object loaded in the same transaction always passes the version check.\<close>

lemma flush_run_loaded:
  assumes "get_run s (r_id r) = Some d" "r_version r = r_version d" "r \<noteq> d"
  shows "flush_run s r = Inr (r\<lparr>r_version := r_version r + 1\<rparr>,
    runs_update (upd_row r_id (r_id r) (\<lambda>_. r\<lparr>r_version := r_version r + 1\<rparr>)) s)"
  using assms by (auto simp: flush_run_def Let_def)

end
