(* ===== verification/Example.thy ===== *)
theory Example
  imports Models
begin

text \<open>
  A small database at which the properties are instantiated: one worker with one running run, one
  queued run and one failed run, with their lifecycle events, and the experiment, template and user
  they refer to.
\<close>

definition demo_user :: user where
  "demo_user = \<lparr>u_id = 1, u_email = ''ada@example.org'', u_password_hash = ''hash'', u_role = RESEARCHER,
     u_created_at = 0, u_updated_at = 0\<rparr>"

definition demo_project :: project where
  "demo_project = \<lparr>pj_id = 2, pj_name = ''vision'', pj_description = '''', pj_created_by = 1,
     pj_created_at = 0, pj_updated_at = 0\<rparr>"

definition demo_experiment :: experiment_row where
  "demo_experiment = \<lparr>x_id = 3, x_project_id = 2, x_name = ''baseline'', x_description = '''', x_tags = Some [],
     x_created_by = 1, x_created_at = 0, x_updated_at = 0\<rparr>"

definition demo_template :: training_template where
  "demo_template = \<lparr>t_id = 4, t_key = ''slow-demonstration'', t_name = ''Slow demo'', t_description = '''',
     t_version = ''1.0.0'', t_parameter_schema = [], t_enabled = True, t_created_at = 0\<rparr>"

definition demo_run :: "uuid \<Rightarrow> run_status \<Rightarrow> uuid option \<Rightarrow> run" where
  "demo_run i t w = \<lparr>r_id = i, r_experiment_id = 3, r_template_id = 4, r_status = t, r_priority = 0,
     r_requested_cpu = 1, r_requested_memory_mb = 512, r_assigned_worker_id = w, r_attempt_number = 1,
     r_parent_run_id = None, r_created_by = 1, r_created_at = 0, r_queued_at = Some 0, r_started_at = None,
     r_completed_at = None, r_failure_code = None, r_failure_message = None, r_notes = '''', r_tags = [],
     r_version = 1\<rparr>"

definition demo_event :: "uuid \<Rightarrow> uuid \<Rightarrow> run_status \<Rightarrow> run_status \<Rightarrow> run_event" where
  "demo_event i rid p t = \<lparr>e_id = i, e_run_id = rid, e_event_type = ''run.step'', e_previous_status = Some p,
     e_new_status = Some t, e_event_metadata = [], e_created_at = 0\<rparr>"

definition demo_worker :: worker where
  "demo_worker = \<lparr>w_id = 5, w_name = ''worker-local-1'', w_status = ONLINE, w_total_cpu = 4,
     w_available_cpu = 3, w_total_memory_mb = 8192, w_available_memory_mb = 7680, w_current_run_count = 1,
     w_last_heartbeat_at = 0, w_created_at = 0, w_updated_at = 0\<rparr>"

definition demo_lease :: resource_allocation where
  "demo_lease = \<lparr>a_id = 6, a_run_id = 11, a_worker_id = 5, a_cpu = 1, a_memory_mb = 512, a_lease_token = 7,
     a_lease_expires_at = secs 30, a_released_at = None\<rparr>"

definition demo_db :: db where
  "demo_db = \<lparr>users = [demo_user], projects = [demo_project], experiments = [demo_experiment],
     training_templates = [demo_template],
     runs = [demo_run 10 QUEUED None, demo_run 11 RUNNING (Some 5), demo_run 12 FAILED (Some 5)],
     run_parameters = [], run_metrics = [], run_logs = [], artifacts = [],
     run_events = [demo_event 20 10 DRAFT QUEUED, demo_event 21 11 DRAFT QUEUED,
       demo_event 22 11 QUEUED SCHEDULING, demo_event 23 11 SCHEDULING RUNNING,
       demo_event 24 12 DRAFT QUEUED, demo_event 25 12 QUEUED SCHEDULING,
       demo_event 26 12 SCHEDULING RUNNING, demo_event 27 12 RUNNING FAILED],
     workers = [demo_worker], resource_allocations = [demo_lease], outbox_messages = [],
     processed_messages = [], clock = (\<lambda>n. int n), ticks = 0, tx_now = 0, next_uuid = 100,
     collation = id\<rparr>"

lemmas demo_defs = demo_db_def demo_run_def demo_event_def demo_worker_def demo_lease_def
  demo_user_def demo_project_def demo_experiment_def demo_template_def

end
