(* ===== verification/State_Machine.thy ===== *)
theory State_Machine
  imports Session Example
begin

text \<open>
  The run state machine (\<open>state_machine.py\<close>): the transition table, its validation and the one
  function through which every service changes a run's status. The audit invariant says that the
  stored lifecycle events of a run are a path of the table from \<open>DRAFT\<close> to its current status.
\<close>

fun VALID_TRANSITIONS :: "run_status \<Rightarrow> run_status list" where
  "VALID_TRANSITIONS DRAFT = [QUEUED]"
| "VALID_TRANSITIONS QUEUED = [SCHEDULING]"
| "VALID_TRANSITIONS SCHEDULING = [RUNNING, QUEUED]"
| "VALID_TRANSITIONS RUNNING = [SUCCEEDED, FAILED, CANCELLING]"
| "VALID_TRANSITIONS CANCELLING = [CANCELLED]"
| "VALID_TRANSITIONS FAILED = [RETRYING]"
| "VALID_TRANSITIONS RETRYING = [QUEUED]"
| "VALID_TRANSITIONS SUCCEEDED = []"
| "VALID_TRANSITIONS CANCELLED = []"

definition TERMINAL_STATUSES :: "run_status list" where
  "TERMINAL_STATUSES = [SUCCEEDED, CANCELLED]"

definition validate_transition :: "run_status \<Rightarrow> run_status \<Rightarrow> unit res" where
  "validate_transition previous target =
     (if target \<in> set (VALID_TRANSITIONS previous) then Inr ()
      else Inl (app_err ''run_invalid_transition''
        (''Run cannot transition from '' @ status_value previous @ '' to '' @ status_value target) 409
        [(''previous_status'', JStr (status_value previous)),
         (''requested_status'', JStr (status_value target))]))"

text \<open>
  The fields of the run object are changed in memory; the event row is added to the session. The
  changed row is written by the next flush (\<^const>\<open>flush_run\<close>).
\<close>

definition stamp_run :: "time \<Rightarrow> run_status \<Rightarrow> run \<Rightarrow> run" where
  "stamp_run now target r =
     (let r1 = r\<lparr>r_status := target\<rparr>;
          r2 = (if target = QUEUED \<and> r_queued_at r1 = None then r1\<lparr>r_queued_at := Some now\<rparr> else r1);
          r3 = (if target = RUNNING then r2\<lparr>r_started_at := Some now\<rparr> else r2)
      in if target \<in> {SUCCEEDED, FAILED, CANCELLED} then r3\<lparr>r_completed_at := Some now\<rparr> else r3)"

definition transition_run ::
  "db \<Rightarrow> run \<Rightarrow> run_status \<Rightarrow> string \<Rightarrow> dict \<Rightarrow> (run \<times> db) res" where
  "transition_run s r target event_type metadata =
     res_bind (validate_transition (r_status r) target) (\<lambda>_.
       let (now, s1) = now_utc s
       in Inr (stamp_run now target r,
               add_event s1 (r_id r) event_type (Some (r_status r)) (Some target) metadata))"


section \<open>One transition\<close>

lemma stamp_run_simps [simp]:
  "r_status (stamp_run now t r) = t"
  "r_id (stamp_run now t r) = r_id r"
  "r_version (stamp_run now t r) = r_version r"
  "r_priority (stamp_run now t r) = r_priority r"
  "r_created_at (stamp_run now t r) = r_created_at r"
  "r_requested_cpu (stamp_run now t r) = r_requested_cpu r"
  "r_requested_memory_mb (stamp_run now t r) = r_requested_memory_mb r"
  "r_assigned_worker_id (stamp_run now t r) = r_assigned_worker_id r"
  "r_template_id (stamp_run now t r) = r_template_id r"
  "r_failure_code (stamp_run now t r) = r_failure_code r"
  "r_attempt_number (stamp_run now t r) = r_attempt_number r"
  "r_parent_run_id (stamp_run now t r) = r_parent_run_id r"
  "r_created_by (stamp_run now t r) = r_created_by r"
  "r_experiment_id (stamp_run now t r) = r_experiment_id r"
  by (simp_all add: stamp_run_def Let_def)

lemma validate_transition_Inr [simp]:
  "validate_transition p t = Inr u \<longleftrightarrow> t \<in> set (VALID_TRANSITIONS p)"
  by (auto simp: validate_transition_def)

lemma transition_run_Inr:
  "transition_run s r t ty md = Inr (r', s') \<longleftrightarrow>
     t \<in> set (VALID_TRANSITIONS (r_status r)) \<and>
     r' = stamp_run (clock s (ticks s)) t r \<and>
     s' = add_event (s\<lparr>ticks := Suc (ticks s)\<rparr>) (r_id r) ty (Some (r_status r)) (Some t) md"
  by (auto simp: transition_run_def res_bind_Inr_iff now_utc_def)

lemma transition_run_valid:
  "t \<in> set (VALID_TRANSITIONS (r_status r)) \<Longrightarrow>
   transition_run s r t ty md =
     Inr (stamp_run (clock s (ticks s)) t r,
          add_event (s\<lparr>ticks := Suc (ticks s)\<rparr>) (r_id r) ty (Some (r_status r)) (Some t) md)"
  by (simp add: transition_run_Inr)

lemma add_event_frame [frame_simps]:
  "runs (add_event s rid ty p n md) = runs s"
  "workers (add_event s rid ty p n md) = workers s"
  "resource_allocations (add_event s rid ty p n md) = resource_allocations s"
  "outbox_messages (add_event s rid ty p n md) = outbox_messages s"
  "run_logs (add_event s rid ty p n md) = run_logs s"
  "run_metrics (add_event s rid ty p n md) = run_metrics s"
  "run_parameters (add_event s rid ty p n md) = run_parameters s"
  "artifacts (add_event s rid ty p n md) = artifacts s"
  "processed_messages (add_event s rid ty p n md) = processed_messages s"
  "training_templates (add_event s rid ty p n md) = training_templates s"
  "next_uuid (add_event s rid ty p n md) = Suc (next_uuid s)"
  "tx_now (add_event s rid ty p n md) = tx_now s"
  "clock (add_event s rid ty p n md) = clock s"
  "ticks (add_event s rid ty p n md) = ticks s"
  "collation (add_event s rid ty p n md) = collation s"
  "users (add_event s rid ty p n md) = users s"
  "projects (add_event s rid ty p n md) = projects s"
  "experiments (add_event s rid ty p n md) = experiments s"
  by (simp_all add: add_event_def uuid4_def Let_def)

lemma run_events_add_event [db_simps]:
  "run_events (add_event s rid ty p n md) = run_events s @
     [\<lparr>e_id = next_uuid s, e_run_id = rid, e_event_type = ty, e_previous_status = p,
       e_new_status = n, e_event_metadata = md, e_created_at = tx_now s\<rparr>]"
  by (simp add: add_event_def uuid4_def Let_def)

lemma get_run_add_event [simp]: "get_run (add_event s rid ty p n md) = get_run s"
  by (simp add: get_run_def fun_eq_iff frame_simps)


section \<open>The lifecycle graph\<close>

inductive status_step :: "run_status \<Rightarrow> run_status \<Rightarrow> bool" where
  "t \<in> set (VALID_TRANSITIONS p) \<Longrightarrow> status_step p t"

inductive_simps status_step_iff: "status_step p t"

text \<open>A path of the table, given by the lifecycle events that record it.\<close>

fun event_path :: "run_status \<Rightarrow> run_event list \<Rightarrow> run_status \<Rightarrow> bool" where
  "event_path p [] t \<longleftrightarrow> p = t"
| "event_path p (e # es) t \<longleftrightarrow> e_previous_status e = Some p \<and>
     (case e_new_status e of None \<Rightarrow> False
      | Some n \<Rightarrow> n \<in> set (VALID_TRANSITIONS p) \<and> event_path n es t)"

lemma event_path_snoc:
  "event_path p (es @ [e]) t \<longleftrightarrow>
     (\<exists>m. event_path p es m \<and> e_previous_status e = Some m \<and> e_new_status e = Some t \<and>
          t \<in> set (VALID_TRANSITIONS m))"
  by (induction es arbitrary: p) (auto split: option.splits)

definition trail :: "run_event list \<Rightarrow> uuid \<Rightarrow> run_event list" where
  "trail es rid = filter (\<lambda>e. e_run_id e = rid \<and> e_new_status e \<noteq> None) es"

definition audit_inv :: "db \<Rightarrow> bool" where
  "audit_inv s \<longleftrightarrow> (\<forall>r\<in>set (runs s). event_path DRAFT (trail (run_events s) (r_id r)) (r_status r))"

lemma trail_append [simp]: "trail (es @ fs) rid = trail es rid @ trail fs rid"
  by (simp add: trail_def)

lemma trail_single [simp]:
  "trail [e] rid = (if e_run_id e = rid \<and> e_new_status e \<noteq> None then [e] else [])"
  by (simp add: trail_def)

lemma trail_Nil [simp]: "trail [] rid = []"
  by (simp add: trail_def)

text \<open>
  A transition followed by the write of the changed row extends the trail of that run by one event
  and leaves every other run's trail alone.
\<close>

lemma audit_inv_transition:
  assumes "audit_inv s" "distinct (map r_id (runs s))"
    and "get_run s (r_id r) = Some d" "r_status d = r_status r"
    and "t \<in> set (VALID_TRANSITIONS (r_status r))"
    and "runs s' = upd_row r_id (r_id r) (\<lambda>_. r') (runs s)" "r_id r' = r_id r" "r_status r' = t"
    and "run_events s' = run_events s @ [e]" "e_run_id e = r_id r"
    and "e_previous_status e = Some (r_status r)" "e_new_status e = Some t"
  shows "audit_inv s'"
  unfolding audit_inv_def
proof
  fix q assume q: "q \<in> set (runs s')"
  have d: "d \<in> set (runs s)" "r_id d = r_id r"
    using get_run_SomeD[OF assms(3)] by auto
  show "event_path DRAFT (trail (run_events s') (r_id q)) (r_status q)"
  proof (cases "r_id q = r_id r")
    case True
    with q assms(6,7) have "q = r'" by (auto simp: set_upd_row split: if_splits)
    moreover have "event_path DRAFT (trail (run_events s) (r_id r)) (r_status r)"
      using assms(1) d assms(4) by (auto simp: audit_inv_def)
    ultimately show ?thesis
      using assms(5,7-12) by (auto simp: event_path_snoc)
  next
    case False
    with q assms(6,7) have "q \<in> set (runs s)" by (auto simp: set_upd_row split: if_splits)
    with False assms(1,9,10) show ?thesis by (auto simp: audit_inv_def)
  qed
qed

lemma event_path_last:
  "event_path p es t \<Longrightarrow> es \<noteq> [] \<Longrightarrow>
   e_new_status (last es) = Some t \<and> (\<exists>m. e_previous_status (last es) = Some m \<and> status_step m t)"
  by (induction es rule: rev_induct) (auto simp: event_path_snoc status_step.simps)

text \<open>What follows a recorded history continues from the status it ended in.\<close>

lemma event_path_append:
  "event_path p (es @ fs) t \<longleftrightarrow> (\<exists>m. event_path p es m \<and> event_path m fs t)"
  by (induction es arbitrary: p) (auto split: option.splits)

lemma event_path_unique: "event_path p es t \<Longrightarrow> event_path p es u \<Longrightarrow> t = u"
  by (induction es arbitrary: p) (auto split: option.splits)

lemma event_path_steps: "event_path p es t \<Longrightarrow> status_step\<^sup>*\<^sup>* p t"
proof (induction es arbitrary: p)
  case (Cons e es)
  then obtain n where "n \<in> set (VALID_TRANSITIONS p)" "event_path n es t" by (auto split: option.splits)
  then show ?case using Cons.IH by (metis converse_rtranclp_into_rtranclp status_step_iff)
qed simp

lemma audit_trail_steps:
  assumes "audit_inv s" "audit_inv s'" "run_events s' = run_events s @ es"
    and "r \<in> set (runs s)" "r' \<in> set (runs s')" "r_id r' = r_id r"
  shows "status_step\<^sup>*\<^sup>* (r_status r) (r_status r')"
proof -
  have "event_path DRAFT (trail (run_events s) (r_id r)) (r_status r)" using assms(1,4) by (simp add: audit_inv_def)
  moreover have "event_path DRAFT (trail (run_events s') (r_id r)) (r_status r')" using assms(2,5,6) by (auto simp: audit_inv_def)
  ultimately show ?thesis unfolding assms(3) trail_append event_path_append using event_path_unique event_path_steps by metis
qed

text \<open>A run can only be finished by way of \<open>RUNNING\<close>: no path reaches the final states past it.\<close>

lemma event_path_to_finished:
  assumes "event_path p es t" "t \<in> {SUCCEEDED, FAILED, CANCELLING, CANCELLED, RETRYING}"
    and "p \<in> {DRAFT, QUEUED, SCHEDULING}"
  shows "\<exists>e\<in>set es. e_new_status e = Some RUNNING"
  using assms
proof (induction es arbitrary: p)
  case Nil
  then show ?case by auto
next
  case (Cons e es)
  then obtain n where n: "e_new_status e = Some n" "n \<in> set (VALID_TRANSITIONS p)" "event_path n es t"
    by (auto split: option.splits)
  show ?case
  proof (cases "n = RUNNING")
    case True
    with n show ?thesis by auto
  next
    case False
    with n(2) Cons.prems(3) have "n \<in> {DRAFT, QUEUED, SCHEDULING}" by auto
    with n(3) Cons.prems(2) Cons.IH show ?thesis by auto
  qed
qed

text \<open>The declared terminal statuses are exactly the ones without a successor.\<close>

lemma terminal_iff_stuck: "t \<in> set TERMINAL_STATUSES \<longleftrightarrow> (\<forall>u. \<not> status_step t u)"
  by (cases t) (auto simp: TERMINAL_STATUSES_def status_step_iff)

lemma status_step_into: "p \<in> set (VALID_TRANSITIONS q) \<Longrightarrow> p \<noteq> DRAFT"
  by (cases q) auto


section \<open>Properties of the state machine\<close>

text \<open>One call, written out: the object and the event it adds, or the error.\<close>

lemma transition_run_spec:
  "transition_run s r t ty md =
     (if status_step (r_status r) t
      then Inr (r\<lparr>r_status := t,
             r_queued_at := (if t = QUEUED \<and> r_queued_at r = None then Some (clock s (ticks s)) else r_queued_at r),
             r_started_at := (if t = RUNNING then Some (clock s (ticks s)) else r_started_at r),
             r_completed_at := (if t \<in> {SUCCEEDED, FAILED, CANCELLED} then Some (clock s (ticks s))
                                else r_completed_at r)\<rparr>,
             s\<lparr>ticks := Suc (ticks s), next_uuid := Suc (next_uuid s),
               run_events := run_events s @ [\<lparr>e_id = next_uuid s, e_run_id = r_id r, e_event_type = ty,
                 e_previous_status = Some (r_status r), e_new_status = Some t, e_event_metadata = md,
                 e_created_at = tx_now s\<rparr>]\<rparr>)
      else Inl (AppError \<lparr>err_code = ''run_invalid_transition'',
             err_message = ''Run cannot transition from '' @ status_value (r_status r) @ '' to '' @ status_value t,
             err_status_code = 409,
             err_details = [(''previous_status'', JStr (status_value (r_status r))),
               (''requested_status'', JStr (status_value t))]\<rparr>))"
proof (cases "status_step (r_status r) t")
  case True
  then have "transition_run s r t ty md = Inr (stamp_run (clock s (ticks s)) t r,
      add_event (s\<lparr>ticks := Suc (ticks s)\<rparr>) (r_id r) ty (Some (r_status r)) (Some t) md)"
    by (simp add: transition_run_valid status_step_iff)
  with True show ?thesis
    by (simp add: stamp_run_def add_event_def uuid4_def Let_def)
next
  case False
  then show ?thesis
    by (simp add: status_step_iff transition_run_def validate_transition_def app_err_def)
qed

text \<open>The state machine as \<open>docs/DATA_MODEL.md\<close> draws it.\<close>

definition documented_moves :: "(run_status \<times> run_status) set" where
  "documented_moves =
     {(DRAFT, QUEUED), (QUEUED, SCHEDULING), (SCHEDULING, RUNNING), (SCHEDULING, QUEUED), (RUNNING, SUCCEEDED),
      (RUNNING, FAILED), (RUNNING, CANCELLING), (CANCELLING, CANCELLED), (FAILED, RETRYING), (RETRYING, QUEUED)}"

lemma table_documented: "t \<in> set (VALID_TRANSITIONS p) \<longleftrightarrow> (p, t) \<in> documented_moves"
  by (cases p; cases t) (simp_all add: documented_moves_def)

text \<open>
  The life of a run object: it is created as a draft, moved by \<open>transition_run\<close>, and between the moves the
  session and the object may change in every other respect, while the clock goes on. \<open>h\<close> lists the statuses
  it entered with the time of each.
\<close>

inductive run_life :: "db \<Rightarrow> run \<Rightarrow> (run_status \<times> time) list \<Rightarrow> bool" where
  created: "r_status r = DRAFT \<Longrightarrow> r_queued_at r = None \<Longrightarrow> r_started_at r = None \<Longrightarrow> r_completed_at r = None \<Longrightarrow> run_life s r []"
| moved: "run_life s r h \<Longrightarrow> transition_run s r t ty md = Inr (r', s') \<Longrightarrow> run_life s' r' (h @ [(t, clock s (ticks s))])"
| meanwhile: "run_life s r h \<Longrightarrow> clock s' = clock s \<Longrightarrow> ticks s \<le> ticks s' \<Longrightarrow> r_status r' = r_status r \<Longrightarrow>
    r_queued_at r' = r_queued_at r \<Longrightarrow> r_started_at r' = r_started_at r \<Longrightarrow> r_completed_at r' = r_completed_at r \<Longrightarrow>
    run_life s' r' h"

lemma map_of_snd: "map_of xs k = Some b \<Longrightarrow> b \<in> snd ` set xs"
  by (force dest: map_of_SomeD)

lemma run_life_path:
  "run_life s r h \<Longrightarrow> successively (\<lambda>p t. (p, t) \<in> documented_moves) (DRAFT # map fst h) \<and>
     last (DRAFT # map fst h) = r_status r"
proof (induction rule: run_life.induct)
  case (moved s r h t ty md r' s')
  then show ?case by (auto simp: transition_run_Inr table_documented successively_append_iff
      simp flip: append_Cons)
qed auto

lemma run_life_times:
  "run_life s r h \<Longrightarrow> mono (clock s) \<Longrightarrow> sorted (map snd h) \<and> (\<forall>e\<in>set h. snd e \<le> clock s (ticks s))"
proof (induction rule: run_life.induct)
  case (moved s r h t ty md r' s')
  have s': "clock s' = clock s" "ticks s' = Suc (ticks s)" using moved.hyps(2) by (auto simp: transition_run_Inr frame_simps)
  have "clock s (ticks s) \<le> clock s (Suc (ticks s))" using moved.prems s' by (simp add: monoD)
  with moved s' show ?case by (fastforce simp: sorted_append)
next
  case (meanwhile s r h s' r')
  have "clock s (ticks s) \<le> clock s (ticks s')" using meanwhile by (simp add: monoD)
  with meanwhile show ?case by fastforce
qed simp

lemma run_life_stamps:
  "run_life s r h \<Longrightarrow> r_queued_at r = map_of h QUEUED \<and> r_started_at r = map_of (rev h) RUNNING \<and>
     r_completed_at r = (case filter (\<lambda>e. fst e \<in> {SUCCEEDED, FAILED, CANCELLED}) (rev h) of [] \<Rightarrow> None | e # _ \<Rightarrow> Some (snd e))"
proof (induction rule: run_life.induct)
  case (moved s r h t ty md r' s')
  then show ?case
    by (auto simp: transition_run_Inr stamp_run_def Let_def map_add_def split: option.splits)
qed auto

text \<open>
  C5. The life of a run follows the documented state machine, and its row tells it. Whatever calls are made
  and whatever happens between them, the statuses a run enters are a path of the documented diagram from
  \<open>DRAFT\<close> to its status, in the order of time; \<open>queued_at\<close> is when it was first queued, \<open>started_at\<close> when it
  last started, \<open>completed_at\<close> when it last ended, so a queued run that started did so after it was queued and one that
  ended did so after it started. A next status is accepted exactly when the diagram has the edge: then one event
  with both statuses is added and no other row is touched; otherwise the answer is \<open>run_invalid_transition\<close>, a 409.
\<close>

theorem run_life_documented:
  assumes "run_life s r h" "mono (clock s)"
  shows "successively (\<lambda>p t. (p, t) \<in> documented_moves) (DRAFT # map fst h) \<and>
    r_status r = last (DRAFT # map fst h) \<and> sorted (map snd h) \<and>
    r_queued_at r = map_of h QUEUED \<and> r_started_at r = map_of (rev h) RUNNING \<and>
    r_completed_at r =
      (case filter (\<lambda>e. fst e \<in> {SUCCEEDED, FAILED, CANCELLED}) (rev h) of [] \<Rightarrow> None | e # _ \<Rightarrow> Some (snd e)) \<and>
    (\<forall>q b. r_queued_at r = Some q \<longrightarrow> r_started_at r = Some b \<longrightarrow> q \<le> b) \<and>
    (\<forall>b c. r_status r \<in> {SUCCEEDED, FAILED, CANCELLED} \<longrightarrow> r_started_at r = Some b \<longrightarrow> r_completed_at r = Some c \<longrightarrow> b \<le> c) \<and>
    (\<forall>t ty md. if (r_status r, t) \<in> documented_moves
       then \<exists>r' s' e. transition_run s r t ty md = Inr (r', s') \<and> r_status r' = t \<and> r_id r' = r_id r \<and>
         run_events s' = run_events s @ [e] \<and> e_run_id e = r_id r \<and> e_event_type e = ty \<and> e_event_metadata e = md \<and>
         e_previous_status e = Some (r_status r) \<and> e_new_status e = Some t \<and>
         s' = s\<lparr>run_events := run_events s', ticks := ticks s', next_uuid := next_uuid s'\<rparr>
       else \<exists>a. transition_run s r t ty md = Inl (AppError a) \<and> err_code a = ''run_invalid_transition'' \<and> err_status_code a = 409)"
proof -
  note path = run_life_path[OF assms(1)] and times = run_life_times[OF assms] and stamps = run_life_stamps[OF assms(1)]
  have first: "q \<le> b" if "r_queued_at r = Some q" "r_started_at r = Some b" for q b
  proof -
    have b: "b \<in> snd ` set h" using that(2) stamps map_of_snd[of "rev h" RUNNING b] by simp
    then obtain e h' where h: "h = e # h'" by (cases h) auto
    with path have "fst e = QUEUED" by (auto simp: documented_moves_def)
    with h that(1) stamps have "q = snd e" by (cases e) auto
    with b times h show ?thesis by auto
  qed
  have ended: "b \<le> c" if "r_status r \<in> {SUCCEEDED, FAILED, CANCELLED}" "r_started_at r = Some b" "r_completed_at r = Some c" for b c
  proof -
    have b: "b \<in> snd ` set h" using that(2) stamps map_of_snd[of "rev h" RUNNING b] by simp
    then obtain e h' where h: "h = h' @ [e]" by (cases h rule: rev_cases) auto
    with path that(1) have "fst e \<in> {SUCCEEDED, FAILED, CANCELLED}" by simp
    with h that(3) stamps have "c = snd e" by auto
    with b times h show ?thesis by (auto simp: sorted_append)
  qed
  have next_status: "if (r_status r, t) \<in> documented_moves
       then \<exists>r' s' e. transition_run s r t ty md = Inr (r', s') \<and> r_status r' = t \<and> r_id r' = r_id r \<and>
         run_events s' = run_events s @ [e] \<and> e_run_id e = r_id r \<and> e_event_type e = ty \<and> e_event_metadata e = md \<and>
         e_previous_status e = Some (r_status r) \<and> e_new_status e = Some t \<and>
         s' = s\<lparr>run_events := run_events s', ticks := ticks s', next_uuid := next_uuid s'\<rparr>
       else \<exists>a. transition_run s r t ty md = Inl (AppError a) \<and> err_code a = ''run_invalid_transition'' \<and> err_status_code a = 409"
    for t ty md
    by (simp add: transition_run_spec status_step_iff table_documented)
  show ?thesis using path times stamps first ended next_status by (intro conjI allI impI) (blast | simp)+
qed

theorem run_life_documented_witness:
  "\<exists>r s'. transition_run demo_db ((demo_run 10 DRAFT None)\<lparr>r_queued_at := None\<rparr>) QUEUED ''run.queued'' [] = Inr (r, s') \<and>
     r_queued_at r = Some 0 \<and> r_started_at r = None"
proof -
  let ?r = "(demo_run 10 DRAFT None)\<lparr>r_queued_at := None\<rparr>"
  have "run_life demo_db ?r []" by (rule run_life.created) (simp_all add: demo_run_def)
  moreover obtain r s' where m: "transition_run demo_db ?r QUEUED ''run.queued'' [] = Inr (r, s')"
    by (simp add: transition_run_valid demo_run_def)
  ultimately have l: "run_life s' r [(QUEUED, 0)]" using run_life.moved by (fastforce simp: demo_db_def)
  have "clock s' = int" using m by (auto simp: transition_run_Inr frame_simps demo_db_def)
  then have "mono (clock s')" by (simp add: mono_def)
  from run_life_documented[OF l this] m show ?thesis by auto
qed

text \<open>
  The statuses the code declares terminal are exactly those no transition leaves, and from every
  status a terminal one can be reached: nothing is a dead end except the declared ends.
\<close>

lemma terminal_statuses:
  "(t \<in> set TERMINAL_STATUSES \<longleftrightarrow> (\<forall>u. \<not> status_step t u)) \<and>
   (\<exists>u\<in>set TERMINAL_STATUSES. status_step\<^sup>*\<^sup>* t u)"
proof
  show "t \<in> set TERMINAL_STATUSES \<longleftrightarrow> (\<forall>u. \<not> status_step t u)" by (rule terminal_iff_stuck)
  have run: "status_step\<^sup>*\<^sup>* RUNNING SUCCEEDED" by (rule r_into_rtranclp) (simp add: status_step_iff)
  have sch: "status_step\<^sup>*\<^sup>* SCHEDULING SUCCEEDED"
    by (rule converse_rtranclp_into_rtranclp[OF _ run]) (simp add: status_step_iff)
  have que: "status_step\<^sup>*\<^sup>* QUEUED SUCCEEDED"
    by (rule converse_rtranclp_into_rtranclp[OF _ sch]) (simp add: status_step_iff)
  have dra: "status_step\<^sup>*\<^sup>* DRAFT SUCCEEDED" "status_step\<^sup>*\<^sup>* RETRYING SUCCEEDED"
    by (rule converse_rtranclp_into_rtranclp[OF _ que], simp add: status_step_iff)+
  have fai: "status_step\<^sup>*\<^sup>* FAILED SUCCEEDED"
    by (rule converse_rtranclp_into_rtranclp[OF _ dra(2)]) (simp add: status_step_iff)
  have can: "status_step\<^sup>*\<^sup>* CANCELLING CANCELLED" by (rule r_into_rtranclp) (simp add: status_step_iff)
  show "\<exists>u\<in>set TERMINAL_STATUSES. status_step\<^sup>*\<^sup>* t u"
    using run sch que dra fai can by (cases t) (auto simp: TERMINAL_STATUSES_def)
qed

text \<open>
  C6. The audit trail proves how a run ended: in a database whose trails are in order, a run that is
  finished, being cancelled or retried has an event by which it entered \<open>RUNNING\<close>, and its last
  event leads into its present status by a transition of the table.
\<close>

theorem finished_runs_were_running:
  assumes "audit_inv s" "r \<in> set (runs s)"
    and "r_status r \<in> {SUCCEEDED, FAILED, CANCELLING, CANCELLED, RETRYING}"
  shows "(\<exists>e\<in>set (trail (run_events s) (r_id r)). e_new_status e = Some RUNNING) \<and>
    e_new_status (last (trail (run_events s) (r_id r))) = Some (r_status r) \<and>
    (\<exists>p. e_previous_status (last (trail (run_events s) (r_id r))) = Some p \<and> status_step p (r_status r))"
proof -
  have path: "event_path DRAFT (trail (run_events s) (r_id r)) (r_status r)"
    using assms(1,2) by (simp add: audit_inv_def)
  then have "\<exists>e\<in>set (trail (run_events s) (r_id r)). e_new_status e = Some RUNNING"
    by (rule event_path_to_finished) (use assms(3) in auto)
  moreover from this have "trail (run_events s) (r_id r) \<noteq> []" by auto
  ultimately show ?thesis using event_path_last[OF path] by blast
qed

lemma demo_audit_inv: "audit_inv demo_db"
  by (simp add: audit_inv_def trail_def demo_defs)

theorem finished_runs_were_running_witness:
  "audit_inv demo_db \<and> demo_run 12 FAILED (Some 5) \<in> set (runs demo_db) \<and>
   (\<exists>e\<in>set (trail (run_events demo_db) 12). e_new_status e = Some RUNNING)"
  using finished_runs_were_running[OF demo_audit_inv, of "demo_run 12 FAILED (Some 5)"] demo_audit_inv
  by (simp add: demo_defs)

end
