(* ===== verification/Worker_Registry.thy ===== *)
theory Worker_Registry
  imports State_Machine
begin

text \<open>
  The worker registry (\<open>worker_registry.py\<close>): registration, capacity accounting, heartbeats and the
  release of leases. The book invariant ties the capacity columns of every worker to the active
  leases, and the interface \<open>lease_book\<close> states what the scheduler and the execution code rely on
  when they release a lease.
\<close>

definition active :: "resource_allocation \<Rightarrow> bool" where
  "active a \<longleftrightarrow> a_released_at a = None"

definition active_of :: "uuid \<Rightarrow> resource_allocation list \<Rightarrow> resource_allocation list" where
  "active_of wid as = filter (\<lambda>a. a_worker_id a = wid \<and> a_released_at a = None) as"

definition used_cpu :: "uuid \<Rightarrow> resource_allocation list \<Rightarrow> rat" where
  "used_cpu wid as = sum_list (map a_cpu (active_of wid as))"

definition used_memory :: "uuid \<Rightarrow> resource_allocation list \<Rightarrow> int" where
  "used_memory wid as = sum_list (map a_memory_mb (active_of wid as))"

definition refresh_worker_capacity :: "db \<Rightarrow> uuid \<Rightarrow> db" where
  "refresh_worker_capacity s wid =
     (let active_cpu = used_cpu wid (resource_allocations s);
          active_memory = used_memory wid (resource_allocations s);
          active_count = length (active_of wid (resource_allocations s))
      in save_worker s wid (\<lambda>w. w\<lparr>w_available_cpu := max 0 (w_total_cpu w - active_cpu),
           w_available_memory_mb := max 0 (w_total_memory_mb w - active_memory),
           w_current_run_count := int active_count\<rparr>))"

definition register_worker :: "db \<Rightarrow> string \<Rightarrow> rat \<Rightarrow> int \<Rightarrow> worker option \<times> db" where
  "register_worker s name total_cpu total_memory_mb =
     (case find (\<lambda>w. w_name w = name) (workers s) of
        None \<Rightarrow>
          let (now, s1) = now_utc s; (wid, s2) = uuid4 s1;
              w = \<lparr>w_id = wid, w_name = name, w_status = ONLINE, w_total_cpu = total_cpu,
                   w_available_cpu = total_cpu, w_total_memory_mb = total_memory_mb,
                   w_available_memory_mb = total_memory_mb, w_current_run_count = 0,
                   w_last_heartbeat_at = now, w_created_at = tx_now s2, w_updated_at = tx_now s2\<rparr>
          in (Some w, workers_update (\<lambda>ws. ws @ [w]) s2)
      | Some w \<Rightarrow>
          let (now, s1) = now_utc s;
              s2 = save_worker s1 (w_id w) (\<lambda>w. w\<lparr>w_status := ONLINE, w_total_cpu := total_cpu,
                     w_total_memory_mb := total_memory_mb, w_last_heartbeat_at := now\<rparr>);
              s3 = refresh_worker_capacity s2 (w_id w)
          in (get_worker s3 (w_id w), s3))"

definition extend_leases :: "db \<Rightarrow> uuid \<Rightarrow> time \<Rightarrow> db" where
  "extend_leases s wid expires =
     resource_allocations_update (map (\<lambda>a.
       if a_worker_id a = wid \<and> a_released_at a = None then a\<lparr>a_lease_expires_at := expires\<rparr> else a)) s"

definition heartbeat_worker :: "db \<Rightarrow> uuid \<Rightarrow> int \<Rightarrow> worker option \<times> db" where
  "heartbeat_worker s wid lease_seconds =
     (case get_worker s wid of
        None \<Rightarrow> (None, s)
      | Some _ \<Rightarrow>
          let (now, s1) = now_utc s;
              s2 = save_worker s1 wid (\<lambda>w. w\<lparr>w_status := ONLINE, w_last_heartbeat_at := now\<rparr>);
              s3 = extend_leases s2 wid (now + secs lease_seconds);
              s4 = refresh_worker_capacity s3 wid
          in (get_worker s4 wid, s4))"

definition release_allocation :: "db \<Rightarrow> uuid \<Rightarrow> resource_allocation option \<times> db" where
  "release_allocation s rid =
     (case find (\<lambda>a. a_run_id a = rid \<and> a_released_at a = None) (resource_allocations s) of
        None \<Rightarrow> (None, s)
      | Some a \<Rightarrow>
          let (now, s1) = now_utc s;
              a' = a\<lparr>a_released_at := Some now\<rparr>;
              s2 = resource_allocations_update (upd_row a_id (a_id a) (\<lambda>_. a')) s1
          in (Some a', case get_worker s2 (a_worker_id a) of
                         None \<Rightarrow> s2
                       | Some _ \<Rightarrow> refresh_worker_capacity s2 (a_worker_id a)))"

abbreviation release :: "db \<Rightarrow> uuid \<Rightarrow> db" where
  "release s rid \<equiv> snd (release_allocation s rid)"


section \<open>The book invariant\<close>

definition capacity_ok :: "resource_allocation list \<Rightarrow> worker \<Rightarrow> bool" where
  "capacity_ok as w \<longleftrightarrow>
     w_available_cpu w = max 0 (w_total_cpu w - used_cpu (w_id w) as) \<and>
     w_available_memory_mb w = max 0 (w_total_memory_mb w - used_memory (w_id w) as) \<and>
     w_current_run_count w = int (length (active_of (w_id w) as))"

definition capacity_inv :: "db \<Rightarrow> bool" where
  "capacity_inv s \<longleftrightarrow> list_all (capacity_ok (resource_allocations s)) (workers s)"

definition ids_inv :: "db \<Rightarrow> bool" where
  "ids_inv s \<longleftrightarrow> distinct (map r_id (runs s)) \<and> distinct (map w_id (workers s)) \<and>
     distinct (map w_name (workers s)) \<and> distinct (map a_id (resource_allocations s)) \<and>
     (\<forall>r\<in>set (runs s). r_id r < next_uuid s) \<and>
     (\<forall>w\<in>set (workers s). w_id w < next_uuid s) \<and>
     (\<forall>a\<in>set (resource_allocations s). a_id a < next_uuid s)"

text \<open>
  One active lease per run, every active lease held by a registered worker for a non-negative
  amount of resources, and the capacity columns in step with the leases.
\<close>

definition book_inv :: "db \<Rightarrow> bool" where
  "book_inv s \<longleftrightarrow> ids_inv s \<and> capacity_inv s \<and>
     distinct (map a_run_id (filter active (resource_allocations s))) \<and>
     (\<forall>a\<in>set (resource_allocations s). active a \<longrightarrow> a_worker_id a \<in> w_id ` set (workers s)) \<and>
     (\<forall>a\<in>set (resource_allocations s). 0 \<le> a_cpu a \<and> 0 \<le> a_memory_mb a)"

text \<open>The abstract view of the book: which worker holds a run, and with what resources.\<close>

definition leases :: "db \<Rightarrow> uuid \<Rightarrow> (uuid \<times> rat \<times> int) option" where
  "leases s = map_of (map (\<lambda>a. (a_run_id a, (a_worker_id a, a_cpu a, a_memory_mb a)))
     (filter active (resource_allocations s)))"


section \<open>Facts on the active leases\<close>

lemma active_of_filter: "active_of wid as = filter (\<lambda>a. a_worker_id a = wid) (filter active as)"
  by (simp add: active_of_def active_def conj_commute)

lemma active_of_cong: "filter active as = filter active bs \<Longrightarrow> active_of wid as = active_of wid bs"
  by (simp add: active_of_filter)

lemma used_nonneg:
  assumes "\<forall>a\<in>set as. 0 \<le> a_cpu a \<and> 0 \<le> a_memory_mb a"
  shows "0 \<le> used_cpu wid as" "0 \<le> used_memory wid as"
  using assms by (auto simp: used_cpu_def used_memory_def active_of_def intro!: sum_list_nonneg)

lemma filter_map_id:
  assumes "\<And>b. b \<in> set bs \<Longrightarrow> P (f b) \<longleftrightarrow> Q b" "\<And>b. b \<in> set bs \<Longrightarrow> Q b \<Longrightarrow> f b = b"
  shows "filter P (map f bs) = filter Q bs"
  using assms by (induction bs) auto

lemma distinct_map_inj:
  "distinct (map f xs) \<Longrightarrow> x \<in> set xs \<Longrightarrow> y \<in> set xs \<Longrightarrow> f x = f y \<Longrightarrow> x = y"
  by (rule key_inj)

text \<open>Releasing a lease takes exactly that run's lease out of the active ones.\<close>

lemma active_after_release:
  assumes "distinct (map a_id as)" "distinct (map a_run_id (filter active as))"
    and "find (\<lambda>a. a_run_id a = rid \<and> a_released_at a = None) as = Some a"
  shows "filter active (upd_row a_id (a_id a) (\<lambda>_. a\<lparr>a_released_at := Some t\<rparr>) as) =
    filter (\<lambda>b. active b \<and> a_run_id b \<noteq> rid) as"
  unfolding upd_row_def
proof (rule filter_map_id)
  have a: "a \<in> set as" "a_run_id a = rid" "active a"
    using find_SomeD[OF assms(3)] by (auto simp: active_def)
  fix b assume b: "b \<in> set as"
  have same: "b = a" if "a_id b = a_id a"
    using assms(1) b a(1) that by (rule key_inj)
  have uniq: "b = a" if "active b" "a_run_id b = rid"
    using distinct_map_inj[OF assms(2), of b a] a b that by simp
  show "active (if a_id b = a_id a then a\<lparr>a_released_at := Some t\<rparr> else b) \<longleftrightarrow>
      active b \<and> a_run_id b \<noteq> rid"
    using a same uniq by (auto simp: active_def)
  show "(if a_id b = a_id a then a\<lparr>a_released_at := Some t\<rparr> else b) = b"
    if "active b \<and> a_run_id b \<noteq> rid"
    using that a same by auto
qed

lemma map_of_filter_key:
  "map_of (filter (\<lambda>p. fst p \<noteq> k) xs) = (map_of xs)(k := None)"
  by (induction xs) (auto simp: fun_eq_iff)

lemma leases_filter:
  assumes "filter active (resource_allocations s') =
    filter (\<lambda>b. active b \<and> a_run_id b \<noteq> rid) (resource_allocations s)"
  shows "leases s' = (leases s)(rid := None)"
proof -
  have "filter (\<lambda>b. active b \<and> a_run_id b \<noteq> rid) (resource_allocations s) =
      filter (\<lambda>b. a_run_id b \<noteq> rid) (filter active (resource_allocations s))"
    by (simp add: conj_commute)
  then have "map (\<lambda>a. (a_run_id a, (a_worker_id a, a_cpu a, a_memory_mb a)))
      (filter active (resource_allocations s')) =
    filter (\<lambda>p. fst p \<noteq> rid) (map (\<lambda>a. (a_run_id a, (a_worker_id a, a_cpu a, a_memory_mb a)))
      (filter active (resource_allocations s)))"
    using assms by (simp add: filter_map comp_def)
  then show ?thesis by (simp add: leases_def map_of_filter_key)
qed

lemma leases_None_iff: "leases s rid = None \<longleftrightarrow> (\<forall>a\<in>set (resource_allocations s). active a \<longrightarrow> a_run_id a \<noteq> rid)"
  by (auto simp: leases_def map_of_eq_None_iff image_image)

lemma leases_SomeD:
  "leases s rid = Some (wid, c, m) \<Longrightarrow>
   \<exists>a\<in>set (resource_allocations s). active a \<and> a_run_id a = rid \<and> a_worker_id a = wid \<and>
     a_cpu a = c \<and> a_memory_mb a = m"
  by (auto simp: leases_def dest!: map_of_SomeD)

lemma leases_in:
  assumes "distinct (map a_run_id (filter active (resource_allocations s)))"
    and "a \<in> set (resource_allocations s)" "active a"
  shows "leases s (a_run_id a) = Some (a_worker_id a, a_cpu a, a_memory_mb a)"
  using assms by (auto simp: leases_def comp_def intro!: map_of_is_SomeI)


section \<open>Capacity after each operation\<close>

lemma refresh_frame [frame_simps]:
  "runs (refresh_worker_capacity s wid) = runs s"
  "resource_allocations (refresh_worker_capacity s wid) = resource_allocations s"
  "run_events (refresh_worker_capacity s wid) = run_events s"
  "outbox_messages (refresh_worker_capacity s wid) = outbox_messages s"
  "run_logs (refresh_worker_capacity s wid) = run_logs s"
  "run_metrics (refresh_worker_capacity s wid) = run_metrics s"
  "run_parameters (refresh_worker_capacity s wid) = run_parameters s"
  "artifacts (refresh_worker_capacity s wid) = artifacts s"
  "processed_messages (refresh_worker_capacity s wid) = processed_messages s"
  "training_templates (refresh_worker_capacity s wid) = training_templates s"
  "next_uuid (refresh_worker_capacity s wid) = next_uuid s"
  "tx_now (refresh_worker_capacity s wid) = tx_now s"
  "clock (refresh_worker_capacity s wid) = clock s"
  "ticks (refresh_worker_capacity s wid) = ticks s"
  "collation (refresh_worker_capacity s wid) = collation s"
  "users (refresh_worker_capacity s wid) = users s"
  "projects (refresh_worker_capacity s wid) = projects s"
  "experiments (refresh_worker_capacity s wid) = experiments s"
  by (simp_all add: refresh_worker_capacity_def frame_simps Let_def)

lemma refresh_workers_ids [simp]:
  "map w_id (workers (refresh_worker_capacity s wid)) = map w_id (workers s)"
  "map w_name (workers (refresh_worker_capacity s wid)) = map w_name (workers s)"
  by (simp_all add: refresh_worker_capacity_def db_simps Let_def map_upd_row)

text \<open>
  Capacity is correct outside \<open>W\<close>: the state in which the columns of the workers in \<open>W\<close> still have
  to be recomputed.
\<close>

definition capacity_except :: "uuid set \<Rightarrow> db \<Rightarrow> bool" where
  "capacity_except W s \<longleftrightarrow>
     (\<forall>w\<in>set (workers s). w_id w \<notin> W \<longrightarrow> capacity_ok (resource_allocations s) w)"

lemma capacity_inv_iff: "capacity_inv s \<longleftrightarrow> capacity_except {} s"
  by (simp add: capacity_inv_def capacity_except_def list_all_iff)

lemma refresh_capacity_ok:
  "\<forall>w\<in>set (workers (refresh_worker_capacity s wid)). w_id w = wid \<longrightarrow>
     capacity_ok (resource_allocations s) w"
  by (simp add: refresh_worker_capacity_def db_simps Let_def ball_upd_row capacity_ok_def)

lemma capacity_except_refresh:
  assumes "capacity_except W s"
  shows "capacity_except (W - {wid}) (refresh_worker_capacity s wid)"
  unfolding capacity_except_def frame_simps
proof (intro ballI impI)
  fix w assume w: "w \<in> set (workers (refresh_worker_capacity s wid))" "w_id w \<notin> W - {wid}"
  show "capacity_ok (resource_allocations s) w"
  proof (cases "w_id w = wid")
    case True
    with w(1) show ?thesis using refresh_capacity_ok by blast
  next
    case False
    then have "w \<in> set (workers s)"
      using w(1) by (auto simp: refresh_worker_capacity_def db_simps Let_def set_upd_row split: if_splits)
    with False w(2) assms show ?thesis by (auto simp: capacity_except_def)
  qed
qed


lemma release_frame [frame_simps]:
  "runs (release s rid) = runs s"
  "run_events (release s rid) = run_events s"
  "outbox_messages (release s rid) = outbox_messages s"
  "run_logs (release s rid) = run_logs s"
  "run_metrics (release s rid) = run_metrics s"
  "run_parameters (release s rid) = run_parameters s"
  "artifacts (release s rid) = artifacts s"
  "processed_messages (release s rid) = processed_messages s"
  "training_templates (release s rid) = training_templates s"
  "next_uuid (release s rid) = next_uuid s"
  "tx_now (release s rid) = tx_now s"
  "clock (release s rid) = clock s"
  "collation (release s rid) = collation s"
  "users (release s rid) = users s"
  "projects (release s rid) = projects s"
  "experiments (release s rid) = experiments s"
  by (simp_all add: release_allocation_def now_utc_def frame_simps Let_def split: option.split)

lemma release_workers_ids [simp]:
  "map w_id (workers (release s rid)) = map w_id (workers s)"
  "map w_name (workers (release s rid)) = map w_name (workers s)"
  by (simp_all add: release_allocation_def now_utc_def Let_def split: option.split)

lemma release_allocations:
  "resource_allocations (release s rid) =
     (case find (\<lambda>a. a_run_id a = rid \<and> a_released_at a = None) (resource_allocations s) of
        None \<Rightarrow> resource_allocations s
      | Some a \<Rightarrow> upd_row a_id (a_id a) (\<lambda>_. a\<lparr>a_released_at := Some (clock s (ticks s))\<rparr>)
          (resource_allocations s))"
  by (simp add: release_allocation_def now_utc_def Let_def frame_simps split: option.split)

lemma release_active:
  assumes "distinct (map a_id (resource_allocations s))"
    and "distinct (map a_run_id (filter active (resource_allocations s)))"
  shows "filter active (resource_allocations (release s rid)) =
    filter (\<lambda>b. active b \<and> a_run_id b \<noteq> rid) (resource_allocations s)"
proof (cases "find (\<lambda>a. a_run_id a = rid \<and> a_released_at a = None) (resource_allocations s)")
  case None
  then have "\<forall>a\<in>set (resource_allocations s). active a \<longrightarrow> a_run_id a \<noteq> rid"
    by (auto simp: find_None_iff active_def)
  then show ?thesis using None by (auto simp: release_allocations intro: filter_cong)
next
  case (Some a)
  then show ?thesis
    using active_after_release[OF assms Some] by (simp add: release_allocations)
qed

lemma release_activeD:
  assumes "book_inv s" "a \<in> set (resource_allocations (release s rid))" "active a"
  shows "a \<in> set (resource_allocations s) \<and> a_run_id a \<noteq> rid"
proof -
  have "a \<in> set (filter active (resource_allocations (release s rid)))" using assms by simp
  then show ?thesis using assms(1) by (subst (asm) release_active) (auto simp: book_inv_def ids_inv_def)
qed

lemma ball_release_allocations:
  assumes "\<forall>a\<in>set (resource_allocations s). P a" "\<And>a t. P a \<Longrightarrow> P (a\<lparr>a_released_at := t\<rparr>)"
  shows "\<forall>a\<in>set (resource_allocations (release s rid)). P a"
  using assms by (auto simp: release_allocations ball_upd_row split: option.split dest!: find_SomeD)

lemma release_ids [simp]:
  assumes "distinct (map a_id (resource_allocations s))"
  shows "map a_id (resource_allocations (release s rid)) = map a_id (resource_allocations s)"
  using assms by (auto simp: release_allocations intro!: map_upd_row split: option.split)

lemma release_capacity:
  assumes "book_inv s"
  shows "capacity_inv (release s rid)"
proof (cases "find (\<lambda>a. a_run_id a = rid \<and> a_released_at a = None) (resource_allocations s)")
  case None
  then show ?thesis using assms by (simp add: release_allocation_def book_inv_def)
next
  case (Some a)
  have dst: "distinct (map a_id (resource_allocations s))"
    "distinct (map a_run_id (filter active (resource_allocations s)))"
    and cap: "capacity_inv s"
    and wk: "a_worker_id a \<in> w_id ` set (workers s)"
    using assms find_SomeD[OF Some] by (auto simp: book_inv_def ids_inv_def active_def)
  define s2 where "s2 = resource_allocations_update
    (upd_row a_id (a_id a) (\<lambda>_. a\<lparr>a_released_at := Some (clock s (ticks s))\<rparr>))
    (s\<lparr>ticks := Suc (ticks s)\<rparr>)"
  obtain w where w: "get_worker s2 (a_worker_id a) = Some w"
    using wk by (cases "get_worker s2 (a_worker_id a)")
      (auto simp: get_worker_def get_row_None_iff s2_def)
  have rel: "release s rid = refresh_worker_capacity s2 (a_worker_id a)"
    using Some w by (simp add: release_allocation_def now_utc_def Let_def s2_def)
  have act: "filter active (resource_allocations s2) =
      filter (\<lambda>b. active b \<and> a_run_id b \<noteq> rid) (resource_allocations s)"
    using active_after_release[OF dst Some] by (simp add: s2_def)
  have other: "active_of wid (resource_allocations s2) = active_of wid (resource_allocations s)"
    if "wid \<noteq> a_worker_id a" for wid
  proof -
    have "b = a" if "b \<in> set (resource_allocations s)" "active b" "a_run_id b = rid" for b
      using distinct_map_inj[OF dst(2), of b a] that find_SomeD[OF Some] by (simp add: active_def)
    with that show ?thesis
      unfolding active_of_filter act by (auto simp: filter_filter intro!: filter_cong)
  qed
  have "capacity_except {a_worker_id a} s2"
    using cap unfolding capacity_inv_iff capacity_except_def
    by (auto simp: s2_def capacity_ok_def used_cpu_def used_memory_def other[unfolded s2_def, simplified])
  from capacity_except_refresh[OF this, of "a_worker_id a"]
  show ?thesis by (simp add: rel capacity_inv_iff)
qed

lemma release_book_inv [inv_intros]:
  assumes "book_inv s"
  shows "book_inv (release s rid)"
proof -
  have dst: "distinct (map a_id (resource_allocations s))"
    "distinct (map a_run_id (filter active (resource_allocations s)))"
    using assms by (auto simp: book_inv_def ids_inv_def)
  have wids: "w_id ` set (workers (release s rid)) = w_id ` set (workers s)"
    by (metis release_workers_ids(1) set_map)
  have ids: "ids_inv (release s rid)"
    using assms dst ball_release_allocations[of s "\<lambda>a. a_id a < next_uuid s" rid] wids
    by (auto simp: book_inv_def ids_inv_def frame_simps) (metis image_iff)
  have run: "distinct (map a_run_id (filter active (resource_allocations (release s rid))))"
    using dst by (simp add: release_active distinct_map_filter flip: filter_filter)
  have wk: "\<forall>a\<in>set (resource_allocations (release s rid)). active a \<longrightarrow>
      a_worker_id a \<in> w_id ` set (workers (release s rid))"
  proof (intro ballI impI)
    fix a assume a: "a \<in> set (resource_allocations (release s rid))" "active a"
    from release_activeD[OF assms a] a(2) show "a_worker_id a \<in> w_id ` set (workers (release s rid))"
      using assms wids by (simp add: book_inv_def)
  qed
  have nn: "\<forall>a\<in>set (resource_allocations (release s rid)). 0 \<le> a_cpu a \<and> 0 \<le> a_memory_mb a"
    using assms by (intro ball_release_allocations) (auto simp: book_inv_def)
  show ?thesis
    using ids release_capacity[OF assms] run wk nn by (simp add: book_inv_def)
qed

lemma release_leases:
  assumes "book_inv s"
  shows "leases (release s rid) = (leases s)(rid := None)"
  using assms by (intro leases_filter release_active) (auto simp: book_inv_def ids_inv_def)


text \<open>Extending leases changes no active set and no resource amount.\<close>

lemma extend_leases_proj:
  "map a_id (resource_allocations (extend_leases s wid t)) = map a_id (resource_allocations s)"
  "map (\<lambda>a. (a_run_id a, a_worker_id a, a_cpu a, a_memory_mb a, a_released_at a))
     (resource_allocations (extend_leases s wid t)) =
   map (\<lambda>a. (a_run_id a, a_worker_id a, a_cpu a, a_memory_mb a, a_released_at a))
     (resource_allocations s)"
  by (simp_all add: extend_leases_def)

lemma extend_leases_frame [frame_simps]:
  "runs (extend_leases s wid t) = runs s" "workers (extend_leases s wid t) = workers s"
  "run_events (extend_leases s wid t) = run_events s"
  "outbox_messages (extend_leases s wid t) = outbox_messages s"
  "processed_messages (extend_leases s wid t) = processed_messages s"
  "run_logs (extend_leases s wid t) = run_logs s"
  "next_uuid (extend_leases s wid t) = next_uuid s"
  "clock (extend_leases s wid t) = clock s" "ticks (extend_leases s wid t) = ticks s"
  "tx_now (extend_leases s wid t) = tx_now s" "run_parameters (extend_leases s wid t) = run_parameters s"
  "users (extend_leases s wid t) = users s"
  "projects (extend_leases s wid t) = projects s"
  "experiments (extend_leases s wid t) = experiments s"
  by (simp_all add: extend_leases_def)

lemma map_filter_map:
  assumes "\<And>a. P (f a) = P a" "\<And>a. g (f a) = g a"
  shows "map g (filter P (map f as)) = map g (filter P as)"
  using assms by (induction as) auto

lemma extend_active:
  assumes "\<And>a t. g (a\<lparr>a_lease_expires_at := t\<rparr>) = g a"
  shows "map g (filter active (resource_allocations (extend_leases s wid t))) =
    map g (filter active (resource_allocations s))"
    "map g (active_of v (resource_allocations (extend_leases s wid t))) =
    map g (active_of v (resource_allocations s))"
  using assms by (simp_all add: extend_leases_def active_of_def active_def map_filter_map)

lemma extend_used:
  "used_cpu v (resource_allocations (extend_leases s wid t)) = used_cpu v (resource_allocations s)"
  "used_memory v (resource_allocations (extend_leases s wid t)) = used_memory v (resource_allocations s)"
  "length (active_of v (resource_allocations (extend_leases s wid t))) =
     length (active_of v (resource_allocations s))"
  unfolding used_cpu_def used_memory_def
  by (simp_all add: extend_active(2)) (metis extend_active(2)[of "\<lambda>_. ()"] length_map)

lemma extend_leases_capacity_ok [simp]:
  "capacity_ok (resource_allocations (extend_leases s wid t)) = capacity_ok (resource_allocations s)"
  by (simp add: capacity_ok_def fun_eq_iff extend_used)

lemma extend_leases_leases [simp]: "leases (extend_leases s wid t) = leases s"
  by (simp add: leases_def extend_active)

lemma ball_extend_leases:
  assumes "\<And>a t. P (a\<lparr>a_lease_expires_at := t\<rparr>) = P a"
  shows "(\<forall>a\<in>set (resource_allocations (extend_leases s wid t)). P a) \<longleftrightarrow>
    (\<forall>a\<in>set (resource_allocations s). P a)"
proof -
  have "(\<forall>b\<in>set (map (\<lambda>a. if a_worker_id a = wid \<and> a_released_at a = None
      then a\<lparr>a_lease_expires_at := t\<rparr> else a) as). P b) \<longleftrightarrow> (\<forall>b\<in>set as. P b)" for as
    using assms by (induction as) auto
  then show ?thesis by (simp add: extend_leases_def)
qed

text \<open>A change to one worker that keeps its identity keeps the book, up to that worker's capacity.\<close>

lemma book_inv_save_worker:
  assumes "book_inv s" "\<And>w. w_id (f w) = w_id w" "\<And>w. w_name (f w) = w_name w"
    and "capacity_inv (save_worker s wid f)"
  shows "book_inv (save_worker s wid f)"
proof -
  have ids: "map w_id (workers (save_worker s wid f)) = map w_id (workers s)"
    "map w_name (workers (save_worker s wid f)) = map w_name (workers s)"
    using assms(2,3) by (simp_all add: db_simps map_upd_row)
  then have "w_id ` set (workers (save_worker s wid f)) = w_id ` set (workers s)"
    by (metis set_map)
  moreover have "\<forall>w\<in>set (workers (save_worker s wid f)). w_id w < next_uuid s"
    using assms(1,2) by (auto simp: book_inv_def ids_inv_def db_simps ball_upd_row)
  ultimately show ?thesis
    using assms(1,4) ids by (simp add: book_inv_def ids_inv_def frame_simps)
qed

lemma capacity_save_worker:
  assumes "capacity_inv s" "\<And>w. w_id (f w) = w_id w"
    and "\<And>w. w_total_cpu (f w) = w_total_cpu w" "\<And>w. w_total_memory_mb (f w) = w_total_memory_mb w"
    and "\<And>w. w_available_cpu (f w) = w_available_cpu w"
    and "\<And>w. w_available_memory_mb (f w) = w_available_memory_mb w"
    and "\<And>w. w_current_run_count (f w) = w_current_run_count w"
  shows "capacity_inv (save_worker s wid f)"
  using assms by (simp add: capacity_inv_def list_all_iff db_simps frame_simps ball_upd_row capacity_ok_def)

lemma refresh_book_inv [inv_intros]:
  assumes "book_inv s"
  shows "book_inv (refresh_worker_capacity s wid)"
proof -
  have "capacity_inv (refresh_worker_capacity s wid)"
    using capacity_except_refresh[of "{}" s wid] assms by (simp add: book_inv_def capacity_inv_iff)
  with assms show ?thesis
    unfolding refresh_worker_capacity_def Let_def by (intro book_inv_save_worker) auto
qed

lemma extend_leases_book_inv [inv_intros]:
  assumes "book_inv s"
  shows "book_inv (extend_leases s wid t)"
  using assms
  by (simp add: book_inv_def ids_inv_def capacity_inv_def frame_simps extend_leases_proj extend_active
      ball_extend_leases active_def)

lemma heartbeat_book_inv [inv_intros]:
  assumes "book_inv s"
  shows "book_inv (snd (heartbeat_worker s wid n))"
proof -
  have "book_inv (s\<lparr>ticks := k\<rparr>)" for k
    using assms by (simp add: book_inv_def ids_inv_def capacity_inv_def)
  then have "book_inv (save_worker (s\<lparr>ticks := k\<rparr>) wid (\<lambda>w. w\<lparr>w_status := ONLINE, w_last_heartbeat_at := t\<rparr>))"
    for k t
    by (intro book_inv_save_worker capacity_save_worker) (auto simp: book_inv_def)
  then show ?thesis
    using assms by (simp add: heartbeat_worker_def now_utc_def Let_def extend_leases_book_inv
        refresh_book_inv split: option.split)
qed


lemma register_book_inv [inv_intros]:
  assumes "book_inv s"
    and "0 \<le> c" "0 \<le> m"
  shows "book_inv (snd (register_worker s name c m))"
proof (cases "find (\<lambda>w. w_name w = name) (workers s)")
  case None
  then have fresh: "name \<notin> w_name ` set (workers s)"
    by (auto simp: find_None_iff)
  let ?n = "next_uuid s"
  have nid: "?n \<notin> w_id ` set (workers s)"
    using assms(1) by (auto simp: book_inv_def ids_inv_def)
  have "a_worker_id a \<noteq> ?n" if "a \<in> set (resource_allocations s)" "active a" for a
    using assms(1) nid that unfolding book_inv_def by metis
  then have nocap: "active_of ?n (resource_allocations s) = []"
    by (auto simp: active_of_def active_def filter_empty_conv)
  show ?thesis
    using assms None fresh nocap nid
    by (auto simp: register_worker_def now_utc_def uuid4_def book_inv_def ids_inv_def capacity_inv_def
        capacity_ok_def used_cpu_def used_memory_def less_Suc_eq Let_def)
next
  case (Some w)
  let ?f = "\<lambda>t w. w\<lparr>w_status := ONLINE, w_total_cpu := c, w_total_memory_mb := m, w_last_heartbeat_at := t\<rparr>"
  let ?s = "\<lambda>t. save_worker (s\<lparr>ticks := Suc (ticks s)\<rparr>) (w_id w) (?f t)"
  have ids: "map w_id (workers (?s t)) = map w_id (workers s)"
    "map w_name (workers (?s t)) = map w_name (workers s)" for t
    by (simp_all add: db_simps map_upd_row)
  have img: "w_id ` set (workers (?s t)) = w_id ` set (workers s)" for t
    by (metis ids(1) set_map)
  have "capacity_except {w_id w} (?s t)" for t
    using assms(1) unfolding capacity_except_def
    by (simp add: book_inv_def capacity_inv_def list_all_iff db_simps frame_simps ball_upd_row)
  from capacity_except_refresh[OF this, where wid = "w_id w"]
  have cap: "capacity_inv (refresh_worker_capacity (?s t) (w_id w))" for t
    by (simp add: capacity_inv_iff)
  have img': "w_id ` set (workers (refresh_worker_capacity (?s t) (w_id w))) = w_id ` set (workers s)" for t
    by (metis img refresh_workers_ids(1) set_map)
  have lt: "\<forall>v\<in>set (workers (refresh_worker_capacity (?s t) (w_id w))). w_id v < next_uuid s" for t
  proof
    fix v assume "v \<in> set (workers (refresh_worker_capacity (?s t) (w_id w)))"
    then have "w_id v \<in> w_id ` set (workers s)" using img' by blast
    then show "w_id v < next_uuid s" using assms(1) by (auto simp: book_inv_def ids_inv_def)
  qed
  have "book_inv (refresh_worker_capacity (?s t) (w_id w))" for t
    using assms(1) cap[of t] img'[of t] lt[of t]
    by (simp add: book_inv_def ids_inv_def frame_simps ids)
  then show ?thesis
    using Some by (simp add: register_worker_def now_utc_def Let_def)
qed


section \<open>The lease book as an interface\<close>

text \<open>
  What a client that finishes runs relies on: releasing a run removes its lease, if it has one, and
  nothing else, keeps the book, and does not touch the runs.
\<close>

locale lease_book =
  fixes inv :: "'s \<Rightarrow> bool"
    and view :: "'s \<Rightarrow> uuid \<Rightarrow> 'l option"
    and free :: "'s \<Rightarrow> uuid \<Rightarrow> 's"
  assumes inv_free: "inv s \<Longrightarrow> inv (free s rid)"
    and view_free: "inv s \<Longrightarrow> view (free s rid) = (view s)(rid := None)"
begin

lemma inv_free_all: "inv s \<Longrightarrow> inv (fold (\<lambda>rid s. free s rid) rids s)"
  by (induction rids arbitrary: s) (auto intro: inv_free)

lemma view_free_all:
  "inv s \<Longrightarrow> view (fold (\<lambda>rid s. free s rid) rids s) rid =
    (if rid \<in> set rids then None else view s rid)"
  by (induction rids arbitrary: s) (auto simp: view_free inv_free)

lemma free_idem_view: "inv s \<Longrightarrow> view (free (free s rid) rid) = view (free s rid)"
  by (simp add: view_free inv_free)

end

interpretation book: lease_book book_inv leases release
  by unfold_locales (simp_all add: release_book_inv release_leases)


section \<open>Properties of the registry\<close>

lemma demo_book_inv: "book_inv demo_db"
  by (simp add: book_inv_def ids_inv_def capacity_inv_def capacity_ok_def used_cpu_def used_memory_def
      active_of_def active_def demo_defs)

text \<open>
  C7. Releasing a run's lease refines the deletion of the run from the lease map: the book
  invariant is kept (so the worker's free capacity is recomputed correctly), the run's lease is gone,
  every other lease is as before, and a second release changes nothing.
\<close>

theorem release_allocation_refines:
  assumes "book_inv s"
  shows "book_inv (snd (release_allocation s rid)) \<and>
    leases (snd (release_allocation s rid)) = (leases s)(rid := None) \<and>
    (fst (release_allocation s rid) = None \<longleftrightarrow> leases s rid = None) \<and>
    release_allocation (snd (release_allocation s rid)) rid = (None, snd (release_allocation s rid))"
proof -
  have none: "fst (release_allocation s' rid) = None \<longleftrightarrow> leases s' rid = None" for s'
    by (auto simp: release_allocation_def Let_def leases_None_iff find_None_iff active_def now_utc_def
        split: option.splits dest: find_SomeD)
  have noop: "release_allocation s' rid = (None, s')" if "fst (release_allocation s' rid) = None" for s'
    using that by (auto simp: release_allocation_def Let_def now_utc_def split: option.splits)
  have "leases (release s rid) rid = None" using book.view_free[OF assms] by simp
  with none noop have "release_allocation (release s rid) rid = (None, release s rid)" by simp
  then show ?thesis
    using assms none[of s] by (simp add: book.inv_free book.view_free)
qed

theorem release_allocation_refines_witness:
  "book_inv demo_db \<and> leases demo_db 11 = Some (5, 1, 512) \<and>
   leases (snd (release_allocation demo_db 11)) 11 = None"
  using release_allocation_refines[OF demo_book_inv, of 11] demo_book_inv
  by (simp add: leases_def active_def demo_defs)

text \<open>
  C8. A heartbeat of a known worker marks it online at the time of the call, pushes the expiry of
  exactly its own active leases to that time plus the lease length, keeps the lease map and leaves
  the whole book consistent; a heartbeat of an unknown worker changes nothing.
\<close>

lemma get_worker_refresh:
  "get_worker (refresh_worker_capacity s wid) v =
    (if v = wid then map_option (\<lambda>w. touch_worker (tx_now s) w
        (w\<lparr>w_available_cpu := max 0 (w_total_cpu w - used_cpu wid (resource_allocations s)),
           w_available_memory_mb := max 0 (w_total_memory_mb w - used_memory wid (resource_allocations s)),
           w_current_run_count := int (length (active_of wid (resource_allocations s)))\<rparr>)) (get_worker s wid)
     else get_worker s v)"
  by (simp add: refresh_worker_capacity_def Let_def get_worker_save_worker)

theorem heartbeat_worker_spec:
  assumes "book_inv s" "get_worker s wid = Some w"
  shows "book_inv (snd (heartbeat_worker s wid n)) \<and>
    leases (snd (heartbeat_worker s wid n)) = leases s \<and>
    resource_allocations (snd (heartbeat_worker s wid n)) =
      map (\<lambda>a. if a_worker_id a = wid \<and> active a then a\<lparr>a_lease_expires_at := clock s (ticks s) + secs n\<rparr> else a)
        (resource_allocations s) \<and>
    (\<exists>w'. fst (heartbeat_worker s wid n) = Some w' \<and> get_worker (snd (heartbeat_worker s wid n)) wid = Some w' \<and>
       w_status w' = ONLINE \<and> w_last_heartbeat_at w' = clock s (ticks s) \<and>
       w_available_cpu w' = max 0 (w_total_cpu w - used_cpu wid (resource_allocations s))) \<and>
    (\<forall>v. v \<noteq> wid \<longrightarrow> get_worker (snd (heartbeat_worker s wid n)) v = get_worker s v)"
proof -
  let ?s1 = "s\<lparr>ticks := Suc (ticks s)\<rparr>"
  let ?s2 = "save_worker ?s1 wid (\<lambda>w. w\<lparr>w_status := ONLINE, w_last_heartbeat_at := clock s (ticks s)\<rparr>)"
  let ?s3 = "extend_leases ?s2 wid (clock s (ticks s) + secs n)"
  let ?s4 = "refresh_worker_capacity ?s3 wid"
  have eq: "heartbeat_worker s wid n = (get_worker ?s4 wid, ?s4)"
    using assms(2) by (simp add: heartbeat_worker_def now_utc_def Let_def)
  have gw1: "get_worker ?s1 = get_worker s" by (simp add: get_worker_def fun_eq_iff)
  have gw3: "get_worker ?s3 = get_worker ?s2" by (simp add: get_worker_def fun_eq_iff frame_simps)
  have ra: "resource_allocations ?s3 =
      map (\<lambda>a. if a_worker_id a = wid \<and> active a then a\<lparr>a_lease_expires_at := clock s (ticks s) + secs n\<rparr> else a)
        (resource_allocations s)"
    by (simp add: extend_leases_def active_def frame_simps)
  have used: "used_cpu wid (resource_allocations ?s3) = used_cpu wid (resource_allocations s)"
    by (simp add: extend_used frame_simps)
  have "leases ?s4 = leases ?s3" by (simp add: leases_def frame_simps)
  also have "\<dots> = leases s" by (simp add: leases_def[of ?s2] leases_def[of s] frame_simps)
  finally have ls: "leases ?s4 = leases s" .
  have w': "\<exists>w'. get_worker ?s4 wid = Some w' \<and> w_status w' = ONLINE \<and> w_last_heartbeat_at w' = clock s (ticks s) \<and>
       w_available_cpu w' = max 0 (w_total_cpu w - used_cpu wid (resource_allocations s))"
    using assms(2) by (simp add: get_worker_refresh gw3 get_worker_save_worker gw1 used)
  have oth: "get_worker ?s4 v = get_worker s v" if "v \<noteq> wid" for v
    using that by (simp add: get_worker_refresh gw3 get_worker_save_worker gw1)
  have bk: "book_inv ?s4" using heartbeat_book_inv[OF assms(1), of wid n] by (simp add: eq)
  have ra4: "resource_allocations ?s4 = resource_allocations ?s3" by (simp add: frame_simps)
  show ?thesis using bk ls w' oth ra unfolding eq fst_conv snd_conv ra4 by blast
qed

theorem heartbeat_worker_spec_witness:
  "get_worker demo_db 5 = Some demo_worker \<and> book_inv (snd (heartbeat_worker demo_db 5 30))"
  using heartbeat_worker_spec[OF demo_book_inv, of 5 demo_worker 30]
  by (simp add: get_worker_def demo_defs)

text \<open>
  Registering a worker by name creates it with all its capacity free, or, when the name is
  known, updates the totals and recomputes the free capacity under the leases it still holds; either
  way the book stays consistent, no lease is touched, and the returned worker is online.
\<close>

theorem register_worker_spec:
  assumes "book_inv s" "0 \<le> c" "0 \<le> m"
  shows "book_inv (snd (register_worker s name c m)) \<and>
    leases (snd (register_worker s name c m)) = leases s \<and>
    (\<exists>w. fst (register_worker s name c m) = Some w \<and> w_name w = name \<and> w_status w = ONLINE \<and>
       w_total_cpu w = c \<and> w_total_memory_mb w = m \<and> w_last_heartbeat_at w = clock s (ticks s) \<and>
       w_available_cpu w = max 0 (c - used_cpu (w_id w) (resource_allocations s)))"
proof (cases "find (\<lambda>w. w_name w = name) (workers s)")
  case None
  have nid: "next_uuid s \<notin> w_id ` set (workers s)"
    using assms(1) by (auto simp: book_inv_def ids_inv_def)
  have "a_worker_id a \<noteq> next_uuid s" if "a \<in> set (resource_allocations s)" "active a" for a
    using assms(1) nid that unfolding book_inv_def by metis
  then have "active_of (next_uuid s) (resource_allocations s) = []"
    by (auto simp: active_of_def active_def filter_empty_conv)
  with None assms(2) register_book_inv[OF assms, of name] show ?thesis
    by (simp add: register_worker_def now_utc_def uuid4_def Let_def leases_def used_cpu_def)
next
  case (Some w)
  have w: "w \<in> set (workers s)" "w_name w = name" using find_SomeD[OF Some] by auto
  have "get_worker s (w_id w) = Some w"
    using assms(1) w(1) by (auto simp: get_worker_def book_inv_def ids_inv_def intro: get_row_in)
  moreover have "get_worker (s\<lparr>ticks := k\<rparr>) = get_worker s" for k by (simp add: get_worker_def fun_eq_iff)
  ultimately show ?thesis
    using Some w(2) register_book_inv[OF assms, of name]
    by (simp add: register_worker_def now_utc_def Let_def leases_def frame_simps get_worker_refresh
        get_worker_save_worker)
qed

theorem register_worker_spec_witness:
  "book_inv (snd (register_worker demo_db ''worker-local-1'' 2 4096))"
  using register_worker_spec[OF demo_book_inv, of 2 4096 "''worker-local-1''"] by simp

end
