(* ===== verification/Lifecycle.thy ===== *)
theory Lifecycle
  imports Worker_Registry
begin

text \<open>
  How a run's status and its lease go together. A run is busy while it is \<open>SCHEDULING\<close>, \<open>RUNNING\<close>
  or \<open>CANCELLING\<close>; the lifecycle invariant says that exactly the busy runs hold an active lease, that
  the lease is with the worker the run is assigned to, that the book and the audit trail are in
  order. Every service operation is shown to keep it.
\<close>

definition busy :: "run_status \<Rightarrow> bool" where
  "busy t \<longleftrightarrow> t \<in> {SCHEDULING, RUNNING, CANCELLING}"

definition status_inv :: "db \<Rightarrow> bool" where
  "status_inv s \<longleftrightarrow>
     (\<forall>r\<in>set (runs s). case leases s (r_id r) of
        None \<Rightarrow> \<not> busy (r_status r)
      | Some (wid, c, m) \<Rightarrow> busy (r_status r) \<and> r_assigned_worker_id r = Some wid) \<and>
     (\<forall>a\<in>set (resource_allocations s). active a \<longrightarrow> a_run_id a \<in> r_id ` set (runs s))"

lemma status_invD:
  "status_inv s \<Longrightarrow> r \<in> set (runs s) \<Longrightarrow>
   (case leases s (r_id r) of None \<Rightarrow> \<not> busy (r_status r)
    | Some (wid, c, m) \<Rightarrow> busy (r_status r) \<and> r_assigned_worker_id r = Some wid)"
  by (simp add: status_inv_def)

text \<open>Requests are positive: the request schema demands at least 0.1 CPU and 128 MB.\<close>

definition request_inv :: "db \<Rightarrow> bool" where
  "request_inv s \<longleftrightarrow> (\<forall>r\<in>set (runs s). 0 < r_requested_cpu r \<and> 0 < r_requested_memory_mb r)"

definition lifecycle_inv :: "db \<Rightarrow> bool" where
  "lifecycle_inv s \<longleftrightarrow> book_inv s \<and> status_inv s \<and> audit_inv s \<and> request_inv s"

text \<open>
  The pattern of every status change: \<open>transition_run\<close>, further attribute assignments \<open>f\<close> on the
  object, and the flush that the next query or the commit performs.
\<close>

definition transition_and_flush ::
  "db \<Rightarrow> run \<Rightarrow> run_status \<Rightarrow> string \<Rightarrow> dict \<Rightarrow> (run \<Rightarrow> run) \<Rightarrow> (run \<times> db) res" where
  "transition_and_flush s r target event_type metadata f =
     res_bind (transition_run s r target event_type metadata) (\<lambda>(r1, s1). flush_run s1 (f r1))"

lemma no_self_transition: "t \<in> set (VALID_TRANSITIONS p) \<Longrightarrow> t \<noteq> p"
  by (cases p) auto

text \<open>The object moved by a status change, and the state after it.\<close>

definition moved :: "db \<Rightarrow> run \<Rightarrow> run_status \<Rightarrow> (run \<Rightarrow> run) \<Rightarrow> run" where
  "moved s r t f = (f (stamp_run (clock s (ticks s)) t r))\<lparr>r_version := r_version r + 1\<rparr>"

definition after_move :: "db \<Rightarrow> run \<Rightarrow> run_status \<Rightarrow> string \<Rightarrow> dict \<Rightarrow> (run \<Rightarrow> run) \<Rightarrow> db" where
  "after_move s r t ty md f =
     runs_update (upd_row r_id (r_id r) (\<lambda>_. moved s r t f))
       (add_event (s\<lparr>ticks := Suc (ticks s)\<rparr>) (r_id r) ty (Some (r_status r)) (Some t) md)"

definition keeps_core :: "(run \<Rightarrow> run) \<Rightarrow> bool" where
  "keeps_core f \<longleftrightarrow> (\<forall>r. r_id (f r) = r_id r \<and> r_status (f r) = r_status r \<and>
     r_version (f r) = r_version r \<and> r_requested_cpu (f r) = r_requested_cpu r \<and>
     r_requested_memory_mb (f r) = r_requested_memory_mb r \<and> r_experiment_id (f r) = r_experiment_id r \<and>
     r_template_id (f r) = r_template_id r)"

lemma moved_simps [simp]:
  assumes "keeps_core f"
  shows "r_id (moved s r t f) = r_id r" "r_status (moved s r t f) = t"
    "r_requested_cpu (moved s r t f) = r_requested_cpu r"
    "r_requested_memory_mb (moved s r t f) = r_requested_memory_mb r"
    "r_version (moved s r t f) = r_version r + 1" "r_experiment_id (moved s r t f) = r_experiment_id r"
    "r_template_id (moved s r t f) = r_template_id r"
  using assms by (simp_all add: moved_def keeps_core_def)

text \<open>
  A status change by an object whose version is the stored one succeeds exactly when the table
  allows it; a stale object never gets its change in.
\<close>

lemma transition_and_flush_ok:
  assumes "get_run s (r_id r) = Some d" "r_version d = r_version r" "r_status d = r_status r"
    and "t \<in> set (VALID_TRANSITIONS (r_status r))" "keeps_core f"
  shows "transition_and_flush s r t ty md f = Inr (moved s r t f, after_move s r t ty md f)"
proof -
  let ?r1 = "stamp_run (clock s (ticks s)) t r"
  let ?s1 = "add_event (s\<lparr>ticks := Suc (ticks s)\<rparr>) (r_id r) ty (Some (r_status r)) (Some t) md"
  have f: "r_id (f ?r1) = r_id r" "r_version (f ?r1) = r_version d" "r_status (f ?r1) = t"
    using assms by (simp_all add: keeps_core_def)
  have "f ?r1 \<noteq> d"
    using f(3) assms(3) no_self_transition[OF assms(4)] by auto
  moreover have "get_run ?s1 (r_id (f ?r1)) = Some d"
    using assms(1) f by (simp add: get_run_def)
  ultimately have "flush_run ?s1 (f ?r1) = Inr (moved s r t f, after_move s r t ty md f)"
    using f assms(2) by (simp add: flush_run_loaded moved_def after_move_def)
  then show ?thesis
    using assms(4) by (simp add: transition_and_flush_def transition_run_valid)
qed

lemma transition_and_flush_stale:
  assumes "get_run s (r_id r) = Some d" "r_version d \<noteq> r_version r" "keeps_core f"
    and "t \<in> set (VALID_TRANSITIONS (r_status r))"
  shows "transition_and_flush s r t ty md f = Inl StaleDataError"
proof -
  have "r_version (f (stamp_run x t r)) = r_version r" "r_id (f (stamp_run x t r)) = r_id r" for x
    using assms(3) by (simp_all add: keeps_core_def)
  with assms show ?thesis
    by (auto simp: transition_and_flush_def transition_run_valid flush_run_def get_run_def frame_simps)
qed

lemma transition_and_flush_invalid:
  assumes "t \<notin> set (VALID_TRANSITIONS (r_status r))"
  shows "\<exists>e. transition_and_flush s r t ty md f = Inl e"
  using assms by (simp add: transition_and_flush_def transition_run_def validate_transition_def)

lemma after_move_frame [frame_simps]:
  "workers (after_move s r t ty md f) = workers s"
  "resource_allocations (after_move s r t ty md f) = resource_allocations s"
  "outbox_messages (after_move s r t ty md f) = outbox_messages s"
  "run_logs (after_move s r t ty md f) = run_logs s"
  "run_metrics (after_move s r t ty md f) = run_metrics s"
  "run_parameters (after_move s r t ty md f) = run_parameters s"
  "artifacts (after_move s r t ty md f) = artifacts s"
  "processed_messages (after_move s r t ty md f) = processed_messages s"
  "training_templates (after_move s r t ty md f) = training_templates s"
  "next_uuid (after_move s r t ty md f) = Suc (next_uuid s)"
  "tx_now (after_move s r t ty md f) = tx_now s"
  "clock (after_move s r t ty md f) = clock s"
  "ticks (after_move s r t ty md f) = Suc (ticks s)"
  "collation (after_move s r t ty md f) = collation s"
  "users (after_move s r t ty md f) = users s"
  "projects (after_move s r t ty md f) = projects s"
  "experiments (after_move s r t ty md f) = experiments s"
  "leases (after_move s r t ty md f) = leases s"
  by (simp_all add: after_move_def frame_simps leases_def)

lemma runs_after_move [db_simps]:
  "runs (after_move s r t ty md f) = upd_row r_id (r_id r) (\<lambda>_. moved s r t f) (runs s)"
  by (simp add: after_move_def frame_simps)

lemma run_ids_after_move:
  assumes "keeps_core f"
  shows "map r_id (runs (after_move s r t ty md f)) = map r_id (runs s)"
    and "r_id ` set (runs (after_move s r t ty md f)) = r_id ` set (runs s)"
proof -
  show "map r_id (runs (after_move s r t ty md f)) = map r_id (runs s)"
    using assms by (simp add: db_simps map_upd_row)
  from arg_cong[OF this, of set]
  show "r_id ` set (runs (after_move s r t ty md f)) = r_id ` set (runs s)" by simp
qed

lemma get_run_after_move:
  assumes "keeps_core f"
  shows "get_run (after_move s r t ty md f) rid =
    (if rid = r_id r then map_option (\<lambda>_. moved s r t f) (get_run s rid) else get_run s rid)"
  using assms by (simp add: get_run_def db_simps get_row_upd_row_same get_row_upd_row_other)

lemma run_events_after_move [db_simps]:
  "run_events (after_move s r t ty md f) = run_events s @
     [\<lparr>e_id = next_uuid s, e_run_id = r_id r, e_event_type = ty,
       e_previous_status = Some (r_status r), e_new_status = Some t, e_event_metadata = md,
       e_created_at = tx_now s\<rparr>]"
  by (simp add: after_move_def db_simps)


section \<open>Status changes and the invariant\<close>

lemma book_inv_after_move:
  assumes "book_inv s" "keeps_core f"
  shows "book_inv (after_move s r t ty md f)"
proof -
  have "map r_id (runs (after_move s r t ty md f)) = map r_id (runs s)"
    using assms(2) by (simp add: db_simps map_upd_row)
  moreover have "\<forall>q\<in>set (runs (after_move s r t ty md f)). r_id q < Suc (next_uuid s)"
    using assms by (auto simp: db_simps ball_upd_row book_inv_def ids_inv_def)
  ultimately show ?thesis
    using assms(1) by (auto simp: book_inv_def ids_inv_def capacity_inv_def frame_simps less_Suc_eq)
qed

lemma audit_inv_after_move:
  assumes "audit_inv s" "distinct (map r_id (runs s))" "get_run s (r_id r) = Some d"
    and "r_status d = r_status r" "t \<in> set (VALID_TRANSITIONS (r_status r))" "keeps_core f"
  shows "audit_inv (after_move s r t ty md f)"
  by (rule audit_inv_transition[OF assms(1-5) runs_after_move _ _ run_events_after_move])
    (use assms(6) in simp_all)

lemma request_inv_after_move:
  assumes "request_inv s" "get_run s (r_id r) = Some d" "keeps_core f"
    and "r_requested_cpu d = r_requested_cpu r" "r_requested_memory_mb d = r_requested_memory_mb r"
  shows "request_inv (after_move s r t ty md f)"
  using assms get_run_SomeD[OF assms(2)]
  by (auto simp: request_inv_def db_simps ball_upd_row)

text \<open>The rows of the other runs are untouched by a status change.\<close>

lemma ball_runs_after_move:
  assumes "keeps_core f" "get_run s (r_id r) = Some d" "distinct (map r_id (runs s))"
  shows "(\<forall>q\<in>set (runs (after_move s r t ty md f)). P q) \<longleftrightarrow>
    P (moved s r t f) \<and> (\<forall>q\<in>set (runs s). r_id q \<noteq> r_id r \<longrightarrow> P q)"
proof -
  have "\<exists>q\<in>set (runs s). r_id q = r_id r" using get_run_SomeD[OF assms(2)] by blast
  then show ?thesis by (auto simp: db_simps ball_upd_row)
qed

text \<open>
  Finishing or requeueing a run: the run leaves the busy statuses and its lease is released in the
  same transaction.
\<close>

lemma lifecycle_inv_finish:
  assumes inv: "lifecycle_inv s" and get: "get_run s (r_id r) = Some d"
    and same: "r_status d = r_status r" "r_requested_cpu d = r_requested_cpu r"
      "r_requested_memory_mb d = r_requested_memory_mb r"
    and t: "t \<in> set (VALID_TRANSITIONS (r_status r))" "\<not> busy t" and f: "keeps_core f"
  shows "lifecycle_inv (release (after_move s r t ty md f) (r_id r))"
proof -
  let ?s = "after_move s r t ty md f"
  have dst: "distinct (map r_id (runs s))" and book: "book_inv s"
    using inv by (auto simp: lifecycle_inv_def book_inv_def ids_inv_def)
  have b: "book_inv ?s" using book f by (rule book_inv_after_move)
  have ls: "leases (release ?s (r_id r)) = (leases s)(r_id r := None)"
    using book.view_free[OF b, of "r_id r"] by (simp add: frame_simps)
  have rids: "r_id ` set (runs ?s) = r_id ` set (runs s)"
    by (rule run_ids_after_move(2)[OF f])
  have "status_inv (release ?s (r_id r))"
    unfolding status_inv_def
  proof
    show "\<forall>q\<in>set (runs (release ?s (r_id r))). case leases (release ?s (r_id r)) (r_id q) of
        None \<Rightarrow> \<not> busy (r_status q)
      | Some (wid, c, m) \<Rightarrow> busy (r_status q) \<and> r_assigned_worker_id q = Some wid"
      unfolding frame_simps ball_runs_after_move[OF f get dst]
      using inv t(2) f by (simp add: ls lifecycle_inv_def status_inv_def)
    show "\<forall>a\<in>set (resource_allocations (release ?s (r_id r))). active a \<longrightarrow>
        a_run_id a \<in> r_id ` set (runs (release ?s (r_id r)))"
    proof (intro ballI impI)
      fix a assume a: "a \<in> set (resource_allocations (release ?s (r_id r)))" "active a"
      from release_activeD[OF b a] a(2) show "a_run_id a \<in> r_id ` set (runs (release ?s (r_id r)))"
        using inv rids by (simp add: frame_simps lifecycle_inv_def status_inv_def)
    qed
  qed
  moreover have "book_inv (release ?s (r_id r))" using b by (rule book.inv_free)
  moreover have "audit_inv ?s" "request_inv ?s"
    using inv by (auto simp: lifecycle_inv_def
        intro: audit_inv_after_move[OF _ dst get same(1) t(1) f] request_inv_after_move[OF _ get f same(2,3)])
  then have "audit_inv (release ?s (r_id r))" "request_inv (release ?s (r_id r))"
    unfolding audit_inv_def request_inv_def frame_simps by blast+
  ultimately show ?thesis by (simp add: lifecycle_inv_def)
qed

text \<open>Starting or cancelling a run: it stays busy and keeps its lease.\<close>

lemma lifecycle_inv_stay:
  assumes inv: "lifecycle_inv s" and get: "get_run s (r_id r) = Some d"
    and same: "r_status d = r_status r" "r_requested_cpu d = r_requested_cpu r"
      "r_requested_memory_mb d = r_requested_memory_mb r" "r_assigned_worker_id d = r_assigned_worker_id r"
    and t: "t \<in> set (VALID_TRANSITIONS (r_status r))" "busy t \<longleftrightarrow> busy (r_status r)" and f: "keeps_core f"
    and asg: "r_assigned_worker_id (moved s r t f) = r_assigned_worker_id r"
  shows "lifecycle_inv (after_move s r t ty md f)"
proof -
  let ?s = "after_move s r t ty md f"
  have dst: "distinct (map r_id (runs s))" and book: "book_inv s"
    using inv by (auto simp: lifecycle_inv_def book_inv_def ids_inv_def)
  have d: "d \<in> set (runs s)" "r_id d = r_id r" using get_run_SomeD[OF get] by auto
  have rids: "r_id ` set (runs ?s) = r_id ` set (runs s)"
    by (rule run_ids_after_move(2)[OF f])
  have "case leases s (r_id r) of None \<Rightarrow> \<not> busy (r_status r)
      | Some (wid, c, m) \<Rightarrow> busy (r_status r) \<and> r_assigned_worker_id r = Some wid"
    using status_invD[of s d] inv d same by (auto simp: lifecycle_inv_def split: option.splits)
  then have "status_inv ?s"
    unfolding status_inv_def frame_simps ball_runs_after_move[OF f get dst] rids
    using inv t(2) f asg by (auto simp: lifecycle_inv_def status_inv_def split: option.splits)
  then show ?thesis
    using inv by (auto simp: lifecycle_inv_def intro: book_inv_after_move[OF _ f]
        audit_inv_after_move[OF _ dst get same(1) t(1) f] request_inv_after_move[OF _ get f same(2,3)])
qed

lemma demo_lifecycle_inv: "lifecycle_inv demo_db"
  unfolding lifecycle_inv_def using demo_book_inv demo_audit_inv
  by (simp add: status_inv_def request_inv_def leases_def active_def busy_def demo_defs)



section \<open>What every session respects\<close>

text \<open>
  Run rows are never deleted, and every change of a row raises its version (\<open>version_id_col\<close>).
\<close>

definition evolves :: "db \<Rightarrow> db \<Rightarrow> bool" where
  "evolves s s' \<longleftrightarrow> (\<forall>rid d. get_run s rid = Some d \<longrightarrow>
     (\<exists>d'. get_run s' rid = Some d' \<and> r_version d \<le> r_version d' \<and> (r_version d' = r_version d \<longrightarrow> d' = d)))"

lemma evolves_runs: "runs s' = runs s \<Longrightarrow> evolves s s'"
  by (simp add: evolves_def get_run_def)

lemma evolves_refl [simp]: "evolves s s"
  by (simp add: evolves_runs)

lemma evolves_trans:
  assumes "evolves s s1" "evolves s1 s2"
  shows "evolves s s2"
  unfolding evolves_def
proof (intro allI impI)
  fix rid d assume "get_run s rid = Some d"
  then obtain d1 where d1: "get_run s1 rid = Some d1" "r_version d \<le> r_version d1" "r_version d1 = r_version d \<longrightarrow> d1 = d"
    using assms(1) by (auto simp: evolves_def)
  then obtain d2 where d2: "get_run s2 rid = Some d2" "r_version d1 \<le> r_version d2" "r_version d2 = r_version d1 \<longrightarrow> d2 = d1"
    using assms(2) by (auto simp: evolves_def)
  have "d2 = d" if "r_version d2 = r_version d"
  proof -
    have "r_version d1 = r_version d" using that d1(2) d2(2) by linarith
    then show ?thesis using that d1(3) d2(3) by simp
  qed
  then show "\<exists>d'. get_run s2 rid = Some d' \<and> r_version d \<le> r_version d' \<and> (r_version d' = r_version d \<longrightarrow> d' = d)"
    using d1 d2 by auto
qed

text \<open>
  Progress on the runs that exist: none is added, each keeps its identifier, experiment and template, events are
  only appended, for existing runs, and the catalog and the parameters stay.
\<close>

definition run_refs :: "db \<Rightarrow> (uuid \<times> uuid \<times> uuid) list" where
  "run_refs s = map (\<lambda>r. (r_id r, r_experiment_id r, r_template_id r)) (runs s)"

definition progress :: "db \<Rightarrow> db \<Rightarrow> bool" where
  "progress s s' \<longleftrightarrow> run_refs s' = run_refs s \<and>
     (\<exists>es. run_events s' = run_events s @ es \<and> e_run_id ` set es \<subseteq> r_id ` set (runs s)) \<and>
     run_parameters s' = run_parameters s \<and> users s' = users s \<and> projects s' = projects s \<and>
     experiments s' = experiments s \<and> next_uuid s \<le> next_uuid s' \<and> evolves s s'"

lemma run_refs_ids: "run_refs s' = run_refs s \<Longrightarrow> r_id ` set (runs s') = r_id ` set (runs s)"
proof -
  have "r_id ` set (runs t) = fst ` set (run_refs t)" for t by (force simp: run_refs_def)
  then show "run_refs s' = run_refs s \<Longrightarrow> ?thesis" by simp
qed

lemma progress_refl [simp]: "progress s s"
  by (simp add: progress_def)

lemma progress_trans [trans]:
  assumes "progress s s1" "progress s1 s2"
  shows "progress s s2"
proof -
  have "r_id ` set (runs s1) = r_id ` set (runs s)" using assms(1) by (intro run_refs_ids) (simp add: progress_def)
  moreover have "evolves s s2" using assms by (auto simp: progress_def intro: evolves_trans)
  moreover obtain es fs where "run_events s1 = run_events s @ es" "run_events s2 = run_events s1 @ fs"
      "e_run_id ` set es \<subseteq> r_id ` set (runs s)" "e_run_id ` set fs \<subseteq> r_id ` set (runs s1)"
    using assms unfolding progress_def by blast
  then have "run_events s2 = run_events s @ (es @ fs) \<and> e_run_id ` set (es @ fs) \<subseteq> r_id ` set (runs s1) \<union> r_id ` set (runs s)"
    by auto
  ultimately show ?thesis using assms unfolding progress_def by (metis Un_absorb order_trans)
qed

text \<open>Writes to other tables, a status change, and a release are progress.\<close>

lemma progress_frame:
  assumes "runs s' = runs s" "run_events s' = run_events s" "run_parameters s' = run_parameters s"
    and "users s' = users s" "projects s' = projects s" "experiments s' = experiments s" "next_uuid s \<le> next_uuid s'"
  shows "progress s s'"
  using assms by (simp add: progress_def run_refs_def evolves_runs)

lemma progress_release [simp]: "progress s (release s rid)"
  by (rule progress_frame) (simp_all add: frame_simps)

lemma progress_after_move:
  assumes f: "keeps_core f" and ids: "distinct (map r_id (runs s))" and get: "get_run s (r_id r) = Some d"
    and same: "r_version d = r_version r" "r_experiment_id d = r_experiment_id r" "r_template_id d = r_template_id r"
  shows "progress s (after_move s r t ty md f)"
proof -
  have d: "d \<in> set (runs s)" "r_id d = r_id r" using get_run_SomeD[OF get] by auto
  have "r_experiment_id q = r_experiment_id r \<and> r_template_id q = r_template_id r" if "q \<in> set (runs s)" "r_id q = r_id r" for q
    using key_inj[OF ids that(1) d(1)] that(2) d(2) same(2,3) by simp
  then have "run_refs (after_move s r t ty md f) = run_refs s"
    using f by (simp add: run_refs_def db_simps map_upd_row)
  moreover have "evolves s (after_move s r t ty md f)"
    unfolding evolves_def using f get same(1) by (auto simp: get_run_after_move)
  moreover have "r_id r \<in> r_id ` set (runs s)" using d by (metis image_eqI)
  ultimately show ?thesis by (auto simp: progress_def frame_simps db_simps)
qed


lemma distinct_run_refs: "distinct (map fst (run_refs s)) \<longleftrightarrow> distinct (map r_id (runs s))"
  by (simp add: run_refs_def comp_def)

lemma progress_distinct: "progress s s' \<Longrightarrow> distinct (map r_id (runs s)) \<Longrightarrow> distinct (map r_id (runs s'))"
  unfolding distinct_run_refs[symmetric] by (simp add: progress_def)

lemma run_refs_in: "r \<in> set (runs s) \<Longrightarrow> (r_id r, r_experiment_id r, r_template_id r) \<in> set (run_refs s)"
  by (auto simp: run_refs_def)

lemma progress_add_event:
  assumes "rid \<in> r_id ` set (runs s)"
  shows "progress s (add_event s rid ty p n md)"
  using assms by (simp add: progress_def run_refs_def evolves_runs frame_simps db_simps)

text \<open>A successful flush writes the stored row's next version, or nothing.\<close>

lemma progress_flush:
  assumes flush: "flush_run s r = Inr (r', s')" and ids: "distinct (map r_id (runs s))"
    and ref: "(r_id r, r_experiment_id r, r_template_id r) \<in> set (run_refs s)"
  shows "progress s s'"
proof -
  obtain d where d: "get_run s (r_id r) = Some d" "r_version d = r_version r"
      "r' = (if d = r then r else r\<lparr>r_version := r_version r + 1\<rparr>)"
    by (rule flush_run_Inr[OF flush])
  have rows: "runs s' = upd_row r_id (r_id r) (\<lambda>_. r') (runs s)" by (rule flush_run_rows[OF flush ids])
  have r': "r_id r' = r_id r" "r_experiment_id r' = r_experiment_id r" "r_template_id r' = r_template_id r" using d(3) by auto
  obtain q where q: "q \<in> set (runs s)" "r_id q = r_id r" "r_experiment_id q = r_experiment_id r" "r_template_id q = r_template_id r"
    using ref by (auto simp: run_refs_def)
  have "r_experiment_id p = r_experiment_id r \<and> r_template_id p = r_template_id r" if "p \<in> set (runs s)" "r_id p = r_id r" for p
    using key_inj[OF ids that(1) q(1)] that(2) q by simp
  then have "run_refs s' = run_refs s" using r' by (simp add: run_refs_def rows map_upd_row)
  moreover have "evolves s s'"
    unfolding evolves_def
  proof (intro allI impI)
    fix rid e assume e: "get_run s rid = Some e"
    show "\<exists>e'. get_run s' rid = Some e' \<and> r_version e \<le> r_version e' \<and> (r_version e' = r_version e \<longrightarrow> e' = e)"
    proof (cases "rid = r_id r")
      case True
      then have "get_run s' rid = Some r'" using d(1) r'(1) by (simp add: get_run_def rows get_row_upd_row_same)
      then show ?thesis using True e d by auto
    next
      case False
      then have "get_run s' rid = get_run s rid"
        using r'(1) by (simp add: get_run_def rows get_row_upd_row_other)
      then show ?thesis using e by simp
    qed
  qed
  moreover obtain rs where "s' = s\<lparr>runs := rs\<rparr>" using flush_run_frame[OF flush] by blast
  ultimately show ?thesis by (simp add: progress_def)
qed

lemma progress_transition:
  assumes tf: "transition_and_flush s r t ty md f = Inr (r', s')" and f: "keeps_core f"
    and ids: "distinct (map r_id (runs s))" and ref: "(r_id r, r_experiment_id r, r_template_id r) \<in> set (run_refs s)"
  shows "progress s s'"
proof -
  let ?s1 = "add_event (s\<lparr>ticks := Suc (ticks s)\<rparr>) (r_id r) ty (Some (r_status r)) (Some t) md"
  let ?r1 = "f (stamp_run (clock s (ticks s)) t r)"
  have fl: "flush_run ?s1 ?r1 = Inr (r', s')"
    using tf by (auto simp: transition_and_flush_def res_bind_Inr_iff transition_run_Inr)
  have "r_id r \<in> r_id ` set (runs s)" using ref by (auto simp: run_refs_def)
  then have "progress (s\<lparr>ticks := Suc (ticks s)\<rparr>) ?s1" by (intro progress_add_event) simp
  then have p: "progress s ?s1"
    by (rule progress_trans[rotated]) (rule progress_frame, simp_all)
  have "run_refs ?s1 = run_refs s" using p by (simp add: progress_def)
  then have "progress ?s1 s'"
    using ref f ids by (intro progress_flush[OF fl]) (simp_all add: keeps_core_def frame_simps)
  with p show ?thesis by (rule progress_trans)
qed


section \<open>Assignments that can still be acted on\<close>

text \<open>
  A delivery of an assignment starts a run only while the run is \<open>SCHEDULING\<close> under an active lease of
  that worker with that token. Apart from the scheduler, which draws new tokens, no session brings
  such an assignment (back) to life.
\<close>

definition live_assignment :: "db \<Rightarrow> uuid \<Rightarrow> uuid \<Rightarrow> uuid \<Rightarrow> bool" where
  "live_assignment s rid wid tok \<longleftrightarrow> (\<exists>r. get_run s rid = Some r \<and> r_status r = SCHEDULING) \<and>
     (\<exists>a\<in>set (resource_allocations s). active a \<and> a_run_id a = rid \<and> a_worker_id a = wid \<and> a_lease_token a = tok)"

definition no_revival :: "db \<Rightarrow> db \<Rightarrow> bool" where
  "no_revival s s' \<longleftrightarrow> (\<forall>rid wid tok. tok < next_uuid s \<longrightarrow> live_assignment s' rid wid tok \<longrightarrow> live_assignment s rid wid tok)"

lemma no_revival_trans:
  "no_revival s s1 \<Longrightarrow> no_revival s1 s2 \<Longrightarrow> next_uuid s \<le> next_uuid s1 \<Longrightarrow> no_revival s s2"
  unfolding no_revival_def by (meson less_le_trans)

lemma no_revival_frame: "runs s' = runs s \<Longrightarrow> resource_allocations s' = resource_allocations s \<Longrightarrow> no_revival s s'"
  by (simp add: no_revival_def live_assignment_def get_run_def)

lemma no_revival_refl [simp]: "no_revival s s"
  by (simp add: no_revival_frame)

lemma no_revival_after_move:
  assumes "keeps_core f" "t \<noteq> SCHEDULING"
  shows "no_revival s (after_move s r t ty md f)"
  using assms by (auto simp: no_revival_def live_assignment_def get_run_after_move frame_simps split: if_splits)

lemma no_revival_release [simp]: "no_revival s (release s rid)"
proof -
  have "a \<in> set (resource_allocations s)" if "a \<in> set (resource_allocations (release s rid))" "active a" for a
    using that by (auto simp: release_allocations active_def set_upd_row split: option.splits if_splits)
  moreover have "get_run (release s rid) = get_run s" by (simp add: get_run_def fun_eq_iff frame_simps)
  ultimately show ?thesis unfolding no_revival_def live_assignment_def by (metis (no_types))
qed

text \<open>
  The general argument: leases with old tokens were there before, and a run that is \<open>SCHEDULING\<close> was
  so before or had no lease then.
\<close>

lemma no_revivalI:
  assumes "\<And>a. a \<in> set (resource_allocations s') \<Longrightarrow> active a \<Longrightarrow> a_lease_token a < next_uuid s \<Longrightarrow>
      \<exists>b\<in>set (resource_allocations s). active b \<and> a_run_id b = a_run_id a \<and> a_worker_id b = a_worker_id a \<and>
        a_lease_token b = a_lease_token a"
    and "\<And>rid r. get_run s' rid = Some r \<Longrightarrow> r_status r = SCHEDULING \<Longrightarrow>
      (\<exists>d. get_run s rid = Some d \<and> r_status d = SCHEDULING) \<or>
      (\<forall>b\<in>set (resource_allocations s). active b \<longrightarrow> a_run_id b \<noteq> rid)"
  shows "no_revival s s'"
  unfolding no_revival_def
proof (intro allI impI)
  fix rid wid tok assume tok: "tok < next_uuid s" and live: "live_assignment s' rid wid tok"
  from live obtain r a where r: "get_run s' rid = Some r" "r_status r = SCHEDULING"
    and a: "a \<in> set (resource_allocations s')" "active a" "a_run_id a = rid" "a_worker_id a = wid" "a_lease_token a = tok"
    unfolding live_assignment_def by blast
  from assms(1)[OF a(1,2)] a tok obtain b where b: "b \<in> set (resource_allocations s)" "active b" "a_run_id b = rid"
      "a_worker_id b = wid" "a_lease_token b = tok" by auto
  with assms(2)[OF r] show "live_assignment s rid wid tok" unfolding live_assignment_def by blast
qed

text \<open>A step of the service: it progresses the runs and revives no assignment.\<close>

definition advances :: "db \<Rightarrow> db \<Rightarrow> bool" where
  "advances s s' \<longleftrightarrow> progress s s' \<and> no_revival s s'"

lemma advances_refl [simp]: "advances s s"
  by (simp add: advances_def)

lemma advances_trans [trans]: "advances s s1 \<Longrightarrow> advances s1 s2 \<Longrightarrow> advances s s2"
  unfolding advances_def using progress_trans[of s s1 s2] no_revival_trans[of s s1 s2] by (simp add: progress_def)

lemma advances_release [simp]: "advances s (release s rid)"
  by (simp add: advances_def)

lemma advances_frame:
  assumes "runs s' = runs s" "run_events s' = run_events s" "run_parameters s' = run_parameters s"
    and "users s' = users s" "projects s' = projects s" "experiments s' = experiments s" "next_uuid s \<le> next_uuid s'"
    and "resource_allocations s' = resource_allocations s"
  shows "advances s s'"
  unfolding advances_def using assms by (blast intro: progress_frame no_revival_frame)

lemma advances_distinct: "advances s s' \<Longrightarrow> distinct (map r_id (runs s)) \<Longrightarrow> distinct (map r_id (runs s'))"
  unfolding advances_def by (blast intro: progress_distinct)

lemma transition_get_run:
  assumes tf: "transition_and_flush s r t ty md f = Inr (r', s')" and f: "keeps_core f"
    and ids: "distinct (map r_id (runs s))"
  shows "get_run s' rid = (if rid = r_id r then Some r' else get_run s rid)" "r_status r' = t"
    "resource_allocations s' = resource_allocations s"
proof -
  let ?s1 = "add_event (s\<lparr>ticks := Suc (ticks s)\<rparr>) (r_id r) ty (Some (r_status r)) (Some t) md"
  let ?r1 = "f (stamp_run (clock s (ticks s)) t r)"
  have fl: "flush_run ?s1 ?r1 = Inr (r', s')"
    using tf by (auto simp: transition_and_flush_def res_bind_Inr_iff transition_run_Inr)
  obtain d where d: "get_run ?s1 (r_id ?r1) = Some d" "r' = (if d = ?r1 then ?r1 else ?r1\<lparr>r_version := r_version ?r1 + 1\<rparr>)"
    by (rule flush_run_Inr[OF fl])
  have r1: "r_id ?r1 = r_id r" "r_status ?r1 = t" using f by (simp_all add: keeps_core_def)
  have rows: "runs s' = upd_row r_id (r_id r) (\<lambda>_. r') (runs s)"
    using flush_run_rows[OF fl] ids r1 by (simp add: frame_simps)
  have r': "r_id r' = r_id r" "r_status r' = t" using d(2) r1 by auto
  show "get_run s' rid = (if rid = r_id r then Some r' else get_run s rid)"
    using d(1) r1 r'(1) by (auto simp: get_run_def rows get_row_upd_row_same get_row_upd_row_other frame_simps)
  show "r_status r' = t" by (rule r')
  obtain rs where "s' = ?s1\<lparr>runs := rs\<rparr>" using flush_run_frame[OF fl] by blast
  then show "resource_allocations s' = resource_allocations s" by (simp add: frame_simps)
qed

lemma advances_transition:
  assumes tf: "transition_and_flush s r t ty md f = Inr (r', s')" and f: "keeps_core f"
    and ids: "distinct (map r_id (runs s))" and ref: "(r_id r, r_experiment_id r, r_template_id r) \<in> set (run_refs s)"
    and t: "t \<noteq> SCHEDULING"
  shows "advances s s'"
proof -
  note tr = transition_get_run[OF tf f ids]
  have "no_revival s s'" by (rule no_revivalI) (use tr t in \<open>auto split: if_splits\<close>)
  then show ?thesis using progress_transition[OF tf f ids ref] by (simp add: advances_def)
qed

end
