(* ===== verification/Run_Execution.thy ===== *)
theory Run_Execution
  imports Lifecycle Config Templates
begin

text \<open>
  Creation and execution of runs (\<open>run_execution.py\<close>). Creation is one transaction. Execution is a
  sequence of transactions: between two of them, whenever the code awaits something slow (the
  training thread, an upload, the pause between two progress steps), other sessions may commit. What
  they do to the database is the parameter \<open>rt_env\<close>, one function per await. The object \<open>run\<close> of
  the session stays as it was loaded until it is refreshed.
\<close>

datatype await = Training | Upload nat | Sleep nat | FinalUpload

record 'w runtime =
  rt_lib :: library
  rt_put :: "'w \<Rightarrow> string \<Rightarrow> bytes \<Rightarrow> string \<Rightarrow> unit res \<times> 'w"
  rt_sha256 :: "bytes \<Rightarrow> string"
  rt_env :: "await \<Rightarrow> db \<Rightarrow> db"
  rt_live :: bool
  rt_expired_id :: "uuid \<Rightarrow> uuid res"

text \<open>
  The state of an execution: the database, the artifact store and the live events sent so far. The
  live publisher the worker passes in never raises. \<open>rt_expired_id\<close> is what reading the key of an
  object after a rollback gives: the ORM may load it again or refuse to.
\<close>

record 'w exec =
  ex_db :: db
  ex_store :: 'w
  ex_live :: "(string \<times> dict) list"

record run_create =
  rc_experiment_id :: uuid
  rc_template_key :: string
  rc_template_version :: string
  rc_parameters :: dict
  rc_requested_cpu :: rat
  rc_requested_memory_mb :: int
  rc_priority :: int
  rc_notes :: string
  rc_tags :: "string list"

definition run_create_ok :: "run_create \<Rightarrow> bool" where
  "run_create_ok b \<longleftrightarrow> 1 \<le> length (rc_template_key b) \<and> length (rc_template_key b) \<le> 100 \<and>
     1 \<le> length (rc_template_version b) \<and> length (rc_template_version b) \<le> 40 \<and>
     1/10 \<le> rc_requested_cpu b \<and> rc_requested_cpu b \<le> 4 \<and>
     128 \<le> rc_requested_memory_mb b \<and> rc_requested_memory_mb b \<le> 8192 \<and>
     -10 \<le> rc_priority b \<and> rc_priority b \<le> 10 \<and>
     length (rc_notes b) \<le> 4000 \<and> length (rc_tags b) \<le> 20"

definition find_template :: "db \<Rightarrow> string \<Rightarrow> string \<Rightarrow> training_template res" where
  "find_template s key version =
     (case find (\<lambda>t. t_key t = key \<and> t_version t = version \<and> t_enabled t) (training_templates s) of
        None \<Rightarrow> Inl (app_err ''template_not_found''
          ''The requested training template or version is not available'' 404 [])
      | Some t \<Rightarrow> (case registry_get (t_key t) (t_version t) of
          Inl _ \<Rightarrow> Inl (app_err ''template_unregistered''
            ''The template metadata is not backed by trusted executable code'' 409 [])
        | Inr _ \<Rightarrow> Inr t))"

text \<open>The details of a validation error are pydantic's; they are left out of the modelled error.\<close>

definition validate_parameters ::
  "pydantic \<Rightarrow> training_template \<Rightarrow> dict \<Rightarrow> (parameters \<times> dict) res" where
  "validate_parameters px t values =
     res_bind (registry_get (t_key t) (t_version t)) (\<lambda>d.
       case model_validate px (td_parameter_model d) values of
         Inl _ \<Rightarrow> Inl (app_err ''invalid_template_parameters''
           ''One or more template parameters are invalid'' 422 [])
       | Inr p \<Rightarrow> Inr (p, dump_parameters p))"

definition clean_tags :: "string list \<Rightarrow> string list" where
  "clean_tags tags = fromkeys (map (\<lambda>t. py_lower (py_strip t)) (filter (\<lambda>t. py_strip t \<noteq> '''') tags))"

text \<open>\<open>INSERT\<close> of a new run with the column defaults; its foreign keys must exist.\<close>

definition insert_run :: "db \<Rightarrow> run \<Rightarrow> db res" where
  "insert_run s r =
     (if r_experiment_id r \<in> x_id ` set (experiments s) \<and> r_template_id r \<in> t_id ` set (training_templates s) \<and>
         r_created_by r \<in> u_id ` set (users s) \<and>
         (case r_parent_run_id r of None \<Rightarrow> True | Some p \<Rightarrow> p \<in> r_id ` set (runs s))
      then Inr (runs_update (\<lambda>rs. rs @ [r]) s) else Inl IntegrityError)"

definition create_queued_run ::
  "pydantic \<Rightarrow> settings \<Rightarrow> string \<Rightarrow> run_create \<Rightarrow> uuid \<Rightarrow> db \<Rightarrow> (run \<times> db) res" where
  "create_queued_run px cfg correlation_id body created_by s =
     res_bind (find_template s (rc_template_key body) (rc_template_version body)) (\<lambda>template.
     res_bind (validate_parameters px template (rc_parameters body)) (\<lambda>(_, parameters).
       let (rid, s1) = uuid4 s;
           r = \<lparr>r_id = rid, r_experiment_id = rc_experiment_id body, r_template_id = t_id template,
                r_status = DRAFT, r_priority = rc_priority body, r_requested_cpu = rc_requested_cpu body,
                r_requested_memory_mb = rc_requested_memory_mb body, r_assigned_worker_id = None,
                r_attempt_number = 1, r_parent_run_id = None, r_created_by = created_by,
                r_created_at = tx_now s1, r_queued_at = None, r_started_at = None, r_completed_at = None,
                r_failure_code = None, r_failure_message = None, r_notes = rc_notes body,
                r_tags = clean_tags (rc_tags body), r_version = 1\<rparr>
       in res_bind (insert_run s1 r) (\<lambda>s2.
          let s3 = fold (\<lambda>(name, value) s. add_parameter s rid name value) parameters s2
          in res_bind (transition_and_flush s3 r QUEUED ''run.queued'' [] id) (\<lambda>(r1, s4).
             let (eid, s5) = uuid4 s4; (now, s6) = now_utc s5
             in res_bind (mk_envelope eid ''run.submitted'' now correlation_id (Some rid) None
                  [(''template_key'', JStr (t_key template)), (''template_version'', JStr (t_version template)),
                   (''requested_cpu'', JFloat (r_requested_cpu r1)),
                   (''requested_memory_mb'', JInt (r_requested_memory_mb r1)),
                   (''priority'', JInt (r_priority r1))]) (\<lambda>event.
                Inr (r1, add_outbox s6 (broker_topic cfg) (uuid_str rid) event))))))"


section \<open>Execution\<close>

text \<open>Inserts that a unique constraint may refuse.\<close>

definition insert_log :: "db \<Rightarrow> uuid \<Rightarrow> int \<Rightarrow> string \<Rightarrow> string \<Rightarrow> db res" where
  "insert_log s rid sq level msg =
     (if list_ex (\<lambda>l. l_run_id l = rid \<and> l_sequence_number l = sq) (run_logs s) then Inl IntegrityError
      else Inr (add_log s rid sq level msg))"

definition insert_artifact :: "(bytes \<Rightarrow> string) \<Rightarrow> db \<Rightarrow> uuid \<Rightarrow> generated_artifact \<Rightarrow> string \<Rightarrow> db res" where
  "insert_artifact sha s rid g storage_key =
     (if list_ex (\<lambda>a. (art_run_id a = rid \<and> art_name a = ga_name g) \<or> art_storage_key a = storage_key) (artifacts s)
      then Inl IntegrityError
      else let (aid, s1) = uuid4 s
           in Inr (artifacts_update (\<lambda>as. as @ [\<lparr>art_id = aid, art_run_id = rid, art_name = ga_name g,
                art_storage_key = storage_key, art_mime_type = ga_mime_type g,
                art_size_bytes = int (length (ga_data g)), art_checksum = sha (ga_data g),
                art_created_at = tx_now s1\<rparr>]) s1))"

fun insert_logs :: "uuid \<Rightarrow> int \<Rightarrow> (string \<times> string) list \<Rightarrow> db \<Rightarrow> db res" where
  "insert_logs rid sq [] s = Inr s"
| "insert_logs rid sq ((level, msg) # ls) s =
     res_bind (insert_log s rid sq level msg) (insert_logs rid (sq + 1) ls)"

definition storage_key :: "uuid \<Rightarrow> string \<Rightarrow> string" where
  "storage_key rid name = uuid_str rid @ ''/'' @ name"

text \<open>\<open>publish_live\<close>, when there is a publisher.\<close>

definition emit :: "'w runtime \<Rightarrow> (string \<times> dict) list \<Rightarrow> 'w exec \<Rightarrow> 'w exec" where
  "emit rt evs x = (if rt_live rt then x\<lparr>ex_live := ex_live x @ evs\<rparr> else x)"

definition log_event :: "int \<Rightarrow> string \<Rightarrow> string \<Rightarrow> string \<times> dict" where
  "log_event sq level msg =
     (''run.log'', [(''sequence_number'', JInt sq), (''level'', JStr level), (''message'', JStr msg)])"

definition metric_event :: "string \<Rightarrow> rat \<Rightarrow> int \<Rightarrow> string \<times> dict" where
  "metric_event name v step =
     (''run.metric'', [(''name'', JStr name), (''value'', JFloat v), (''step'', JInt step)])"

definition status_event :: "run_status \<Rightarrow> string \<times> dict" where
  "status_event t = (''run.status'', [(''status'', JStr (status_value t))])"

definition failure_event :: "string option \<Rightarrow> string \<times> dict" where
  "failure_event code = (''run.status'', [(''status'', JStr (status_value FAILED)),
     (''failure_code'', case code of None \<Rightarrow> JNull | Some c \<Rightarrow> JStr c)])"

text \<open>The end of every path: the status change, the release of the lease, the commit.\<close>

definition finish_run ::
  "db \<Rightarrow> run \<Rightarrow> run_status \<Rightarrow> string \<Rightarrow> dict \<Rightarrow> (run \<times> db) res" where
  "finish_run s r t ty md =
     res_bind (transition_and_flush s r t ty md id) (\<lambda>(r1, s1). Inr (r1, release s1 (r_id r)))"

fun upload_all ::
  "'w runtime \<Rightarrow> uuid \<Rightarrow> nat \<Rightarrow> generated_artifact list \<Rightarrow> 'w exec \<Rightarrow> unit res \<times> 'w exec" where
  "upload_all rt rid i [] x = (Inr (), x)"
| "upload_all rt rid i (g # gs) x =
     (let s = rt_env rt (Upload i) (ex_db x)
      in case rt_put rt (ex_store x) (storage_key rid (ga_name g)) (ga_data g) (ga_mime_type g) of
           (Inl e, w) \<Rightarrow> (Inl e, x\<lparr>ex_db := s, ex_store := w\<rparr>)
         | (Inr _, w) \<Rightarrow> upload_all rt rid (Suc i) gs (x\<lparr>ex_db := s, ex_store := w\<rparr>))"

text \<open>The rows a finished template adds, in the transaction that marks the run succeeded.\<close>

definition store_result :: "(bytes \<Rightarrow> string) \<Rightarrow> run \<Rightarrow> template_result \<Rightarrow> db \<Rightarrow> (run \<times> db) res" where
  "store_result sha r result s =
     res_bind (insert_logs (r_id r) 1 (tr_logs result) s) (\<lambda>s1.
     let s2 = fold (\<lambda>(name, v) s. add_metric s (r_id r) name v 1) (tr_metrics result) s1
     in res_bind (foldl (\<lambda>acc g. res_bind acc (\<lambda>s. insert_artifact sha s (r_id r) g (storage_key (r_id r) (ga_name g))))
          (Inr s2) (tr_artifacts result)) (\<lambda>s3.
        finish_run s3 r SUCCEEDED ''run.succeeded''
          [(''metric_count'', JInt (int (length (tr_metrics result)))),
           (''artifact_count'', JInt (int (length (tr_artifacts result))))]))"

text \<open>The body of the \<open>try\<close> block. Rows added before an exception are rolled back with it.\<close>

definition execute_template ::
  "'w runtime \<Rightarrow> template_definition \<Rightarrow> parameters \<Rightarrow> run \<Rightarrow> 'w exec \<Rightarrow> run res \<times> 'w exec" where
  "execute_template rt d p r x =
     (if \<not> td_executable d then (Inl (RuntimeError ''Template has no registered executor''), x)
      else let x1 = x\<lparr>ex_db := rt_env rt Training (ex_db x)\<rparr>
      in case run_executor (rt_lib rt) d p of
           Inl e \<Rightarrow> (Inl e, x1)
         | Inr result \<Rightarrow>
             (case upload_all rt (r_id r) 0 (tr_artifacts result) x1 of
                (Inl e, x2) \<Rightarrow> (Inl e, x2)
              | (Inr _, x2) \<Rightarrow>
                  (case store_result (rt_sha256 rt) r result (ex_db x2) of
                     Inl e \<Rightarrow> (Inl e, x2)
                   | Inr (r1, s1) \<Rightarrow>
                       (Inr r1, emit rt
                          (map (\<lambda>(sq, level, msg). log_event (int sq) level msg)
                             (zip [1..<Suc (length (tr_logs result))] (tr_logs result)) @
                           map (\<lambda>(name, v). metric_event name v 1) (tr_metrics result) @
                           [status_event SUCCEEDED])
                          (x2\<lparr>ex_db := s1\<rparr>)))))"

text \<open>The handler: roll back, load the run again, record the failure, release the lease.\<close>

definition failure_of :: "exn \<Rightarrow> run \<Rightarrow> run" where
  "failure_of e r =
     (case e of
        ArtifactStorageError _ \<Rightarrow> r\<lparr>r_failure_code := Some ''artifact_upload_failed'',
          r_failure_message := Some ''Artifact storage remained unavailable''\<rparr>
      | _ \<Rightarrow> r\<lparr>r_failure_code := Some ''template_execution_failed'',
          r_failure_message := Some ''Trusted template execution failed''\<rparr>)"

definition fail_template :: "'w runtime \<Rightarrow> exn \<Rightarrow> run \<Rightarrow> 'w exec \<Rightarrow> run res \<times> 'w exec" where
  "fail_template rt e r x =
     (case rt_expired_id rt (r_id r) of
        Inl e' \<Rightarrow> (Inl e', x)
      | Inr rid \<Rightarrow>
          (case get_run (ex_db x) rid of
             None \<Rightarrow> (Inl e, x)
           | Some failed \<Rightarrow>
               (case finish_run (ex_db x) (failure_of e failed) FAILED ''run.failed'' [] of
                  Inl e' \<Rightarrow> (Inl e', x)
                | Inr (r1, s1) \<Rightarrow> (Inr r1, emit rt [failure_event (r_failure_code r1)] (x\<lparr>ex_db := s1\<rparr>)))))"


section \<open>The slow demonstration\<close>

definition total_steps :: "slow_parameters \<Rightarrow> nat" where
  "total_steps p = nat (max 1 \<lceil>duration_seconds p / interval_seconds p\<rceil>)"

text \<open>\<open>f"{progress:.0%}"\<close>.\<close>

definition fmt_percent :: "rat \<Rightarrow> string" where
  "fmt_percent v = fmt_fixed 0 (v * 100) @ ''%''"

text \<open>
  One pass of the loop: sleep, refresh, then either acknowledge the cancellation and return, or
  record the progress. \<open>Inl\<close> of the inner sum means that the loop returned the run.
\<close>

definition slow_step ::
  "'w runtime \<Rightarrow> nat \<Rightarrow> nat \<Rightarrow> run \<Rightarrow> 'w exec \<Rightarrow> (run + run) res \<times> 'w exec" where
  "slow_step rt n_steps step r x =
     (let s = rt_env rt (Sleep step) (ex_db x); x1 = x\<lparr>ex_db := s\<rparr>; sq = int step + 1
      in case get_run s (r_id r) of
           None \<Rightarrow> (Inl (OtherError ''InvalidRequestError''), x1)
         | Some r1 \<Rightarrow>
             if r_status r1 = CANCELLING then
               let msg = ''Cancellation acknowledged at a safe checkpoint''
               in case res_bind (insert_log s (r_id r1) sq ''INFO'' msg) (\<lambda>s1.
                         finish_run s1 r1 CANCELLED ''run.cancelled'' []) of
                    Inl e \<Rightarrow> (Inl e, x1)
                  | Inr (r2, s2) \<Rightarrow> (Inr (Inl r2),
                      emit rt [log_event sq ''INFO'' msg, status_event CANCELLED] (x1\<lparr>ex_db := s2\<rparr>))
             else
               let progress = of_nat step / of_nat n_steps;
                   msg = ''Demonstration progress '' @ fmt_percent progress
               in case insert_log s (r_id r1) sq ''INFO'' msg of
                    Inl e \<Rightarrow> (Inl e, x1)
                  | Inr s1 \<Rightarrow> (Inr (Inr r1),
                      emit rt [log_event sq ''INFO'' msg, metric_event ''progress'' progress (int step)]
                        (x1\<lparr>ex_db := add_metric s1 (r_id r1) ''progress'' progress (int step)\<rparr>)))"

fun slow_loop ::
  "'w runtime \<Rightarrow> nat \<Rightarrow> nat list \<Rightarrow> run \<Rightarrow> 'w exec \<Rightarrow> (run + run) res \<times> 'w exec" where
  "slow_loop rt n_steps [] r x = (Inr (Inr r), x)"
| "slow_loop rt n_steps (step # steps) r x =
     (case slow_step rt n_steps step r x of
        (Inr (Inr r1), x1) \<Rightarrow> slow_loop rt n_steps steps r1 x1
      | done \<Rightarrow> done)"

text \<open>After the loop: the intentional failure, or the upload and the final status.\<close>

definition progress_json :: "nat \<Rightarrow> bytes" where
  "progress_json n_steps = ''{'' @ [CHR 0x0A] @ ''  \"completed_steps\": '' @ show_nat n_steps @ '','' @ [CHR 0x0A] @
     ''  \"progress\": 1.0'' @ [CHR 0x0A] @ ''}''"

definition slow_end ::
  "'w runtime \<Rightarrow> slow_parameters \<Rightarrow> run \<Rightarrow> 'w exec \<Rightarrow> run res \<times> 'w exec" where
  "slow_end rt p r x =
     (if fail_intentionally p then
        (case finish_run (ex_db x)
            (r\<lparr>r_failure_code := Some ''intentional_demo_failure'',
               r_failure_message := Some ''The slow demonstration was configured to fail''\<rparr>)
            FAILED ''run.failed'' [(''retryable'', JBool True), (''intentional'', JBool True)] of
           Inl e \<Rightarrow> (Inl e, x)
         | Inr (r1, s1) \<Rightarrow> (Inr r1, emit rt [failure_event (r_failure_code r1)] (x\<lparr>ex_db := s1\<rparr>)))
      else
        let data = progress_json (total_steps p); key = storage_key (r_id r) ''progress.json'';
            s = rt_env rt FinalUpload (ex_db x)
        in case rt_put rt (ex_store x) key data ''application/json'' of
             (Inl (ArtifactStorageError m), w) \<Rightarrow>
               (case finish_run s
                   (r\<lparr>r_failure_code := Some ''artifact_upload_failed'',
                      r_failure_message := Some ''Artifact storage remained unavailable''\<rparr>)
                   FAILED ''run.failed'' [(''retryable'', JBool True), (''reason'', JStr ''artifact_storage'')] of
                  Inl e \<Rightarrow> (Inl e, x\<lparr>ex_db := s, ex_store := w\<rparr>)
                | Inr (r1, s1) \<Rightarrow> (Inr r1, emit rt [failure_event (r_failure_code r1)]
                    (x\<lparr>ex_db := s1, ex_store := w\<rparr>)))
           | (Inl e, w) \<Rightarrow> (Inl e, x\<lparr>ex_db := s, ex_store := w\<rparr>)
           | (Inr _, w) \<Rightarrow>
               (case res_bind (insert_artifact (rt_sha256 rt) s (r_id r)
                        \<lparr>ga_name = ''progress.json'', ga_mime_type = ''application/json'', ga_data = data\<rparr> key)
                      (\<lambda>s1. finish_run s1 r SUCCEEDED ''run.succeeded''
                         [(''metric_count'', JInt (int (total_steps p))), (''artifact_count'', JInt 1)]) of
                  Inl e \<Rightarrow> (Inl e, x\<lparr>ex_db := s, ex_store := w\<rparr>)
                | Inr (r1, s1) \<Rightarrow> (Inr r1, emit rt [status_event SUCCEEDED]
                    (x\<lparr>ex_db := s1, ex_store := w\<rparr>))))"

definition execute_slow_run ::
  "'w runtime \<Rightarrow> run \<Rightarrow> slow_parameters \<Rightarrow> 'w exec \<Rightarrow> run res \<times> 'w exec" where
  "execute_slow_run rt r p x =
     (let n_steps = total_steps p;
          msg = ''Started bounded progress demonstration with '' @ show_nat n_steps @ '' steps''
      in case insert_log (ex_db x) (r_id r) 1 ''INFO'' msg of
           Inl e \<Rightarrow> (Inl e, x)
         | Inr s1 \<Rightarrow>
             (case slow_loop rt n_steps [1..<Suc n_steps] r (emit rt [log_event 1 ''INFO'' msg] (x\<lparr>ex_db := s1\<rparr>)) of
                (Inl e, x2) \<Rightarrow> (Inl e, x2)
              | (Inr (Inl r2), x2) \<Rightarrow> (Inr r2, x2)
              | (Inr (Inr r2), x2) \<Rightarrow> slow_end rt p r2 x2))"


section \<open>The entry point of the worker\<close>

definition stored_parameters :: "db \<Rightarrow> uuid \<Rightarrow> dict" where
  "stored_parameters s rid = map (\<lambda>p. (p_name p, p_value p)) (filter (\<lambda>p. p_run_id p = rid) (run_parameters s))"

definition lease_refused ::
  "resource_allocation option \<Rightarrow> uuid option \<Rightarrow> uuid option \<Rightarrow> bool" where
  "lease_refused allocation expected_worker_id lease_token =
     (case allocation of
        None \<Rightarrow> True
      | Some a \<Rightarrow> (case expected_worker_id of None \<Rightarrow> False | Some w \<Rightarrow> a_worker_id a \<noteq> w) \<or>
                  (case lease_token of None \<Rightarrow> False | Some t \<Rightarrow> a_lease_token a \<noteq> t))"

definition active_allocation :: "db \<Rightarrow> uuid \<Rightarrow> resource_allocation option" where
  "active_allocation s rid = find (\<lambda>a. a_run_id a = rid \<and> a_released_at a = None) (resource_allocations s)"

text \<open>
  From the commit of \<open>RUNNING\<close> on, the run is dispatched to the slow demonstration or to the
  template's executor.
\<close>

definition run_template ::
  "'w runtime \<Rightarrow> training_template \<Rightarrow> parameters \<Rightarrow> run \<Rightarrow> 'w exec \<Rightarrow> run res \<times> 'w exec" where
  "run_template rt template validated r x =
     (case registry_get (t_key template) (t_version template) of
        Inl e \<Rightarrow> (Inl e, x)
      | Inr d \<Rightarrow>
          if t_key template = ''slow-demonstration'' then
            (case validated of
               SlowParameters p \<Rightarrow> execute_slow_run rt r p x
             | IrisParameters _ \<Rightarrow> (Inl (RuntimeError ''Slow template parameters were not validated''), x))
          else
            (case execute_template rt d validated r x of
               (Inr r1, x1) \<Rightarrow> (Inr r1, x1)
             | (Inl e, x1) \<Rightarrow> fail_template rt e r x1))"

definition execute_existing_run ::
  "'w runtime \<Rightarrow> uuid \<Rightarrow> uuid option \<Rightarrow> uuid option \<Rightarrow> 'w exec \<Rightarrow> run option res \<times> 'w exec" where
  "execute_existing_run rt run_id expected_worker_id lease_token x =
     (let s = ex_db x
      in case get_run s run_id of
           None \<Rightarrow> (Inr None, x)
         | Some r \<Rightarrow>
             if r_status r \<noteq> SCHEDULING then (Inr (Some r), x)
             else case active_allocation s (r_id r) of
               None \<Rightarrow> (Inr (Some r), x)
             | Some allocation \<Rightarrow>
                 if lease_refused (Some allocation) expected_worker_id lease_token then (Inr (Some r), x)
                 else case get_template s (r_template_id r) of
                   None \<Rightarrow> (Inl (RuntimeError ''Run references a missing training template''), x)
                 | Some template \<Rightarrow>
                     (case res_bind (validate_parameters (lib_pydantic (rt_lib rt)) template (stored_parameters s (r_id r)))
                        (\<lambda>(validated, _). res_bind (transition_and_flush s r RUNNING ''run.started''
                            [(''worker_id'', JStr (uuid_str (a_worker_id allocation))),
                             (''lease_id'', JStr (uuid_str (a_id allocation)))] id)
                          (\<lambda>(r1, s1). Inr (validated, r1, s1))) of
                        Inl e \<Rightarrow> (Inl e, x)
                      | Inr (validated, r1, s1) \<Rightarrow>
                          (case run_template rt template validated r1
                               (emit rt [status_event RUNNING] (x\<lparr>ex_db := s1\<rparr>)) of
                             (Inl e, x1) \<Rightarrow> (Inl e, x1)
                           | (Inr r2, x1) \<Rightarrow> (Inr (Some r2), x1))))"

end
