(* ===== verification/Execution_Proofs.thy ===== *)
theory Execution_Proofs
  imports Run_Execution
begin

text \<open>
  What execution guarantees under interference. The other sessions are assumed to keep the lifecycle
  invariant and to respect the version column (every change of a run row raises its version, as
  \<open>version_id_col\<close> enforces); nothing else is assumed of them.
\<close>

text \<open>The session's object is the stored row, or an older version of it.\<close>

definition tracks :: "db \<Rightarrow> run \<Rightarrow> bool" where
  "tracks s r \<longleftrightarrow> (\<exists>d. get_run s (r_id r) = Some d \<and> r_version r \<le> r_version d \<and>
     (r_version d = r_version r \<longrightarrow> d = r))"

lemma tracks_evolves:
  assumes "tracks s r" "evolves s s'"
  shows "tracks s' r"
proof -
  obtain d where d: "get_run s (r_id r) = Some d" "r_version r \<le> r_version d" "r_version d = r_version r \<longrightarrow> d = r"
    using assms(1) by (auto simp: tracks_def)
  obtain d' where d': "get_run s' (r_id r) = Some d'" "r_version d \<le> r_version d'" "r_version d' = r_version d \<longrightarrow> d' = d"
    using assms(2) d(1) by (auto simp: evolves_def)
  have "d' = r" if "r_version d' = r_version r"
  proof -
    have "r_version d = r_version r" using that d(2) d'(2) by linarith
    with that d d' show ?thesis by simp
  qed
  with d d' show ?thesis by (auto simp: tracks_def)
qed

lemma tracks_stored: "get_run s rid = Some r \<Longrightarrow> tracks s r"
  using get_run_SomeD[of s rid r] by (auto simp: tracks_def)

lemma tracks_runs: "runs s' = runs s \<Longrightarrow> tracks s' r = tracks s r"
  by (simp add: tracks_def get_run_def)


section \<open>Rows that the lifecycle invariant does not mention\<close>

lemma lifecycle_inv_frame:
  assumes "lifecycle_inv s" "runs s' = runs s" "run_events s' = run_events s" "workers s' = workers s"
    and "resource_allocations s' = resource_allocations s" "next_uuid s \<le> next_uuid s'"
  shows "lifecycle_inv s'"
  using assms by (fastforce simp: lifecycle_inv_def book_inv_def ids_inv_def capacity_inv_def status_inv_def
      audit_inv_def request_inv_def leases_def)

text \<open>Two databases that differ at most in parameters, metrics, logs, artifacts, messages and the supply of names.\<close>

definition same_core :: "db \<Rightarrow> db \<Rightarrow> bool" where
  "same_core s s' \<longleftrightarrow> runs s' = runs s \<and> run_events s' = run_events s \<and> workers s' = workers s \<and>
     resource_allocations s' = resource_allocations s \<and> next_uuid s \<le> next_uuid s' \<and>
     training_templates s' = training_templates s \<and> clock s' = clock s \<and> tx_now s' = tx_now s"

lemma same_core_refl [simp]: "same_core s s"
  by (simp add: same_core_def)

lemma same_core_trans [trans]: "same_core s s1 \<Longrightarrow> same_core s1 s2 \<Longrightarrow> same_core s s2"
  by (auto simp: same_core_def)

lemma same_core_inv: "same_core s s' \<Longrightarrow> lifecycle_inv s \<Longrightarrow> lifecycle_inv s'"
  by (rule lifecycle_inv_frame[of s]) (simp_all add: same_core_def)

lemma same_core_tracks: "same_core s s' \<Longrightarrow> tracks s' r = tracks s r"
  by (rule tracks_runs) (simp add: same_core_def)

lemma same_core_get_run: "same_core s s' \<Longrightarrow> get_run s' = get_run s"
  by (simp add: same_core_def get_run_def fun_eq_iff)

lemma same_core_leases: "same_core s s' \<Longrightarrow> leases s' = leases s"
  by (simp add: same_core_def leases_def)

lemma same_core_adds [simp]:
  "same_core s (add_log s rid sq lv m)" "same_core s (add_metric s rid n v k)" "same_core s (add_parameter s rid n p)"
  "same_core s (add_outbox s topic pk e)"
  by (simp_all add: same_core_def add_log_def add_metric_def add_parameter_def add_outbox_def uuid4_def Let_def)

text \<open>Two databases that differ at most in metrics, logs, artifacts, messages and the supply of names.\<close>

definition same_inputs :: "db \<Rightarrow> db \<Rightarrow> bool" where
  "same_inputs s s' \<longleftrightarrow> same_core s s' \<and> run_parameters s' = run_parameters s \<and> users s' = users s \<and>
     projects s' = projects s \<and> experiments s' = experiments s"

lemma same_inputs_refl [simp]: "same_inputs s s"
  by (simp add: same_inputs_def)

lemma same_inputs_trans: "same_inputs s s1 \<Longrightarrow> same_inputs s1 s2 \<Longrightarrow> same_inputs s s2"
  by (auto simp: same_inputs_def intro: same_core_trans)

lemma same_inputs_core: "same_inputs s s' \<Longrightarrow> same_core s s'"
  by (simp add: same_inputs_def)

lemma same_inputs_progress: "same_inputs s s' \<Longrightarrow> progress s s'"
  by (rule progress_frame) (simp_all add: same_inputs_def same_core_def)

lemma same_inputs_adds [simp]:
  "same_inputs s (add_log s rid sq lv m)" "same_inputs s (add_metric s rid n v k)" "same_inputs s (add_outbox s topic pk e)"
  by (simp_all add: same_inputs_def) (simp_all add: add_log_def add_metric_def add_outbox_def uuid4_def Let_def)

lemma insert_log_inputs: "insert_log s rid sq lv m = Inr s' \<Longrightarrow> same_inputs s s'"
  by (auto simp: insert_log_def split: if_splits)

lemma insert_artifact_inputs: "insert_artifact sha s rid g key = Inr s' \<Longrightarrow> same_inputs s s'"
  by (auto simp: insert_artifact_def uuid4_def same_core_def same_inputs_def Let_def split: if_splits)

lemma insert_logs_inputs: "insert_logs rid sq ls s = Inr s' \<Longrightarrow> same_inputs s s'"
  by (induction rid sq ls s rule: insert_logs.induct)
    (auto simp: res_bind_Inr_iff dest: insert_log_inputs intro: same_inputs_trans)

lemmas insert_log_core = insert_log_inputs[THEN same_inputs_core]
lemmas insert_artifact_core = insert_artifact_inputs[THEN same_inputs_core]
lemmas insert_logs_core = insert_logs_inputs[THEN same_inputs_core]

lemma fold_core:
  assumes "\<And>x s. same_core s (f x s)"
  shows "same_core s (fold f xs s)"
  by (induction xs arbitrary: s) (auto intro: same_core_trans assms)

lemma fold_inputs:
  assumes "\<And>x s. same_inputs s (f x s)"
  shows "same_inputs s (fold f xs s)"
  by (induction xs arbitrary: s) (auto intro: same_inputs_trans assms)

lemma insert_artifacts_inputs:
  "foldl (\<lambda>acc g. res_bind acc (\<lambda>s. insert_artifact sha s rid g (key g))) (Inr s) gs = Inr s' \<Longrightarrow> same_inputs s s'"
proof (induction gs arbitrary: s)
  case (Cons g gs)
  have err: "foldl (\<lambda>acc g. res_bind acc (\<lambda>s. insert_artifact sha s rid g (key g))) (Inl e) hs = Inl e" for e hs
    by (induction hs) simp_all
  show ?case
  proof (cases "insert_artifact sha s rid g (key g)")
    case (Inl e)
    with Cons.prems err show ?thesis by simp
  next
    case (Inr s1)
    with Cons show ?thesis by (auto dest: insert_artifact_inputs intro: same_inputs_trans)
  qed
qed simp


section \<open>Finishing a run\<close>

lemma finish_run_ok:
  assumes inv: "lifecycle_inv s" and get: "get_run s (r_id r) = Some d"
    and same: "r_version d = r_version r" "r_status d = r_status r" "r_requested_cpu d = r_requested_cpu r"
      "r_requested_memory_mb d = r_requested_memory_mb r"
    and t: "t \<in> set (VALID_TRANSITIONS (r_status r))" "\<not> busy t"
  shows "finish_run s r t ty md = Inr (moved s r t id, release (after_move s r t ty md id) (r_id r))"
    and "lifecycle_inv (release (after_move s r t ty md id) (r_id r))"
    and "get_run (release (after_move s r t ty md id) (r_id r)) (r_id r) = Some (moved s r t id)"
    and "leases (release (after_move s r t ty md id) (r_id r)) = (leases s)(r_id r := None)"
proof -
  have kc: "keeps_core id" by (simp add: keeps_core_def)
  show "finish_run s r t ty md = Inr (moved s r t id, release (after_move s r t ty md id) (r_id r))"
    using transition_and_flush_ok[OF get same(1,2) t(1) kc] by (simp add: finish_run_def)
  show "lifecycle_inv (release (after_move s r t ty md id) (r_id r))"
    by (rule lifecycle_inv_finish[OF inv get same(2-4) t kc])
  have "book_inv (after_move s r t ty md id)"
    using inv kc by (auto simp: lifecycle_inv_def intro: book_inv_after_move)
  from book.view_free[OF this]
  show "leases (release (after_move s r t ty md id) (r_id r)) = (leases s)(r_id r := None)" by (simp add: frame_simps)
  have "get_run (release u rid) = get_run u" for u rid by (simp add: get_run_def fun_eq_iff frame_simps)
  then show "get_run (release (after_move s r t ty md id) (r_id r)) (r_id r) = Some (moved s r t id)"
    using get by (simp add: get_run_after_move[OF kc])
qed

lemma finish_run_Inr:
  assumes "finish_run s r t ty md = Inr (r1, s1)"
  shows "\<exists>d. get_run s (r_id r) = Some d \<and> r_version d = r_version r \<and> t \<in> set (VALID_TRANSITIONS (r_status r))"
proof -
  have "t \<in> set (VALID_TRANSITIONS (r_status r))"
    using assms transition_and_flush_invalid[of t r s ty md id]
    by (auto simp: finish_run_def res_bind_Inr_iff intro: ccontr)
  moreover obtain d where d: "get_run s (r_id r) = Some d"
  proof (cases "get_run s (r_id r)")
    case None
    with assms show ?thesis
      by (auto simp: finish_run_def res_bind_Inr_iff transition_and_flush_def transition_run_Inr flush_run_def)
        (simp add: get_run_def)
  qed
  moreover have "r_version d = r_version r"
  proof (rule ccontr)
    assume "r_version d \<noteq> r_version r"
    with transition_and_flush_stale[OF d this, of id t] assms calculation(1) show False
      by (simp add: finish_run_def keeps_core_def)
  qed
  ultimately show ?thesis by blast
qed

lemma emit_simps [simp]: "ex_db (emit rt evs x) = ex_db x" "ex_store (emit rt evs x) = ex_store x"
  by (simp_all add: emit_def)

text \<open>The result of a finished execution: a final status, no lease, and the stored row is the one returned.\<close>

definition finished :: "db \<Rightarrow> uuid \<Rightarrow> run \<Rightarrow> bool" where
  "finished s rid r \<longleftrightarrow> get_run s rid = Some r \<and> r_status r \<in> {SUCCEEDED, FAILED, CANCELLED} \<and> leases s rid = None"

lemma failure_of_simps [simp]:
  "r_id (failure_of e r) = r_id r" "r_version (failure_of e r) = r_version r" "r_status (failure_of e r) = r_status r"
  "r_requested_cpu (failure_of e r) = r_requested_cpu r" "r_requested_memory_mb (failure_of e r) = r_requested_memory_mb r"
  "r_experiment_id (failure_of e r) = r_experiment_id r" "r_template_id (failure_of e r) = r_template_id r"
  by (auto simp: failure_of_def split: exn.split)

lemma slow_end_raise:
  assumes "\<not> fail_intentionally p" "\<forall>m. e \<noteq> ArtifactStorageError m"
    and "rt_put rt (ex_store x) (storage_key (r_id r) ''progress.json'')
      (progress_json (total_steps p)) ''application/json'' = (Inl e, w)"
  shows "slow_end rt p r x = (Inl e, x\<lparr>ex_db := rt_env rt FinalUpload (ex_db x), ex_store := w\<rparr>)"
  using assms by (cases e) (simp_all add: slow_end_def Let_def)

section \<open>Every outcome of an execution keeps the invariant\<close>

text \<open>
  The invariants that execution keeps: those that imply the lifecycle invariant and survive every step
  that progresses the runs, revives no assignment and keeps the lifecycle invariant. The other sessions are assumed to keep
  the invariant too and to respect the version column; nothing else is assumed of them.
\<close>

definition env_ok :: "(db \<Rightarrow> bool) \<Rightarrow> (await \<Rightarrow> db \<Rightarrow> db) \<Rightarrow> bool" where
  "env_ok I env \<longleftrightarrow> (\<forall>k s. I s \<longrightarrow> I (env k s) \<and> evolves s (env k s))"

locale execution_invariant =
  fixes inv :: "db \<Rightarrow> bool"
  assumes lifecycle: "inv s \<Longrightarrow> lifecycle_inv s"
    and survives: "inv s \<Longrightarrow> progress s s' \<Longrightarrow> no_revival s s' \<Longrightarrow> lifecycle_inv s' \<Longrightarrow> inv s'"
begin

lemma env_okD:
  assumes "env_ok inv env" "inv s"
  shows "inv (env k s)" "tracks s r \<Longrightarrow> tracks (env k s) r"
  using assms tracks_evolves by (auto simp: env_ok_def)

lemma inputs_inv: "same_inputs s s' \<Longrightarrow> inv s \<Longrightarrow> inv s'"
  by (rule survives) (auto simp: same_inputs_def same_core_def
      intro: same_inputs_progress same_core_inv same_inputs_core lifecycle no_revival_frame)

lemma inputs_tracks: "same_inputs s s' \<Longrightarrow> tracks s' r = tracks s r"
  by (rule same_core_tracks) (rule same_inputs_core)

text \<open>
  Whatever happened meanwhile, a finishing step that succeeds was performed on the current row; it
  keeps the invariant and leaves the run without a lease.
\<close>

lemma finish_run_inv:
  assumes inv: "inv s" and tr: "tracks s r"
    and same: "r_id r' = r_id r" "r_version r' = r_version r" "r_status r' = r_status r"
      "r_requested_cpu r' = r_requested_cpu r" "r_requested_memory_mb r' = r_requested_memory_mb r"
      "r_experiment_id r' = r_experiment_id r" "r_template_id r' = r_template_id r"
    and t: "\<not> busy t" and fin: "finish_run s r' t ty md = Inr (r1, s1)"
  shows "inv s1" "get_run s1 (r_id r) = Some r1" "r_status r1 = t" "leases s1 (r_id r) = None"
proof -
  obtain d where d: "get_run s (r_id r') = Some d" "r_version d = r_version r'" "t \<in> set (VALID_TRANSITIONS (r_status r'))"
    using finish_run_Inr[OF fin] by blast
  have "d = r" using tr d same(1,2) by (auto simp: tracks_def)
  then have eq: "r_status d = r_status r'" "r_requested_cpu d = r_requested_cpu r'"
    "r_requested_memory_mb d = r_requested_memory_mb r'" using same by simp_all
  note ok = finish_run_ok[OF lifecycle[OF inv] d(1,2) eq d(3) t, of ty md]
  have s1: "r1 = moved s r' t id" "s1 = release (after_move s r' t ty md id) (r_id r')"
    using ok(1) fin by simp_all
  have "progress s (after_move s r' t ty md id)"
    using lifecycle[OF inv] d same \<open>d = r\<close>
    by (intro progress_after_move[where d = d]) (simp_all add: keeps_core_def lifecycle_inv_def book_inv_def ids_inv_def)
  then have "progress s s1" unfolding s1(2) by (rule progress_trans) simp
  moreover have "no_revival s s1"
    unfolding s1(2) using t by (intro no_revival_trans[OF no_revival_after_move no_revival_release])
      (auto simp: keeps_core_def busy_def frame_simps)
  ultimately show "inv s1" using ok(2) s1(2) by (intro survives[OF inv]) simp_all
  show "get_run s1 (r_id r) = Some r1" "leases s1 (r_id r) = None"
    using ok(3,4) s1 same(1) by simp_all
  show "r_status r1 = t" using s1(1) by (simp add: keeps_core_def)
qed

lemma upload_all_inv:
  assumes "env_ok inv (rt_env rt)" "inv (ex_db x)" "tracks (ex_db x) r" "upload_all rt rid i gs x = (res, x')"
  shows "inv (ex_db x') \<and> tracks (ex_db x') r"
  using assms(2-4)
proof (induction gs arbitrary: i x)
  case (Cons g gs)
  let ?s = "rt_env rt (Upload i) (ex_db x)"
  have s: "inv ?s" "tracks ?s r" using env_okD[OF assms(1) Cons.prems(1)] Cons.prems(2) by auto
  obtain o1 w where put: "rt_put rt (ex_store x) (storage_key rid (ga_name g)) (ga_data g) (ga_mime_type g) = (o1, w)"
    by fastforce
  show ?case
  proof (cases o1)
    case (Inl e)
    with put Cons.prems(3) s show ?thesis by (auto simp: Let_def)
  next
    case (Inr u)
    with put Cons.prems(3) have "upload_all rt rid (Suc i) gs (x\<lparr>ex_db := ?s, ex_store := w\<rparr>) = (res, x')"
      by (simp add: Let_def)
    with Cons.IH[of "x\<lparr>ex_db := ?s, ex_store := w\<rparr>" "Suc i"] s show ?thesis by simp
  qed
qed simp

lemma store_result_inv:
  assumes "inv s" "tracks s r" "store_result sha r result s = Inr (r1, s1)"
  shows "inv s1" "get_run s1 (r_id r) = Some r1" "r_status r1 = SUCCEEDED" "leases s1 (r_id r) = None"
proof -
  obtain sa sb where st: "insert_logs (r_id r) 1 (tr_logs result) s = Inr sa"
    "foldl (\<lambda>acc g. res_bind acc (\<lambda>s. insert_artifact sha s (r_id r) g (storage_key (r_id r) (ga_name g))))
       (Inr (fold (\<lambda>(name, v) s. add_metric s (r_id r) name v 1) (tr_metrics result) sa)) (tr_artifacts result) = Inr sb"
    "finish_run sb r SUCCEEDED ''run.succeeded''
          [(''metric_count'', JInt (int (length (tr_metrics result)))),
           (''artifact_count'', JInt (int (length (tr_artifacts result))))] = Inr (r1, s1)"
    using assms(3) by (auto simp: store_result_def res_bind_Inr_iff Let_def)
  have "same_inputs sa (fold (\<lambda>(name, v) s. add_metric s (r_id r) name v 1) (tr_metrics result) sa)"
    by (rule fold_inputs) auto
  then have core: "same_inputs s sb"
    using insert_logs_inputs[OF st(1)] insert_artifacts_inputs[OF st(2)] by (blast intro: same_inputs_trans)
  have "inv sb" "tracks sb r" using core assms(1,2) by (auto intro: inputs_inv simp: inputs_tracks)
  from finish_run_inv[OF this refl refl refl refl refl refl refl _ st(3)]
  show "inv s1" "get_run s1 (r_id r) = Some r1" "r_status r1 = SUCCEEDED" "leases s1 (r_id r) = None"
    by (simp_all add: busy_def)
qed

lemma execute_template_inv:
  assumes "env_ok inv (rt_env rt)" "inv (ex_db x)" "tracks (ex_db x) r" "execute_template rt d p r x = (res, x')"
  shows "inv (ex_db x')" "tracks (ex_db x') r \<or> (\<exists>r1. res = Inr r1)" "res = Inr r1 \<Longrightarrow> finished (ex_db x') (r_id r) r1"
proof -
  let ?x1 = "x\<lparr>ex_db := rt_env rt Training (ex_db x)\<rparr>"
  have x1: "inv (ex_db ?x1)" "tracks (ex_db ?x1) r" using env_okD[OF assms(1,2)] assms(3) by auto
  have "inv (ex_db x') \<and> (tracks (ex_db x') r \<or> (\<exists>r1. res = Inr r1)) \<and>
      (\<forall>r1. res = Inr r1 \<longrightarrow> finished (ex_db x') (r_id r) r1)"
  proof (cases "td_executable d")
    case False
    with assms show ?thesis by (auto simp: execute_template_def)
  next
    case exec: True
    show ?thesis
    proof (cases "run_executor (rt_lib rt) d p")
      case (Inl e)
      with exec assms(4) x1 show ?thesis by (auto simp: execute_template_def Let_def)
    next
      case (Inr result)
      obtain o2 x2 where up: "upload_all rt (r_id r) 0 (tr_artifacts result) ?x1 = (o2, x2)" by fastforce
      have x2: "inv (ex_db x2)" "tracks (ex_db x2) r" using upload_all_inv[OF assms(1) x1 up] by auto
      show ?thesis
      proof (cases "o2 = Inr () \<and> is_ok (store_result (rt_sha256 rt) r result (ex_db x2))")
        case True
        then obtain r1 s1 where st: "store_result (rt_sha256 rt) r result (ex_db x2) = Inr (r1, s1)"
          by (cases "store_result (rt_sha256 rt) r result (ex_db x2)") auto
        with store_result_inv[OF x2 st] exec Inr up True assms(4) show ?thesis
          by (auto simp: execute_template_def Let_def finished_def)
      next
        case False
        with exec Inr up assms(4) x2 show ?thesis
          by (cases o2; cases "store_result (rt_sha256 rt) r result (ex_db x2)")
            (auto simp: execute_template_def Let_def)
      qed
    qed
  qed
  then show "inv (ex_db x')" "tracks (ex_db x') r \<or> (\<exists>r1. res = Inr r1)"
    "res = Inr r1 \<Longrightarrow> finished (ex_db x') (r_id r) r1" by auto
qed

lemma fail_template_inv:
  assumes "inv (ex_db x)" "fail_template rt e r x = (res, x')"
    and "\<And>i. rt_expired_id rt (r_id r) = Inr i \<Longrightarrow> i = r_id r"
  shows "inv (ex_db x')" "res = Inr r1 \<Longrightarrow> finished (ex_db x') (r_id r) r1"
proof -
  have "inv (ex_db x') \<and> (res = Inr r1 \<longrightarrow> finished (ex_db x') (r_id r) r1)"
  proof (cases "rt_expired_id rt (r_id r)")
    case (Inl e')
    with assms show ?thesis by (auto simp: fail_template_def)
  next
    case (Inr i)
    then have i: "i = r_id r" using assms(3) by blast
    show ?thesis
    proof (cases "get_run (ex_db x) (r_id r)")
      case None
      with Inr i assms show ?thesis by (auto simp: fail_template_def)
    next
      case (Some f)
      have fid: "r_id f = r_id r" using get_run_SomeD[OF Some] by simp
      show ?thesis
      proof (cases "finish_run (ex_db x) (failure_of e f) FAILED ''run.failed'' []")
        case (Inl e')
        with Inr i Some assms show ?thesis by (auto simp: fail_template_def)
      next
        case fin: (Inr z)
        obtain r2 s2 where z: "z = (r2, s2)" by fastforce
        note ok = finish_run_inv[OF assms(1) tracks_stored[OF Some], of "failure_of e f" FAILED "''run.failed''" "[]" r2 s2]
        from ok fin z Inr i Some assms(2) fid show ?thesis
          by (auto simp: fail_template_def busy_def finished_def)
      qed
    qed
  qed
  then show "inv (ex_db x')" "res = Inr r1 \<Longrightarrow> finished (ex_db x') (r_id r) r1" by auto
qed

lemma slow_step_inv:
  assumes "env_ok inv (rt_env rt)" "inv (ex_db x)" "slow_step rt n k r x = (res, x')"
  shows "inv (ex_db x')"
    "res = Inr (Inr r1) \<Longrightarrow> tracks (ex_db x') r1 \<and> r_id r1 = r_id r"
    "res = Inr (Inl r1) \<Longrightarrow> finished (ex_db x') (r_id r) r1"
proof -
  let ?s = "rt_env rt (Sleep k) (ex_db x)"
  have s: "inv ?s" using env_okD[OF assms(1,2)] by simp
  have "inv (ex_db x') \<and> (res = Inr (Inr r1) \<longrightarrow> tracks (ex_db x') r1 \<and> r_id r1 = r_id r) \<and>
      (res = Inr (Inl r1) \<longrightarrow> finished (ex_db x') (r_id r) r1)"
  proof (cases "get_run ?s (r_id r)")
    case None
    with assms(3) s show ?thesis by (auto simp: slow_step_def Let_def)
  next
    case (Some d)
    have did: "r_id d = r_id r" and td: "tracks ?s d" using get_run_SomeD[OF Some] tracks_stored[OF Some] by auto
    show ?thesis
    proof (cases "r_status d = CANCELLING")
      case True
      let ?fin = "res_bind (insert_log ?s (r_id d) (int k + 1) ''INFO'' ''Cancellation acknowledged at a safe checkpoint'')
        (\<lambda>s1. finish_run s1 d CANCELLED ''run.cancelled'' [])"
      show ?thesis
      proof (cases ?fin)
        case (Inl e)
        with assms(3) s Some True show ?thesis by (auto simp: slow_step_def Let_def)
      next
        case (Inr z)
        obtain r2 s2 where z: "z = (r2, s2)" by fastforce
        with Inr obtain sl where sl: "insert_log ?s (r_id d) (int k + 1) ''INFO''
            ''Cancellation acknowledged at a safe checkpoint'' = Inr sl"
          "finish_run sl d CANCELLED ''run.cancelled'' [] = Inr (r2, s2)" by (auto simp: res_bind_Inr_iff)
        have core: "same_inputs ?s sl" using insert_log_inputs[OF sl(1)] .
        then have "inv sl" "tracks sl d" using s td by (auto intro: inputs_inv simp: inputs_tracks)
        from finish_run_inv[OF this refl refl refl refl refl refl refl _ sl(2)] did
        have "inv s2" "finished s2 (r_id r) r2" by (simp_all add: busy_def finished_def)
        with assms(3) Some True Inr z show ?thesis by (auto simp: slow_step_def Let_def)
      qed
    next
      case False
      show ?thesis
      proof (cases "insert_log ?s (r_id d) (int k + 1) ''INFO''
          (''Demonstration progress '' @ fmt_percent (of_nat k / of_nat n))")
        case (Inl e)
        with assms(3) s Some False show ?thesis by (auto simp: slow_step_def Let_def)
      next
        case (Inr sl)
        let ?s2 = "add_metric sl (r_id d) ''progress'' (of_nat k / of_nat n) (int k)"
        have "same_inputs ?s ?s2"
          using same_inputs_trans[OF insert_log_inputs[OF Inr] same_inputs_adds(2)] .
        then have "inv ?s2" "tracks ?s2 d" using s td by (auto intro: inputs_inv simp: inputs_tracks)
        with assms(3) Some False Inr did show ?thesis by (auto simp: slow_step_def Let_def)
      qed
    qed
  qed
  then show "inv (ex_db x')"
    "res = Inr (Inr r1) \<Longrightarrow> tracks (ex_db x') r1 \<and> r_id r1 = r_id r"
    "res = Inr (Inl r1) \<Longrightarrow> finished (ex_db x') (r_id r) r1" by auto
qed

lemma slow_loop_inv:
  assumes "env_ok inv (rt_env rt)" "inv (ex_db x)" "tracks (ex_db x) r" "slow_loop rt n ks r x = (res, x')"
  shows "inv (ex_db x') \<and> (\<forall>r1. res = Inr (Inr r1) \<longrightarrow> tracks (ex_db x') r1 \<and> r_id r1 = r_id r) \<and>
    (\<forall>r1. res = Inr (Inl r1) \<longrightarrow> finished (ex_db x') (r_id r) r1)"
  using assms(2-4)
proof (induction ks arbitrary: r x)
  case (Cons k ks)
  obtain o1 x1 where st: "slow_step rt n k r x = (o1, x1)" by fastforce
  note step = slow_step_inv[OF assms(1) Cons.prems(1) st]
  show ?case
  proof (cases "\<exists>r1. o1 = Inr (Inr r1)")
    case True
    then obtain r1 where o1: "o1 = Inr (Inr r1)" by blast
    with st Cons.prems(3) have lp: "slow_loop rt n ks r1 x1 = (res, x')" by simp
    have r1: "tracks (ex_db x1) r1" "r_id r1 = r_id r" using step(2)[OF o1] by auto
    from Cons.IH[OF step(1) r1(1) lp] show ?thesis unfolding r1(2) .
  next
    case False
    with st Cons.prems(3) have "res = o1" "x' = x1" by (auto split: sum.splits)
    with step False show ?thesis by blast
  qed
qed auto

lemma slow_end_inv:
  assumes "env_ok inv (rt_env rt)" "inv (ex_db x)" "tracks (ex_db x) r" "slow_end rt p r x = (res, x')"
  shows "inv (ex_db x') \<and> (\<forall>r1. res = Inr r1 \<longrightarrow> finished (ex_db x') (r_id r) r1)"
proof -
  have fin: "inv s1 \<and> finished s1 (r_id r) r1"
    if "inv s" "tracks s r" "finish_run s (r\<lparr>r_failure_code := c, r_failure_message := m\<rparr>) FAILED ty md = Inr (r1, s1)"
    for s c m ty md r1 s1
    using finish_run_inv[OF that(1,2) _ _ _ _ _ _ _ _ that(3)] by (simp add: busy_def finished_def)
  let ?s = "rt_env rt FinalUpload (ex_db x)"
  have s: "inv ?s" "tracks ?s r" using env_okD[OF assms(1,2)] assms(3) by auto
  show ?thesis
  proof (cases "fail_intentionally p")
    case True
    with assms fin show ?thesis by (auto simp: slow_end_def split: sum.splits prod.splits)
  next
    case False
    obtain o1 w where put: "rt_put rt (ex_store x) (storage_key (r_id r) ''progress.json'')
        (progress_json (total_steps p)) ''application/json'' = (o1, w)" by fastforce
    show ?thesis
    proof (cases o1)
      case (Inl e)
      show ?thesis
      proof (cases "\<exists>m. e = ArtifactStorageError m")
        case True
        with False Inl put assms(4) s fin show ?thesis
          by (auto simp: slow_end_def Let_def split: sum.splits prod.splits)
      next
        case other: False
        then have "slow_end rt p r x = (Inl e, x\<lparr>ex_db := ?s, ex_store := w\<rparr>)"
          using slow_end_raise[OF False] put Inl by simp
        with assms(4) s show ?thesis by auto
      qed
    next
      case (Inr u)
      let ?ga = "\<lparr>ga_name = ''progress.json'', ga_mime_type = ''application/json'', ga_data = progress_json (total_steps p)\<rparr>"
      have "inv s2 \<and> finished s2 (r_id r) r1"
        if a: "insert_artifact (rt_sha256 rt) ?s (r_id r) ?ga key = Inr s1"
          and f: "finish_run s1 r SUCCEEDED ty md = Inr (r1, s2)" for key s1 ty md r1 s2
      proof -
        have core: "same_inputs ?s s1" using insert_artifact_inputs[OF a] .
        then have "inv s1" "tracks s1 r" using s by (auto intro: inputs_inv simp: inputs_tracks)
        from finish_run_inv[OF this refl refl refl refl refl refl refl _ f] show ?thesis by (simp add: busy_def finished_def)
      qed
      with False Inr put assms(4) s show ?thesis
        by (auto simp: slow_end_def Let_def res_bind_Inr_iff split: sum.splits prod.splits)
    qed
  qed
qed

lemma execute_slow_run_inv:
  assumes "env_ok inv (rt_env rt)" "inv (ex_db x)" "tracks (ex_db x) r" "execute_slow_run rt r p x = (res, x')"
  shows "inv (ex_db x') \<and> (\<forall>r1. res = Inr r1 \<longrightarrow> finished (ex_db x') (r_id r) r1)"
proof -
  let ?msg = "''Started bounded progress demonstration with '' @ show_nat (total_steps p) @ '' steps''"
  show ?thesis
  proof (cases "insert_log (ex_db x) (r_id r) 1 ''INFO'' ?msg")
    case (Inl e)
    with assms show ?thesis by (auto simp: execute_slow_run_def Let_def)
  next
    case (Inr s1)
    let ?x1 = "emit rt [log_event 1 ''INFO'' ?msg] (x\<lparr>ex_db := s1\<rparr>)"
    have x1: "inv (ex_db ?x1)" "tracks (ex_db ?x1) r"
      using insert_log_inputs[OF Inr] assms(2,3) by (auto intro: inputs_inv simp: inputs_tracks)
    obtain o2 x2 where lp: "slow_loop rt (total_steps p) [1..<Suc (total_steps p)] r ?x1 = (o2, x2)" by fastforce
    note loop = slow_loop_inv[OF assms(1) x1 lp]
    show ?thesis
    proof (cases "\<exists>r2. o2 = Inr (Inr r2)")
      case True
      then obtain r2 where o2: "o2 = Inr (Inr r2)" by blast
      with loop have r2: "inv (ex_db x2)" "tracks (ex_db x2) r2" "r_id r2 = r_id r" by auto
      have "slow_end rt p r2 x2 = (res, x')"
        using assms(4) Inr lp o2 by (simp add: execute_slow_run_def Let_def del: upt_Suc)
      from slow_end_inv[OF assms(1) r2(1,2) this] r2(3) show ?thesis by simp
    next
      case False
      with assms(4) Inr lp loop show ?thesis
        by (auto simp: execute_slow_run_def Let_def simp del: upt_Suc split: sum.splits)
    qed
  qed
qed

lemma run_template_inv:
  assumes "env_ok inv (rt_env rt)" "inv (ex_db x)" "tracks (ex_db x) r"
    and "\<And>i. rt_expired_id rt (r_id r) = Inr i \<Longrightarrow> i = r_id r" "run_template rt t p r x = (res, x')"
  shows "inv (ex_db x') \<and> (\<forall>r1. res = Inr r1 \<longrightarrow> finished (ex_db x') (r_id r) r1)"
proof (cases "registry_get (t_key t) (t_version t)")
  case (Inl e)
  with assms show ?thesis by (auto simp: run_template_def)
next
  case (Inr d)
  obtain o1 x1 where ex: "execute_template rt d p r x = (o1, x1)" by fastforce
  note body = execute_template_inv[OF assms(1-3) ex]
  have slow: "inv (ex_db x') \<and> (\<forall>r1. res = Inr r1 \<longrightarrow> finished (ex_db x') (r_id r) r1)"
    if "execute_slow_run rt r q x = (res, x')" for q
    using execute_slow_run_inv[OF assms(1-3) that] .
  show ?thesis
  proof (cases "t_key t = ''slow-demonstration''")
    case True
    with Inr assms(2,5) slow show ?thesis by (auto simp: run_template_def split: parameters.splits)
  next
    case False
    show ?thesis
    proof (cases o1)
      case err: (Inl e)
      then have "fail_template rt e r x1 = (res, x')" using Inr False ex assms(5) by (simp add: run_template_def)
      from fail_template_inv[OF body(1) this assms(4)] show ?thesis by blast
    next
      case ok: (Inr r1)
      with Inr False ex assms(5) body show ?thesis by (auto simp: run_template_def)
    qed
  qed
qed

end

section \<open>The entry point\<close>

text \<open>The state after the commit of \<open>RUNNING\<close>: the run keeps its lease.\<close>

lemma start_run_ok:
  assumes inv: "lifecycle_inv s" and get: "get_run s rid = Some r" "r_status r = SCHEDULING"
  shows "transition_and_flush s r RUNNING ty md id = Inr (moved s r RUNNING id, after_move s r RUNNING ty md id)"
    "lifecycle_inv (after_move s r RUNNING ty md id)"
    "get_run (after_move s r RUNNING ty md id) rid = Some (moved s r RUNNING id)"
proof -
  have r: "r_id r = rid" using get_run_SomeD[OF get(1)] by simp
  have kc: "keeps_core id" by (simp add: keeps_core_def)
  have g: "get_run s (r_id r) = Some r" using get(1) r by simp
  show "transition_and_flush s r RUNNING ty md id = Inr (moved s r RUNNING id, after_move s r RUNNING ty md id)"
    using get(2) kc by (intro transition_and_flush_ok[OF g]) simp_all
  have "r_assigned_worker_id (moved s r RUNNING id) = r_assigned_worker_id r" by (simp add: moved_def)
  then show "lifecycle_inv (after_move s r RUNNING ty md id)"
    using get(2) kc by (intro lifecycle_inv_stay[OF inv g refl refl refl refl]) (simp_all add: busy_def)
  show "get_run (after_move s r RUNNING ty md id) rid = Some (moved s r RUNNING id)"
    using g r by (simp add: get_run_after_move[OF kc])
qed

definition start_metadata :: "resource_allocation \<Rightarrow> dict" where
  "start_metadata a = [(''worker_id'', JStr (uuid_str (a_worker_id a))), (''lease_id'', JStr (uuid_str (a_id a)))]"

text \<open>An execution that gets past its guards is the start of the run followed by its template.\<close>

lemma execute_existing_run_started:
  assumes inv: "lifecycle_inv (ex_db x)" and get: "get_run (ex_db x) rid = Some r" "r_status r = SCHEDULING"
    and lease: "active_allocation (ex_db x) rid = Some a" "\<not> lease_refused (Some a) ew lt"
    and tmpl: "get_template (ex_db x) (r_template_id r) = Some t"
      "validate_parameters (lib_pydantic (rt_lib rt)) t (stored_parameters (ex_db x) rid) = Inr (p, dp)"
  shows "execute_existing_run rt rid ew lt x =
    (case run_template rt t p (moved (ex_db x) r RUNNING id)
        (emit rt [status_event RUNNING] (x\<lparr>ex_db := after_move (ex_db x) r RUNNING ''run.started'' (start_metadata a) id\<rparr>)) of
       (Inl e, x1) \<Rightarrow> (Inl e, x1) | (Inr r2, x1) \<Rightarrow> (Inr (Some r2), x1))"
proof -
  have r: "r_id r = rid" using get_run_SomeD[OF get(1)] by simp
  show ?thesis
    using assms start_run_ok(1)[OF inv get] r
    by (simp add: execute_existing_run_def Let_def start_metadata_def)
qed

lemma execute_existing_run_cases:
  assumes "lifecycle_inv (ex_db x)" "execute_existing_run rt rid ew lt x = (res, x')"
  obtains (idle) "x' = x"
  | (started) r t p ev o1 where "get_run (ex_db x) rid = Some r" "r_status r = SCHEDULING"
      "run_template rt t p (moved (ex_db x) r RUNNING id)
        (emit rt [status_event RUNNING] (x\<lparr>ex_db := after_move (ex_db x) r RUNNING ''run.started'' ev id\<rparr>)) = (o1, x')"
      "res = (case o1 of Inl e \<Rightarrow> Inl e | Inr r2 \<Rightarrow> Inr (Some r2))"
proof (cases "x' = x")
  case True
  then show thesis by (rule idle)
next
  case False
  then obtain r where r: "get_run (ex_db x) rid = Some r" "r_status r = SCHEDULING"
    using assms(2) by (auto simp: execute_existing_run_def Let_def split: option.splits if_splits)
  have rid: "r_id r = rid" using get_run_SomeD[OF r(1)] by simp
  obtain a t p dp where "active_allocation (ex_db x) rid = Some a" "\<not> lease_refused (Some a) ew lt"
    "get_template (ex_db x) (r_template_id r) = Some t"
    "validate_parameters (lib_pydantic (rt_lib rt)) t (stored_parameters (ex_db x) rid) = Inr (p, dp)"
    using assms(2) False r rid
    by (auto simp: execute_existing_run_def Let_def res_bind_def split: option.splits if_splits sum.splits)
  from execute_existing_run_started[OF assms(1) r this] assms(2)
  show thesis using started[OF r] by (auto split: prod.splits sum.splits)
qed


text \<open>The whole of an execution, for every invariant of this kind.\<close>

context execution_invariant begin

lemma started_inv:
  assumes "env_ok inv (rt_env rt)" "\<forall>i. rt_expired_id rt rid = Inr i \<longrightarrow> i = rid" "lifecycle_inv (ex_db x)"
    and r: "get_run (ex_db x) rid = Some r" "r_status r = SCHEDULING"
    and s1: "inv (after_move (ex_db x) r RUNNING ''run.started'' ev id)"
    and run: "run_template rt t p (moved (ex_db x) r RUNNING id)
      (emit rt [status_event RUNNING] (x\<lparr>ex_db := after_move (ex_db x) r RUNNING ''run.started'' ev id\<rparr>)) = (o1, x')"
  shows "inv (ex_db x') \<and> (\<forall>r1. o1 = Inr r1 \<longrightarrow> finished (ex_db x') rid r1)"
proof -
  let ?r1 = "moved (ex_db x) r RUNNING id"
  let ?x1 = "emit rt [status_event RUNNING] (x\<lparr>ex_db := after_move (ex_db x) r RUNNING ''run.started'' ev id\<rparr>)"
  have r1: "r_id ?r1 = rid" using get_run_SomeD[OF r(1)] by (simp add: keeps_core_def)
  have x1: "inv (ex_db ?x1)" "tracks (ex_db ?x1) ?r1"
    using s1 tracks_stored[OF start_run_ok(3)[OF assms(3) r]] by simp_all
  have "rt_expired_id rt (r_id ?r1) = Inr i \<Longrightarrow> i = r_id ?r1" for i using assms(2) r1 by simp
  from run_template_inv[OF assms(1) x1 this run] r1 show ?thesis by simp
qed

lemma execute_inv:
  assumes "env_ok inv (rt_env rt)" "inv (ex_db x)" "\<forall>i. rt_expired_id rt rid = Inr i \<longrightarrow> i = rid"
    and "execute_existing_run rt rid expected_worker lease_token x = (res, x')"
  shows "inv (ex_db x') \<and> (\<forall>r. res = Inr (Some r) \<longrightarrow> x' = x \<or> finished (ex_db x') rid r)"
  using lifecycle[OF assms(2)] assms(4)
proof (cases rule: execute_existing_run_cases)
  case idle
  with assms(2) show ?thesis by simp
next
  case (started r t p ev o1)
  let ?s1 = "after_move (ex_db x) r RUNNING ''run.started'' ev id"
  have r: "r_id r = rid" using get_run_SomeD[OF started(1)] by simp
  have "progress (ex_db x) ?s1"
    using lifecycle[OF assms(2)] started(1) r
    by (intro progress_after_move[where d = r]) (simp_all add: keeps_core_def lifecycle_inv_def book_inv_def ids_inv_def)
  then have "inv ?s1"
    using start_run_ok(2)[OF lifecycle[OF assms(2)] started(1,2)] no_revival_after_move[of id RUNNING]
    by (intro survives[OF assms(2)]) (simp_all add: keeps_core_def)
  from started_inv[OF assms(1,3) lifecycle[OF assms(2)] started(1,2) this started(3)] started(4)
  show ?thesis by (cases o1) auto
qed

end

interpretation lifecycle: execution_invariant lifecycle_inv
  by unfold_locales

text \<open>
  A delivery is acted on only under a live lease: if the run is unknown, is not \<open>SCHEDULING\<close> (a
  duplicate or late delivery), holds no active lease, or holds one of another worker or with another
  token, the execution returns the stored run and changes nothing.
\<close>

lemma execute_idle:
  assumes "\<forall>r. get_run (ex_db x) rid = Some r \<longrightarrow> r_status r \<noteq> SCHEDULING \<or>
      lease_refused (active_allocation (ex_db x) rid) expected_worker lease_token"
  shows "execute_existing_run rt rid expected_worker lease_token x = (Inr (get_run (ex_db x) rid), x)"
proof (cases "get_run (ex_db x) rid")
  case (Some r)
  moreover have "r_id r = rid" using get_run_SomeD[OF Some] by simp
  ultimately show ?thesis
    using assms by (auto simp: execute_existing_run_def Let_def lease_refused_def split: option.splits)
qed (simp add: execute_existing_run_def)


section \<open>Properties of execution\<close>

text \<open>A runtime without interference over a store that is a map, and a database with a scheduled run.\<close>

definition demo_library :: library where
  "demo_library = \<lparr>lib_pydantic = strict_pydantic,
     lib_train = (\<lambda>p. Inr \<lparr>tn_accuracy = 9/10, tn_precision = 9/10, tn_recall = 9/10, tn_f1 = 9/10, tn_train_size = 120,
       tn_test_size = 30, tn_model = ''model''\<rparr>), lib_float_repr = fmt_fixed 4\<rparr>"

definition demo_rt :: "(string \<rightharpoonup> bytes) runtime" where
  "demo_rt = \<lparr>rt_lib = demo_library, rt_put = (\<lambda>m k d ct. (Inr (), m(k \<mapsto> d))), rt_sha256 = (\<lambda>d. ''sha''),
     rt_env = (\<lambda>k s. s), rt_live = True, rt_expired_id = Inr\<rparr>"

definition demo_exec :: "db \<Rightarrow> (string \<rightharpoonup> bytes) exec" where
  "demo_exec s = \<lparr>ex_db = s, ex_store = Map.empty, ex_live = []\<rparr>"

definition demo_sched_db :: db where
  "demo_sched_db = demo_db\<lparr>runs := [demo_run 11 SCHEDULING (Some 5)],
     run_events := [demo_event 21 11 DRAFT QUEUED, demo_event 22 11 QUEUED SCHEDULING]\<rparr>"

lemma demo_sched_inv: "lifecycle_inv demo_sched_db"
  by (simp add: lifecycle_inv_def book_inv_def ids_inv_def capacity_inv_def capacity_ok_def used_cpu_def
      used_memory_def active_of_def active_def status_inv_def audit_inv_def request_inv_def leases_def busy_def
      trail_def demo_sched_db_def demo_defs)

lemma demo_env_ok: "env_ok lifecycle_inv (rt_env demo_rt)"
  by (simp add: env_ok_def demo_rt_def)

text \<open>
  C14. Execution is safe under interference. However other sessions interleave (as long as they keep
  the invariant and respect the version column), whether the training, an upload or a flush raises or
  not: every execution leaves a database that satisfies the lifecycle invariant, and when it returns
  a run after doing any work, that run is the stored one, has a final status and holds no lease.
\<close>

theorem execute_keeps_invariant:
  assumes "env_ok lifecycle_inv (rt_env rt)" "lifecycle_inv (ex_db x)" "\<forall>i. rt_expired_id rt rid = Inr i \<longrightarrow> i = rid"
    and "execute_existing_run rt rid expected_worker lease_token x = (res, x')"
  shows "lifecycle_inv (ex_db x') \<and> (\<forall>r. res = Inr (Some r) \<longrightarrow> x' = x \<or> finished (ex_db x') rid r)"
  by (rule lifecycle.execute_inv[OF assms])

theorem execute_keeps_invariant_witness:
  "\<exists>res x'. execute_existing_run demo_rt 11 (Some 5) (Some 7) (demo_exec demo_sched_db) = (res, x') \<and>
     lifecycle_inv (ex_db x')"
proof -
  obtain res x' where e: "execute_existing_run demo_rt 11 (Some 5) (Some 7) (demo_exec demo_sched_db) = (res, x')"
    by fastforce
  show ?thesis
    using execute_keeps_invariant[OF demo_env_ok _ _ e] demo_sched_inv e by (simp add: demo_exec_def demo_rt_def)
qed

end
