(* ===== verification/Execution_Outcomes.thy ===== *)
theory Execution_Outcomes
  imports Execution_Proofs
begin

text \<open>
  What creation and an undisturbed execution achieve: the exact rows of a created run, the complete
  progress record of the slow demonstration, and the recorded result or failure of a template.
\<close>

text \<open>An execution is undisturbed when no other session changes the database at its awaits.\<close>

definition calm :: "'w runtime \<Rightarrow> bool" where
  "calm rt \<longleftrightarrow> (\<forall>k s. rt_env rt k s = s)"

definition logs_of :: "db \<Rightarrow> uuid \<Rightarrow> int list" where
  "logs_of s rid = map l_sequence_number (filter (\<lambda>l. l_run_id l = rid) (run_logs s))"

definition metrics_of :: "db \<Rightarrow> uuid \<Rightarrow> (string \<times> rat \<times> int) list" where
  "metrics_of s rid = map (\<lambda>m. (m_name m, m_value m, m_step m)) (filter (\<lambda>m. m_run_id m = rid) (run_metrics s))"

definition artifacts_of :: "db \<Rightarrow> uuid \<Rightarrow> (string \<times> string \<times> string) list" where
  "artifacts_of s rid = map (\<lambda>a. (art_name a, art_storage_key a, art_checksum a)) (filter (\<lambda>a. art_run_id a = rid) (artifacts s))"

text \<open>A run that was never started has no rows of its own, and no artifact key begins with its id.\<close>

definition unstarted :: "db \<Rightarrow> uuid \<Rightarrow> bool" where
  "unstarted s rid \<longleftrightarrow> logs_of s rid = [] \<and> metrics_of s rid = [] \<and> artifacts_of s rid = [] \<and>
     (\<forall>a\<in>set (artifacts s). \<forall>n. art_storage_key a \<noteq> storage_key rid n)"

lemma insert_log_fresh:
  assumes "sq \<notin> set (logs_of s rid)"
  obtains s' where "insert_log s rid sq lv m = Inr s'" "logs_of s' rid = logs_of s rid @ [sq]"
    "run_metrics s' = run_metrics s" "artifacts s' = artifacts s" "same_core s s'"
proof
  show "insert_log s rid sq lv m = Inr (add_log s rid sq lv m)"
    using assms by (auto simp: insert_log_def logs_of_def list_ex_iff)
qed (simp_all add: add_log_def uuid4_def logs_of_def Let_def same_core_def)

lemma add_metric_rows:
  "metrics_of (add_metric s rid n v k) rid = metrics_of s rid @ [(n, v, k)]"
  "run_logs (add_metric s rid n v k) = run_logs s" "artifacts (add_metric s rid n v k) = artifacts s"
  by (simp_all add: metrics_of_def add_metric_def uuid4_def Let_def)

lemma rows_cong:
  "run_logs s' = run_logs s \<Longrightarrow> logs_of s' rid = logs_of s rid"
  "run_metrics s' = run_metrics s \<Longrightarrow> metrics_of s' rid = metrics_of s rid"
  "artifacts s' = artifacts s \<Longrightarrow> artifacts_of s' rid = artifacts_of s rid"
  by (simp_all add: logs_of_def metrics_of_def artifacts_of_def)


section \<open>The slow demonstration\<close>

lemma total_steps_bounds:
  assumes "slow_ok p"
  shows "1 \<le> total_steps p" "total_steps p \<le> 120"
proof -
  show "1 \<le> total_steps p" by (simp add: total_steps_def)
  have i: "0 < interval_seconds p" "1/4 \<le> interval_seconds p" and d: "duration_seconds p \<le> 30"
    using assms by (auto simp: slow_ok_def)
  have "duration_seconds p \<le> 120 * interval_seconds p" using i d by linarith
  then have "duration_seconds p / interval_seconds p \<le> 120" using i(1) by (simp add: divide_le_eq mult.commute)
  then have "\<lceil>duration_seconds p / interval_seconds p\<rceil> \<le> 120" by (simp add: ceiling_le_iff)
  then show "total_steps p \<le> 120" unfolding total_steps_def by linarith
qed

lemma slow_step_calm:
  assumes "calm rt" "get_run (ex_db x) (r_id r) = Some r" "r_status r \<noteq> CANCELLING" "int k + 1 \<notin> set (logs_of (ex_db x) (r_id r))"
  obtains x' where "slow_step rt n k r x = (Inr (Inr r), x')" "same_core (ex_db x) (ex_db x')"
    "logs_of (ex_db x') (r_id r) = logs_of (ex_db x) (r_id r) @ [int k + 1]"
    "metrics_of (ex_db x') (r_id r) = metrics_of (ex_db x) (r_id r) @ [(''progress'', of_nat k / of_nat n, int k)]"
    "artifacts (ex_db x') = artifacts (ex_db x)" "ex_store x' = ex_store x"
proof -
  let ?m = "''Demonstration progress '' @ fmt_percent (of_nat k / of_nat n)"
  obtain s1 where s1: "insert_log (ex_db x) (r_id r) (int k + 1) ''INFO'' ?m = Inr s1"
    "logs_of s1 (r_id r) = logs_of (ex_db x) (r_id r) @ [int k + 1]" "run_metrics s1 = run_metrics (ex_db x)"
    "artifacts s1 = artifacts (ex_db x)" "same_core (ex_db x) s1"
    using insert_log_fresh[OF assms(4)] .
  let ?s2 = "add_metric s1 (r_id r) ''progress'' (of_nat k / of_nat n) (int k)"
  show thesis
  proof (rule that[of "emit rt [log_event (int k + 1) ''INFO'' ?m,
        metric_event ''progress'' (of_nat k / of_nat n) (int k)] (x\<lparr>ex_db := ?s2\<rparr>)"])
    show "same_core (ex_db x) (ex_db (emit rt [log_event (int k + 1) ''INFO'' ?m,
        metric_event ''progress'' (of_nat k / of_nat n) (int k)] (x\<lparr>ex_db := ?s2\<rparr>)))"
      using same_core_trans[OF s1(5) same_core_adds(2)] by simp
  qed (use assms s1 in \<open>simp_all add: slow_step_def calm_def Let_def add_metric_rows rows_cong(2)[OF s1(3)]
      rows_cong(1)[OF add_metric_rows(2)]\<close>)
qed

lemma slow_loop_calm:
  assumes "calm rt" "get_run (ex_db x) (r_id r) = Some r" "r_status r \<noteq> CANCELLING"
    and "\<forall>k\<in>set ks. int k + 1 \<notin> set (logs_of (ex_db x) (r_id r))" "distinct ks"
  shows "\<exists>x'. slow_loop rt n ks r x = (Inr (Inr r), x') \<and> same_core (ex_db x) (ex_db x') \<and>
    logs_of (ex_db x') (r_id r) = logs_of (ex_db x) (r_id r) @ map (\<lambda>k. int k + 1) ks \<and>
    metrics_of (ex_db x') (r_id r) = metrics_of (ex_db x) (r_id r) @ map (\<lambda>k. (''progress'', of_nat k / of_nat n, int k)) ks \<and>
    artifacts (ex_db x') = artifacts (ex_db x) \<and> ex_store x' = ex_store x"
  using assms(2-5)
proof (induction ks arbitrary: x)
  case (Cons k ks)
  obtain x1 where x1: "slow_step rt n k r x = (Inr (Inr r), x1)" "same_core (ex_db x) (ex_db x1)"
    "logs_of (ex_db x1) (r_id r) = logs_of (ex_db x) (r_id r) @ [int k + 1]"
    "metrics_of (ex_db x1) (r_id r) = metrics_of (ex_db x) (r_id r) @ [(''progress'', of_nat k / of_nat n, int k)]"
    "artifacts (ex_db x1) = artifacts (ex_db x)" "ex_store x1 = ex_store x"
    using slow_step_calm[OF assms(1) Cons.prems(1,2), of k n] Cons.prems(3) by auto
  have "get_run (ex_db x1) (r_id r) = Some r" using Cons.prems(1) same_core_get_run[OF x1(2)] by simp
  moreover have "\<forall>j\<in>set ks. int j + 1 \<notin> set (logs_of (ex_db x1) (r_id r))"
    using Cons.prems(3,4) x1(3) by auto
  ultimately obtain x' where "slow_loop rt n ks r x1 = (Inr (Inr r), x')" "same_core (ex_db x1) (ex_db x')"
    "logs_of (ex_db x') (r_id r) = logs_of (ex_db x1) (r_id r) @ map (\<lambda>k. int k + 1) ks"
    "metrics_of (ex_db x') (r_id r) = metrics_of (ex_db x1) (r_id r) @ map (\<lambda>k. (''progress'', of_nat k / of_nat n, int k)) ks"
    "artifacts (ex_db x') = artifacts (ex_db x1)" "ex_store x' = ex_store x1"
    using Cons.IH[of x1] Cons.prems(2,4) by auto
  with x1 show ?case by (auto intro: same_core_trans)
qed simp

text \<open>Finishing a run does not touch its logs, metrics and artifacts.\<close>

lemma flush_run_tables:
  assumes "flush_run s r = Inr (r', s')"
  shows "run_logs s' = run_logs s" "run_metrics s' = run_metrics s" "artifacts s' = artifacts s"
  using assms by (auto simp: flush_run_def Let_def split: option.splits if_splits)

lemma finish_run_rows:
  assumes "finish_run s r t ty md = Inr (r1, s1)"
  shows "run_logs s1 = run_logs s" "run_metrics s1 = run_metrics s" "artifacts s1 = artifacts s"
  using assms by (auto simp: finish_run_def res_bind_Inr_iff transition_and_flush_def transition_run_Inr frame_simps
      dest: flush_run_tables)

lemma finish_run_running:
  assumes "lifecycle_inv s" "get_run s rid = Some r" "r_status r = RUNNING" "t \<in> {SUCCEEDED, FAILED}"
    and "r_id r' = r_id r" "r_version r' = r_version r" "r_status r' = r_status r"
    and "r_requested_cpu r' = r_requested_cpu r" "r_requested_memory_mb r' = r_requested_memory_mb r"
  obtains r1 s1 where "finish_run s r' t ty md = Inr (r1, s1)" "finished s1 rid r1" "r_status r1 = t"
    "r_failure_code r1 = r_failure_code r'" "run_logs s1 = run_logs s" "run_metrics s1 = run_metrics s" "artifacts s1 = artifacts s"
proof -
  have r: "r_id r = rid" using get_run_SomeD[OF assms(2)] by simp
  have g: "get_run s (r_id r') = Some r" using assms(2,5) r by simp
  have t: "t \<in> set (VALID_TRANSITIONS (r_status r'))" "\<not> busy t" using assms(3,4,7) by (auto simp: busy_def)
  note ok = finish_run_ok[OF assms(1) g assms(6)[symmetric] assms(7)[symmetric] assms(8)[symmetric] assms(9)[symmetric] t, of ty md]
  have "r_status (moved s r' t id) = t" "r_failure_code (moved s r' t id) = r_failure_code r'"
    by (simp_all add: keeps_core_def) (simp add: moved_def stamp_run_def Let_def)
  with ok assms(4,5) r show thesis
    by (intro that[OF ok(1)]) (auto simp: finished_def frame_simps)
qed

lemma insert_artifact_fresh:
  assumes "\<forall>a\<in>set (artifacts s). art_run_id a = rid \<longrightarrow> art_name a \<noteq> ga_name g"
    and "\<forall>a\<in>set (artifacts s). art_storage_key a \<noteq> key"
  obtains s' where "insert_artifact sha s rid g key = Inr s'"
    "artifacts_of s' rid = artifacts_of s rid @ [(ga_name g, key, sha (ga_data g))]"
    "run_logs s' = run_logs s" "run_metrics s' = run_metrics s" "same_core s s'"
    "\<And>a. a \<in> set (artifacts s') \<Longrightarrow> a \<in> set (artifacts s) \<or> (art_run_id a = rid \<and> art_name a = ga_name g \<and> art_storage_key a = key)"
proof -
  have "\<not> list_ex (\<lambda>a. (art_run_id a = rid \<and> art_name a = ga_name g) \<or> art_storage_key a = key) (artifacts s)"
    using assms by (auto simp: list_ex_iff)
  then show thesis
    by (intro that[of "artifacts_update (\<lambda>as. as @ [\<lparr>art_id = next_uuid s, art_run_id = rid, art_name = ga_name g,
                art_storage_key = key, art_mime_type = ga_mime_type g,
                art_size_bytes = int (length (ga_data g)), art_checksum = sha (ga_data g),
                art_created_at = tx_now s\<rparr>]) (s\<lparr>next_uuid := Suc (next_uuid s)\<rparr>)"])
      (auto simp: insert_artifact_def uuid4_def artifacts_of_def same_core_def)
qed

lemma unstarted_artifacts:
  assumes "unstarted s rid" "artifacts s' = artifacts s"
  shows "\<forall>a\<in>set (artifacts s'). art_run_id a = rid \<longrightarrow> art_name a \<noteq> n" "\<forall>a\<in>set (artifacts s'). art_storage_key a \<noteq> storage_key rid n"
    "artifacts_of s' rid = []"
  using assms by (auto simp: unstarted_def artifacts_of_def filter_empty_conv)

text \<open>What follows the progress loop, when nobody interferes.\<close>

lemma slow_end_calm:
  assumes calm: "calm rt" and inv: "lifecycle_inv (ex_db x)" and get: "get_run (ex_db x) rid = Some r" "r_status r = RUNNING"
    and fresh: "\<forall>a\<in>set (artifacts (ex_db x)). art_run_id a = rid \<longrightarrow> art_name a \<noteq> ''progress.json''"
      "\<forall>a\<in>set (artifacts (ex_db x)). art_storage_key a \<noteq> storage_key rid ''progress.json''"
    and put: "rt_put rt (ex_store x) (storage_key rid ''progress.json'') (progress_json (total_steps p)) ''application/json'' = (po, w)"
      "po = Inr () \<or> (\<exists>m. po = Inl (ArtifactStorageError m))"
  shows "\<exists>r' x'. slow_end rt p r x = (Inr r', x') \<and> finished (ex_db x') rid r' \<and>
    r_status r' = (if fail_intentionally p \<or> \<not> is_ok po then FAILED else SUCCEEDED) \<and>
    run_logs (ex_db x') = run_logs (ex_db x) \<and> run_metrics (ex_db x') = run_metrics (ex_db x) \<and>
    artifacts_of (ex_db x') rid = artifacts_of (ex_db x) rid @ (if fail_intentionally p \<or> \<not> is_ok po then []
      else [(''progress.json'', storage_key rid ''progress.json'', rt_sha256 rt (progress_json (total_steps p)))])"
proof -
  have r: "r_id r = rid" using get_run_SomeD[OF get(1)] by simp
  have env: "rt_env rt FinalUpload s = s" for s using calm by (simp add: calm_def)
  have fin: "\<exists>r1 s1. finish_run (ex_db x) (r\<lparr>r_failure_code := c, r_failure_message := m\<rparr>) FAILED ty md = Inr (r1, s1) \<and>
      finished s1 rid r1 \<and> r_status r1 = FAILED \<and> run_logs s1 = run_logs (ex_db x) \<and>
      run_metrics s1 = run_metrics (ex_db x) \<and> artifacts_of s1 rid = artifacts_of (ex_db x) rid" for c m ty md
    by (rule finish_run_running[OF inv get, of FAILED "r\<lparr>r_failure_code := c, r_failure_message := m\<rparr>" ty md])
      (auto simp: artifacts_of_def)
  consider "fail_intentionally p" | m where "\<not> fail_intentionally p" "po = Inl (ArtifactStorageError m)"
    | "\<not> fail_intentionally p" "po = Inr ()" using put(2) by blast
  then show ?thesis
  proof cases
    case 1
    from fin[where c = "Some ''intentional_demo_failure''" and m = "Some ''The slow demonstration was configured to fail''" and ty = "''run.failed''"
        and md = "[(''retryable'', JBool True), (''intentional'', JBool True)]"]
    show ?thesis using 1 by (auto simp: slow_end_def)
  next
    case (2 m)
    from fin[where c = "Some ''artifact_upload_failed''" and m = "Some ''Artifact storage remained unavailable''" and ty = "''run.failed''"
        and md = "[(''retryable'', JBool True), (''reason'', JStr ''artifact_storage'')]"]
    show ?thesis using 2 put(1) r env by (auto simp: slow_end_def Let_def)
  next
    case 3
    let ?g = "\<lparr>ga_name = ''progress.json'', ga_mime_type = ''application/json'', ga_data = progress_json (total_steps p)\<rparr>"
    obtain sa where sa: "insert_artifact (rt_sha256 rt) (ex_db x) rid ?g (storage_key rid ''progress.json'') = Inr sa"
      "artifacts_of sa rid = artifacts_of (ex_db x) rid @
         [(''progress.json'', storage_key rid ''progress.json'', rt_sha256 rt (progress_json (total_steps p)))]"
      "run_logs sa = run_logs (ex_db x)" "run_metrics sa = run_metrics (ex_db x)" "same_core (ex_db x) sa"
      by (rule insert_artifact_fresh[of "ex_db x" rid ?g "storage_key rid ''progress.json''" "rt_sha256 rt"])
        (use fresh that in auto)
    have sa2: "lifecycle_inv sa" "get_run sa rid = Some r"
      using sa(5) inv get by (auto intro: same_core_inv simp: same_core_get_run)
    obtain r1 s1 where s1: "finish_run sa r SUCCEEDED ''run.succeeded''
         [(''metric_count'', JInt (int (total_steps p))), (''artifact_count'', JInt 1)] = Inr (r1, s1)"
      "finished s1 rid r1" "r_status r1 = SUCCEEDED" "run_logs s1 = run_logs sa" "run_metrics s1 = run_metrics sa"
      "artifacts s1 = artifacts sa"
      by (rule finish_run_running[OF sa2 get(2), of SUCCEEDED r "''run.succeeded''"
          "[(''metric_count'', JInt (int (total_steps p))), (''artifact_count'', JInt 1)]"]) (use that in auto)
    with 3 put(1) r env sa show ?thesis by (auto simp: slow_end_def Let_def rows_cong(3)[OF s1(6)])
  qed
qed

section \<open>Properties of undisturbed executions\<close>

lemma validate_slow_template:
  assumes "t_key t = ''slow-demonstration''" "t_version t = ''1.0.0''"
    and "model_validate px SlowDemoParameters values = Inr (SlowParameters p)"
  shows "validate_parameters px t values = Inr (SlowParameters p, dump_parameters (SlowParameters p))"
    and "\<exists>d. registry_get (t_key t) (t_version t) = Inr d"
  using assms by (simp_all add: validate_parameters_def registry_get_def registry_def)

lemma start_log_upt: "1 # map (\<lambda>k. int k + 1) [1..<Suc n] = map int [1..<n + 2]"
proof -
  have "[1..<n + 2] = 1 # map Suc [1..<Suc n]"
    by (simp add: map_Suc_upt upt_conv_Cons del: upt_Suc)
  then show ?thesis by (simp add: comp_def del: upt_Suc)
qed

text \<open>The slow demonstration, started under its lease and left alone.\<close>

lemma slow_run_ends:
  assumes calm: "calm rt" and inv: "lifecycle_inv (ex_db x)"
    and get: "get_run (ex_db x) rid = Some r" "r_status r = SCHEDULING"
    and lease: "active_allocation (ex_db x) rid = Some a" "\<not> lease_refused (Some a) ew lt"
    and tmpl: "get_template (ex_db x) (r_template_id r) = Some t" "t_key t = ''slow-demonstration''" "t_version t = ''1.0.0''"
    and par: "model_validate (lib_pydantic (rt_lib rt)) SlowDemoParameters (stored_parameters (ex_db x) rid) = Inr (SlowParameters p)"
    and fresh: "unstarted (ex_db x) rid"
    and put: "rt_put rt (ex_store x) (storage_key rid ''progress.json'') (progress_json (total_steps p)) ''application/json'' = (po, w)"
      "po = Inr () \<or> (\<exists>m. po = Inl (ArtifactStorageError m))"
  shows "\<exists>r' x'. execute_existing_run rt rid ew lt x = (Inr (Some r'), x') \<and> finished (ex_db x') rid r' \<and>
    r_status r' = (if fail_intentionally p \<or> \<not> is_ok po then FAILED else SUCCEEDED) \<and>
    logs_of (ex_db x') rid = map int [1..<total_steps p + 2] \<and>
    metrics_of (ex_db x') rid = map (\<lambda>k. (''progress'', of_nat k / of_nat (total_steps p), int k)) [1..<Suc (total_steps p)] \<and>
    artifacts_of (ex_db x') rid = (if fail_intentionally p \<or> \<not> is_ok po then []
      else [(''progress.json'', storage_key rid ''progress.json'', rt_sha256 rt (progress_json (total_steps p)))]) \<and>
    total_steps p \<le> 120"
proof -
  let ?n = "total_steps p" and ?s1 = "after_move (ex_db x) r RUNNING ''run.started'' (start_metadata a) id"
  let ?r1 = "moved (ex_db x) r RUNNING id"
  let ?x1 = "emit rt [status_event RUNNING] (x\<lparr>ex_db := ?s1\<rparr>)"
  let ?msg = "''Started bounded progress demonstration with '' @ show_nat ?n @ '' steps''"
  have r: "r_id r = rid" using get_run_SomeD[OF get(1)] by simp
  have kc: "keeps_core id" by (simp add: keeps_core_def)
  have r1: "r_id ?r1 = rid" "r_status ?r1 = RUNNING" using r kc by simp_all
  note st = start_run_ok[OF inv get, of "''run.started''" "start_metadata a"]
  have rows1: "run_logs ?s1 = run_logs (ex_db x)" "run_metrics ?s1 = run_metrics (ex_db x)" "artifacts ?s1 = artifacts (ex_db x)"
    by (simp_all add: frame_simps)
  have "1 \<notin> set (logs_of ?s1 rid)" using fresh by (simp add: unstarted_def rows_cong(1)[OF rows1(1)])
  then obtain s2 where s2: "insert_log ?s1 rid 1 ''INFO'' ?msg = Inr s2" "logs_of s2 rid = logs_of ?s1 rid @ [1]"
    "run_metrics s2 = run_metrics ?s1" "artifacts s2 = artifacts ?s1" "same_core ?s1 s2"
    by (rule insert_log_fresh)
  let ?x2 = "emit rt [log_event 1 ''INFO'' ?msg] (?x1\<lparr>ex_db := s2\<rparr>)"
  have logs2: "logs_of s2 rid = [1]" using s2(2) fresh by (simp add: unstarted_def rows_cong(1)[OF rows1(1)])
  have mets2: "metrics_of s2 rid = []"
    using fresh by (simp add: unstarted_def rows_cong(2)[OF s2(3)] rows_cong(2)[OF rows1(2)])
  have get2: "get_run (ex_db ?x2) (r_id ?r1) = Some ?r1"
    using st(3) r1 same_core_get_run[OF s2(5)] by simp
  have inv2: "lifecycle_inv s2" using same_core_inv[OF s2(5) st(2)] .
  have "\<exists>x'. slow_loop rt ?n [1..<Suc ?n] ?r1 ?x2 = (Inr (Inr ?r1), x') \<and> same_core (ex_db ?x2) (ex_db x') \<and>
      logs_of (ex_db x') (r_id ?r1) = logs_of (ex_db ?x2) (r_id ?r1) @ map (\<lambda>k. int k + 1) [1..<Suc ?n] \<and>
      metrics_of (ex_db x') (r_id ?r1) = metrics_of (ex_db ?x2) (r_id ?r1) @ map (\<lambda>k. (''progress'', of_nat k / of_nat ?n, int k)) [1..<Suc ?n] \<and>
      artifacts (ex_db x') = artifacts (ex_db ?x2) \<and> ex_store x' = ex_store ?x2"
    using calm get2 r1 logs2 by (intro slow_loop_calm) auto
  moreover have e2: "ex_db ?x2 = s2" "ex_store ?x2 = ex_store x" by simp_all
  ultimately obtain x3 where x3: "slow_loop rt ?n [1..<Suc ?n] ?r1 ?x2 = (Inr (Inr ?r1), x3)" "same_core s2 (ex_db x3)"
    "logs_of (ex_db x3) rid = 1 # map (\<lambda>k. int k + 1) [1..<Suc ?n]"
    "metrics_of (ex_db x3) rid = map (\<lambda>k. (''progress'', of_nat k / of_nat ?n, int k)) [1..<Suc ?n]"
    "artifacts (ex_db x3) = artifacts (ex_db x)" "ex_store x3 = ex_store x"
    unfolding e2 r1(1) logs2 mets2 s2(4) rows1(3) by (auto simp del: upt_Suc)
  have "lifecycle_inv (ex_db x3)" "get_run (ex_db x3) rid = Some ?r1"
    using same_core_inv[OF x3(2) inv2] same_core_get_run[OF x3(2)] get2 r1 by simp_all
  from slow_end_calm[OF calm this r1(2) unstarted_artifacts(1,2)[OF fresh x3(5)], of p po w] put x3(6)
  obtain r' x' where fin: "slow_end rt p ?r1 x3 = (Inr r', x')" "finished (ex_db x') rid r'"
    "r_status r' = (if fail_intentionally p \<or> \<not> is_ok po then FAILED else SUCCEEDED)"
    "run_logs (ex_db x') = run_logs (ex_db x3)" "run_metrics (ex_db x') = run_metrics (ex_db x3)"
    "artifacts_of (ex_db x') rid = artifacts_of (ex_db x3) rid @ (if fail_intentionally p \<or> \<not> is_ok po then []
      else [(''progress.json'', storage_key rid ''progress.json'', rt_sha256 rt (progress_json ?n))])"
    by auto
  have slow: "execute_slow_run rt ?r1 p ?x1 = (Inr r', x')"
    using s2(1) x3(1) fin(1) r1(1) by (simp add: execute_slow_run_def Let_def del: upt_Suc)
  note val = validate_slow_template[OF tmpl(2,3) par]
  have "execute_existing_run rt rid ew lt x = (Inr (Some r'), x')"
    unfolding execute_existing_run_started[OF inv get lease tmpl(1) val(1)]
    using val(2) slow tmpl(2) by (auto simp: run_template_def)
  moreover have "total_steps p \<le> 120" using model_validate_ok[OF par] by (simp add: total_steps_bounds)
  moreover have "logs_of (ex_db x') rid = map int [1..<?n + 2]"
    by (simp only: rows_cong(1)[OF fin(4)] x3(3) start_log_upt)
  moreover have "metrics_of (ex_db x') rid = map (\<lambda>k. (''progress'', of_nat k / of_nat ?n, int k)) [1..<Suc ?n]"
    by (simp only: rows_cong(2)[OF fin(5)] x3(4))
  ultimately show ?thesis
    using fin(2,3,6) unstarted_artifacts(3)[OF fresh x3(5)] by (intro exI[of _ r'] exI[of _ x']) (simp del: upt_Suc)
qed

text \<open>
  C15. The slow demonstration keeps its promise of honest, bounded progress. Started under its lease
  and left alone, it terminates after at most 120 steps: the run ends \<open>SUCCEEDED\<close>, or \<open>FAILED\<close> when it
  was configured to fail or the artifact store stayed unavailable; the lease is released; the log is
  numbered 1, 2, ..., one entry per step after the first; the metric \<open>progress\<close> is recorded as
  \<open>k / n\<close> for every step \<open>k\<close>; and the artifact is registered exactly when the run succeeded.
\<close>

theorem slow_run_completes:
  assumes calm: "calm rt" and inv: "lifecycle_inv (ex_db x)"
    and get: "get_run (ex_db x) rid = Some r" "r_status r = SCHEDULING"
    and lease: "active_allocation (ex_db x) rid = Some a" "\<not> lease_refused (Some a) ew lt"
    and tmpl: "get_template (ex_db x) (r_template_id r) = Some t" "t_key t = ''slow-demonstration''" "t_version t = ''1.0.0''"
    and par: "model_validate (lib_pydantic (rt_lib rt)) SlowDemoParameters (stored_parameters (ex_db x) rid) = Inr (SlowParameters p)"
    and fresh: "unstarted (ex_db x) rid"
    and put: "rt_put rt (ex_store x) (storage_key rid ''progress.json'') (progress_json (total_steps p)) ''application/json'' = (po, w)"
      "po = Inr () \<or> (\<exists>m. po = Inl (ArtifactStorageError m))"
  shows "\<exists>r' x'. execute_existing_run rt rid ew lt x = (Inr (Some r'), x') \<and> finished (ex_db x') rid r' \<and>
    r_status r' = (if fail_intentionally p \<or> \<not> is_ok po then FAILED else SUCCEEDED) \<and>
    logs_of (ex_db x') rid = map int [1..<total_steps p + 2] \<and>
    metrics_of (ex_db x') rid = map (\<lambda>k. (''progress'', of_nat k / of_nat (total_steps p), int k)) [1..<Suc (total_steps p)] \<and>
    artifacts_of (ex_db x') rid = (if fail_intentionally p \<or> \<not> is_ok po then []
      else [(''progress.json'', storage_key rid ''progress.json'', rt_sha256 rt (progress_json (total_steps p)))]) \<and>
    total_steps p \<le> 120"
  using assms by (rule slow_run_ends)

lemma demo_sched_template:
  "get_run demo_sched_db 11 = Some (demo_run 11 SCHEDULING (Some 5))"
  "active_allocation demo_sched_db 11 = Some demo_lease" "\<not> lease_refused (Some demo_lease) (Some 5) (Some 7)"
  "get_template demo_sched_db 4 = Some demo_template" "stored_parameters demo_sched_db 11 = []" "unstarted demo_sched_db 11"
  by (simp_all add: get_run_def active_allocation_def lease_refused_def get_template_def stored_parameters_def unstarted_def
      logs_of_def metrics_of_def artifacts_of_def demo_sched_db_def demo_defs)

theorem slow_run_completes_witness:
  "\<exists>r' x'. execute_existing_run demo_rt 11 (Some 5) (Some 7) (demo_exec demo_sched_db) = (Inr (Some r'), x') \<and>
     finished (ex_db x') 11 r' \<and> r_status r' = SUCCEEDED \<and> logs_of (ex_db x') 11 = [1..9]"
proof -
  let ?p = "\<lparr>duration_seconds = 8, interval_seconds = 1, fail_intentionally = False\<rparr>"
  have n: "total_steps ?p = 8" by (simp add: total_steps_def)
  have c: "calm demo_rt" by (simp add: calm_def demo_rt_def)
  have d: "ex_db (demo_exec demo_sched_db) = demo_sched_db" by (simp add: demo_exec_def)
  have v: "model_validate (lib_pydantic (rt_lib demo_rt)) SlowDemoParameters [] = Inr (SlowParameters ?p)"
    by (simp add: demo_rt_def demo_library_def validate_slow_def field_def slow_ok_def)
  have lst: "map int [1..<8 + 2] = [1..9]" by (simp add: upt_rec upto_rec1)
  show ?thesis
    using slow_run_completes[OF c, of "demo_exec demo_sched_db" 11 "demo_run 11 SCHEDULING (Some 5)" demo_lease "Some 5" "Some 7"
        demo_template ?p "Inr ()" "Map.empty(storage_key 11 ''progress.json'' \<mapsto> progress_json 8)"]
    unfolding d demo_sched_template n lst
    using demo_sched_inv demo_sched_template v
    by (simp add: demo_rt_def demo_exec_def) (simp add: demo_run_def demo_template_def, blast)
qed

section \<open>Results and failures of a template\<close>












text \<open>A classification run that has started is its template, followed by the handler of its failures.\<close>

abbreviation started_exec :: "'w runtime \<Rightarrow> 'w exec \<Rightarrow> run \<Rightarrow> resource_allocation \<Rightarrow> 'w exec" where
  "started_exec rt x r a \<equiv>
     emit rt [status_event RUNNING] (x\<lparr>ex_db := after_move (ex_db x) r RUNNING ''run.started'' (start_metadata a) id\<rparr>)"


lemma started_exec_simps [simp]:
  "ex_db (started_exec rt x r a) = after_move (ex_db x) r RUNNING ''run.started'' (start_metadata a) id"
  "started_exec rt x r a\<lparr>ex_db := after_move (ex_db x) r RUNNING ''run.started'' (start_metadata a) id\<rparr> = started_exec rt x r a"
  "started_exec rt x r a\<lparr>ex_store := ex_store x\<rparr> = started_exec rt x r a"
  by (simp_all add: emit_def)







section \<open>Creation\<close>

text \<open>Every row that belongs to a run refers to a stored run: the foreign keys of the schema.\<close>

definition fk_inv :: "db \<Rightarrow> bool" where
  "fk_inv s \<longleftrightarrow> (\<forall>p\<in>set (run_parameters s). p_run_id p \<in> r_id ` set (runs s)) \<and>
     (\<forall>e\<in>set (run_events s). e_run_id e \<in> r_id ` set (runs s))"

lemma lifecycle_inv_insert_run:
  assumes inv: "lifecycle_inv s" and fk: "fk_inv s" and r: "r_id r = next_uuid s" "r_status r = DRAFT"
    "0 < r_requested_cpu r" "0 < r_requested_memory_mb r"
    and s': "runs s' = runs s @ [r]" "run_events s' = run_events s" "workers s' = workers s"
      "resource_allocations s' = resource_allocations s" "next_uuid s' = Suc (next_uuid s)"
  shows "lifecycle_inv s'"
proof -
  have lt: "q \<in> set (runs s) \<Longrightarrow> r_id q < next_uuid s" for q
    using inv by (simp add: lifecycle_inv_def book_inv_def ids_inv_def)
  have "book_inv s'"
    using inv r(1) s' lt by (fastforce simp: lifecycle_inv_def book_inv_def ids_inv_def capacity_inv_def less_Suc_eq)
  moreover have "leases s' = leases s" by (simp add: leases_def s'(4))
  moreover have "leases s (next_uuid s) = None"
    using inv lt by (force simp: leases_None_iff lifecycle_inv_def status_inv_def)
  moreover have "trail (run_events s) (next_uuid s) = []"
    using fk lt by (force simp: trail_def fk_inv_def filter_empty_conv)
  ultimately show ?thesis
    using inv r s' by (auto simp: lifecycle_inv_def status_inv_def audit_inv_def request_inv_def busy_def)
qed

lemma stored_parameters_fold:
  "stored_parameters (fold (\<lambda>(n, v) s. add_parameter s rid n v) ps s) rid = stored_parameters s rid @ ps"
proof (induction ps arbitrary: s)
  case (Cons p ps)
  have "stored_parameters (add_parameter s rid n v) rid = stored_parameters s rid @ [(n, v)]" for n v
    by (simp add: stored_parameters_def add_parameter_def uuid4_def Let_def)
  then show ?case by (cases p) (simp add: Cons.IH)
qed simp

lemma fold_parameters_frame:
  "same_core s (fold (\<lambda>(n, v) s. add_parameter s rid n v) ps s)"
  "outbox_messages (fold (\<lambda>(n, v) s. add_parameter s rid n v) ps s) = outbox_messages s"
proof -
  show "same_core s (fold (\<lambda>(n, v) s. add_parameter s rid n v) ps s)" by (rule fold_core) auto
  show "outbox_messages (fold (\<lambda>(n, v) s. add_parameter s rid n v) ps s) = outbox_messages s"
    by (induction ps arbitrary: s) (auto simp: add_parameter_def uuid4_def Let_def)
qed

lemma stored_parameters_cong: "run_parameters s' = run_parameters s \<Longrightarrow> stored_parameters s' rid = stored_parameters s rid"
  by (simp add: stored_parameters_def)

lemma after_move_outbox_frame [simp]:
  "run_parameters (after_move s r t ty md f) = run_parameters s"
  by (simp add: frame_simps)

lemma validate_parameters_Inr:
  "validate_parameters px t v = Inr (p, dp) \<longleftrightarrow>
     (\<exists>d. registry_get (t_key t) (t_version t) = Inr d \<and> model_validate px (td_parameter_model d) v = Inr p \<and>
        dp = dump_parameters p)"
proof (cases "registry_get (t_key t) (t_version t)")
  case (Inr d)
  then show ?thesis
    by (cases "model_validate px (td_parameter_model d) v") (auto simp: validate_parameters_def)
qed (simp add: validate_parameters_def)

text \<open>
  Queueing a new row: creation and retry share it. The row is inserted as a draft with its
  parameters, moved to \<open>QUEUED\<close>, and announced.
\<close>

definition enqueue ::
  "settings \<Rightarrow> string \<Rightarrow> run \<Rightarrow> dict \<Rightarrow> dict \<Rightarrow> (run \<Rightarrow> dict) \<Rightarrow> db \<Rightarrow> (run \<times> db) res" where
  "enqueue cfg cid r ps md payload s =
     res_bind (insert_run s r) (\<lambda>s2.
     res_bind (transition_and_flush (fold (\<lambda>(name, v) s. add_parameter s (r_id r) name v) ps s2) r QUEUED ''run.queued'' md id)
       (\<lambda>(r1, s4). let (eid, s5) = uuid4 s4; (now, s6) = now_utc s5
          in res_bind (mk_envelope eid ''run.submitted'' now cid (Some (r_id r)) None (payload r1)) (\<lambda>event.
               Inr (r1, add_outbox s6 (broker_topic cfg) (uuid_str (r_id r)) event))))"

definition same_catalog :: "db \<Rightarrow> db \<Rightarrow> bool" where
  "same_catalog s s' \<longleftrightarrow> users s' = users s \<and> projects s' = projects s \<and> experiments s' = experiments s \<and>
     training_templates s' = training_templates s"

lemma add_parameter_catalog: "same_catalog s (add_parameter s0 rid n v) = same_catalog s s0"
  by (simp add: add_parameter_def uuid4_def Let_def same_catalog_def)

lemma fold_parameters_catalog [simp]: "same_catalog s (fold (\<lambda>(n, v) s. add_parameter s rid n v) ps s0) = same_catalog s s0"
  by (induction ps arbitrary: s0) (simp_all add: split_beta add_parameter_catalog)

lemma fold_parameters_rows:
  "set (run_parameters (fold (\<lambda>(n, v) s. add_parameter s rid n v) ps s)) \<subseteq> set (run_parameters s) \<union> {p. p_run_id p = rid}"
proof (induction ps arbitrary: s)
  case (Cons p ps)
  show ?case using Cons.IH[of "add_parameter s rid (fst p) (snd p)"]
    by (cases p) (auto simp: add_parameter_def uuid4_def Let_def)
qed simp

lemma stamp_queued: "r_queued_at r = None \<Longrightarrow> stamp_run t QUEUED r = r\<lparr>r_status := QUEUED, r_queued_at := Some t\<rparr>"
  by (simp add: stamp_run_def Let_def)

lemma enqueue_effect:
  assumes inv: "lifecycle_inv s" and fk: "fk_inv s"
    and row: "r_id r = next_uuid s" "r_status r = DRAFT" "0 < r_requested_cpu r" "0 < r_requested_memory_mb r" "r_queued_at r = None"
    and ins: "insert_run (s\<lparr>next_uuid := Suc (next_uuid s)\<rparr>) r = Inr s2"
    and cid: "1 \<le> length cid" "length cid \<le> 128"
  shows "\<exists>r' s' m. enqueue cfg cid r ps md payload (s\<lparr>next_uuid := Suc (next_uuid s)\<rparr>) = Inr (r', s') \<and>
    lifecycle_inv s' \<and> fk_inv s' \<and> same_catalog s s' \<and> next_uuid s < next_uuid s' \<and>
    get_run s (r_id r) = None \<and> get_run s' (r_id r) = Some r' \<and> runs s' = runs s @ [r'] \<and>
    (\<exists>t. r' = r\<lparr>r_status := QUEUED, r_queued_at := Some t, r_version := r_version r + 1\<rparr>) \<and>
    stored_parameters s' (r_id r) = ps \<and>
    map (\<lambda>e. (e_previous_status e, e_new_status e)) (trail (run_events s') (r_id r)) = [(Some DRAFT, Some QUEUED)] \<and>
    outbox_messages s' = outbox_messages s @ [m] \<and> o_published_at m = None \<and> ev_payload (o_envelope m) = payload r' \<and>
    ev_event_type (o_envelope m) = ''run.submitted'' \<and> ev_run_id (o_envelope m) = Some (r_id r) \<and>
    leases s' = leases s"
proof -
  let ?n = "next_uuid s" and ?s1 = "s\<lparr>next_uuid := Suc (next_uuid s)\<rparr>"
  have s2: "s2 = runs_update (\<lambda>rs. rs @ [r]) ?s1" using ins by (auto simp: insert_run_def split: if_splits)
  let ?s3 = "fold (\<lambda>(n, v) s. add_parameter s (r_id r) n v) ps s2"
  let ?r1 = "moved ?s3 r QUEUED id" and ?s4 = "after_move ?s3 r QUEUED ''run.queued'' md id"
  have kc: "keeps_core id" by (simp add: keeps_core_def)
  have lt: "q \<in> set (runs s) \<Longrightarrow> r_id q < ?n" for q
    using inv by (simp add: lifecycle_inv_def book_inv_def ids_inv_def)
  have inv2: "lifecycle_inv s2"
    by (rule lifecycle_inv_insert_run[OF inv fk, of r]) (use row in \<open>auto simp: s2\<close>)
  note core = fold_parameters_frame(1)[of s2 "r_id r" ps]
  have inv3: "lifecycle_inv ?s3" using same_core_inv[OF core inv2] .
  have none: "get_run s (r_id r) = None" using lt row(1) by (force simp: get_run_def get_row_None_iff)
  have runs3: "runs ?s3 = runs s @ [r]" and events3: "run_events ?s3 = run_events s"
    and allocs3: "resource_allocations ?s3 = resource_allocations s" and nx3: "Suc ?n \<le> next_uuid ?s3"
    using core by (simp_all add: same_core_def s2)
  have get3: "get_run ?s3 (r_id r) = Some r"
    using none unfolding get_run_def runs3 by (simp add: get_row_append)
  have tf: "transition_and_flush ?s3 r QUEUED ''run.queued'' md id = Inr (?r1, ?s4)"
    using kc row by (intro transition_and_flush_ok[OF get3]) auto
  have inv4: "lifecycle_inv ?s4"
    using kc row by (intro lifecycle_inv_stay[OF inv3 get3]) (auto simp: busy_def moved_def)
  let ?env = "\<lparr>ev_event_id = next_uuid ?s4, ev_event_version = 1, ev_event_type = ''run.submitted'',
      ev_occurred_at = clock ?s4 (ticks ?s4), ev_correlation_id = cid, ev_run_id = Some (r_id r), ev_worker_id = None,
      ev_payload = payload ?r1\<rparr>"
  let ?s6 = "?s4\<lparr>next_uuid := Suc (next_uuid ?s4), ticks := Suc (ticks ?s4)\<rparr>"
  let ?s7 = "add_outbox ?s6 (broker_topic cfg) (uuid_str (r_id r)) ?env"
  have eq: "enqueue cfg cid r ps md payload ?s1 = Inr (?r1, ?s7)"
    using ins tf cid by (simp add: enqueue_def uuid4_def now_utc_def mk_envelope_def
        validate_envelope_def envelope_ok_def Let_def)
  have frame: "runs ?s7 = runs ?s4" "run_events ?s7 = run_events ?s4" "workers ?s7 = workers ?s4"
    "resource_allocations ?s7 = resource_allocations ?s4" "run_parameters ?s7 = run_parameters ?s4"
    "next_uuid ?s4 \<le> next_uuid ?s7" "same_catalog s ?s7 = same_catalog s ?s4"
    by (simp_all add: add_outbox_def uuid4_def Let_def same_catalog_def)
  have r1: "\<exists>t. ?r1 = r\<lparr>r_status := QUEUED, r_queued_at := Some t, r_version := r_version r + 1\<rparr>"
    using row(5) by (auto simp: moved_def stamp_queued)
  have inv7: "lifecycle_inv ?s7" using frame by (intro lifecycle_inv_frame[OF inv4]) simp_all
  have "get_run ?s4 (r_id r) = Some ?r1" using get3 unfolding get_run_after_move[OF kc] by simp
  then have get7: "get_run ?s7 (r_id r) = Some ?r1" unfolding get_run_def frame(1) .
  have "upd_row r_id (r_id r) (\<lambda>_. ?r1) (runs s) = runs s"
    using lt row(1) by (intro upd_row_notin) force
  then have runs7: "runs ?s7 = runs s @ [?r1]" unfolding frame(1) by (simp add: db_simps runs3)
  have pars: "stored_parameters ?s7 (r_id r) = ps"
  proof -
    have "stored_parameters s2 (r_id r) = []"
      using fk lt row(1) by (force simp: s2 stored_parameters_def fk_inv_def filter_empty_conv)
    then have "stored_parameters ?s3 (r_id r) = ps" by (simp add: stored_parameters_fold)
    then show ?thesis unfolding stored_parameters_def frame(5) by (simp add: frame_simps)
  qed
  have tr: "trail (run_events s) (r_id r) = []"
    using fk lt row(1) by (force simp: trail_def fk_inv_def filter_empty_conv)
  have ev7: "run_events ?s7 = run_events s @ [\<lparr>e_id = next_uuid ?s3, e_run_id = r_id r, e_event_type = ''run.queued'',
       e_previous_status = Some DRAFT, e_new_status = Some QUEUED, e_event_metadata = md, e_created_at = tx_now ?s3\<rparr>]"
    unfolding frame(2) by (simp add: db_simps events3 row(2))
  have evs: "map (\<lambda>e. (e_previous_status e, e_new_status e)) (trail (run_events ?s7) (r_id r)) = [(Some DRAFT, Some QUEUED)]"
    unfolding ev7 using tr by simp
  have ids7: "r_id ` set (runs ?s7) = insert (r_id r) (r_id ` set (runs s))"
    unfolding runs7 using moved_simps(1)[OF kc] by auto
  have "set (run_parameters ?s7) \<subseteq> set (run_parameters s) \<union> {p. p_run_id p = r_id r}"
    unfolding frame(5) using fold_parameters_rows[of "r_id r" ps s2] by (simp add: frame_simps s2)
  then have fk7: "fk_inv ?s7"
    unfolding fk_inv_def ids7 ev7 using fk by (auto simp: fk_inv_def)
  have ls: "leases ?s7 = leases s"
    unfolding leases_def frame(4) by (simp add: frame_simps allocs3)
  have "same_catalog s ?s4 = same_catalog s ?s3"
    by (simp add: same_catalog_def after_move_def add_event_def uuid4_def Let_def)
  then have cat: "same_catalog s ?s7" unfolding frame(7) by (simp add: s2) (simp add: same_catalog_def)
  have nx: "next_uuid s < next_uuid ?s7" using frame(6) nx3 by (simp add: frame_simps)
  have out: "\<exists>m. outbox_messages ?s7 = outbox_messages s @ [m] \<and> o_published_at m = None \<and>
      ev_payload (o_envelope m) = payload ?r1 \<and>
      ev_event_type (o_envelope m) = ''run.submitted'' \<and> ev_run_id (o_envelope m) = Some (r_id r)"
    by (simp add: add_outbox_def uuid4_def Let_def frame_simps fold_parameters_frame(2) s2)
  then obtain m where m: "outbox_messages ?s7 = outbox_messages s @ [m]" "o_published_at m = None"
      "ev_payload (o_envelope m) = payload ?r1"
      "ev_event_type (o_envelope m) = ''run.submitted''" "ev_run_id (o_envelope m) = Some (r_id r)" by blast
  show ?thesis
    by (intro exI[of _ ?r1] exI[of _ ?s7] exI[of _ m] conjI)
      (fact eq inv7 fk7 cat nx none get7 runs7 r1 pars evs m ls)+
qed

text \<open>The row a creation inserts, before it is queued.\<close>

definition draft_run :: "run_create \<Rightarrow> uuid \<Rightarrow> uuid \<Rightarrow> db \<Rightarrow> run" where
  "draft_run body tid created_by s =
     \<lparr>r_id = next_uuid s, r_experiment_id = rc_experiment_id body, r_template_id = tid,
      r_status = DRAFT, r_priority = rc_priority body, r_requested_cpu = rc_requested_cpu body,
      r_requested_memory_mb = rc_requested_memory_mb body, r_assigned_worker_id = None,
      r_attempt_number = 1, r_parent_run_id = None, r_created_by = created_by,
      r_created_at = tx_now s, r_queued_at = None, r_started_at = None, r_completed_at = None,
      r_failure_code = None, r_failure_message = None, r_notes = rc_notes body,
      r_tags = clean_tags (rc_tags body), r_version = 1\<rparr>"

lemma create_queued_run_enqueue:
  "create_queued_run px cfg cid body created_by s =
     res_bind (find_template s (rc_template_key body) (rc_template_version body)) (\<lambda>t.
     res_bind (validate_parameters px t (rc_parameters body)) (\<lambda>(_, ps).
       enqueue cfg cid (draft_run body (t_id t) created_by s) ps []
         (\<lambda>r1. [(''template_key'', JStr (t_key t)), (''template_version'', JStr (t_version t)),
            (''requested_cpu'', JFloat (r_requested_cpu r1)), (''requested_memory_mb'', JInt (r_requested_memory_mb r1)),
            (''priority'', JInt (r_priority r1))]) (s\<lparr>next_uuid := Suc (next_uuid s)\<rparr>)))"
  by (simp add: create_queued_run_def enqueue_def uuid4_def draft_run_def Let_def cong: if_cong)

text \<open>A creation that returns kept the invariants and appended one row.\<close>

lemma create_queued_run_inv:
  assumes inv: "lifecycle_inv s" "fk_inv s" and body: "run_create_ok body" and cid: "1 \<le> length cid" "length cid \<le> 128"
    and ok: "create_queued_run px cfg cid body created_by s = Inr (r, s')"
  shows "lifecycle_inv s'" "fk_inv s'" "same_catalog s s'" "runs s' = runs s @ [r]" "next_uuid s \<le> next_uuid s'"
    "r_experiment_id r \<in> x_id ` set (experiments s)" "r_created_by r = created_by"
proof -
  obtain t p ps where t: "find_template s (rc_template_key body) (rc_template_version body) = Inr t"
    and p: "validate_parameters px t (rc_parameters body) = Inr (p, ps)"
    using ok by (auto simp: create_queued_run_enqueue res_bind_Inr_iff)
  let ?r = "draft_run body (t_id t) created_by s" and ?s1 = "s\<lparr>next_uuid := Suc (next_uuid s)\<rparr>"
  obtain s2 where ins: "insert_run ?s1 ?r = Inr s2"
    using ok t p by (auto simp: create_queued_run_enqueue enqueue_def res_bind_Inr_iff)
  have x: "rc_experiment_id body \<in> x_id ` set (experiments s)"
    using ins by (simp add: insert_run_def draft_run_def split: if_splits)
  from enqueue_effect[OF inv _ _ _ _ _ ins cid, of cfg ps "[]" "\<lambda>r1. [(''template_key'', JStr (t_key t)),
      (''template_version'', JStr (t_version t)), (''requested_cpu'', JFloat (r_requested_cpu r1)),
      (''requested_memory_mb'', JInt (r_requested_memory_mb r1)), (''priority'', JInt (r_priority r1))]"] ok t p body
  have "lifecycle_inv s' \<and> fk_inv s' \<and> same_catalog s s' \<and> runs s' = runs s @ [r] \<and> next_uuid s \<le> next_uuid s' \<and>
      (\<exists>q. r = ?r\<lparr>r_status := QUEUED, r_queued_at := Some q, r_version := r_version ?r + 1\<rparr>)"
    by (auto simp: create_queued_run_enqueue draft_run_def run_create_ok_def)
  then show "lifecycle_inv s'" "fk_inv s'" "same_catalog s s'" "runs s' = runs s @ [r]" "next_uuid s \<le> next_uuid s'"
    "r_experiment_id r \<in> x_id ` set (experiments s)" "r_created_by r = created_by"
    using x by (auto simp: draft_run_def)
qed

text \<open>
  C13. Submitting a run is atomic and complete. On a consistent database, for a valid request with an
  available template, valid parameters, existing experiment and user and a correlation id, one
  transaction creates exactly one run (queued, first attempt, at the requested priority and resources,
  with normalised tags), stores exactly its validated parameters, starts its audit trail with
  \<open>DRAFT\<close> to \<open>QUEUED\<close>, appends exactly one \<open>run.submitted\<close> message for that run to the outbox, touches
  no lease and keeps the invariant.
\<close>

theorem create_queued_run_effect:
  assumes inv: "lifecycle_inv s" and fk: "fk_inv s" and body: "run_create_ok body"
    and tmpl: "find_template s (rc_template_key body) (rc_template_version body) = Inr t"
    and par: "validate_parameters px t (rc_parameters body) = Inr (p, dp)"
    and refs: "rc_experiment_id body \<in> x_id ` set (experiments s)" "created_by \<in> u_id ` set (users s)"
    and cid: "1 \<le> length cid" "length cid \<le> 128"
  shows "\<exists>r s' m. create_queued_run px cfg cid body created_by s = Inr (r, s') \<and> lifecycle_inv s' \<and>
    get_run s (r_id r) = None \<and> get_run s' (r_id r) = Some r \<and> runs s' = runs s @ [r] \<and>
    r_status r = QUEUED \<and> r_attempt_number r = 1 \<and> r_parent_run_id r = None \<and> r_created_by r = created_by \<and>
    r_template_id r = t_id t \<and> r_priority r = rc_priority body \<and> r_requested_cpu r = rc_requested_cpu body \<and>
    r_tags r = clean_tags (rc_tags body) \<and>
    stored_parameters s' (r_id r) = dump_parameters p \<and>
    map (\<lambda>e. (e_previous_status e, e_new_status e)) (trail (run_events s') (r_id r)) = [(Some DRAFT, Some QUEUED)] \<and>
    outbox_messages s' = outbox_messages s @ [m] \<and> o_published_at m = None \<and>
    ev_event_type (o_envelope m) = ''run.submitted'' \<and> ev_run_id (o_envelope m) = Some (r_id r) \<and>
    leases s' = leases s"
proof -
  let ?r = "draft_run body (t_id t) created_by s"
  have t: "t \<in> set (training_templates s)"
    using tmpl by (auto simp: find_template_def split: option.splits sum.splits dest: find_SomeD)
  have dp: "dp = dump_parameters p" using par by (auto simp: validate_parameters_Inr)
  have ins: "insert_run (s\<lparr>next_uuid := Suc (next_uuid s)\<rparr>) ?r = Inr (runs_update (\<lambda>rs. rs @ [?r]) (s\<lparr>next_uuid := Suc (next_uuid s)\<rparr>))"
    using refs t by (auto simp: insert_run_def draft_run_def)
  have row: "r_id ?r = next_uuid s" "r_status ?r = DRAFT" "0 < r_requested_cpu ?r" "0 < r_requested_memory_mb ?r" "r_queued_at ?r = None"
    using body by (auto simp: draft_run_def run_create_ok_def)
  let ?pay = "\<lambda>r1. [(''template_key'', JStr (t_key t)), (''template_version'', JStr (t_version t)),
      (''requested_cpu'', JFloat (r_requested_cpu r1)), (''requested_memory_mb'', JInt (r_requested_memory_mb r1)),
      (''priority'', JInt (r_priority r1))]"
  have cq: "create_queued_run px cfg cid body created_by s = enqueue cfg cid ?r dp [] ?pay (s\<lparr>next_uuid := Suc (next_uuid s)\<rparr>)"
    using tmpl par by (simp add: create_queued_run_enqueue)
  from enqueue_effect[OF inv fk row ins cid, of cfg dp "[]" ?pay, folded cq]
  obtain r s' m q where e: "create_queued_run px cfg cid body created_by s = Inr (r, s')"
    and r: "r = ?r\<lparr>r_status := QUEUED, r_queued_at := Some q, r_version := r_version ?r + 1\<rparr>"
    and rest: "lifecycle_inv s'" "get_run s (r_id ?r) = None" "get_run s' (r_id ?r) = Some r" "runs s' = runs s @ [r]"
      "stored_parameters s' (r_id ?r) = dp"
      "map (\<lambda>e. (e_previous_status e, e_new_status e)) (trail (run_events s') (r_id ?r)) = [(Some DRAFT, Some QUEUED)]"
      "outbox_messages s' = outbox_messages s @ [m]" "o_published_at m = None"
      "ev_event_type (o_envelope m) = ''run.submitted''" "ev_run_id (o_envelope m) = Some (r_id ?r)" "leases s' = leases s"
    by (elim exE conjE) (rule that)
  have f: "r_id r = r_id ?r" "r_status r = QUEUED" "r_attempt_number r = 1" "r_parent_run_id r = None" "r_created_by r = created_by"
    "r_template_id r = t_id t" "r_priority r = rc_priority body" "r_requested_cpu r = rc_requested_cpu body"
    "r_tags r = clean_tags (rc_tags body)"
    unfolding r by (simp_all add: draft_run_def)
  show ?thesis
    by (intro exI[of _ r] exI[of _ s'] exI[of _ m]) (simp add: e rest f dp)
qed

definition demo_body :: run_create where
  "demo_body = \<lparr>rc_experiment_id = 3, rc_template_key = ''slow-demonstration'', rc_template_version = ''1.0.0'',
     rc_parameters = [(''duration_seconds'', JInt 4)], rc_requested_cpu = 1, rc_requested_memory_mb = 512,
     rc_priority = 0, rc_notes = '''', rc_tags = ['' Fast '', ''fast'']\<rparr>"

lemma demo_fk_inv: "fk_inv demo_db"
  by (simp add: fk_inv_def demo_defs)

theorem create_queued_run_effect_witness:
  "\<exists>r s'. create_queued_run strict_pydantic default_settings ''c'' demo_body 1 demo_db = Inr (r, s') \<and>
     lifecycle_inv s' \<and> r_status r = QUEUED \<and> r_tags r = [''fast''] \<and> length (outbox_messages s') = 1"
proof -
  let ?p = "SlowParameters \<lparr>duration_seconds = 4, interval_seconds = 1, fail_intentionally = False\<rparr>"
  have b: "run_create_ok demo_body" by (simp add: run_create_ok_def demo_body_def)
  have reg: "registry_get ''slow-demonstration'' ''1.0.0'' = Inr (registry ! 1)"
    by (simp add: registry_get_def registry_def)
  have t: "find_template demo_db (rc_template_key demo_body) (rc_template_version demo_body) = Inr demo_template"
    using reg by (simp add: find_template_def demo_defs demo_body_def)
  have p: "validate_parameters strict_pydantic demo_template (rc_parameters demo_body) = Inr (?p, dump_parameters ?p)"
    using reg by (simp add: validate_parameters_def demo_template_def demo_body_def registry_def validate_slow_def
        field_def strict_pydantic_def slow_ok_def)
  have tags: "clean_tags (rc_tags demo_body) = [''fast'']" by code_simp
  have e: "outbox_messages demo_db = []" by (simp add: demo_db_def)
  have refs: "rc_experiment_id demo_body \<in> x_id ` set (experiments demo_db)" "1 \<in> u_id ` set (users demo_db)"
    by (simp_all add: demo_defs demo_body_def)
  have cid: "1 \<le> length ''c''" "length ''c'' \<le> 128" by simp_all
  obtain r s' m where "create_queued_run strict_pydantic default_settings ''c'' demo_body 1 demo_db = Inr (r, s')"
      "lifecycle_inv s'" "r_status r = QUEUED" "r_tags r = [''fast'']" "outbox_messages s' = [] @ [m]"
    using create_queued_run_effect[OF demo_lifecycle_inv demo_fk_inv b t p refs cid, of default_settings]
    unfolding tags e by (elim exE conjE) (rule that; simp)
  then show ?thesis by (intro exI[of _ r] exI[of _ s']) simp
qed


section \<open>A cancellation that comes too late\<close>

text \<open>
  Only the slow demonstration looks for a cancellation. When another template is cancelled while it
  trains, its result can no longer be stored (the row has a newer version), and the handler for that
  failure raises as well, because \<open>CANCELLING\<close> does not lead to \<open>FAILED\<close>: the run stays \<open>CANCELLING\<close> under
  its lease.
\<close>

lemma fail_template_cancelling:
  assumes "get_run (ex_db x) (r_id r) = Some d" "r_status d = CANCELLING" "rt_expired_id rt (r_id r) = Inr (r_id r)"
  shows "\<exists>e'. fail_template rt e r x = (Inl e', x)"
proof -
  have "FAILED \<notin> set (VALID_TRANSITIONS (r_status (failure_of e d)))" using assms(2) by simp
  then obtain e' where "transition_and_flush (ex_db x) (failure_of e d) FAILED ''run.failed'' [] id = Inl e'"
    using transition_and_flush_invalid by blast
  then have "finish_run (ex_db x) (failure_of e d) FAILED ''run.failed'' [] = Inl e'" by (simp add: finish_run_def)
  then show ?thesis using assms by (simp add: fail_template_def)
qed

end
