(* ===== verification/Listing.thy ===== *)
theory Listing
  imports Session "HOL-Library.Multiset"
begin

text \<open>
  What the listing endpoints share: pages of an ordered query (\<open>schemas/common.py\<close> and the query
  each endpoint builds), the SQL operator \<open>LIKE\<close> behind the search box, the order of the database's
  enumerations, and the normalisation of tags.
\<close>

record 'a page =
  pg_items :: "'a list"
  pg_page :: int
  pg_page_size :: int
  pg_total :: int
  pg_pages :: int

text \<open>\<open>ORDER BY column [DESC], id\<close>.\<close>

definition order_rows :: "bool \<Rightarrow> ('a \<Rightarrow> 'k::linorder) \<Rightarrow> ('a \<Rightarrow> uuid) \<Rightarrow> 'a list \<Rightarrow> 'a list" where
  "order_rows ascending col key rows =
     (let xs = sort_key key rows
      in if ascending then sort_key col xs else rev (sort_key col (rev xs)))"

text \<open>The page of an ordered result, with \<open>math.ceil(total / page_size) if total else 0\<close> pages.\<close>

definition paginate :: "int \<Rightarrow> int \<Rightarrow> 'a list \<Rightarrow> 'a page" where
  "paginate page page_size rows =
     \<lparr>pg_items = take (nat page_size) (drop (nat ((page - 1) * page_size)) rows), pg_page = page,
      pg_page_size = page_size, pg_total = int (length rows),
      pg_pages = (if rows = [] then 0 else \<lceil>rat_of_nat (length rows) / rat_of_int page_size\<rceil>)\<rparr>"

definition page_query_ok :: "int \<Rightarrow> int \<Rightarrow> bool" where
  "page_query_ok page page_size \<longleftrightarrow> 1 \<le> page \<and> 1 \<le> page_size \<and> page_size \<le> 100"

text \<open>PostgreSQL orders a native enumeration by declaration.\<close>

fun status_rank :: "run_status \<Rightarrow> nat" where
  "status_rank DRAFT = 0" | "status_rank QUEUED = 1" | "status_rank SCHEDULING = 2" | "status_rank RUNNING = 3"
| "status_rank SUCCEEDED = 4" | "status_rank FAILED = 5" | "status_rank CANCELLING = 6"
| "status_rank CANCELLED = 7" | "status_rank RETRYING = 8"

lemma status_rank_inj: "status_rank a = status_rank b \<Longrightarrow> a = b"
  by (cases a; cases b) auto

instantiation run_status :: linorder
begin

definition less_eq_run_status :: "run_status \<Rightarrow> run_status \<Rightarrow> bool" where
  "less_eq_run_status a b \<longleftrightarrow> status_rank a \<le> status_rank b"

definition less_run_status :: "run_status \<Rightarrow> run_status \<Rightarrow> bool" where
  "less_run_status a b \<longleftrightarrow> status_rank a < status_rank b"

instance
  by standard (auto simp: less_eq_run_status_def less_run_status_def intro: status_rank_inj)

end

fun worker_status_rank :: "worker_status \<Rightarrow> nat" where
  "worker_status_rank ONLINE = 0" | "worker_status_rank OFFLINE = 1" | "worker_status_rank STALE = 2"

instantiation worker_status :: linorder
begin

definition less_eq_worker_status :: "worker_status \<Rightarrow> worker_status \<Rightarrow> bool" where
  "less_eq_worker_status a b \<longleftrightarrow> worker_status_rank a \<le> worker_status_rank b"

definition less_worker_status :: "worker_status \<Rightarrow> worker_status \<Rightarrow> bool" where
  "less_worker_status a b \<longleftrightarrow> worker_status_rank a < worker_status_rank b"

instance
proof
  fix a b :: worker_status
  show "a \<le> b \<Longrightarrow> b \<le> a \<Longrightarrow> a = b" by (cases a; cases b) (auto simp: less_eq_worker_status_def)
qed (auto simp: less_eq_worker_status_def less_worker_status_def)

end


section \<open>Searching with LIKE\<close>

text \<open>\<open>%\<close> stands for any text, \<open>_\<close> for one character, a backslash takes the next one literally.\<close>

function like :: "string \<Rightarrow> string \<Rightarrow> bool" where
  "like [] t \<longleftrightarrow> t = []"
| "like (c # p) t \<longleftrightarrow>
     (if c = CHR ''%'' then like p t \<or> (case t of [] \<Rightarrow> False | d # ds \<Rightarrow> like (c # p) ds)
      else case t of
        [] \<Rightarrow> False
      | d # ds \<Rightarrow>
          if c = CHR ''_'' then like p ds
          else case p of
            e # q \<Rightarrow> if c = CHR 0x5C then d = e \<and> like q ds else d = c \<and> like p ds
          | [] \<Rightarrow> d = c \<and> like p ds)"
  by pat_completeness auto
termination
  by (relation "measure (\<lambda>(p, t). length p + length t)") auto

declare like.simps(2) [simp del]

definition search_pattern :: "string \<Rightarrow> string" where
  "search_pattern search = ''%'' @ py_lower (py_strip search) @ ''%''"

text \<open>The filter on a name and a description: no search text, no restriction.\<close>

definition search_matches :: "string option \<Rightarrow> string \<Rightarrow> string \<Rightarrow> bool" where
  "search_matches search name description =
     (case search of
        None \<Rightarrow> True
      | Some q \<Rightarrow> q = '''' \<or> like (search_pattern q) (py_lower name) \<or> like (search_pattern q) (py_lower description))"

text \<open>The JSON text of a list of strings, as \<open>json.dumps\<close> writes it.\<close>

definition json_char :: "char \<Rightarrow> string" where
  "json_char c =
     (let n = of_char c :: nat; esc = CHR 0x5C
      in if n = 34 \<or> n = 92 then [esc, c]
         else if n = 8 then [esc, CHR ''b''] else if n = 9 then [esc, CHR ''t''] else if n = 10 then [esc, CHR ''n'']
         else if n = 12 then [esc, CHR ''f''] else if n = 13 then [esc, CHR ''r'']
         else if n < 32 \<or> 126 < n then esc # CHR ''u'' # hex_of 4 n
         else [c])"

definition json_string :: "string \<Rightarrow> string" where
  "json_string s = [CHR 0x22] @ concat (map json_char s) @ [CHR 0x22]"

fun comma_separated :: "string list \<Rightarrow> string" where
  "comma_separated [] = ''''"
| "comma_separated [x] = x"
| "comma_separated (x # y # ys) = x @ '', '' @ comma_separated (y # ys)"

definition json_strings :: "string list \<Rightarrow> string" where
  "json_strings xs = ''['' @ comma_separated (map json_string xs) @ '']''"

definition tag_pattern :: "string \<Rightarrow> string" where
  "tag_pattern tag = [CHR ''%'', CHR 0x22] @ py_lower (py_strip tag) @ [CHR 0x22, CHR ''%'']"

definition tags_text :: "string list option \<Rightarrow> string" where
  "tags_text tags = (case tags of None \<Rightarrow> ''null'' | Some ts \<Rightarrow> json_strings ts)"

definition tag_matches :: "string option \<Rightarrow> string list option \<Rightarrow> bool" where
  "tag_matches tag tags =
     (case tag of None \<Rightarrow> True | Some t \<Rightarrow> t = '''' \<or> like (tag_pattern t) (tags_text tags))"


section \<open>Tags\<close>

definition stripped_tags :: "string list \<Rightarrow> string list" where
  "stripped_tags tags = map (\<lambda>t. py_lower (py_strip t)) (filter (\<lambda>t. py_strip t \<noteq> '''') tags)"

definition tags_ok :: "string list \<Rightarrow> bool" where
  "tags_ok tags \<longleftrightarrow> distinct tags \<and> list_all (\<lambda>t. t \<noteq> '''' \<and> py_lower (py_strip t) = t) tags"

lemma is_space_lower [simp]: "is_space (lower_char c) = is_space c"
proof -
  have "(of_char c :: nat) < 256" by simp
  then show ?thesis by (auto simp: is_space_def lower_char_def Let_def of_char_of)
qed

lemma py_strip_lower: "py_strip (py_lower t) = py_lower (py_strip t)"
  by (simp add: py_strip_def py_lower_def dropWhile_map rev_map comp_def)

lemma py_strip_idem [simp]: "py_strip (py_strip t) = py_strip t"
proof (cases "dropWhile is_space t")
  case Nil
  then show ?thesis unfolding py_strip_def Nil by simp
next
  case (Cons c cs)
  have c: "\<not> is_space c" using hd_dropWhile[of is_space t] Cons by auto
  have "\<exists>ys. dropWhile is_space (rev (c # cs)) = ys @ [c]"
    using c by (cases "\<forall>x\<in>set cs. is_space x") (auto simp: dropWhile_append)
  then obtain ys where ys: "dropWhile is_space (rev (c # cs)) = ys @ [c]" by blast
  have "py_strip t = c # rev ys" using Cons ys by (simp add: py_strip_def)
  moreover have "dropWhile is_space (ys @ [c]) = ys @ [c]"
    using ys dropWhile_idem[of is_space "rev (c # cs)"] by simp
  ultimately show ?thesis using c by (simp add: py_strip_def)
qed

lemma stripped_tags_ok: "tags_ok (fromkeys (stripped_tags tags))"
proof -
  have "py_lower (py_strip t) \<noteq> []" if "py_strip t \<noteq> []" for t
    using that length_py_lower[of "py_strip t"] by (metis length_0_conv)
  then show ?thesis by (auto simp: tags_ok_def list_all_iff stripped_tags_def py_strip_lower)
qed

section \<open>Facts on pages and patterns\<close>

lemma mset_order_rows [simp]: "mset (order_rows a c k rows) = mset rows"
  unfolding order_rows_def Let_def by (cases a) simp_all

lemma set_order_rows [simp]: "set (order_rows a c k rows) = set rows"
  using mset_order_rows by (metis set_mset_mset)

lemma length_order_rows [simp]: "length (order_rows a c k rows) = length rows"
  using mset_order_rows by (metis size_mset)

text \<open>\<open>x\<close> may stand before \<open>y\<close>: its column is smaller (greater, if the order descends), or equal and its identifier not greater.\<close>

definition precedes :: "bool \<Rightarrow> ('a \<Rightarrow> 'k::linorder) \<Rightarrow> ('a \<Rightarrow> uuid) \<Rightarrow> 'a \<Rightarrow> 'a \<Rightarrow> bool" where
  "precedes ascending col key x y \<longleftrightarrow>
     (if ascending then col x < col y else col y < col x) \<or> col x = col y \<and> key x \<le> key y"

lemma sorted_precedes:
  assumes "sorted_wrt (\<lambda>x y. if a then col x \<le> col y else col y \<le> col x) ys"
    and "\<And>c. sorted (map key (filter (\<lambda>y. col y = c) ys))"
  shows "sorted_wrt (precedes a col key) ys"
  using assms
proof (induction ys)
  case (Cons x ys)
  have "sorted (map key (filter (\<lambda>y. col y = c) ys))" for c
    using Cons.prems(2)[of c] by (auto split: if_splits)
  with Cons have "sorted_wrt (precedes a col key) ys" by simp
  moreover have "precedes a col key x y" if "y \<in> set ys" for y
  proof (cases "col y = col x")
    case True
    with that Cons.prems(2)[of "col x"] show ?thesis by (auto simp: precedes_def)
  next
    case False
    with that Cons.prems(1) show ?thesis by (cases a) (auto simp: precedes_def le_less)
  qed
  ultimately show ?case by simp
qed simp

lemma order_rows_sorted: "sorted_wrt (precedes a col key) (order_rows a col key rows)"
proof (rule sorted_precedes)
  show "sorted_wrt (\<lambda>x y. if a then col x \<le> col y else col y \<le> col x) (order_rows a col key rows)"
  proof (cases a)
    case True
    have "sorted (map col (order_rows True col key rows))" by (simp add: order_rows_def Let_def)
    with True show ?thesis by (simp add: sorted_map)
  next
    case False
    have "sorted (rev (map col (order_rows False col key rows)))" by (simp add: order_rows_def Let_def rev_map)
    with False show ?thesis by (simp add: sorted_map sorted_wrt_rev rev_map)
  qed
  show "sorted (map key (filter (\<lambda>y. col y = c) (order_rows a col key rows)))" for c
    by (simp add: order_rows_def Let_def rev_filter[symmetric] sort_key_stable filter_sort)
qed

lemma chunks: "concat (map (\<lambda>i. take n (drop (i * n) rows)) [0..<m]) = take (m * n) rows"
proof (induction m)
  case (Suc m)
  have "take (Suc m * n) rows = take (m * n) rows @ take n (drop (m * n) rows)"
    by (metis add.commute mult_Suc take_add)
  with Suc show ?case by simp
qed simp

text \<open>The pages of a result, one after the other, are the result.\<close>

lemma pages_cover:
  assumes "1 \<le> page_size"
  shows "concat (map (\<lambda>p. pg_items (paginate p page_size rows)) [1..pg_pages (paginate q page_size rows)]) = rows"
proof (cases "rows = []")
  case False
  let ?n = "nat page_size" and ?k = "\<lceil>rat_of_nat (length rows) / rat_of_int page_size\<rceil>"
  have n: "0 < rat_of_int page_size" using assms by simp
  have pos: "1 \<le> ?k" using False n by (simp add: one_le_ceiling)
  have upto: "[1..?k] = map (\<lambda>i. int i + 1) [0..<nat ?k]"
    using pos by (intro nth_equalityI) auto
  have "nat (int i * page_size) = i * ?n" for i using assms by (simp add: nat_mult_distrib)
  then have "concat (map (\<lambda>p. pg_items (paginate p page_size rows)) [1..?k]) = take (nat ?k * ?n) rows"
    unfolding upto by (simp add: paginate_def comp_def chunks)
  moreover have "length rows \<le> nat ?k * ?n"
  proof -
    have "rat_of_nat (length rows) \<le> rat_of_int ?k * rat_of_int page_size"
      using le_of_int_ceiling[of "rat_of_nat (length rows) / rat_of_int page_size"] unfolding pos_divide_le_eq[OF n] .
    then have "int (length rows) \<le> ?k * page_size"
      by (metis of_int_le_iff of_int_mult of_int_of_nat_eq)
    then show ?thesis using assms pos by (simp add: nat_mult_distrib[symmetric] nat_le_iff le_nat_iff)
  qed
  ultimately show ?thesis using False by (simp add: paginate_def)
qed (simp add: paginate_def)

lemma page_bounds:
  "length (pg_items (paginate page page_size rows)) \<le> nat page_size"
  "set (pg_items (paginate page page_size rows)) \<subseteq> set rows"
  by (auto simp: paginate_def dest: in_set_takeD in_set_dropD)

text \<open>
  What a listing \<open>g\<close> of the rows \<open>hits\<close> promises: the pages from the first to the last, put together, hold each
  of them exactly once and in order; every page but the last is full, none exceeds its size; the total counts
  the rows.
\<close>

definition partitions :: "int \<Rightarrow> ('a \<Rightarrow> 'a \<Rightarrow> bool) \<Rightarrow> 'a list \<Rightarrow> (int \<Rightarrow> 'a page) \<Rightarrow> bool" where
  "partitions page_size ord hits g \<longleftrightarrow>
     (\<forall>q. (let all = concat (map (\<lambda>p. pg_items (g p)) [1..pg_pages (g q)]) in mset all = mset hits \<and> sorted_wrt ord all) \<and>
        pg_total (g q) = int (length hits) \<and> int (length (pg_items (g q))) \<le> page_size \<and>
        (\<forall>p. 1 \<le> p \<longrightarrow> p < pg_pages (g q) \<longrightarrow> int (length (pg_items (g p))) = page_size))"

lemma full_pages:
  assumes "1 \<le> page_size" "1 \<le> p" "p < pg_pages (paginate q page_size rows)"
  shows "int (length (pg_items (paginate p page_size rows))) = page_size"
proof -
  have n: "0 < rat_of_int page_size" using assms by simp
  have "p < \<lceil>rat_of_nat (length rows) / rat_of_int page_size\<rceil>" using assms(2,3) by (simp add: paginate_def split: if_splits)
  then have "rat_of_int p < rat_of_nat (length rows) / rat_of_int page_size" by (simp add: less_ceiling_iff)
  then have "rat_of_int p * rat_of_int page_size < rat_of_nat (length rows)" unfolding pos_less_divide_eq[OF n] .
  then have "p * page_size < int (length rows)" by (metis of_int_less_iff of_int_mult of_int_of_nat_eq)
  then have "page_size \<le> int (length rows) - (p - 1) * page_size" by (simp add: algebra_simps)
  moreover have "0 \<le> (p - 1) * page_size" using assms by simp
  ultimately show ?thesis using assms(1) by (simp add: paginate_def min_def nat_le_iff le_nat_iff)
qed

lemma paginate_partitions:
  assumes "1 \<le> page_size" "mset rows = mset hits" "sorted_wrt ord rows"
  shows "partitions page_size ord hits (\<lambda>p. paginate p page_size rows)"
proof -
  have "pg_total (paginate q page_size rows) = int (length hits)" for q
    using arg_cong[OF assms(2), of size] by (simp add: paginate_def)
  moreover have "int (length (pg_items (paginate q page_size rows))) \<le> page_size" for q
    using page_bounds(1)[of q page_size rows] assms(1) by linarith
  ultimately show ?thesis
    unfolding partitions_def Let_def pages_cover[OF assms(1)] using assms full_pages by blast
qed

text \<open>Text without a special character is searched for as it is.\<close>

definition literal_text :: "string \<Rightarrow> bool" where
  "literal_text p \<longleftrightarrow> list_all (\<lambda>c. c \<noteq> CHR ''%'' \<and> c \<noteq> CHR ''_'' \<and> c \<noteq> CHR 0x5C) p"

lemma like_percent: "like (CHR ''%'' # p) t \<longleftrightarrow> (\<exists>a b. t = a @ b \<and> like p b)"
proof (induction t)
  case Nil
  show ?case by (subst like.simps(2)) simp
next
  case (Cons d ds)
  have "like (CHR ''%'' # p) (d # ds) \<longleftrightarrow> like p (d # ds) \<or> like (CHR ''%'' # p) ds"
    by (subst like.simps(2)) simp
  then show ?case using Cons.IH by (auto simp: Cons_eq_append_conv)
qed

lemma like_literal: "literal_text p \<Longrightarrow> like (p @ q) t \<longleftrightarrow> (\<exists>u. t = p @ u \<and> like q u)"
proof (induction p arbitrary: t)
  case (Cons c p)
  then have c: "c \<noteq> CHR ''%''" "c \<noteq> CHR ''_''" "c \<noteq> CHR 0x5C" by (simp_all add: literal_text_def)
  have "like (c # (p @ q)) t \<longleftrightarrow> (\<exists>ds. t = c # ds \<and> like (p @ q) ds)"
    unfolding like.simps(2)[of c "p @ q" t] using c by (cases t; cases "p @ q") auto
  with Cons show ?case by (auto simp: literal_text_def)
qed simp

lemma like_infix:
  assumes "literal_text q"
  shows "like (''%'' @ q @ ''%'') t \<longleftrightarrow> (\<exists>a b. t = a @ q @ b)"
  using assms by (auto simp: like_percent like_literal)

lemma literal_pattern:
  assumes "literal_text q"
  shows "literal_text (py_lower (py_strip q))"
proof -
  have sub: "set (py_strip q) \<subseteq> set q" by (auto simp: py_strip_def dest!: set_dropWhileD)
  have special: "c = d" if "lower_char c = d" "d \<in> {CHR ''%'', CHR ''_'', CHR 0x5C}" for c d
  proof (rule ccontr)
    assume "c \<noteq> d"
    let ?n = "of_char c :: nat"
    have n: "(65 \<le> ?n \<and> ?n \<le> 90) \<or> (192 \<le> ?n \<and> ?n \<le> 222)"
      using that(1) \<open>c \<noteq> d\<close> by (auto simp: lower_char_def Let_def split: if_splits)
    have "of_char d = ?n + 32"
      using that(1) \<open>c \<noteq> d\<close> n by (auto simp: lower_char_def Let_def of_char_of split: if_splits)
    moreover have "of_char d \<in> {37, 92, 95 :: nat}" using that(2) by auto
    ultimately show False using n by auto
  qed
  have "d \<notin> {CHR ''%'', CHR ''_'', CHR 0x5C}" if "d \<in> set (py_lower (py_strip q))" for d
  proof
    assume d: "d \<in> {CHR ''%'', CHR ''_'', CHR 0x5C}"
    obtain c where c: "c \<in> set (py_strip q)" "lower_char c = d" using \<open>d \<in> set (py_lower (py_strip q))\<close> by (auto simp: py_lower_def)
    with special[OF c(2) d] sub have "d \<in> set q" by blast
    with assms d show False by (auto simp: literal_text_def list_all_iff)
  qed
  then show ?thesis by (simp add: literal_text_def list_all_iff)
qed

lemma search_literal:
  assumes "literal_text q" "q \<noteq> ''''"
  shows "search_matches (Some q) name description \<longleftrightarrow>
    (\<exists>a b. py_lower name = a @ py_lower (py_strip q) @ b) \<or> (\<exists>a b. py_lower description = a @ py_lower (py_strip q) @ b)"
  using like_infix[OF literal_pattern[OF assms(1)]] assms(2) by (simp add: search_matches_def search_pattern_def)

lemma tag_literal:
  assumes "literal_text q" "q \<noteq> ''''"
  shows "tag_matches (Some q) tags \<longleftrightarrow>
    (\<exists>a b. tags_text tags = a @ [CHR 0x22] @ py_lower (py_strip q) @ [CHR 0x22] @ b)"
proof -
  have "literal_text ([CHR 0x22] @ py_lower (py_strip q) @ [CHR 0x22])"
    using literal_pattern[OF assms(1)] by (simp add: literal_text_def)
  from like_infix[OF this] show ?thesis using assms(2) by (simp add: tag_matches_def tag_pattern_def)
qed

end
