(* ===== verification/Security.thy ===== *)
theory Security
  imports Session Config Example
begin

text \<open>
  Authentication and authorisation (\<open>security.py\<close>, \<open>api/auth.py\<close>, \<open>schemas/auth.py\<close>). The libraries
  are parameters: the token library (PyJWT), the password hasher (pwdlib) and the check of e-mail
  addresses (email-validator). A token is opaque to the code, so its type is a parameter too. The
  time a request is served at is an argument: it is the clock the token library reads.
\<close>

record token_payload =
  tp_sub :: string
  tp_role :: string
  tp_iss :: string
  tp_iat :: time
  tp_exp :: time

record 'tok auth_library =
  jwt_encode :: "token_payload \<Rightarrow> string \<Rightarrow> 'tok"
  jwt_decode :: "time \<Rightarrow> 'tok \<Rightarrow> string \<Rightarrow> string \<Rightarrow> dict res"
  pw_hash :: "nat \<Rightarrow> string \<Rightarrow> string"
  pw_verify :: "string \<Rightarrow> string \<Rightarrow> bool res"
  check_email :: "string \<Rightarrow> string option"

definition normalize_email :: "string \<Rightarrow> string" where
  "normalize_email email = py_lower (py_strip email)"

definition hash_password :: "'tok auth_library \<Rightarrow> nat \<Rightarrow> string \<Rightarrow> string" where
  "hash_password lib salt password = pw_hash lib salt password"

definition verify_password :: "'tok auth_library \<Rightarrow> string \<Rightarrow> string \<Rightarrow> bool res" where
  "verify_password lib password password_hash = pw_verify lib password password_hash"

definition token_payload_of :: "settings \<Rightarrow> time \<Rightarrow> user \<Rightarrow> token_payload" where
  "token_payload_of cfg now u =
     \<lparr>tp_sub = uuid_str (u_id u), tp_role = role_value (u_role u), tp_iss = jwt_issuer cfg, tp_iat = now,
      tp_exp = now + secs (60 * access_token_minutes cfg)\<rparr>"

definition create_access_token :: "'tok auth_library \<Rightarrow> settings \<Rightarrow> time \<Rightarrow> user \<Rightarrow> 'tok \<times> int" where
  "create_access_token lib cfg now u =
     (jwt_encode lib (token_payload_of cfg now u) (jwt_secret cfg), 60 * access_token_minutes cfg)"

text \<open>\<open>UUID(payload["sub"])\<close>: a missing key, a text that is no UUID, \<open>null\<close>, or another JSON value.\<close>

definition subject_of :: "dict \<Rightarrow> uuid res" where
  "subject_of payload =
     (case map_of payload ''sub'' of
        None \<Rightarrow> Inl KeyError
      | Some (JStr t) \<Rightarrow> (case uuid_parse t of None \<Rightarrow> Inl ValueError | Some u \<Rightarrow> Inr u)
      | Some JNull \<Rightarrow> Inl (OtherError ''TypeError'')
      | Some _ \<Rightarrow> Inl (OtherError ''AttributeError''))"

definition token_error_caught :: "exn \<Rightarrow> bool" where
  "token_error_caught e \<longleftrightarrow> exn_name e \<in> {''InvalidTokenError'', ''KeyError'', ''TypeError'', ''ValueError''}"

definition get_user :: "db \<Rightarrow> uuid \<Rightarrow> user option" where
  "get_user s uid = get_row u_id uid (users s)"

definition invalid_access_token :: exn where
  "invalid_access_token = app_err ''invalid_access_token'' ''Access token is invalid or expired'' 401 []"

text \<open>The credentials are the scheme and the token of the \<open>Authorization\<close> header, if there is one.\<close>

definition get_current_user ::
  "'tok auth_library \<Rightarrow> settings \<Rightarrow> time \<Rightarrow> (string \<times> 'tok) option \<Rightarrow> db \<Rightarrow> user res" where
  "get_current_user lib cfg now credentials s =
     (case credentials of
        None \<Rightarrow> Inl (app_err ''authentication_required'' ''Authentication is required'' 401 [])
      | Some (scheme, tok) \<Rightarrow>
          if py_lower scheme \<noteq> ''bearer'' then
            Inl (app_err ''authentication_required'' ''Authentication is required'' 401 [])
          else case res_bind (jwt_decode lib now tok (jwt_secret cfg) (jwt_issuer cfg)) subject_of of
            Inl e \<Rightarrow> Inl (if token_error_caught e then invalid_access_token else e)
          | Inr user_id \<Rightarrow> (case get_user s user_id of None \<Rightarrow> Inl invalid_access_token | Some u \<Rightarrow> Inr u))"

definition require_roles :: "role list \<Rightarrow> user res \<Rightarrow> user res" where
  "require_roles allowed current =
     res_bind current (\<lambda>u.
       if u_role u \<notin> set allowed then
         Inl (app_err ''permission_denied'' ''Your role does not permit this action'' 403
           [(''required_roles'', JList (map (\<lambda>r. JStr (role_value r)) allowed))])
       else Inr u)"

definition researcher_user :: "user res \<Rightarrow> user res" where
  "researcher_user = require_roles [RESEARCHER, ADMINISTRATOR]"

definition administrator_user :: "user res \<Rightarrow> user res" where
  "administrator_user = require_roles [ADMINISTRATOR]"


section \<open>Signing in\<close>

record sign_in_request =
  si_email :: string
  si_password :: string

record user_response =
  ur_id :: uuid
  ur_email :: string
  ur_role :: role
  ur_created_at :: time

record 'tok token_response =
  tk_access_token :: 'tok
  tk_token_type :: string
  tk_expires_in :: int
  tk_user :: user_response

text \<open>The request model: a well-formed address, in the form the library returns, and the password's length.\<close>

definition validate_sign_in :: "'tok auth_library \<Rightarrow> sign_in_request \<Rightarrow> sign_in_request res" where
  "validate_sign_in lib body =
     (case check_email lib (si_email body) of
        Some e \<Rightarrow> if 8 \<le> length (si_password body) \<and> length (si_password body) \<le> 128
                   then Inr (body\<lparr>si_email := e\<rparr>) else Inl ValidationError
      | None \<Rightarrow> Inl ValidationError)"

definition user_response_of :: "'tok auth_library \<Rightarrow> user \<Rightarrow> user_response res" where
  "user_response_of lib u =
     (case check_email lib (u_email u) of
        None \<Rightarrow> Inl ValidationError
      | Some e \<Rightarrow> Inr \<lparr>ur_id = u_id u, ur_email = e, ur_role = u_role u, ur_created_at = u_created_at u\<rparr>)"

definition invalid_credentials :: exn where
  "invalid_credentials = app_err ''invalid_credentials'' ''Email or password is incorrect'' 401 []"

definition sign_in ::
  "'tok auth_library \<Rightarrow> settings \<Rightarrow> time \<Rightarrow> sign_in_request \<Rightarrow> db \<Rightarrow> 'tok token_response res" where
  "sign_in lib cfg now body s =
     (case find (\<lambda>u. u_email u = normalize_email (si_email body)) (users s) of
        None \<Rightarrow> Inl invalid_credentials
      | Some u \<Rightarrow>
          res_bind (verify_password lib (si_password body) (u_password_hash u)) (\<lambda>ok.
            if \<not> ok then Inl invalid_credentials
            else let (tok, expires_in) = create_access_token lib cfg now u
                 in res_bind (user_response_of lib u) (\<lambda>ur.
                      Inr \<lparr>tk_access_token = tok, tk_token_type = ''bearer'', tk_expires_in = expires_in,
                        tk_user = ur\<rparr>)))"

definition current_user :: "'tok auth_library \<Rightarrow> user \<Rightarrow> user_response res" where
  "current_user lib u = user_response_of lib u"


section \<open>Properties of authentication\<close>

text \<open>
  What the code relies on of the token library: a token decodes, under the key it was signed with
  and the issuer it names, to its claims from its second of issue until its second of expiry, and is
  an invalid token otherwise; times are whole seconds.
\<close>

definition whole_seconds :: "time \<Rightarrow> time" where
  "whole_seconds t = secs (t div 1000000)"

definition jwt_laws :: "'tok auth_library \<Rightarrow> bool" where
  "jwt_laws lib \<longleftrightarrow> (\<forall>p key key' iss now.
     (if key' = key \<and> iss = tp_iss p \<and> whole_seconds (tp_iat p) \<le> now \<and> now < whole_seconds (tp_exp p)
      then \<exists>d. jwt_decode lib now (jwt_encode lib p key) key' iss = Inr d \<and> map_of d ''sub'' = Some (JStr (tp_sub p))
      else jwt_decode lib now (jwt_encode lib p key) key' iss = Inl (OtherError ''InvalidTokenError'')))"

text \<open>User identifiers are unique and fit into 128 bits, e-mail addresses are unique.\<close>

definition users_inv :: "db \<Rightarrow> bool" where
  "users_inv s \<longleftrightarrow> distinct (map u_id (users s)) \<and> distinct (map u_email (users s)) \<and>
     (\<forall>u\<in>set (users s). u_id u < 16 ^ 32)"

lemma whole_seconds_le: "whole_seconds t \<le> t"
  by (simp add: whole_seconds_def secs_def)

lemma whole_seconds_add: "whole_seconds (t + secs n) = whole_seconds t + secs n"
  by (simp add: whole_seconds_def secs_def distrib_right)

lemma jwt_decode_fresh:
  assumes "jwt_laws lib" "whole_seconds (tp_iat p) \<le> now" "now < whole_seconds (tp_exp p)"
  shows "\<exists>d. jwt_decode lib now (jwt_encode lib p key) key (tp_iss p) = Inr d \<and> map_of d ''sub'' = Some (JStr (tp_sub p))"
  using assms by (simp add: jwt_laws_def)

lemma jwt_decode_bad:
  assumes "jwt_laws lib" "key' \<noteq> key \<or> iss \<noteq> tp_iss p \<or> now < whole_seconds (tp_iat p) \<or> whole_seconds (tp_exp p) \<le> now"
  shows "jwt_decode lib now (jwt_encode lib p key) key' iss = Inl (OtherError ''InvalidTokenError'')"
  using assms(1)[unfolded jwt_laws_def, rule_format, of key' key iss p now] assms(2) by (auto split: if_splits)

lemma get_current_user_Inr:
  "get_current_user lib cfg now credentials s = Inr u \<Longrightarrow>
   \<exists>scheme tok d. credentials = Some (scheme, tok) \<and> py_lower scheme = ''bearer'' \<and>
     jwt_decode lib now tok (jwt_secret cfg) (jwt_issuer cfg) = Inr d \<and> subject_of d = Inr (u_id u) \<and>
     get_user s (u_id u) = Some u"
  by (auto simp: get_current_user_def res_bind_Inr_iff get_user_def
      split: option.splits prod.splits if_splits sum.splits dest: get_row_SomeD)

lemma require_roles_Inr:
  "require_roles allowed current = Inr u \<longleftrightarrow> current = Inr u \<and> u_role u \<in> set allowed"
  by (auto simp: require_roles_def res_bind_Inr_iff)

text \<open>
  C27. An access token stands for exactly the user who signed in, for exactly the announced time. A
  successful sign-in found the user of the normalised address and checked the password against the
  stored hash; the token it returns, presented with any spelling of the bearer scheme to any later
  state of the database, authenticates as that user's present row from the second of issue until
  \<open>expires_in\<close> seconds after it, so a changed role counts at once, a deleted user is refused, and
  outside that time the answer is \<open>invalid_access_token\<close>; under another secret it is refused too.
\<close>

theorem access_token_lifetime:
  assumes "jwt_laws lib" "users_inv s" "sign_in lib cfg now body s = Inr resp" "py_lower scheme = ''bearer''"
  shows "\<exists>u\<in>set (users s). u_email u = normalize_email (si_email body) \<and>
    verify_password lib (si_password body) (u_password_hash u) = Inr True \<and> ur_id (tk_user resp) = u_id u \<and>
    tk_expires_in resp = 60 * access_token_minutes cfg \<and>
    get_current_user lib cfg later (Some (scheme, tk_access_token resp)) s' =
      (if whole_seconds now \<le> later \<and> later < whole_seconds now + secs (tk_expires_in resp)
       then case get_user s' (u_id u) of None \<Rightarrow> Inl invalid_access_token | Some v \<Rightarrow> Inr v
       else Inl invalid_access_token) \<and>
    (jwt_secret cfg' \<noteq> jwt_secret cfg \<longrightarrow>
      get_current_user lib cfg' later (Some (scheme, tk_access_token resp)) s' = Inl invalid_access_token)"
proof -
  obtain u where u: "find (\<lambda>u. u_email u = normalize_email (si_email body)) (users s) = Some u"
    and v: "verify_password lib (si_password body) (u_password_hash u) = Inr True"
    and resp: "tk_access_token resp = jwt_encode lib (token_payload_of cfg now u) (jwt_secret cfg)"
      "tk_expires_in resp = 60 * access_token_minutes cfg" "ur_id (tk_user resp) = u_id u"
    using assms(3) by (auto simp: sign_in_def create_access_token_def user_response_of_def res_bind_Inr_iff
        split: option.splits if_splits)
  let ?p = "token_payload_of cfg now u"
  have p: "tp_iss ?p = jwt_issuer cfg" "tp_sub ?p = uuid_str (u_id u)" "tp_iat ?p = now"
      "whole_seconds (tp_exp ?p) = whole_seconds now + secs (60 * access_token_minutes cfg)"
    by (simp_all add: token_payload_of_def whole_seconds_add)
  have mem: "u \<in> set (users s)" "u_email u = normalize_email (si_email body)" using find_SomeD[OF u] by auto
  then have par: "uuid_parse (uuid_str (u_id u)) = Some (u_id u)"
    using assms(2) by (intro uuid_parse_str) (simp add: users_inv_def)
  have bad: "get_current_user lib c later (Some (scheme, tk_access_token resp)) s' = Inl invalid_access_token"
    if "jwt_decode lib later (tk_access_token resp) (jwt_secret c) (jwt_issuer c) = Inl (OtherError ''InvalidTokenError'')" for c
    using that assms(4) by (simp add: get_current_user_def token_error_caught_def)
  have "get_current_user lib cfg later (Some (scheme, tk_access_token resp)) s' =
      (case get_user s' (u_id u) of None \<Rightarrow> Inl invalid_access_token | Some v \<Rightarrow> Inr v)"
    if t: "whole_seconds now \<le> later" "later < whole_seconds now + secs (tk_expires_in resp)"
  proof -
    obtain d where "jwt_decode lib later (tk_access_token resp) (jwt_secret cfg) (jwt_issuer cfg) = Inr d"
        "map_of d ''sub'' = Some (JStr (uuid_str (u_id u)))"
      using jwt_decode_fresh[OF assms(1), of ?p later "jwt_secret cfg"] t p resp by auto
    then show ?thesis using assms(4) par by (simp add: get_current_user_def subject_of_def)
  qed
  moreover have "get_current_user lib cfg later (Some (scheme, tk_access_token resp)) s' = Inl invalid_access_token"
    if "\<not> (whole_seconds now \<le> later \<and> later < whole_seconds now + secs (tk_expires_in resp))"
    using that resp p by (intro bad) (auto intro!: jwt_decode_bad[OF assms(1)])
  moreover have "get_current_user lib cfg' later (Some (scheme, tk_access_token resp)) s' = Inl invalid_access_token"
    if "jwt_secret cfg' \<noteq> jwt_secret cfg"
    using that resp by (intro bad) (auto intro!: jwt_decode_bad[OF assms(1)])
  ultimately show ?thesis using mem v resp by (intro bexI[of _ u]) auto
qed

text \<open>Whether an address is unknown or a password wrong, the answer is the same.\<close>

lemma sign_in_no_enumeration:
  assumes "find (\<lambda>u. u_email u = normalize_email (si_email body)) (users s) = Some u \<Longrightarrow>
      verify_password lib (si_password body) (u_password_hash u) = Inr False"
    and "find (\<lambda>u. u_email u = normalize_email (si_email body)) (users s) \<in> {None, Some u}"
  shows "sign_in lib cfg now body s = Inl invalid_credentials"
  using assms by (auto simp: sign_in_def)

text \<open>A library with transparent tokens, at which the properties are instantiated.\<close>

definition demo_auth :: "(token_payload \<times> string) auth_library" where
  "demo_auth = \<lparr>jwt_encode = (\<lambda>p key. (p, key)),
     jwt_decode = (\<lambda>now (p, key) key' iss.
       if key' = key \<and> iss = tp_iss p \<and> whole_seconds (tp_iat p) \<le> now \<and> now < whole_seconds (tp_exp p)
       then Inr [(''sub'', JStr (tp_sub p)), (''role'', JStr (tp_role p)), (''iss'', JStr (tp_iss p))]
       else Inl (OtherError ''InvalidTokenError'')),
     pw_hash = (\<lambda>salt pw. ''hash''), pw_verify = (\<lambda>pw h. Inr (pw = ''ViewerDemo123!'' \<and> h = ''hash'')),
     check_email = (\<lambda>e. Some e)\<rparr>"

lemma demo_jwt_laws: "jwt_laws demo_auth"
  by (simp add: jwt_laws_def demo_auth_def)

lemma demo_users_inv: "users_inv demo_db"
  by (simp add: users_inv_def demo_defs)

theorem access_token_lifetime_witness:
  "\<exists>resp. sign_in demo_auth default_settings 0 \<lparr>si_email = '' Ada@example.org'', si_password = ''ViewerDemo123!''\<rparr> demo_db = Inr resp \<and>
     tk_expires_in resp = 1800 \<and>
     get_current_user demo_auth default_settings (secs 5) (Some (''Bearer'', tk_access_token resp)) demo_db = Inr demo_user"
proof -
  let ?b = "\<lparr>si_email = '' Ada@example.org'', si_password = ''ViewerDemo123!''\<rparr>"
  have e: "normalize_email '' Ada@example.org'' = ''ada@example.org''" by code_simp
  have b: "py_lower ''Bearer'' = ''bearer''" by code_simp
  obtain resp where resp: "sign_in demo_auth default_settings 0 ?b demo_db = Inr resp"
    by (simp add: sign_in_def e verify_password_def user_response_of_def demo_auth_def create_access_token_def demo_defs)
  have us: "set (users demo_db) = {demo_user}" "access_token_minutes default_settings = 30" "whole_seconds 0 = 0"
      "get_user demo_db (u_id demo_user) = Some demo_user"
    by (simp_all add: demo_db_def default_settings_def whole_seconds_def secs_def get_user_def)
  from access_token_lifetime[OF demo_jwt_laws demo_users_inv resp b, of "secs 5" demo_db default_settings]
  have "tk_expires_in resp = 1800 \<and>
      get_current_user demo_auth default_settings (secs 5) (Some (''Bearer'', tk_access_token resp)) demo_db = Inr demo_user"
    using us by auto
  with resp show ?thesis by blast
qed

end
