(* ===== verification/Api_Catalog.thy ===== *)
theory Api_Catalog
  imports Listing Security
begin

text \<open>
  Projects and experiments (\<open>api/projects.py\<close>, \<open>api/experiments.py\<close>, \<open>schemas/projects.py\<close>). Each
  endpoint is a function of the database; one that commits returns the next database, one that raises
  leaves it. The constraints of the tables (foreign keys, not null, the unique experiment name) are
  checked where the row is written. A field of an update is absent (\<open>None\<close>), an explicit \<open>null\<close>
  (\<open>Some None\<close>) or a value.
\<close>

record project_create =
  pc_name :: string
  pc_description :: string

record project_update =
  pu_name :: "string option option"
  pu_description :: "string option option"

record experiment_create =
  xc_project_id :: uuid
  xc_name :: string
  xc_description :: string
  xc_tags :: "string list"

record experiment_update =
  xu_name :: "string option option"
  xu_description :: "string option option"
  xu_tags :: "string list option option"

definition length_within :: "nat \<Rightarrow> nat \<Rightarrow> 'a list \<Rightarrow> bool" where
  "length_within lo hi xs \<longleftrightarrow> lo \<le> length xs \<and> length xs \<le> hi"

fun field_within :: "nat \<Rightarrow> nat \<Rightarrow> 'a list option option \<Rightarrow> bool" where
  "field_within lo hi (Some (Some v)) \<longleftrightarrow> length_within lo hi v"
| "field_within lo hi _ \<longleftrightarrow> True"

text \<open>\<open>self.name is None\<close>: the field was left out or is an explicit null.\<close>

fun given :: "'a option option \<Rightarrow> 'a option" where
  "given (Some (Some v)) = Some v"
| "given _ = None"

definition validate_project_create :: "project_create \<Rightarrow> project_create res" where
  "validate_project_create b =
     (if length_within 2 120 (pc_name b) \<and> length_within 0 2000 (pc_description b)
      then Inr (b\<lparr>pc_name := py_strip (pc_name b)\<rparr>) else Inl ValidationError)"

definition validate_project_update :: "project_update \<Rightarrow> project_update res" where
  "validate_project_update b =
     (if field_within 2 120 (pu_name b) \<and> field_within 0 2000 (pu_description b) \<and>
         \<not> (given (pu_name b) = None \<and> given (pu_description b) = None)
      then Inr (b\<lparr>pu_name := map_option (map_option py_strip) (pu_name b)\<rparr>) else Inl ValidationError)"

definition normalize_tags :: "string list \<Rightarrow> string list res" where
  "normalize_tags tags =
     (let normalized = stripped_tags tags
      in if list_ex (\<lambda>t. 40 < length t) normalized then Inl ValidationError else Inr (fromkeys normalized))"

definition validate_experiment_create :: "experiment_create \<Rightarrow> experiment_create res" where
  "validate_experiment_create b =
     (if length_within 2 120 (xc_name b) \<and> length_within 0 4000 (xc_description b) \<and> length_within 0 20 (xc_tags b)
      then res_bind (normalize_tags (xc_tags b)) (\<lambda>tags. Inr (b\<lparr>xc_name := py_strip (xc_name b), xc_tags := tags\<rparr>))
      else Inl ValidationError)"

definition validate_experiment_update :: "experiment_update \<Rightarrow> experiment_update res" where
  "validate_experiment_update b =
     (if field_within 2 120 (xu_name b) \<and> field_within 0 4000 (xu_description b) \<and> field_within 0 20 (xu_tags b) \<and>
         \<not> (given (xu_name b) = None \<and> given (xu_description b) = None \<and> given (xu_tags b) = None)
      then let b1 = b\<lparr>xu_name := map_option (map_option py_strip) (xu_name b)\<rparr>
           in case given (xu_tags b) of
                None \<Rightarrow> Inr b1
              | Some tags \<Rightarrow> res_bind (normalize_tags tags) (\<lambda>ts. Inr (b1\<lparr>xu_tags := Some (Some ts)\<rparr>))
      else Inl ValidationError)"


section \<open>Projects\<close>

definition get_project :: "db \<Rightarrow> uuid \<Rightarrow> project option" where
  "get_project s pid = get_row pj_id pid (projects s)"

definition get_project_or_404 :: "db \<Rightarrow> uuid \<Rightarrow> project res" where
  "get_project_or_404 s pid =
     (case get_project s pid of
        None \<Rightarrow> Inl (app_err ''project_not_found'' ''Project was not found'' 404 [])
      | Some p \<Rightarrow> Inr p)"

datatype catalog_sort = SortName | SortCreatedAt | SortUpdatedAt

definition matching_projects :: "db \<Rightarrow> string option \<Rightarrow> project list" where
  "matching_projects s search = filter (\<lambda>p. search_matches search (pj_name p) (pj_description p)) (projects s)"

fun order_projects :: "db \<Rightarrow> catalog_sort \<Rightarrow> bool \<Rightarrow> project list \<Rightarrow> project list" where
  "order_projects s SortName ascending = order_rows ascending (\<lambda>p. collation s (pj_name p)) pj_id"
| "order_projects s SortCreatedAt ascending = order_rows ascending pj_created_at pj_id"
| "order_projects s SortUpdatedAt ascending = order_rows ascending pj_updated_at pj_id"

definition list_projects ::
  "int \<Rightarrow> int \<Rightarrow> string option \<Rightarrow> catalog_sort \<Rightarrow> bool \<Rightarrow> db \<Rightarrow> project page" where
  "list_projects page page_size search order_by ascending s =
     paginate page page_size (order_projects s order_by ascending (matching_projects s search))"

definition create_project :: "project_create \<Rightarrow> user \<Rightarrow> db \<Rightarrow> (project \<times> db) res" where
  "create_project body u s =
     (let (pid, s1) = uuid4 s;
          p = \<lparr>pj_id = pid, pj_name = pc_name body, pj_description = pc_description body, pj_created_by = u_id u,
               pj_created_at = tx_now s1, pj_updated_at = tx_now s1\<rparr>
      in if u_id u \<notin> u_id ` set (users s) then Inl IntegrityError
         else Inr (p, projects_update (\<lambda>ps. ps @ [p]) s1))"

definition read_project :: "uuid \<Rightarrow> db \<Rightarrow> project res" where
  "read_project pid s = get_project_or_404 s pid"

text \<open>
  \<open>setattr\<close> for every field that was set; a null in a column that is not nullable is refused when
  the row is written. A row that changes gets a new \<open>updated_at\<close>.
\<close>

definition update_project :: "uuid \<Rightarrow> project_update \<Rightarrow> db \<Rightarrow> (project \<times> db) res" where
  "update_project pid body s =
     res_bind (get_project_or_404 s pid) (\<lambda>p.
       if pu_name body = Some None \<or> pu_description body = Some None then Inl IntegrityError
       else let p1 = (case given (pu_name body) of None \<Rightarrow> p | Some n \<Rightarrow> p\<lparr>pj_name := n\<rparr>);
                p2 = (case given (pu_description body) of None \<Rightarrow> p1 | Some d \<Rightarrow> p1\<lparr>pj_description := d\<rparr>);
                p3 = (if p2 = p then p else p2\<lparr>pj_updated_at := tx_now s\<rparr>)
            in Inr (p3, projects_update (upd_row pj_id pid (\<lambda>_. p3)) s))"

definition delete_project :: "uuid \<Rightarrow> db \<Rightarrow> db res" where
  "delete_project pid s =
     res_bind (get_project_or_404 s pid) (\<lambda>p.
       if list_ex (\<lambda>x. x_project_id x = pid) (experiments s) then
         Inl (app_err ''project_has_experiments'' ''Delete the project's experiments before deleting the project'' 409 [])
       else Inr (projects_update (filter (\<lambda>q. pj_id q \<noteq> pid)) s))"


section \<open>Experiments\<close>

definition get_experiment :: "db \<Rightarrow> uuid \<Rightarrow> experiment_row option" where
  "get_experiment s xid = get_row x_id xid (experiments s)"

definition get_experiment_or_404 :: "db \<Rightarrow> uuid \<Rightarrow> experiment_row res" where
  "get_experiment_or_404 s xid =
     (case get_experiment s xid of
        None \<Rightarrow> Inl (app_err ''experiment_not_found'' ''Experiment was not found'' 404 [])
      | Some x \<Rightarrow> Inr x)"

definition name_conflict :: exn where
  "name_conflict = app_err ''experiment_name_conflict'' ''An experiment with this name already exists in the project'' 409 []"

definition ensure_unique_name :: "db \<Rightarrow> uuid \<Rightarrow> string \<Rightarrow> uuid option \<Rightarrow> unit res" where
  "ensure_unique_name s pid name exclude_id =
     (if list_ex (\<lambda>x. x_project_id x = pid \<and> py_lower (x_name x) = py_lower name \<and>
           (case exclude_id of None \<Rightarrow> True | Some i \<Rightarrow> x_id x \<noteq> i)) (experiments s)
      then Inl name_conflict else Inr ())"

definition matching_experiments ::
  "db \<Rightarrow> string option \<Rightarrow> uuid option \<Rightarrow> string option \<Rightarrow> experiment_row list" where
  "matching_experiments s search project_id tag =
     filter (\<lambda>x. search_matches search (x_name x) (x_description x) \<and>
         (case project_id of None \<Rightarrow> True | Some p \<Rightarrow> x_project_id x = p) \<and> tag_matches tag (x_tags x)) (experiments s)"

fun order_experiments :: "db \<Rightarrow> catalog_sort \<Rightarrow> bool \<Rightarrow> experiment_row list \<Rightarrow> experiment_row list" where
  "order_experiments s SortName ascending = order_rows ascending (\<lambda>x. collation s (x_name x)) x_id"
| "order_experiments s SortCreatedAt ascending = order_rows ascending x_created_at x_id"
| "order_experiments s SortUpdatedAt ascending = order_rows ascending x_updated_at x_id"

text \<open>
  \<open>ExperimentResponse.model_validate\<close>: every column of the row, and the tags must be a list. A list of
  rows is validated from the first to the last.
\<close>

definition experiment_response_of :: "experiment_row \<Rightarrow> experiment_row res" where
  "experiment_response_of x = (case x_tags x of None \<Rightarrow> Inl ValidationError | Some _ \<Rightarrow> Inr x)"

fun check_all :: "('a \<Rightarrow> 'b res) \<Rightarrow> 'a list \<Rightarrow> 'b list res" where
  "check_all f [] = Inr []"
| "check_all f (x # xs) = res_bind (f x) (\<lambda>y. res_bind (check_all f xs) (\<lambda>ys. Inr (y # ys)))"

definition list_experiments ::
  "int \<Rightarrow> int \<Rightarrow> string option \<Rightarrow> uuid option \<Rightarrow> string option \<Rightarrow> catalog_sort \<Rightarrow> bool \<Rightarrow> db \<Rightarrow> experiment_row page res" where
  "list_experiments page page_size search project_id tag order_by ascending s =
     (let found = paginate page page_size (order_experiments s order_by ascending (matching_experiments s search project_id tag))
      in res_bind (check_all experiment_response_of (pg_items found)) (\<lambda>_. Inr found))"

text \<open>The constraints of the table on a row about to be written.\<close>

definition experiment_row_ok :: "db \<Rightarrow> experiment_row \<Rightarrow> bool" where
  "experiment_row_ok s x \<longleftrightarrow> x_project_id x \<in> pj_id ` set (projects s) \<and> x_created_by x \<in> u_id ` set (users s) \<and>
     \<not> list_ex (\<lambda>y. x_id y \<noteq> x_id x \<and> x_project_id y = x_project_id x \<and> x_name y = x_name x) (experiments s)"

definition create_experiment :: "experiment_create \<Rightarrow> user \<Rightarrow> db \<Rightarrow> (experiment_row \<times> db) res" where
  "create_experiment body u s =
     res_bind (get_project_or_404 s (xc_project_id body)) (\<lambda>_.
     res_bind (ensure_unique_name s (xc_project_id body) (xc_name body) None) (\<lambda>_.
       let (xid, s1) = uuid4 s;
           x = \<lparr>x_id = xid, x_project_id = xc_project_id body, x_name = xc_name body,
                x_description = xc_description body, x_tags = Some (xc_tags body), x_created_by = u_id u,
                x_created_at = tx_now s1, x_updated_at = tx_now s1\<rparr>
       in if experiment_row_ok s1 x then Inr (x, experiments_update (\<lambda>xs. xs @ [x]) s1) else Inl name_conflict))"

definition read_experiment :: "uuid \<Rightarrow> db \<Rightarrow> experiment_row res" where
  "read_experiment xid s = get_experiment_or_404 s xid"

definition set_experiment :: "experiment_update \<Rightarrow> experiment_row \<Rightarrow> experiment_row" where
  "set_experiment body x =
     (let x1 = (case given (xu_name body) of None \<Rightarrow> x | Some n \<Rightarrow> x\<lparr>x_name := n\<rparr>);
          x2 = (case given (xu_description body) of None \<Rightarrow> x1 | Some d \<Rightarrow> x1\<lparr>x_description := d\<rparr>)
      in case xu_tags body of None \<Rightarrow> x2 | Some ts \<Rightarrow> x2\<lparr>x_tags := ts\<rparr>)"

text \<open>
  A null \<open>name\<close> or \<open>description\<close> violates its column; a null in the JSON column \<open>tags\<close> is stored as the
  JSON value \<open>null\<close>. Every violation is reported as a name
  conflict. An empty name skips the check.
\<close>

definition update_experiment :: "uuid \<Rightarrow> experiment_update \<Rightarrow> db \<Rightarrow> (experiment_row \<times> db) res" where
  "update_experiment xid body s =
     res_bind (get_experiment_or_404 s xid) (\<lambda>x.
     res_bind (case given (xu_name body) of
         Some n \<Rightarrow> if n = '''' then Inr () else ensure_unique_name s (x_project_id x) n (Some (x_id x))
       | None \<Rightarrow> Inr ()) (\<lambda>_.
       let x1 = set_experiment body x;
           x2 = (if x1 = x then x else x1\<lparr>x_updated_at := tx_now s\<rparr>)
       in if xu_name body = Some None \<or> xu_description body = Some None \<or> \<not> experiment_row_ok s x2
          then Inl name_conflict
          else Inr (x2, experiments_update (upd_row x_id xid (\<lambda>_. x2)) s)))"

text \<open>Runs refer to their experiment: the database refuses to delete one that has runs.\<close>

definition delete_experiment :: "uuid \<Rightarrow> db \<Rightarrow> db res" where
  "delete_experiment xid s =
     res_bind (get_experiment_or_404 s xid) (\<lambda>x.
       if list_ex (\<lambda>r. r_experiment_id r = xid) (runs s) then Inl IntegrityError
       else Inr (experiments_update (filter (\<lambda>y. x_id y \<noteq> xid)) s))"

section \<open>The catalog invariant\<close>

text \<open>
  References lead somewhere, identifiers are unique, and within a project no two experiments have
  the same name up to case.
\<close>

definition name_key :: "experiment_row \<Rightarrow> uuid \<times> string" where
  "name_key x = (x_project_id x, py_lower (x_name x))"

definition catalog_inv :: "db \<Rightarrow> bool" where
  "catalog_inv s \<longleftrightarrow>
     distinct (map pj_id (projects s)) \<and> distinct (map x_id (experiments s)) \<and>
     (\<forall>p\<in>set (projects s). pj_id p < next_uuid s \<and> pj_created_by p \<in> u_id ` set (users s)) \<and>
     (\<forall>x\<in>set (experiments s). x_id x < next_uuid s \<and> x_project_id x \<in> pj_id ` set (projects s) \<and>
        x_created_by x \<in> u_id ` set (users s)) \<and>
     (\<forall>r\<in>set (runs s). r_experiment_id r \<in> x_id ` set (experiments s)) \<and>
     distinct (map name_key (experiments s))"

lemma catalog_inv_frame:
  assumes "catalog_inv s" "projects s' = projects s" "experiments s' = experiments s" "users s' = users s"
    and "r_experiment_id ` set (runs s') \<subseteq> x_id ` set (experiments s)" "next_uuid s \<le> next_uuid s'"
  shows "catalog_inv s'"
  using assms unfolding catalog_inv_def by (auto intro: less_le_trans)

lemma get_project_or_404_Inr [simp]: "get_project_or_404 s pid = Inr p \<longleftrightarrow> get_project s pid = Some p"
  by (simp add: get_project_or_404_def split: option.split)

lemma get_experiment_or_404_Inr [simp]: "get_experiment_or_404 s xid = Inr x \<longleftrightarrow> get_experiment s xid = Some x"
  by (simp add: get_experiment_or_404_def split: option.split)

lemma ensure_unique_name_Inr:
  "ensure_unique_name s pid name ex = Inr u \<longleftrightarrow>
     (\<forall>x\<in>set (experiments s). (case ex of None \<Rightarrow> True | Some i \<Rightarrow> x_id x \<noteq> i) \<longrightarrow> name_key x \<noteq> (pid, py_lower name))"
  by (cases ex) (auto simp: ensure_unique_name_def list_ex_iff name_key_def)

lemma create_project_inv [inv_intros]:
  "create_project b u s = Inr (p, s') \<Longrightarrow> catalog_inv s \<Longrightarrow> catalog_inv s'"
  by (auto simp: create_project_def uuid4_def Let_def catalog_inv_def less_Suc_eq split: if_splits) (use less_irrefl in blast)

lemma update_project_row:
  assumes "update_project pid b s = Inr (p, s')"
  obtains q where "get_project s pid = Some q" "pj_id p = pid" "pj_created_by p = pj_created_by q"
    "s' = projects_update (upd_row pj_id pid (\<lambda>_. p)) s"
  using assms by (auto simp: update_project_def res_bind_Inr_iff Let_def get_project_def
      split: if_splits option.splits dest!: get_row_SomeD)

lemma update_project_inv [inv_intros]:
  assumes "update_project pid b s = Inr (p, s')" "catalog_inv s"
  shows "catalog_inv s'"
proof -
  obtain q where q: "get_project s pid = Some q" "pj_id p = pid" "pj_created_by p = pj_created_by q"
    and s': "s' = projects_update (upd_row pj_id pid (\<lambda>_. p)) s"
    by (rule update_project_row[OF assms(1)])
  have qs: "q \<in> set (projects s)" "pj_id q = pid" using q(1) by (auto simp: get_project_def dest: get_row_SomeD)
  have ids: "map pj_id (projects s') = map pj_id (projects s)" using q(2) by (simp add: s' map_upd_row)
  from arg_cong[OF ids, of set] have "pj_id ` set (projects s') = pj_id ` set (projects s)" by simp
  moreover have "\<forall>r\<in>set (projects s'). pj_id r < next_uuid s \<and> pj_created_by r \<in> u_id ` set (users s)"
    using assms(2) qs q by (auto simp: s' ball_upd_row catalog_inv_def)
  ultimately show ?thesis using assms(2) ids by (simp add: catalog_inv_def s')
qed

lemma delete_project_inv [inv_intros]:
  assumes "delete_project pid s = Inr s'" "catalog_inv s"
  shows "catalog_inv s'"
proof -
  have "\<forall>x\<in>set (experiments s). x_project_id x \<noteq> pid" and s': "s' = projects_update (filter (\<lambda>q. pj_id q \<noteq> pid)) s"
    using assms(1) by (auto simp: delete_project_def res_bind_Inr_iff list_ex_iff split: if_splits)
  then have "x_project_id x \<in> pj_id ` set (projects s')" if "x \<in> set (experiments s)" for x
    using that assms(2) by (force simp: catalog_inv_def image_iff)
  then show ?thesis using assms(2) by (auto simp: s' catalog_inv_def distinct_map_filter)
qed

lemma create_experiment_inv [inv_intros]:
  assumes "create_experiment b u s = Inr (x, s')" "catalog_inv s"
  shows "catalog_inv s'"
proof -
  have "\<forall>y\<in>set (experiments s). name_key y \<noteq> (xc_project_id b, py_lower (xc_name b))"
    and x: "x_id x = next_uuid s" "name_key x = (xc_project_id b, py_lower (xc_name b))"
      "x_project_id x \<in> pj_id ` set (projects s)" "x_created_by x \<in> u_id ` set (users s)"
    and s': "s' = experiments_update (\<lambda>xs. xs @ [x]) (s\<lparr>next_uuid := Suc (next_uuid s)\<rparr>)"
    using assms(1) by (auto simp: create_experiment_def res_bind_Inr_iff ensure_unique_name_Inr uuid4_def Let_def
        experiment_row_ok_def name_key_def split: if_splits)
  then show ?thesis using assms(2) by (auto simp: catalog_inv_def less_Suc_eq image_iff)
qed

lemma update_experiment_row:
  assumes "update_experiment xid b s = Inr (x, s')"
  obtains y where "get_experiment s xid = Some y" "x_id x = xid" "x_project_id x = x_project_id y"
    "x_created_by x = x_created_by y" "experiment_row_ok s x" "s' = experiments_update (upd_row x_id xid (\<lambda>_. x)) s"
    "x_name x \<noteq> x_name y \<longrightarrow> x_name x \<noteq> [] \<longrightarrow> (\<forall>z\<in>set (experiments s). x_id z \<noteq> xid \<longrightarrow> name_key z \<noteq> name_key x)"
proof -
  have *: "x_id (set_experiment b y) = x_id y" "x_project_id (set_experiment b y) = x_project_id y"
    "x_created_by (set_experiment b y) = x_created_by y"
    "x_name (set_experiment b y) = (case given (xu_name b) of None \<Rightarrow> x_name y | Some n \<Rightarrow> n)" for y
    by (auto simp: set_experiment_def Let_def split: option.split)
  obtain y where y: "get_experiment s xid = Some y" using assms by (auto simp: update_experiment_def res_bind_Inr_iff)
  have i: "x_id y = xid" using y by (auto simp: get_experiment_def dest: get_row_SomeD)
  show thesis
    using assms y i by (intro that[OF y]) (auto simp: update_experiment_def res_bind_Inr_iff Let_def * name_key_def
        ensure_unique_name_Inr split: if_splits option.splits)
qed

lemma distinct_replace_row:
  assumes "distinct (map key rs)" "distinct (map g rs)" "\<forall>r\<in>set rs. key r \<noteq> k \<longrightarrow> g r \<noteq> g v"
  shows "distinct (map g (upd_row key k (\<lambda>_. v) rs))"
  using assms
proof (induction rs)
  case (Cons r rs)
  show ?case
  proof (cases "key r = k")
    case True
    then have "k \<notin> key ` set rs" using Cons.prems(1) by auto
    moreover from this have "g v \<notin> g ` set rs" using Cons.prems(3) by fastforce
    ultimately show ?thesis using True Cons.prems by (simp add: upd_row_notin)
  next
    case False
    have "g r \<notin> g ` set (upd_row key k (\<lambda>_. v) rs)"
      using False Cons.prems by (auto simp: set_upd_row split: if_splits)
    then show ?thesis using False Cons by simp
  qed
qed simp

lemma update_experiment_inv [inv_intros]:
  assumes "update_experiment xid b s = Inr (x, s')" "catalog_inv s"
  shows "catalog_inv s'"
proof -
  obtain y where y: "get_experiment s xid = Some y" "x_id x = xid" "x_project_id x = x_project_id y"
      "x_created_by x = x_created_by y" "experiment_row_ok s x"
    and s': "s' = experiments_update (upd_row x_id xid (\<lambda>_. x)) s"
    and fresh: "x_name x \<noteq> x_name y \<longrightarrow> x_name x \<noteq> [] \<longrightarrow>
      (\<forall>z\<in>set (experiments s). x_id z \<noteq> xid \<longrightarrow> name_key z \<noteq> name_key x)"
    by (rule update_experiment_row[OF assms(1)])
  have ys: "y \<in> set (experiments s)" "x_id y = xid" using y(1) by (auto simp: get_experiment_def dest: get_row_SomeD)
  have dst: "distinct (map x_id (experiments s))" "distinct (map name_key (experiments s))"
    using assms(2) by (auto simp: catalog_inv_def)
  have other: "name_key z \<noteq> name_key x" if z: "z \<in> set (experiments s)" "x_id z \<noteq> xid" for z
  proof (cases "x_name x = x_name y")
    case True
    then have "name_key x = name_key y" using y(3) by (simp add: name_key_def)
    moreover have "name_key z \<noteq> name_key y" using key_inj[OF dst(2) z(1) ys(1)] z(2) ys(2) by auto
    ultimately show ?thesis by simp
  next
    case False
    have "x_name x = x_name z" if "name_key z = name_key x" "x_name x = []"
      using that by (simp add: name_key_def py_lower_def)
    then show ?thesis using False fresh z y(2,5) by (fastforce simp: experiment_row_ok_def list_ex_iff name_key_def)
  qed
  have "distinct (map name_key (upd_row x_id xid (\<lambda>_. x) (experiments s)))"
    using dst other by (intro distinct_replace_row) auto
  moreover have ids: "map x_id (experiments s') = map x_id (experiments s)" using y(2) by (simp add: s' map_upd_row)
  moreover from arg_cong[OF ids, of set] have "x_id ` set (experiments s') = x_id ` set (experiments s)" by simp
  moreover have "\<forall>z\<in>set (experiments s'). x_id z < next_uuid s \<and> x_project_id z \<in> pj_id ` set (projects s) \<and>
      x_created_by z \<in> u_id ` set (users s)"
    using assms(2) ys y by (auto simp: s' ball_upd_row catalog_inv_def)
  ultimately show ?thesis using assms(2) by (simp add: catalog_inv_def s')
qed

lemma delete_experiment_inv [inv_intros]:
  assumes "delete_experiment xid s = Inr s'" "catalog_inv s"
  shows "catalog_inv s'"
proof -
  have "\<forall>r\<in>set (runs s). r_experiment_id r \<noteq> xid" and s': "s' = experiments_update (filter (\<lambda>y. x_id y \<noteq> xid)) s"
    using assms(1) by (auto simp: delete_experiment_def res_bind_Inr_iff list_ex_iff split: if_splits)
  then have "r_experiment_id r \<in> x_id ` set (experiments s')" if "r \<in> set (runs s)" for r
    using that assms(2) by (force simp: catalog_inv_def image_iff)
  then show ?thesis using assms(2) by (auto simp: s' catalog_inv_def distinct_map_filter)
qed

end
