(* ===== verification/Api_Runs.thy ===== *)
theory Api_Runs
  imports Execution_Outcomes Api_Catalog
begin

text \<open>
  The endpoints for runs (\<open>api/runs.py\<close>) with their schemas (\<open>schemas/runs.py\<close>). An endpoint that
  changes the database is one transaction: it returns its answer with the next database, or raises
  and leaves the database as it was. \<open>cid\<close> is the correlation identifier of the request, \<open>px\<close> the
  coercions of pydantic. A response model that lists a column under its own name is identified with
  the row; the models that leave columns out are records of their own.
\<close>

definition get_run_or_404 :: "db \<Rightarrow> uuid \<Rightarrow> run res" where
  "get_run_or_404 s rid =
     (case get_run s rid of
        None \<Rightarrow> Inl (app_err ''run_not_found'' ''Run was not found'' 404 [])
      | Some r \<Rightarrow> Inr r)"

definition ensure_run_control :: "user \<Rightarrow> run \<Rightarrow> unit res" where
  "ensure_run_control u r =
     (if u_role u \<noteq> ADMINISTRATOR \<and> r_created_by r \<noteq> u_id u
      then Inl (app_err ''run_control_denied'' ''Researchers may control only runs they created'' 403 [])
      else Inr ())"

definition add_outbox_event ::
  "settings \<Rightarrow> string \<Rightarrow> run \<Rightarrow> string \<Rightarrow> dict \<Rightarrow> db \<Rightarrow> db res" where
  "add_outbox_event cfg cid r event_type payload s =
     (let (eid, s1) = uuid4 s; (now, s2) = now_utc s1
      in res_bind (mk_envelope eid event_type now cid (Some (r_id r)) None payload) (\<lambda>event.
           Inr (add_outbox s2 (broker_topic cfg) (uuid_str (r_id r)) event)))"


section \<open>Templates\<close>

text \<open>\<open>ORDER BY name, version DESC\<close>.\<close>

definition list_templates :: "db \<Rightarrow> training_template list" where
  "list_templates s =
     sort_key (\<lambda>t. collation s (t_name t))
       (rev (sort_key (\<lambda>t. collation s (t_version t)) (rev (filter t_enabled (training_templates s)))))"

definition read_template :: "string \<Rightarrow> string \<Rightarrow> db \<Rightarrow> training_template res" where
  "read_template key version s =
     (case find (\<lambda>t. t_key t = key \<and> t_version t = version \<and> t_enabled t) (training_templates s) of
        None \<Rightarrow> Inl (app_err ''template_not_found'' ''Training template was not found'' 404 [])
      | Some t \<Rightarrow> Inr t)"


section \<open>Creating and listing runs\<close>

definition create_run ::
  "pydantic \<Rightarrow> settings \<Rightarrow> string \<Rightarrow> run_create \<Rightarrow> user \<Rightarrow> db \<Rightarrow> (run \<times> db) res" where
  "create_run px cfg cid body u s =
     res_bind (get_experiment_or_404 s (rc_experiment_id body)) (\<lambda>_.
       create_queued_run px cfg cid body (u_id u) s)"

datatype run_sort = RunCreatedAt | RunPriority | RunByStatus

fun order_runs :: "run_sort \<Rightarrow> bool \<Rightarrow> run list \<Rightarrow> run list" where
  "order_runs RunCreatedAt ascending = order_rows ascending r_created_at r_id"
| "order_runs RunPriority ascending = order_rows ascending r_priority r_id"
| "order_runs RunByStatus ascending = order_rows ascending r_status r_id"

definition matching_runs :: "db \<Rightarrow> uuid option \<Rightarrow> run_status option \<Rightarrow> run list" where
  "matching_runs s experiment_id status =
     filter (\<lambda>r. (case experiment_id of None \<Rightarrow> True | Some x \<Rightarrow> r_experiment_id r = x) \<and>
        (case status of None \<Rightarrow> True | Some t \<Rightarrow> r_status r = t)) (runs s)"

definition list_runs ::
  "int \<Rightarrow> int \<Rightarrow> uuid option \<Rightarrow> run_status option \<Rightarrow> run_sort \<Rightarrow> bool \<Rightarrow> db \<Rightarrow> run page" where
  "list_runs page page_size experiment_id status order_by ascending s =
     paginate page page_size (order_runs order_by ascending (matching_runs s experiment_id status))"

definition read_run :: "uuid \<Rightarrow> db \<Rightarrow> run res" where
  "read_run rid s = get_run_or_404 s rid"


section \<open>Comparing runs\<close>

record comparison_item =
  ci_run :: run
  ci_parameters :: dict
  ci_metrics :: "(string \<times> rat) list"

record compare_response =
  cmp_items :: "comparison_item list"
  cmp_best_by_metric :: "(string \<times> uuid) list"

definition compare_request_ok :: "uuid list \<Rightarrow> bool" where
  "compare_request_ok ids \<longleftrightarrow> 2 \<le> length ids \<and> length ids \<le> 5"

text \<open>\<open>list.index\<close> of a value that occurs.\<close>

fun index_of :: "'a \<Rightarrow> 'a list \<Rightarrow> nat" where
  "index_of x [] = 0"
| "index_of x (y # ys) = (if y = x then 0 else Suc (index_of x ys))"

text \<open>\<open>metrics[metric.name] = metric.value\<close> in the order of the steps: the last value of a name stays.\<close>

definition run_metric_values :: "db \<Rightarrow> uuid \<Rightarrow> (string \<times> rat) list" where
  "run_metric_values s rid =
     fold (\<lambda>m acc. AList.update (m_name m) (m_value m) acc)
       (sort_key m_step (filter (\<lambda>m. m_run_id m = rid) (run_metrics s))) []"

definition comparison_of :: "db \<Rightarrow> run \<Rightarrow> comparison_item" where
  "comparison_of s r =
     \<lparr>ci_run = r,
      ci_parameters = fold (\<lambda>(n, v) acc. AList.update n v acc) (stored_parameters s (r_id r)) [],
      ci_metrics = run_metric_values s (r_id r)\<rparr>"

text \<open>\<open>max(items, key=...)\<close>: the first item with a maximal key.\<close>

fun first_max :: "('a \<Rightarrow> 'k::linorder) \<Rightarrow> 'a \<Rightarrow> 'a list \<Rightarrow> 'a" where
  "first_max k best [] = best"
| "first_max k best (x # xs) = first_max k (if k best < k x then x else best) xs"

definition metric_value :: "string \<Rightarrow> comparison_item \<Rightarrow> rat" where
  "metric_value name item = the (map_of (ci_metrics item) name)"

definition best_of :: "comparison_item list \<Rightarrow> string \<Rightarrow> uuid" where
  "best_of items name =
     (case filter (\<lambda>i. map_of (ci_metrics i) name \<noteq> None) items of
        [] \<Rightarrow> 0
      | i # is \<Rightarrow> r_id (ci_run (first_max (metric_value name) i is)))"

definition compare_runs :: "uuid list \<Rightarrow> db \<Rightarrow> compare_response res" where
  "compare_runs run_ids s =
     (if \<not> distinct run_ids then Inl (app_err ''duplicate_run_ids'' ''Run IDs must be distinct'' 422 [])
      else let found = filter (\<lambda>r. r_id r \<in> set run_ids) (runs s)
      in if length found \<noteq> length run_ids then Inl (app_err ''run_not_found'' ''One or more runs were not found'' 404 [])
         else if list_ex (\<lambda>r. r_status r \<noteq> SUCCEEDED) found then
           Inl (app_err ''runs_not_comparable'' ''Only successful runs can be compared'' 409 [])
         else let items = map (comparison_of s) (sort_key (\<lambda>r. index_of (r_id r) run_ids) found);
                  names = fromkeys (concat (map (\<lambda>i. map fst (ci_metrics i)) items))
              in Inr \<lparr>cmp_items = items, cmp_best_by_metric = map (\<lambda>n. (n, best_of items n)) names\<rparr>)"


section \<open>Commands on a run\<close>

definition cancel_run :: "settings \<Rightarrow> string \<Rightarrow> uuid \<Rightarrow> user \<Rightarrow> db \<Rightarrow> (run \<times> db) res" where
  "cancel_run cfg cid rid u s =
     res_bind (get_run_or_404 s rid) (\<lambda>r.
     res_bind (ensure_run_control u r) (\<lambda>_.
       if r_status r \<noteq> RUNNING then
         Inl (app_err ''run_not_cancellable'' ''Only a running run can be cancelled'' 409
           [(''status'', JStr (status_value (r_status r)))])
       else res_bind (transition_and_flush s r CANCELLING ''run.cancel.requested'' [] id) (\<lambda>(r1, s1).
            res_bind (add_outbox_event cfg cid r1 ''run.cancel.requested''
                [(''requested_by'', JStr (uuid_str (u_id u)))] s1) (\<lambda>s2. Inr (r1, s2)))))"

definition retry_row :: "db \<Rightarrow> run \<Rightarrow> user \<Rightarrow> run" where
  "retry_row s parent u =
     \<lparr>r_id = next_uuid s, r_experiment_id = r_experiment_id parent, r_template_id = r_template_id parent,
      r_status = DRAFT, r_priority = r_priority parent, r_requested_cpu = r_requested_cpu parent,
      r_requested_memory_mb = r_requested_memory_mb parent, r_assigned_worker_id = None,
      r_attempt_number = r_attempt_number parent + 1, r_parent_run_id = Some (r_id parent),
      r_created_by = u_id u, r_created_at = tx_now s, r_queued_at = None, r_started_at = None,
      r_completed_at = None, r_failure_code = None, r_failure_message = None, r_notes = r_notes parent,
      r_tags = r_tags parent, r_version = 1\<rparr>"

definition retry_run ::
  "pydantic \<Rightarrow> settings \<Rightarrow> string \<Rightarrow> uuid \<Rightarrow> dict \<Rightarrow> user \<Rightarrow> db \<Rightarrow> (run \<times> db) res" where
  "retry_run px cfg cid rid parameter_overrides u s =
     res_bind (get_run_or_404 s rid) (\<lambda>parent.
     res_bind (ensure_run_control u parent) (\<lambda>_.
       if r_status parent \<noteq> FAILED then
         Inl (app_err ''run_not_retryable'' ''Only a failed run can be retried'' 409
           [(''status'', JStr (status_value (r_status parent)))])
       else case get_template s (r_template_id parent) of
         None \<Rightarrow> Inl (app_err ''template_not_found'' ''Training template was not found'' 404 [])
       | Some template \<Rightarrow>
           let parameters = fold (\<lambda>(n, v) acc. AList.update n v acc) (stored_parameters s (r_id parent) @ parameter_overrides) []
           in res_bind (validate_parameters px template parameters) (\<lambda>(_, validated).
              let child = retry_row s parent u; (_, s1) = uuid4 s
              in res_bind (insert_run s1 child) (\<lambda>s2.
                 let s3 = fold (\<lambda>(name, v) s. add_parameter s (r_id child) name v) validated s2
                 in res_bind (transition_and_flush s3 child QUEUED ''run.queued''
                       [(''retry_of'', JStr (uuid_str (r_id parent)))] id) (\<lambda>(child1, s4).
                    res_bind (add_outbox_event cfg cid child1 ''run.submitted''
                       [(''template_key'', JStr (t_key template)), (''template_version'', JStr (t_version template)),
                        (''retry_of'', JStr (uuid_str (r_id parent))),
                        (''attempt_number'', JInt (r_attempt_number child1))] s4) (\<lambda>s5. Inr (child1, s5)))))))"

record metadata_update =
  mu_notes :: string
  mu_tags :: "string list"

definition metadata_update_ok :: "metadata_update \<Rightarrow> bool" where
  "metadata_update_ok b \<longleftrightarrow> length (mu_notes b) \<le> 4000 \<and> length (mu_tags b) \<le> 20"

definition update_run_metadata ::
  "uuid \<Rightarrow> metadata_update \<Rightarrow> user \<Rightarrow> db \<Rightarrow> (run \<times> db) res" where
  "update_run_metadata rid body u s =
     res_bind (get_run_or_404 s rid) (\<lambda>r.
     res_bind (ensure_run_control u r) (\<lambda>_.
       let normalized = stripped_tags (mu_tags body)
       in if list_ex (\<lambda>t. 40 < length t) normalized then
            Inl (app_err ''invalid_tags'' ''Tags must be at most 40 characters'' 422 [])
          else let r1 = r\<lparr>r_notes := mu_notes body, r_tags := fromkeys normalized\<rparr>;
                   s1 = add_event s (r_id r) ''run.metadata.updated'' None None [(''updated_by'', JStr (uuid_str (u_id u)))]
               in flush_run s1 r1))"


section \<open>Reading what a run left behind\<close>

record parameter_response =
  rp_id :: uuid
  rp_name :: string
  rp_value :: json

record metric_response =
  rm_id :: uuid
  rm_name :: string
  rm_value :: rat
  rm_step :: int
  rm_recorded_at :: time

record log_response =
  rl_id :: uuid
  rl_sequence_number :: int
  rl_level :: string
  rl_message :: string
  rl_recorded_at :: time

record event_response =
  re_id :: uuid
  re_event_type :: string
  re_previous_status :: "run_status option"
  re_new_status :: "run_status option"
  re_event_metadata :: dict
  re_created_at :: time

record artifact_response =
  ra_id :: uuid
  ra_name :: string
  ra_mime_type :: string
  ra_size_bytes :: int
  ra_checksum :: string
  ra_created_at :: time

definition list_parameters :: "uuid \<Rightarrow> db \<Rightarrow> parameter_response list res" where
  "list_parameters rid s =
     res_bind (get_run_or_404 s rid) (\<lambda>_. Inr (map (\<lambda>p. \<lparr>rp_id = p_id p, rp_name = p_name p, rp_value = p_value p\<rparr>)
       (sort_key (\<lambda>p. collation s (p_name p)) (filter (\<lambda>p. p_run_id p = rid) (run_parameters s)))))"

definition list_metrics :: "uuid \<Rightarrow> db \<Rightarrow> metric_response list res" where
  "list_metrics rid s =
     res_bind (get_run_or_404 s rid) (\<lambda>_. Inr (map (\<lambda>m. \<lparr>rm_id = m_id m, rm_name = m_name m, rm_value = m_value m,
         rm_step = m_step m, rm_recorded_at = m_recorded_at m\<rparr>)
       (sort_key m_recorded_at (filter (\<lambda>m. m_run_id m = rid) (run_metrics s)))))"

definition list_logs :: "uuid \<Rightarrow> db \<Rightarrow> log_response list res" where
  "list_logs rid s =
     res_bind (get_run_or_404 s rid) (\<lambda>_. Inr (map (\<lambda>l. \<lparr>rl_id = l_id l, rl_sequence_number = l_sequence_number l,
         rl_level = l_level l, rl_message = l_message l, rl_recorded_at = l_recorded_at l\<rparr>)
       (sort_key l_sequence_number (filter (\<lambda>l. l_run_id l = rid) (run_logs s)))))"

definition list_events :: "uuid \<Rightarrow> db \<Rightarrow> event_response list res" where
  "list_events rid s =
     res_bind (get_run_or_404 s rid) (\<lambda>_. Inr (map (\<lambda>e. \<lparr>re_id = e_id e, re_event_type = e_event_type e,
         re_previous_status = e_previous_status e, re_new_status = e_new_status e,
         re_event_metadata = e_event_metadata e, re_created_at = e_created_at e\<rparr>)
       (sort_key e_created_at (filter (\<lambda>e. e_run_id e = rid) (run_events s)))))"

definition list_artifacts :: "uuid \<Rightarrow> db \<Rightarrow> artifact_response list res" where
  "list_artifacts rid s =
     res_bind (get_run_or_404 s rid) (\<lambda>_. Inr (map (\<lambda>a. \<lparr>ra_id = art_id a, ra_name = art_name a,
         ra_mime_type = art_mime_type a, ra_size_bytes = art_size_bytes a, ra_checksum = art_checksum a,
         ra_created_at = art_created_at a\<rparr>)
       (sort_key art_created_at (filter (\<lambda>a. art_run_id a = rid) (artifacts s)))))"

record file_response =
  fr_content :: bytes
  fr_media_type :: string
  fr_headers :: "(string \<times> string) list"

definition safe_name :: "string \<Rightarrow> string" where
  "safe_name name = filter (\<lambda>c. c \<noteq> CHR 0x22 \<and> c \<noteq> CHR 0x0D \<and> c \<noteq> CHR 0x0A) name"

text \<open>\<open>get\<close> is the artifact store's method: its result and the next state of the store.\<close>

definition download_artifact ::
  "('w \<Rightarrow> string \<Rightarrow> bytes res \<times> 'w) \<Rightarrow> uuid \<Rightarrow> uuid \<Rightarrow> db \<Rightarrow> 'w \<Rightarrow> file_response res \<times> 'w" where
  "download_artifact get rid aid s w =
     (case find (\<lambda>a. art_id a = aid \<and> art_run_id a = rid) (artifacts s) of
        None \<Rightarrow> (Inl (app_err ''artifact_not_found'' ''Artifact was not found'' 404 []), w)
      | Some a \<Rightarrow>
          (case get w (art_storage_key a) of
             (Inl FileNotFoundError, w1) \<Rightarrow>
               (Inl (app_err ''artifact_content_missing''
                  ''Artifact metadata exists, but its content is unavailable'' 410 []), w1)
           | (Inl e, w1) \<Rightarrow> (Inl e, w1)
           | (Inr content, w1) \<Rightarrow>
               (Inr \<lparr>fr_content = content, fr_media_type = art_mime_type a,
                  fr_headers = [(''Content-Disposition'',
                    ''attachment; filename='' @ [CHR 0x22] @ safe_name (art_name a) @ [CHR 0x22])]\<rparr>, w1)))"

section \<open>The commands and the invariants\<close>

lemma get_run_or_404_Inr [simp]: "get_run_or_404 s rid = Inr r \<longleftrightarrow> get_run s rid = Some r"
  by (simp add: get_run_or_404_def split: option.split)

lemma ensure_run_control_Inr [simp]:
  "ensure_run_control u r = Inr x \<longleftrightarrow> u_role u = ADMINISTRATOR \<or> r_created_by r = u_id u"
  by (auto simp: ensure_run_control_def)

lemma add_outbox_event_ok:
  assumes "3 \<le> length ty" "length ty \<le> 100" "1 \<le> length cid" "length cid \<le> 128"
  shows "\<exists>s' m. add_outbox_event cfg cid r ty payload s = Inr s' \<and> same_core s s' \<and> same_catalog s s' \<and>
    run_parameters s' = run_parameters s \<and> outbox_messages s' = outbox_messages s @ [m] \<and> o_published_at m = None \<and>
    ev_event_type (o_envelope m) = ty \<and> ev_run_id (o_envelope m) = Some (r_id r) \<and> ev_payload (o_envelope m) = payload"
  using assms by (simp add: add_outbox_event_def uuid4_def now_utc_def mk_envelope_def validate_envelope_def
      envelope_ok_def add_outbox_def Let_def same_core_def same_catalog_def)

lemma add_outbox_event_frame:
  assumes "add_outbox_event cfg cid r ty payload s = Inr s'"
  shows "same_core s s'" "same_catalog s s'" "run_parameters s' = run_parameters s"
  using assms by (auto simp: add_outbox_event_def uuid4_def now_utc_def res_bind_Inr_iff add_outbox_def Let_def
      same_core_def same_catalog_def)

lemma fk_inv_frame:
  assumes "fk_inv s" "r_id ` set (runs s) \<subseteq> r_id ` set (runs s')" "run_parameters s' = run_parameters s"
    and "set (run_events s') \<subseteq> set (run_events s) \<union> {e. e_run_id e \<in> r_id ` set (runs s)}"
  shows "fk_inv s'"
proof -
  have "e_run_id e \<in> r_id ` set (runs s')" if "e \<in> set (run_events s')" for e
    using that assms(1,2,4) unfolding fk_inv_def by (metis (mono_tags, lifting) UnE mem_Collect_eq subsetD)
  moreover have "p_run_id p \<in> r_id ` set (runs s')" if "p \<in> set (run_parameters s')" for p
    using that assms(1,2,3) unfolding fk_inv_def by (metis subsetD)
  ultimately show ?thesis by (simp add: fk_inv_def)
qed

lemma same_catalogD:
  "same_catalog s s' \<Longrightarrow> users s' = users s" "same_catalog s s' \<Longrightarrow> projects s' = projects s"
  "same_catalog s s' \<Longrightarrow> experiments s' = experiments s"
  by (simp_all add: same_catalog_def)

lemma same_catalog_trans: "same_catalog s s1 \<Longrightarrow> same_catalog s1 s2 \<Longrightarrow> same_catalog s s2"
  by (simp add: same_catalog_def)

lemma after_move_catalog [simp]: "same_catalog s (after_move s0 r t ty md f) = same_catalog s s0"
  by (simp add: after_move_def add_event_def uuid4_def Let_def same_catalog_def)

text \<open>Cancellation: what it needs, and what it does.\<close>

lemma cancel_run_Inr:
  assumes "cancel_run cfg cid rid u s = Inr (r', s')"
  obtains r s1 where "get_run s rid = Some r" "r_id r = rid" "u_role u = ADMINISTRATOR \<or> r_created_by r = u_id u" "r_status r = RUNNING"
    "r' = moved s r CANCELLING id" "s1 = after_move s r CANCELLING ''run.cancel.requested'' [] id"
    "add_outbox_event cfg cid r' ''run.cancel.requested'' [(''requested_by'', JStr (uuid_str (u_id u)))] s1 = Inr s'"
proof -
  obtain r where r: "get_run s rid = Some r" "u_role u = ADMINISTRATOR \<or> r_created_by r = u_id u" "r_status r = RUNNING"
    using assms by (auto simp: cancel_run_def res_bind_Inr_iff split: if_splits)
  have i: "r_id r = rid" using get_run_SomeD[OF r(1)] by simp
  have "transition_and_flush s r CANCELLING ''run.cancel.requested'' [] id =
      Inr (moved s r CANCELLING id, after_move s r CANCELLING ''run.cancel.requested'' [] id)"
    using r i by (intro transition_and_flush_ok[of _ _ r]) (auto simp: keeps_core_def)
  then show thesis
    using assms r i by (intro that[of r]) (auto simp: cancel_run_def res_bind_Inr_iff split: if_splits)
qed

lemma cancel_run_inv [inv_intros]:
  assumes "cancel_run cfg cid rid u s = Inr (r', s')" "lifecycle_inv s" "fk_inv s"
  shows "lifecycle_inv s'" "fk_inv s'" "same_catalog s s'" "next_uuid s \<le> next_uuid s'"
    "runs s' = upd_row r_id rid (\<lambda>_. r') (runs s)"
    "\<exists>r. get_run s rid = Some r \<and> r_experiment_id r' = r_experiment_id r"
proof -
  obtain r s1 where r: "get_run s rid = Some r" "r_id r = rid" "r_status r = RUNNING" "r' = moved s r CANCELLING id"
    and s1: "s1 = after_move s r CANCELLING ''run.cancel.requested'' [] id"
    and ev: "add_outbox_event cfg cid r' ''run.cancel.requested'' [(''requested_by'', JStr (uuid_str (u_id u)))] s1 = Inr s'"
    by (rule cancel_run_Inr[OF assms(1)])
  have kc: "keeps_core id" by (simp add: keeps_core_def)
  note fr = add_outbox_event_frame[OF ev]
  have inv1: "lifecycle_inv s1"
    unfolding s1 using r kc by (intro lifecycle_inv_stay[OF assms(2), of r r]) (auto simp: busy_def moved_def)
  show "lifecycle_inv s'" by (rule same_core_inv[OF fr(1) inv1])
  have rs: "runs s' = runs s1" "run_events s' = run_events s1" using fr(1) by (simp_all add: same_core_def)
  have "r_id ` set (runs s1) = r_id ` set (runs s)" unfolding s1 by (rule run_ids_after_move(2)[OF kc])
  then show "fk_inv s'" using r rs fr(3) get_run_SomeD[OF r(1)]
    by (intro fk_inv_frame[OF assms(3)]) (auto simp: s1 db_simps frame_simps)
  show "same_catalog s s'" using fr(2) by (rule same_catalog_trans[rotated]) (simp add: s1 same_catalog_def[of s s])
  have "next_uuid s1 \<le> next_uuid s'" using fr(1) by (simp add: same_core_def)
  then show "next_uuid s \<le> next_uuid s'" by (simp add: s1 frame_simps)
  show "runs s' = upd_row r_id rid (\<lambda>_. r') (runs s)" by (simp add: rs s1 db_simps r)
  show "\<exists>r. get_run s rid = Some r \<and> r_experiment_id r' = r_experiment_id r"
    using r by (auto simp: moved_def)
qed

text \<open>Retry: the child is queued by the steps that creation uses too.\<close>

lemma retry_run_enqueue:
  assumes "get_run s rid = Some parent" "u_role u = ADMINISTRATOR \<or> r_created_by parent = u_id u" "r_status parent = FAILED"
    and "get_template s (r_template_id parent) = Some t"
    and "validate_parameters px t (fold (\<lambda>(n, v) acc. AList.update n v acc) (stored_parameters s rid @ overrides) []) = Inr (p, ps)"
  shows "retry_run px cfg cid rid overrides u s =
    enqueue cfg cid (retry_row s parent u) ps [(''retry_of'', JStr (uuid_str rid))]
      (\<lambda>child. [(''template_key'', JStr (t_key t)), (''template_version'', JStr (t_version t)),
         (''retry_of'', JStr (uuid_str rid)), (''attempt_number'', JInt (r_attempt_number child))])
      (s\<lparr>next_uuid := Suc (next_uuid s)\<rparr>)"
proof -
  have i: "r_id parent = rid" using get_run_SomeD[OF assms(1)] by simp
  have id1: "transition_and_flush s0 c QUEUED ty md id = Inr (c1, s4) \<Longrightarrow> r_id c1 = r_id c" for s0 c ty md c1 s4
    by (auto simp: transition_and_flush_def res_bind_Inr_iff transition_run_Inr dest: flush_run_fields(1))
  have ctl: "get_run_or_404 s rid = Inr parent" "ensure_run_control u parent = Inr ()" using assms by simp_all
  show ?thesis
    unfolding retry_run_def enqueue_def ctl res_bind_simps
    using assms i id1 by (auto simp: uuid4_def now_utc_def add_outbox_event_def Let_def res_bind_def
        split: sum.splits prod.splits)
qed

lemma retry_run_Inr:
  assumes "retry_run px cfg cid rid overrides u s = Inr (c, s')"
  obtains parent t p ps where "get_run s rid = Some parent" "u_role u = ADMINISTRATOR \<or> r_created_by parent = u_id u"
    "r_status parent = FAILED" "get_template s (r_template_id parent) = Some t"
    "validate_parameters px t (fold (\<lambda>(n, v) acc. AList.update n v acc) (stored_parameters s rid @ overrides) []) = Inr (p, ps)"
proof -
  obtain parent where par: "get_run s rid = Some parent" "u_role u = ADMINISTRATOR \<or> r_created_by parent = u_id u"
    "r_status parent = FAILED"
    using assms by (auto simp: retry_run_def res_bind_Inr_iff split: if_splits)
  have i: "r_id parent = rid" using get_run_SomeD[OF par(1)] by simp
  have ctl: "get_run_or_404 s rid = Inr parent" "ensure_run_control u parent = Inr ()" using par by simp_all
  show thesis
    using assms par i unfolding retry_run_def ctl res_bind_simps
    by (auto simp: res_bind_Inr_iff Let_def split: option.splits intro!: that)
qed

lemma retry_insert:
  assumes "enqueue cfg cid r ps md pay s = Inr (c, s')"
  shows "\<exists>s2. insert_run s r = Inr s2"
  using assms by (auto simp: enqueue_def res_bind_Inr_iff)

lemma insert_run_refs:
  "insert_run s r = Inr s2 \<Longrightarrow> r_experiment_id r \<in> x_id ` set (experiments s)"
  by (auto simp: insert_run_def split: if_splits)

lemma retry_row_simps [simp]:
  "r_id (retry_row s parent u) = next_uuid s" "r_status (retry_row s parent u) = DRAFT"
  "r_requested_cpu (retry_row s parent u) = r_requested_cpu parent"
  "r_requested_memory_mb (retry_row s parent u) = r_requested_memory_mb parent"
  "r_queued_at (retry_row s parent u) = None" "r_experiment_id (retry_row s parent u) = r_experiment_id parent"
  "r_created_by (retry_row s parent u) = u_id u"
  by (simp_all add: retry_row_def)

lemma retry_run_effect:
  assumes inv: "lifecycle_inv s" "fk_inv s" and cid: "1 \<le> length cid" "length cid \<le> 128"
    and par: "get_run s rid = Some parent" "u_role u = ADMINISTRATOR \<or> r_created_by parent = u_id u" "r_status parent = FAILED"
      "get_template s (r_template_id parent) = Some t"
      "validate_parameters px t (fold (\<lambda>(n, v) acc. AList.update n v acc) (stored_parameters s rid @ overrides) []) = Inr (p, ps)"
    and ins: "insert_run (s\<lparr>next_uuid := Suc (next_uuid s)\<rparr>) (retry_row s parent u) = Inr s2"
  shows "\<exists>c s' m q. retry_run px cfg cid rid overrides u s = Inr (c, s') \<and>
    lifecycle_inv s' \<and> fk_inv s' \<and> same_catalog s s' \<and> next_uuid s < next_uuid s' \<and> get_run s (r_id c) = None \<and>
    c = (retry_row s parent u)\<lparr>r_status := QUEUED, r_queued_at := Some q, r_version := 2\<rparr> \<and>
    runs s' = runs s @ [c] \<and> stored_parameters s' (r_id c) = ps \<and>
    map (\<lambda>e. (e_previous_status e, e_new_status e)) (trail (run_events s') (r_id c)) = [(Some DRAFT, Some QUEUED)] \<and>
    outbox_messages s' = outbox_messages s @ [m] \<and> ev_event_type (o_envelope m) = ''run.submitted'' \<and>
    ev_run_id (o_envelope m) = Some (r_id c) \<and>
    map_of (ev_payload (o_envelope m)) ''retry_of'' = Some (JStr (uuid_str rid)) \<and> leases s' = leases s"
proof -
  have "parent \<in> set (runs s)" using get_run_SomeD[OF par(1)] by simp
  then have pos: "0 < r_requested_cpu parent" "0 < r_requested_memory_mb parent"
    using inv(1) by (auto simp: lifecycle_inv_def request_inv_def)
  let ?pay = "\<lambda>child. [(''template_key'', JStr (t_key t)), (''template_version'', JStr (t_version t)),
         (''retry_of'', JStr (uuid_str rid)), (''attempt_number'', JInt (r_attempt_number child))]"
  have v: "r_version (retry_row s parent u) = 1" by (simp add: retry_row_def)
  have row: "r_id (retry_row s parent u) = next_uuid s" "r_status (retry_row s parent u) = DRAFT"
    "0 < r_requested_cpu (retry_row s parent u)" "0 < r_requested_memory_mb (retry_row s parent u)"
    "r_queued_at (retry_row s parent u) = None"
    using pos by simp_all
  from enqueue_effect[OF inv row ins cid, of cfg ps "[(''retry_of'', JStr (uuid_str rid))]" ?pay, folded retry_run_enqueue[OF par]]
  obtain c s' m q where "retry_run px cfg cid rid overrides u s = Inr (c, s')" "lifecycle_inv s'" "fk_inv s'" "same_catalog s s'"
    "next_uuid s < next_uuid s'" "get_run s (next_uuid s) = None" "runs s' = runs s @ [c]" "leases s' = leases s"
    and c: "c = (retry_row s parent u)\<lparr>r_status := QUEUED, r_queued_at := Some q, r_version := r_version (retry_row s parent u) + 1\<rparr>"
    and rest: "stored_parameters s' (next_uuid s) = ps"
      "map (\<lambda>e. (e_previous_status e, e_new_status e)) (trail (run_events s') (next_uuid s)) = [(Some DRAFT, Some QUEUED)]"
      "outbox_messages s' = outbox_messages s @ [m]" "ev_event_type (o_envelope m) = ''run.submitted''"
      "ev_run_id (o_envelope m) = Some (next_uuid s)" "ev_payload (o_envelope m) = ?pay c"
    unfolding retry_row_simps by (elim exE conjE) (rule that)
  moreover have "r_id c = next_uuid s" using c by simp
  ultimately show ?thesis
    using v by (intro exI[of _ c] exI[of _ s'] exI[of _ m] exI[of _ q]) simp
qed

lemma retry_run_inv [inv_intros]:
  assumes ok: "retry_run px cfg cid rid overrides u s = Inr (c, s')" and inv: "lifecycle_inv s" "fk_inv s"
    and cid: "1 \<le> length cid" "length cid \<le> 128"
  shows "lifecycle_inv s'" "fk_inv s'" "same_catalog s s'" "next_uuid s \<le> next_uuid s'" "runs s' = runs s @ [c]"
    "r_experiment_id c \<in> x_id ` set (experiments s)"
proof -
  obtain parent t p ps where par: "get_run s rid = Some parent" "u_role u = ADMINISTRATOR \<or> r_created_by parent = u_id u"
    "r_status parent = FAILED" "get_template s (r_template_id parent) = Some t"
    "validate_parameters px t (fold (\<lambda>(n, v) acc. AList.update n v acc) (stored_parameters s rid @ overrides) []) = Inr (p, ps)"
    by (rule retry_run_Inr[OF ok])
  obtain s2 where ins: "insert_run (s\<lparr>next_uuid := Suc (next_uuid s)\<rparr>) (retry_row s parent u) = Inr s2"
    using retry_insert[OF ok[unfolded retry_run_enqueue[OF par]]] by blast
  have x: "r_experiment_id parent \<in> x_id ` set (experiments s)" using insert_run_refs[OF ins] by simp
  obtain c' s'' q where e: "retry_run px cfg cid rid overrides u s = Inr (c', s'')"
    and r: "lifecycle_inv s''" "fk_inv s''" "same_catalog s s''" "next_uuid s < next_uuid s''" "runs s'' = runs s @ [c']"
      "c' = (retry_row s parent u)\<lparr>r_status := QUEUED, r_queued_at := Some q, r_version := 2\<rparr>"
    using retry_run_effect[OF inv cid par ins, of cfg] by (elim exE conjE) (rule that)
  have "c' = c" "s'' = s'" using e ok by auto
  with r show "lifecycle_inv s'" "fk_inv s'" "same_catalog s s'" "next_uuid s \<le> next_uuid s'" "runs s' = runs s @ [c]"
    "r_experiment_id c \<in> x_id ` set (experiments s)"
    using x by simp_all
qed

text \<open>An edit of columns that the lifecycle does not mention, with an event that is no transition.\<close>

lemma lifecycle_inv_edit:
  assumes inv: "lifecycle_inv s" and get: "get_run s rid = Some r"
    and r': "r_id r' = rid" "r_status r' = r_status r" "r_requested_cpu r' = r_requested_cpu r"
      "r_requested_memory_mb r' = r_requested_memory_mb r" "r_assigned_worker_id r' = r_assigned_worker_id r"
    and s': "runs s' = upd_row r_id rid (\<lambda>_. r') (runs s)" "run_events s' = run_events s @ [e]" "e_new_status e = None"
      "workers s' = workers s" "resource_allocations s' = resource_allocations s" "next_uuid s \<le> next_uuid s'"
  shows "lifecycle_inv s'"
proof -
  have r: "r \<in> set (runs s)" "r_id r = rid" using get_run_SomeD[OF get] by auto
  have ids: "map r_id (runs s') = map r_id (runs s)" using r'(1) by (simp add: s' map_upd_row)
  from arg_cong[OF ids, of set] have idset: "r_id ` set (runs s') = r_id ` set (runs s)" by simp
  have ls: "leases s' = leases s" by (simp add: leases_def s')
  have ball: "(\<forall>q\<in>set (runs s'). P q) \<longleftrightarrow> (\<forall>q\<in>set (runs s). if r_id q = rid then P r' else P q)" for P
    unfolding s'(1) by (rule ball_upd_row)
  have ids_ok: "ids_inv s'"
    using inv ids r r' s'(4-6) by (auto simp: lifecycle_inv_def book_inv_def ids_inv_def ball intro: less_le_trans)
  then have "book_inv s'"
    using inv s'(4,5) by (simp add: lifecycle_inv_def book_inv_def capacity_inv_def)
  moreover have "case leases s rid of None \<Rightarrow> \<not> busy (r_status r')
      | Some (wid, c, m) \<Rightarrow> busy (r_status r') \<and> r_assigned_worker_id r' = Some wid"
    using inv status_invD[of s r] r r' by (auto simp: lifecycle_inv_def split: option.splits)
  then have "status_inv s'"
    using inv r' unfolding status_inv_def ball idset ls s'(5) lifecycle_inv_def by simp
  moreover have "audit_inv s'"
    using inv r r' s'(3) unfolding audit_inv_def ball s'(2) lifecycle_inv_def by auto
  moreover have "request_inv s'"
    using inv r r' unfolding request_inv_def ball lifecycle_inv_def by auto
  ultimately show ?thesis by (simp add: lifecycle_inv_def)
qed

lemma flush_run_version:
  assumes "flush_run s r = Inr (r', s')"
  shows "\<exists>v. r' = r\<lparr>r_version := v\<rparr>"
proof -
  have "r' = r \<or> r' = r\<lparr>r_version := r_version r + 1\<rparr>"
    using assms by (auto simp: flush_run_def Let_def split: option.splits if_splits)
  then show ?thesis by (auto intro: exI[of _ "r_version r"])
qed

lemma update_run_metadata_Inr:
  assumes "update_run_metadata rid body u s = Inr (r', s')" "distinct (map r_id (runs s))"
  obtains r where "get_run s rid = Some r" "u_role u = ADMINISTRATOR \<or> r_created_by r = u_id u"
    "\<exists>v. r' = r\<lparr>r_notes := mu_notes body, r_tags := fromkeys (stripped_tags (mu_tags body)), r_version := v\<rparr>"
    "list_all (\<lambda>t. length t \<le> 40) (r_tags r')"
    "s' = (add_event s rid ''run.metadata.updated'' None None [(''updated_by'', JStr (uuid_str (u_id u)))])
       \<lparr>runs := upd_row r_id rid (\<lambda>_. r') (runs s)\<rparr>"
proof -
  obtain r where r: "get_run s rid = Some r" "u_role u = ADMINISTRATOR \<or> r_created_by r = u_id u"
    and len: "\<not> list_ex (\<lambda>t. 40 < length t) (stripped_tags (mu_tags body))"
    and fl: "flush_run (add_event s (r_id r) ''run.metadata.updated'' None None [(''updated_by'', JStr (uuid_str (u_id u)))])
      (r\<lparr>r_notes := mu_notes body, r_tags := fromkeys (stripped_tags (mu_tags body))\<rparr>) = Inr (r', s')"
    using assms(1) by (auto simp: update_run_metadata_def res_bind_Inr_iff Let_def split: if_splits)
  have i: "r_id r = rid" using get_run_SomeD[OF r(1)] by simp
  have row: "\<exists>v. r' = r\<lparr>r_notes := mu_notes body, r_tags := fromkeys (stripped_tags (mu_tags body)), r_version := v\<rparr>"
    using flush_run_version[OF fl] by auto
  have "runs s' = upd_row r_id rid (\<lambda>_. r') (runs s)"
    using flush_run_rows[OF fl] assms(2) i by (simp add: frame_simps)
  then have "s' = (add_event s rid ''run.metadata.updated'' None None [(''updated_by'', JStr (uuid_str (u_id u)))])
       \<lparr>runs := upd_row r_id rid (\<lambda>_. r') (runs s)\<rparr>"
    using flush_run_frame[OF fl] i by simp
  moreover have "list_all (\<lambda>t. length t \<le> 40) (r_tags r')"
    using row len by (auto simp: list_all_iff list_ex_iff not_less)
  ultimately show thesis using r row by (intro that[of r])
qed

lemma update_run_metadata_inv [inv_intros]:
  assumes "update_run_metadata rid body u s = Inr (r', s')" "lifecycle_inv s" "fk_inv s"
  shows "lifecycle_inv s'" "fk_inv s'" "same_catalog s s'" "next_uuid s \<le> next_uuid s'"
    "runs s' = upd_row r_id rid (\<lambda>_. r') (runs s)" "\<exists>r. get_run s rid = Some r \<and> r_experiment_id r' = r_experiment_id r"
proof -
  have dst: "distinct (map r_id (runs s))" using assms(2) by (simp add: lifecycle_inv_def book_inv_def ids_inv_def)
  obtain r where r: "get_run s rid = Some r"
      "\<exists>v. r' = r\<lparr>r_notes := mu_notes body, r_tags := fromkeys (stripped_tags (mu_tags body)), r_version := v\<rparr>"
    and s': "s' = (add_event s rid ''run.metadata.updated'' None None [(''updated_by'', JStr (uuid_str (u_id u)))])
       \<lparr>runs := upd_row r_id rid (\<lambda>_. r') (runs s)\<rparr>"
    by (rule update_run_metadata_Inr[OF assms(1) dst])
  have i: "r_id r = rid" "r \<in> set (runs s)" using get_run_SomeD[OF r(1)] by simp_all
  have f: "r_id r' = rid" "r_status r' = r_status r" "r_requested_cpu r' = r_requested_cpu r"
    "r_requested_memory_mb r' = r_requested_memory_mb r" "r_assigned_worker_id r' = r_assigned_worker_id r"
    "r_experiment_id r' = r_experiment_id r"
    using r(2) i by auto
  have evs: "run_events s' = run_events s @ [\<lparr>e_id = next_uuid s, e_run_id = rid, e_event_type = ''run.metadata.updated'',
      e_previous_status = None, e_new_status = None, e_event_metadata = [(''updated_by'', JStr (uuid_str (u_id u)))],
      e_created_at = tx_now s\<rparr>]"
    by (simp add: s' db_simps)
  show rs: "runs s' = upd_row r_id rid (\<lambda>_. r') (runs s)" by (simp add: s')
  show "lifecycle_inv s'"
    by (rule lifecycle_inv_edit[OF assms(2) r(1) f(1-5) rs evs]) (simp_all add: s' frame_simps)
  have "map r_id (runs s') = map r_id (runs s)" using f(1) by (simp add: rs map_upd_row)
  from arg_cong[OF this, of set] have "r_id ` set (runs s') = r_id ` set (runs s)" by simp
  then show "fk_inv s'"
    using i by (intro fk_inv_frame[OF assms(3)]) (auto simp: evs, simp add: s' frame_simps)
  show "same_catalog s s'" by (simp add: s' same_catalog_def add_event_def uuid4_def Let_def)
  show "next_uuid s \<le> next_uuid s'" by (simp add: s' frame_simps)
  show "\<exists>r. get_run s rid = Some r \<and> r_experiment_id r' = r_experiment_id r" using r(1) f(6) by blast
qed

end
