(* ===== verification/Run_Commands.thy ===== *)
theory Run_Commands
  imports Api_Runs Storage
begin

text \<open>
  Properties of the run endpoints: a cancellation reaches the worker at its next checkpoint, a retry
  leaves its parent alone, comparisons pick the best run, pages partition a listing, and an artifact
  that was stored can be downloaded.
\<close>

lemma get_run_upd_row:
  assumes "runs s' = upd_row r_id rid (\<lambda>_. r') (runs s)" "get_run s rid = Some r" "r_id r' = rid"
  shows "get_run s' rid = Some r'"
  using assms by (simp add: get_run_def get_row_upd_row_same)

text \<open>
  C25. A cancellation takes effect at the next checkpoint. When the API accepts the cancellation of a
  run while its worker sleeps before step \<open>k\<close> of the slow demonstration, the worker's loop ends in that
  step: the run is \<open>CANCELLED\<close>, its lease and nobody else's is released, the acknowledgement is logged
  with the next sequence number, no progress is recorded any more, and the observers are told.
\<close>

theorem cancellation_takes_effect:
  assumes inv: "lifecycle_inv (ex_db x)" "fk_inv (ex_db x)"
    and cancel: "cancel_run cfg cid (r_id r) u (ex_db x) = Inr (rc, s1)"
    and env: "rt_env rt (Sleep k) (ex_db x) = s1"
    and fresh: "int k + 1 \<notin> set (logs_of (ex_db x) (r_id r))"
  shows "\<exists>r2 x'. slow_loop rt n (k # steps) r x = (Inr (Inl r2), x') \<and> r_status r2 = CANCELLED \<and>
    finished (ex_db x') (r_id r) r2 \<and> lifecycle_inv (ex_db x') \<and>
    leases (ex_db x') = (leases (ex_db x))(r_id r := None) \<and>
    logs_of (ex_db x') (r_id r) = logs_of (ex_db x) (r_id r) @ [int k + 1] \<and>
    run_metrics (ex_db x') = run_metrics (ex_db x) \<and> ex_store x' = ex_store x \<and>
    (rt_live rt \<longrightarrow> ex_live x' = ex_live x @
       [log_event (int k + 1) ''INFO'' ''Cancellation acknowledged at a safe checkpoint'', status_event CANCELLED])"
proof -
  let ?s = "ex_db x" and ?m = "''Cancellation acknowledged at a safe checkpoint''"
  obtain d s0 where d: "get_run ?s (r_id r) = Some d" "r_status d = RUNNING" "rc = moved ?s d CANCELLING id" "r_id d = r_id r"
    and s0: "s0 = after_move ?s d CANCELLING ''run.cancel.requested'' [] id"
    and ev: "add_outbox_event cfg cid rc ''run.cancel.requested'' [(''requested_by'', JStr (uuid_str (u_id u)))] s0 = Inr s1"
    by (rule cancel_run_Inr[OF cancel])
  have kc: "keeps_core id" by (simp add: keeps_core_def)
  have rc: "r_id rc = r_id r" "r_status rc = CANCELLING" using d kc by simp_all
  note ci = cancel_run_inv[OF cancel inv]
  have g1: "get_run s1 (r_id r) = Some rc" by (rule get_run_upd_row[OF ci(5) d(1) rc(1)])
  note fr = add_outbox_event_frame(1)[OF ev]
  have ls1: "leases s1 = leases ?s" using same_core_leases[OF fr] by (simp add: s0 frame_simps)
  have rows1: "run_logs s1 = run_logs ?s" "run_metrics s1 = run_metrics ?s"
    using ev by (auto simp: s0 add_outbox_event_def uuid4_def now_utc_def res_bind_Inr_iff add_outbox_def Let_def frame_simps)
  then have fresh1: "int k + 1 \<notin> set (logs_of s1 (r_id rc))" using fresh rc by (simp add: logs_of_def)
  obtain s2 where s2: "insert_log s1 (r_id rc) (int k + 1) ''INFO'' ?m = Inr s2"
      "logs_of s2 (r_id rc) = logs_of s1 (r_id rc) @ [int k + 1]" "run_metrics s2 = run_metrics s1" "same_core s1 s2"
    using insert_log_fresh[OF fresh1] by metis
  have g2: "get_run s2 (r_id rc) = Some rc" using g1 rc same_core_get_run[OF s2(4)] by simp
  have inv2: "lifecycle_inv s2" by (rule same_core_inv[OF s2(4) ci(1)])
  have ct: "CANCELLED \<in> set (VALID_TRANSITIONS (r_status rc))" "\<not> busy CANCELLED" using rc by (simp_all add: busy_def)
  note fin = finish_run_ok[OF inv2 g2 refl refl refl refl ct, of "''run.cancelled''" "[]"]
  let ?r2 = "moved s2 rc CANCELLED id" and ?s3 = "release (after_move s2 rc CANCELLED ''run.cancelled'' [] id) (r_id rc)"
  let ?x' = "emit rt [log_event (int k + 1) ''INFO'' ?m, status_event CANCELLED] (x\<lparr>ex_db := ?s3\<rparr>)"
  have step: "slow_step rt n k r x = (Inr (Inl ?r2), ?x')"
    using g1 rc s2(1) fin(1) by (simp add: slow_step_def env Let_def)
  have db: "ex_db ?x' = ?s3" "ex_store ?x' = ex_store x" by (simp_all add: emit_def)
  have rows3: "run_logs ?s3 = run_logs s2" "run_metrics ?s3 = run_metrics s2" using finish_run_rows[OF fin(1)] by simp_all
  have ls2: "leases s2 = leases ?s" using same_core_leases[OF s2(4)] ls1 by simp
  have "finished ?s3 (r_id r) ?r2" using fin(3,4) rc kc by (simp add: finished_def)
  moreover have "logs_of ?s3 (r_id r) = logs_of ?s (r_id r) @ [int k + 1]"
    using s2(2) rows1 rows3 rc by (simp add: logs_of_def)
  ultimately show ?thesis
    using step db fin(2,4) ls2 rows1 rows3 s2(3) rc kc
    by (intro exI[of _ ?r2] exI[of _ ?x']) (auto simp: emit_def)
qed

lemma cancel_run_ok:
  assumes "get_run s rid = Some r" "u_role u = ADMINISTRATOR \<or> r_created_by r = u_id u" "r_status r = RUNNING"
    and "1 \<le> length cid" "length cid \<le> 128"
  shows "\<exists>r' s'. cancel_run cfg cid rid u s = Inr (r', s')"
proof -
  have i: "r_id r = rid" using get_run_SomeD[OF assms(1)] by simp
  have tf: "transition_and_flush s r CANCELLING ''run.cancel.requested'' [] id =
      Inr (moved s r CANCELLING id, after_move s r CANCELLING ''run.cancel.requested'' [] id)"
    using assms i by (intro transition_and_flush_ok[of _ _ r]) (auto simp: keeps_core_def)
  have ctl: "get_run_or_404 s rid = Inr r" "ensure_run_control u r = Inr ()" using assms by simp_all
  obtain s' where "add_outbox_event cfg cid (moved s r CANCELLING id) ''run.cancel.requested''
      [(''requested_by'', JStr (uuid_str (u_id u)))] (after_move s r CANCELLING ''run.cancel.requested'' [] id) = Inr s'"
    using add_outbox_event_ok[OF _ _ assms(4,5), of "''run.cancel.requested''" cfg "moved s r CANCELLING id"
        "[(''requested_by'', JStr (uuid_str (u_id u)))]" "after_move s r CANCELLING ''run.cancel.requested'' [] id"] by auto
  then show ?thesis
    unfolding cancel_run_def ctl tf res_bind_simps using assms(3) by (simp add: tf)
qed

definition cancelling_rt :: "(string \<rightharpoonup> bytes) runtime" where
  "cancelling_rt = demo_rt\<lparr>rt_env := (\<lambda>_ s. case cancel_run default_settings ''c'' 11 demo_user s of
     Inr (_, s') \<Rightarrow> s' | Inl _ \<Rightarrow> s)\<rparr>"

theorem cancellation_takes_effect_witness:
  "\<exists>r2 x'. slow_loop cancelling_rt 8 [3, 4, 5] (demo_run 11 RUNNING (Some 5)) (demo_exec demo_db) = (Inr (Inl r2), x') \<and>
     r_status r2 = CANCELLED \<and> leases (ex_db x') 11 = None"
proof -
  have d: "ex_db (demo_exec demo_db) = demo_db" by (simp add: demo_exec_def)
  have g: "get_run demo_db 11 = Some (demo_run 11 RUNNING (Some 5))" by (simp add: get_run_def demo_defs)
  have i: "r_id (demo_run 11 RUNNING (Some 5)) = 11" by (simp add: demo_run_def)
  obtain rc s1 where c: "cancel_run default_settings ''c'' 11 demo_user demo_db = Inr (rc, s1)"
    using cancel_run_ok[OF g, of demo_user "''c''" default_settings] by (auto simp: demo_user_def demo_run_def)
  have e: "rt_env cancelling_rt (Sleep 3) demo_db = s1" by (simp add: cancelling_rt_def c)
  have l: "logs_of demo_db 11 = []" by (simp add: logs_of_def demo_db_def)
  show ?thesis
    using cancellation_takes_effect[of "demo_exec demo_db" default_settings "''c''" "demo_run 11 RUNNING (Some 5)" demo_user rc s1
        cancelling_rt 3 8 "[4, 5]"]
    unfolding d i using demo_lifecycle_inv demo_fk_inv c e l by auto
qed

text \<open>
  C26. A retry is a new attempt, never a change of the old one. On a consistent database, a failed run
  whose parameters, overridden by the request, validate, and that the user may control, is retried by
  appending exactly one queued run: the next attempt, pointing to its parent, with the parent's
  experiment, template, priority and resources and with exactly the validated parameters; the parent's
  row stays as it is, no lease is touched, and the submission is announced once, naming the parent.
\<close>

theorem retry_spawns_child:
  assumes inv: "lifecycle_inv s" "fk_inv s" "catalog_inv s" and cid: "1 \<le> length cid" "length cid \<le> 128"
    and u: "u_id u \<in> u_id ` set (users s)"
    and par: "get_run s rid = Some parent" "u_role u = ADMINISTRATOR \<or> r_created_by parent = u_id u" "r_status parent = FAILED"
      "get_template s (r_template_id parent) = Some t"
    and val: "validate_parameters px t (fold (\<lambda>(n, v) acc. AList.update n v acc) (stored_parameters s rid @ overrides) []) = Inr (p, ps)"
  shows "\<exists>c s' m. retry_run px cfg cid rid overrides u s = Inr (c, s') \<and> lifecycle_inv s' \<and>
    runs s' = runs s @ [c] \<and> get_run s (r_id c) = None \<and> get_run s' rid = Some parent \<and>
    r_status c = QUEUED \<and> r_attempt_number c = r_attempt_number parent + 1 \<and> r_parent_run_id c = Some rid \<and>
    r_created_by c = u_id u \<and> r_experiment_id c = r_experiment_id parent \<and> r_template_id c = r_template_id parent \<and>
    r_priority c = r_priority parent \<and> r_requested_cpu c = r_requested_cpu parent \<and>
    r_requested_memory_mb c = r_requested_memory_mb parent \<and> r_tags c = r_tags parent \<and>
    stored_parameters s' (r_id c) = dump_parameters p \<and> leases s' = leases s \<and>
    outbox_messages s' = outbox_messages s @ [m] \<and> ev_event_type (o_envelope m) = ''run.submitted'' \<and>
    ev_run_id (o_envelope m) = Some (r_id c) \<and>
    map_of (ev_payload (o_envelope m)) ''retry_of'' = Some (JStr (uuid_str rid))"
proof -
  have pm: "parent \<in> set (runs s)" "r_id parent = rid" using get_run_SomeD[OF par(1)] by auto
  have t: "r_template_id parent \<in> t_id ` set (training_templates s)"
    using par(4) get_row_SomeD[of t_id "r_template_id parent"] by (force simp: get_template_def)
  have x: "r_experiment_id parent \<in> x_id ` set (experiments s)" using inv(3) pm by (simp add: catalog_inv_def)
  let ?s1 = "s\<lparr>next_uuid := Suc (next_uuid s)\<rparr>" and ?c = "retry_row s parent u"
  have ins: "insert_run ?s1 ?c = Inr (runs_update (\<lambda>rs. rs @ [?c]) ?s1)"
    using u t x pm by (auto simp: insert_run_def retry_row_def)
  have ps: "ps = dump_parameters p" using val by (auto simp: validate_parameters_Inr)
  obtain c s' m q where e: "retry_run px cfg cid rid overrides u s = Inr (c, s')" "lifecycle_inv s'" "get_run s (r_id c) = None"
    "runs s' = runs s @ [c]" "stored_parameters s' (r_id c) = ps" "outbox_messages s' = outbox_messages s @ [m]"
    "ev_event_type (o_envelope m) = ''run.submitted''" "ev_run_id (o_envelope m) = Some (r_id c)"
    "map_of (ev_payload (o_envelope m)) ''retry_of'' = Some (JStr (uuid_str rid))" "leases s' = leases s"
    and c: "c = ?c\<lparr>r_status := QUEUED, r_queued_at := Some q, r_version := 2\<rparr>"
    using retry_run_effect[OF inv(1,2) cid par val ins, of cfg] by (elim exE conjE) (rule that)
  have f: "r_status c = QUEUED" "r_attempt_number c = r_attempt_number parent + 1" "r_parent_run_id c = Some rid"
    "r_created_by c = u_id u" "r_experiment_id c = r_experiment_id parent" "r_template_id c = r_template_id parent"
    "r_priority c = r_priority parent" "r_requested_cpu c = r_requested_cpu parent"
    "r_requested_memory_mb c = r_requested_memory_mb parent" "r_tags c = r_tags parent"
    using pm(2) by (simp_all add: c retry_row_def)
  have g: "get_run s' rid = Some parent" using par(1) by (simp add: get_run_def e(4) get_row_append)
  show ?thesis by (intro exI[of _ c] exI[of _ s'] exI[of _ m]) (simp add: e f g ps)
qed

lemma demo_catalog_inv: "catalog_inv demo_db"
  by (simp add: catalog_inv_def name_key_def demo_defs)

theorem retry_spawns_child_witness:
  "\<exists>c s'. retry_run strict_pydantic default_settings ''c'' 12 [(''duration_seconds'', JInt 4)] demo_user demo_db = Inr (c, s') \<and>
     r_attempt_number c = 2 \<and> r_parent_run_id c = Some 12 \<and> get_run s' 12 = Some (demo_run 12 FAILED (Some 5))"
proof -
  let ?p = "SlowParameters \<lparr>duration_seconds = 4, interval_seconds = 1, fail_intentionally = False\<rparr>"
  have g: "get_run demo_db 12 = Some (demo_run 12 FAILED (Some 5))" "stored_parameters demo_db 12 = []"
    by (simp_all add: get_run_def stored_parameters_def demo_defs)
  have f: "u_role demo_user = ADMINISTRATOR \<or> r_created_by (demo_run 12 FAILED (Some 5)) = u_id demo_user"
    "r_status (demo_run 12 FAILED (Some 5)) = FAILED" "u_id demo_user \<in> u_id ` set (users demo_db)"
    "get_template demo_db (r_template_id (demo_run 12 FAILED (Some 5))) = Some demo_template"
    "r_attempt_number (demo_run 12 FAILED (Some 5)) = 1" "1 \<le> length ''c''" "length ''c'' \<le> 128"
    by (simp_all add: get_template_def demo_defs)
  have v: "validate_parameters strict_pydantic demo_template
      (fold (\<lambda>(n, v) acc. AList.update n v acc) (stored_parameters demo_db 12 @ [(''duration_seconds'', JInt 4)]) []) =
      Inr (?p, dump_parameters ?p)"
    by (simp add: g validate_parameters_def demo_template_def registry_get_def registry_def validate_slow_def
        field_def strict_pydantic_def slow_ok_def)
  obtain c s' where "retry_run strict_pydantic default_settings ''c'' 12 [(''duration_seconds'', JInt 4)] demo_user demo_db = Inr (c, s')"
    "r_attempt_number c = r_attempt_number (demo_run 12 FAILED (Some 5)) + 1" "r_parent_run_id c = Some 12"
    "get_run s' 12 = Some (demo_run 12 FAILED (Some 5))"
    using retry_spawns_child[OF demo_lifecycle_inv demo_fk_inv demo_catalog_inv f(6,7,3) g(1) f(1,2,4) v, of default_settings]
    by (elim exE conjE) (rule that)
  then show ?thesis using f(5) by auto
qed

section \<open>Comparing runs\<close>

lemma first_max:
  "first_max k b xs \<in> insert b (set xs) \<and> (\<forall>y\<in>insert b (set xs). k y \<le> k (first_max k b xs))"
proof (induction xs arbitrary: b)
  case (Cons x xs)
  show ?case
  proof (cases "k b < k x")
    case True
    have "k b \<le> k (first_max k x xs)" using Cons.IH[of x] by (intro order_trans[OF less_imp_le[OF True]]) simp
    then show ?thesis using True Cons.IH[of x] by auto
  next
    case False
    then show ?thesis using Cons.IH[of b] order_trans[of "k x" "k b"] by auto
  qed
qed simp

lemma index_of_nth: "distinct xs \<Longrightarrow> i < length xs \<Longrightarrow> index_of (xs ! i) xs = i"
  by (induction xs arbitrary: i) (auto simp: nth_Cons split: nat.splits)

lemma index_of_map: "distinct xs \<Longrightarrow> map (\<lambda>x. index_of x xs) xs = [0..<length xs]"
  by (rule nth_equalityI) (auto simp: index_of_nth)

lemma sort_by_index:
  assumes "distinct ids" "distinct (map f ys)" "f ` set ys = set ids"
  shows "map f (sort_key (\<lambda>y. index_of (f y) ids) ys) = ids"
proof -
  let ?ix = "\<lambda>x. index_of x ids" and ?zs = "map f (sort_key (\<lambda>y. index_of (f y) ids) ys)"
  have zs: "set ?zs = set ids" "distinct ?zs" using assms by (simp_all add: distinct_map del: map_map)
  have inj: "inj_on ?ix (set ids)"
    using index_of_map[OF assms(1)] by (metis distinct_map distinct_upt)
  have "sorted (map ?ix ?zs)" by (simp add: comp_def)
  moreover have "distinct (map ?ix ?zs)" using zs inj unfolding distinct_map[of ?ix] by simp
  moreover have "set (map ?ix ?zs) = set [0..<length ids]"
    unfolding set_map[of ?ix] zs(1) using arg_cong[OF index_of_map[OF assms(1)], of set] by simp
  ultimately have "map ?ix ?zs = map ?ix ids"
    using sorted_distinct_set_unique[of "map ?ix ?zs" "[0..<length ids]"] index_of_map[OF assms(1)] by simp
  then show ?thesis using inj zs(1) by (intro map_inj_on[of ?ix]) auto
qed

lemma found_all:
  assumes "distinct (map r_id (runs s))" "distinct ids" "length (filter (\<lambda>r. r_id r \<in> set ids) (runs s)) = length ids"
  shows "r_id ` set (filter (\<lambda>r. r_id r \<in> set ids) (runs s)) = set ids"
proof (rule card_subset_eq)
  let ?f = "filter (\<lambda>r. r_id r \<in> set ids) (runs s)"
  have "distinct (map r_id ?f)" using assms(1) by (rule distinct_map_filter)
  then have "card (set (map r_id ?f)) = length ?f" by (metis distinct_card length_map)
  then show "card (r_id ` set ?f) = card (set ids)" using assms(2,3) by (simp add: distinct_card)
qed auto

text \<open>The recorded value of a metric is the one of its last step.\<close>

lemma map_of_fold_update:
  "map_of (fold (\<lambda>m acc. AList.update (f m) (g m) acc) ms acc) n =
     (if filter (\<lambda>m. f m = n) ms = [] then map_of acc n else Some (g (last (filter (\<lambda>m. f m = n) ms))))"
  by (induction ms rule: rev_induct) (auto simp: update_conv')

lemma run_metric_values_Some:
  "map_of (run_metric_values s rid) n = Some v \<longleftrightarrow>
     (\<exists>ks k. filter (\<lambda>m. m_name m = n) (sort_key m_step (filter (\<lambda>m. m_run_id m = rid) (run_metrics s))) = ks @ [k] \<and> v = m_value k)"
proof -
  let ?l = "filter (\<lambda>m. m_name m = n) (sort_key m_step (filter (\<lambda>m. m_run_id m = rid) (run_metrics s)))"
  have "map_of (run_metric_values s rid) n = (if ?l = [] then None else Some (m_value (last ?l)))"
    by (simp add: run_metric_values_def map_of_fold_update)
  then show ?thesis by (cases ?l rule: rev_cases) auto
qed

lemma run_metric_last:
  assumes "map_of (run_metric_values s rid) n = Some v"
  shows "\<exists>m\<in>set (run_metrics s). m_run_id m = rid \<and> m_name m = n \<and> m_value m = v \<and>
    (\<forall>m'\<in>set (run_metrics s). m_run_id m' = rid \<and> m_name m' = n \<longrightarrow> m_step m' \<le> m_step m)"
proof -
  let ?l = "filter (\<lambda>m. m_name m = n) (sort_key m_step (filter (\<lambda>m. m_run_id m = rid) (run_metrics s)))"
  obtain ks k where l: "?l = ks @ [k]" "v = m_value k" using assms by (auto simp: run_metric_values_Some)
  have "sorted (map m_step ?l)" by (intro sorted_filter) simp
  then have "\<forall>m\<in>set ?l. m_step m \<le> m_step k" unfolding l(1) by (auto simp: sorted_append)
  moreover have "k \<in> set ?l" unfolding l(1) by simp
  ultimately show ?thesis using l(2) by (intro bexI[of _ k]) auto
qed

text \<open>The run named for a metric is one of those that have it, with the greatest value.\<close>

lemma best_of_max:
  assumes i: "i \<in> set items" and v: "map_of (ci_metrics i) n = Some v"
  shows "\<exists>b\<in>set items. map_of (map (\<lambda>n. (n, best_of items n)) (fromkeys (concat (map (\<lambda>i. map fst (ci_metrics i)) items)))) n =
      Some (r_id (ci_run b)) \<and> (\<exists>w. map_of (ci_metrics b) n = Some w \<and> v \<le> w)"
proof -
  let ?l = "filter (\<lambda>i. map_of (ci_metrics i) n \<noteq> None) items"
  have il: "i \<in> set ?l" using i v by simp
  then obtain j js where l: "?l = j # js" by (metis list.exhaust list.set(1) empty_iff)
  let ?b = "first_max (metric_value n) j js"
  have b: "?b \<in> set ?l" "metric_value n i \<le> metric_value n ?b"
    using first_max[of "metric_value n" j js] il unfolding l by auto
  obtain w where w: "map_of (ci_metrics ?b) n = Some w" using b(1) by auto
  have "n \<in> set (concat (map (\<lambda>i. map fst (ci_metrics i)) items))"
    using i map_of_SomeD[OF v] by (force simp: comp_def)
  then have "map_of (map (\<lambda>n. (n, best_of items n)) (fromkeys (concat (map (\<lambda>i. map fst (ci_metrics i)) items)))) n =
      Some (best_of items n)"
    by (simp add: map_of_map_restrict restrict_map_def flip: set_map)
  moreover have "best_of items n = r_id (ci_run ?b)" unfolding best_of_def l by simp
  moreover have "v \<le> w" using b(2) v w by (simp add: metric_value_def)
  ultimately show ?thesis using b(1) w by (intro bexI[of _ ?b]) auto
qed

text \<open>
  C28. A comparison is answered in the order of the request and names a best run for every metric: the
  items are exactly the requested runs, all successful; the value of a metric is the one recorded at
  its last step; for every metric of any item the response names one of the compared runs that has
  the metric and whose value no other exceeds.
\<close>

theorem compare_runs_best:
  assumes "distinct (map r_id (runs s))" "compare_runs ids s = Inr resp"
  shows "map (\<lambda>i. r_id (ci_run i)) (cmp_items resp) = ids \<and>
    (\<forall>i\<in>set (cmp_items resp). ci_run i \<in> set (runs s) \<and> r_status (ci_run i) = SUCCEEDED \<and>
       (\<forall>n v. map_of (ci_metrics i) n = Some v \<longrightarrow>
          (\<exists>m\<in>set (run_metrics s). m_run_id m = r_id (ci_run i) \<and> m_name m = n \<and> m_value m = v \<and>
             (\<forall>m'\<in>set (run_metrics s). m_run_id m' = r_id (ci_run i) \<and> m_name m' = n \<longrightarrow> m_step m' \<le> m_step m)) \<and>
          (\<exists>b\<in>set (cmp_items resp). map_of (cmp_best_by_metric resp) n = Some (r_id (ci_run b)) \<and>
             (\<exists>w. map_of (ci_metrics b) n = Some w \<and> v \<le> w))))"
proof -
  let ?f = "filter (\<lambda>r. r_id r \<in> set ids) (runs s)"
  let ?rs = "sort_key (\<lambda>r. index_of (r_id r) ids) ?f"
  let ?items = "map (comparison_of s) ?rs"
  have ids: "distinct ids" and len: "length ?f = length ids" and ok: "\<forall>r\<in>set ?f. r_status r = SUCCEEDED"
    and resp: "resp = \<lparr>cmp_items = ?items, cmp_best_by_metric =
      map (\<lambda>n. (n, best_of ?items n)) (fromkeys (concat (map (\<lambda>i. map fst (ci_metrics i)) ?items)))\<rparr>"
    using assms(2) by (auto simp: compare_runs_def Let_def list_ex_iff split: if_splits)
  have order: "map r_id ?rs = ids"
    by (rule sort_by_index[OF ids distinct_map_filter[OF assms(1)] found_all[OF assms(1) ids len]])
  have items: "cmp_items resp = ?items" by (simp add: resp)
  have row: "ci_run i \<in> set (runs s)" "r_status (ci_run i) = SUCCEEDED" "ci_metrics i = run_metric_values s (r_id (ci_run i))"
    if "i \<in> set ?items" for i
    using that ok by (auto simp: comparison_of_def)
  show ?thesis
    unfolding items
  proof (intro conjI ballI allI impI)
    show "map (\<lambda>i. r_id (ci_run i)) ?items = ids" using order by (simp add: comparison_of_def comp_def)
    fix i n v assume i: "i \<in> set ?items"
    then show "ci_run i \<in> set (runs s)" "r_status (ci_run i) = SUCCEEDED" by (rule row)+
    assume v: "map_of (ci_metrics i) n = Some v"
    then show "\<exists>m\<in>set (run_metrics s). m_run_id m = r_id (ci_run i) \<and> m_name m = n \<and> m_value m = v \<and>
        (\<forall>m'\<in>set (run_metrics s). m_run_id m' = r_id (ci_run i) \<and> m_name m' = n \<longrightarrow> m_step m' \<le> m_step m)"
      unfolding row(3)[OF i] by (rule run_metric_last)
    show "\<exists>b\<in>set ?items. map_of (cmp_best_by_metric resp) n = Some (r_id (ci_run b)) \<and>
        (\<exists>w. map_of (ci_metrics b) n = Some w \<and> v \<le> w)"
      using best_of_max[OF i v] by (simp only: resp compare_response.simps)
  qed
qed

definition compare_db :: db where
  "compare_db = demo_db\<lparr>runs := [demo_run 20 SUCCEEDED None, demo_run 21 SUCCEEDED None],
     run_metrics := [\<lparr>m_id = 30, m_run_id = 20, m_name = ''accuracy'', m_value = 9/10, m_step = 1, m_recorded_at = 0\<rparr>,
       \<lparr>m_id = 31, m_run_id = 21, m_name = ''accuracy'', m_value = 19/20, m_step = 1, m_recorded_at = 0\<rparr>]\<rparr>"

theorem compare_runs_best_witness:
  "\<exists>resp. compare_runs [21, 20] compare_db = Inr resp \<and> map (\<lambda>i. r_id (ci_run i)) (cmp_items resp) = [21, 20] \<and>
     (\<exists>b\<in>set (cmp_items resp). map_of (cmp_best_by_metric resp) ''accuracy'' = Some (r_id (ci_run b)) \<and>
        (\<exists>w. map_of (ci_metrics b) ''accuracy'' = Some w \<and> 9/10 \<le> w))"
proof -
  have d: "distinct (map r_id (runs compare_db))" by (simp add: compare_db_def demo_run_def)
  obtain resp where r: "compare_runs [21, 20] compare_db = Inr resp"
    by (simp add: compare_runs_def compare_db_def demo_run_def Let_def)
  have m: "map_of (run_metric_values compare_db 20) ''accuracy'' = Some (9/10)"
    by (simp add: run_metric_values_def compare_db_def)
  note p = compare_runs_best[OF d r]
  then obtain i where i: "i \<in> set (cmp_items resp)" "r_id (ci_run i) = 20"
    by (metis (no_types, lifting) list.set_intros(1) list.set_intros(2) set_map imageE)
  have "ci_metrics i = run_metric_values compare_db 20"
    using r i by (auto simp: compare_runs_def comparison_of_def Let_def split: if_splits)
  with m have "map_of (ci_metrics i) ''accuracy'' = Some (9/10)" by simp
  with p i r show ?thesis by (intro exI[of _ resp]) blast
qed


section \<open>Pages\<close>

lemma list_experiments_Inr:
  assumes "\<forall>x\<in>set (experiments s). x_tags x \<noteq> None"
  shows "list_experiments page page_size search pid tag srt asc s =
    Inr (paginate page page_size (order_experiments s srt asc (matching_experiments s search pid tag)))"
proof -
  have "\<exists>ys. check_all experiment_response_of xs = Inr ys" if "\<forall>x\<in>set xs. x_tags x \<noteq> None" for xs
    using that by (induction xs) (auto simp: experiment_response_of_def)
  moreover have "set (pg_items (paginate page page_size (order_experiments s srt asc (matching_experiments s search pid tag)))) \<subseteq>
      set (experiments s)"
    using page_bounds(2)[of page page_size "order_experiments s srt asc (matching_experiments s search pid tag)"]
    by (cases srt) (auto simp: matching_experiments_def)
  ultimately show ?thesis using assms unfolding list_experiments_def Let_def by (metis (no_types, lifting) res_bind_simps(2) subsetD)
qed

text \<open>
  C29. The pages of a listing partition it. For every filter, order and page size: the pages from the first to
  the last, put together, hold every matching row exactly once, in the requested order (by the column, up or
  down, and by the identifier where the column is equal); every page but the last is full, no page exceeds its
  size, and the total counts the matches. Runs match by experiment and status, projects and experiments by the
  search text, experiments also by project and tag; a text without a special character of \<open>LIKE\<close> is found
  exactly where it occurs in the name or the description, whatever the case, and a tag where it occurs, quoted,
  in the stored JSON text. For experiments this holds as long as every stored tag list is a list.
\<close>

theorem listings_partitioned:
  assumes "1 \<le> page_size"
  shows "partitions page_size
      (case o1 of RunCreatedAt \<Rightarrow> precedes a r_created_at r_id | RunPriority \<Rightarrow> precedes a r_priority r_id
        | RunByStatus \<Rightarrow> precedes a r_status r_id)
      (filter (\<lambda>r. x \<in> {None, Some (r_experiment_id r)} \<and> st \<in> {None, Some (r_status r)}) (runs s))
      (\<lambda>p. list_runs p page_size x st o1 a s) \<and>
    partitions page_size
      (case o2 of SortName \<Rightarrow> precedes a (\<lambda>p. collation s (pj_name p)) pj_id | SortCreatedAt \<Rightarrow> precedes a pj_created_at pj_id
        | SortUpdatedAt \<Rightarrow> precedes a pj_updated_at pj_id)
      (filter (\<lambda>p. search_matches f (pj_name p) (pj_description p)) (projects s))
      (\<lambda>p. list_projects p page_size f o2 a s) \<and>
    ((\<forall>e\<in>set (experiments s). x_tags e \<noteq> None) \<longrightarrow>
      (\<exists>g. (\<forall>p. list_experiments p page_size f pid tag o2 a s = Inr (g p)) \<and>
         partitions page_size
           (case o2 of SortName \<Rightarrow> precedes a (\<lambda>e. collation s (x_name e)) x_id | SortCreatedAt \<Rightarrow> precedes a x_created_at x_id
             | SortUpdatedAt \<Rightarrow> precedes a x_updated_at x_id)
           (filter (\<lambda>e. search_matches f (x_name e) (x_description e) \<and> pid \<in> {None, Some (x_project_id e)} \<and>
              tag_matches tag (x_tags e)) (experiments s)) g)) \<and>
    search_matches None n d \<and> tag_matches None ts \<and>
    (\<forall>w. literal_text w \<longrightarrow> w \<noteq> '''' \<longrightarrow>
      (search_matches (Some w) n d \<longleftrightarrow> (\<exists>u v. py_lower n = u @ py_lower (py_strip w) @ v) \<or>
         (\<exists>u v. py_lower d = u @ py_lower (py_strip w) @ v)) \<and>
      (tag_matches (Some w) ts \<longleftrightarrow> (\<exists>u v. tags_text ts = u @ [CHR 0x22] @ py_lower (py_strip w) @ [CHR 0x22] @ v)))"
proof (intro conjI impI)
  have m: "matching_runs s x st = filter (\<lambda>r. x \<in> {None, Some (r_experiment_id r)} \<and> st \<in> {None, Some (r_status r)}) (runs s)"
    unfolding matching_runs_def by (rule filter_cong) (auto split: option.splits)
  show "partitions page_size
      (case o1 of RunCreatedAt \<Rightarrow> precedes a r_created_at r_id | RunPriority \<Rightarrow> precedes a r_priority r_id
        | RunByStatus \<Rightarrow> precedes a r_status r_id)
      (filter (\<lambda>r. x \<in> {None, Some (r_experiment_id r)} \<and> st \<in> {None, Some (r_status r)}) (runs s))
      (\<lambda>p. list_runs p page_size x st o1 a s)"
    unfolding list_runs_def m[symmetric]
    by (rule paginate_partitions[OF assms]) (cases o1; simp add: order_rows_sorted)+
  show "partitions page_size
      (case o2 of SortName \<Rightarrow> precedes a (\<lambda>p. collation s (pj_name p)) pj_id | SortCreatedAt \<Rightarrow> precedes a pj_created_at pj_id
        | SortUpdatedAt \<Rightarrow> precedes a pj_updated_at pj_id)
      (filter (\<lambda>p. search_matches f (pj_name p) (pj_description p)) (projects s))
      (\<lambda>p. list_projects p page_size f o2 a s)"
    unfolding list_projects_def matching_projects_def
    by (rule paginate_partitions[OF assms]) (cases o2; simp add: order_rows_sorted)+
  have e: "matching_experiments s f pid tag = filter (\<lambda>e. search_matches f (x_name e) (x_description e) \<and>
      pid \<in> {None, Some (x_project_id e)} \<and> tag_matches tag (x_tags e)) (experiments s)"
    unfolding matching_experiments_def by (rule filter_cong) (auto split: option.splits)
  assume t: "\<forall>e\<in>set (experiments s). x_tags e \<noteq> None"
  show "\<exists>g. (\<forall>p. list_experiments p page_size f pid tag o2 a s = Inr (g p)) \<and>
         partitions page_size
           (case o2 of SortName \<Rightarrow> precedes a (\<lambda>e. collation s (x_name e)) x_id | SortCreatedAt \<Rightarrow> precedes a x_created_at x_id
             | SortUpdatedAt \<Rightarrow> precedes a x_updated_at x_id)
           (filter (\<lambda>e. search_matches f (x_name e) (x_description e) \<and> pid \<in> {None, Some (x_project_id e)} \<and>
              tag_matches tag (x_tags e)) (experiments s)) g"
    unfolding e[symmetric] list_experiments_Inr[OF t]
    by (rule exI[of _ "\<lambda>p. paginate p page_size (order_experiments s o2 a (matching_experiments s f pid tag))"],
        intro conjI allI refl, rule paginate_partitions[OF assms]) (cases o2; simp add: order_rows_sorted)+
qed (simp_all add: search_matches_def[of None] tag_matches_def[of None] search_literal tag_literal)

theorem listings_partitioned_witness:
  "mset (concat (map (\<lambda>p. pg_items (list_runs p 2 None None RunPriority False demo_db)) [1..2])) = mset (runs demo_db) \<and>
   sorted_wrt (precedes False r_priority r_id)
     (concat (map (\<lambda>p. pg_items (list_runs p 2 None None RunPriority False demo_db)) [1..2])) \<and>
   length (pg_items (list_runs 1 2 None None RunPriority False demo_db)) = 2"
proof -
  have m: "matching_runs demo_db None None = runs demo_db" by (simp add: matching_runs_def)
  have n: "pg_pages (list_runs 1 2 None None RunPriority False demo_db) = 2"
    by (simp add: list_runs_def paginate_def m) (simp add: demo_db_def order_rows_def Let_def ceiling_eq_iff)
  have le: "(1::int) \<le> 2" by simp
  have f: "filter (\<lambda>r. None \<in> {None, Some (r_experiment_id r)} \<and> None \<in> {None, Some (r_status r)}) (runs demo_db) = runs demo_db"
    by simp
  have "partitions 2 (precedes False r_priority r_id) (runs demo_db)
      (\<lambda>p. list_runs p 2 None None RunPriority False demo_db)"
    using listings_partitioned[OF le, where ?o1.0 = RunPriority and a = False and x = None and st = None and s = demo_db, THEN conjunct1] unfolding f by simp
  from this[unfolded partitions_def Let_def, rule_format, of 1] show ?thesis unfolding n by simp
qed

section \<open>Downloading an artifact\<close>

text \<open>\<open>LocalArtifactStore.get\<close> as the endpoint calls it.\<close>

definition local_fetch :: "path \<Rightarrow> fs \<Rightarrow> string \<Rightarrow> bytes res \<times> fs" where
  "local_fetch root_dir fs key =
     (case local_get root_dir fs key of
        (Inl e, fs1) \<Rightarrow> (Inl e, fs1)
      | (Inr (Some d), fs1) \<Rightarrow> (Inr d, fs1)
      | (Inr None, fs1) \<Rightarrow> (Inl (OtherError ''TypeError''), fs1))"

lemma insert_artifact_find:
  assumes "insert_artifact sha s rid g key = Inr s'" "\<forall>a\<in>set (artifacts s). art_id a < next_uuid s"
  obtains a where "a \<in> set (artifacts s')" "find (\<lambda>b. art_id b = next_uuid s \<and> art_run_id b = rid) (artifacts s') = Some a"
    "a = \<lparr>art_id = next_uuid s, art_run_id = rid, art_name = ga_name g, art_storage_key = key, art_mime_type = ga_mime_type g,
       art_size_bytes = int (length (ga_data g)), art_checksum = sha (ga_data g), art_created_at = tx_now s\<rparr>"
proof -
  have s': "artifacts s' = artifacts s @ [\<lparr>art_id = next_uuid s, art_run_id = rid, art_name = ga_name g, art_storage_key = key,
      art_mime_type = ga_mime_type g, art_size_bytes = int (length (ga_data g)), art_checksum = sha (ga_data g),
      art_created_at = tx_now s\<rparr>]"
    using assms(1) by (auto simp: insert_artifact_def uuid4_def Let_def split: if_splits)
  have "find P (xs @ [a]) = Some a" if "\<forall>x\<in>set xs. \<not> P x" "P a" for P and xs :: "artifact list" and a
    using that by (induction xs) auto
  moreover have "\<forall>a\<in>set (artifacts s). \<not> (art_id a = next_uuid s \<and> art_run_id a = rid)" using assms(2) by auto
  ultimately show thesis by (intro that) (auto simp: s')
qed

text \<open>The keys the execution builds from a proper file name lie in the run's own directory.\<close>

lemma uuid_str_clean: "clean (uuid_str rid)"
proof -
  have "CHR ''/'' \<notin> set (hex_of 32 rid)" using digits_of_hex[of 32 rid] by (auto simp: digit_val_def)
  then have "CHR ''/'' \<notin> set (uuid_str rid)" by (auto simp: uuid_str_def Let_def dest: in_set_takeD in_set_dropD)
  moreover have "uuid_str rid \<noteq> xs" if "length xs < 36" for xs
    using that length_uuid_str[of rid] by auto
  ultimately show ?thesis by (simp add: clean_def)
qed

lemma storage_key_path:
  assumes "clean name"
  shows "local_path root_dir (storage_key rid name) = Inr (root_dir @ [uuid_str rid, name])"
  using local_path_join[of "[uuid_str rid, name]" root_dir] assms uuid_str_clean by (simp add: storage_key_def)

text \<open>
  C30. A stored artifact can be downloaded as it was stored. After the worker put an artifact into the
  local store and recorded it, the download endpoint returns exactly its bytes under its media type,
  the recorded size and checksum are those of the bytes, and the file system is untouched. The one header
  is the attachment with the artifact's name between double quotes, less the quotes, carriage returns and line
  feeds in it, so the name itself if it has none of these; the header is one line with one quoted file name.
\<close>

theorem artifact_download_roundtrip:
  assumes put: "local_put root_dir fs (storage_key rid (ga_name g)) (ga_data g) (ga_mime_type g) = (Inr u, fs')"
    and ins: "insert_artifact sha s rid g (storage_key rid (ga_name g)) = Inr s'"
    and ids: "\<forall>a\<in>set (artifacts s). art_id a < next_uuid s"
  shows "\<exists>(a::artifact) resp v. a \<in> set (artifacts s') \<and> art_run_id a = rid \<and> art_name a = ga_name g \<and>
    art_size_bytes a = int (length (ga_data g)) \<and> art_checksum a = sha (ga_data g) \<and>
    download_artifact (local_fetch root_dir) rid (art_id a) s' fs' = (Inr resp, fs') \<and>
    fr_content resp = ga_data g \<and> fr_media_type resp = ga_mime_type g \<and>
    fr_headers resp = [(''Content-Disposition'', v)] \<and>
    v = ''attachment; filename='' @ [CHR 0x22] @ filter (\<lambda>c. c \<notin> {CHR 0x22, CHR 0x0D, CHR 0x0A}) (ga_name g) @ [CHR 0x22] \<and>
    (set (ga_name g) \<inter> {CHR 0x22, CHR 0x0D, CHR 0x0A} = {} \<longrightarrow>
      v = ''attachment; filename='' @ [CHR 0x22] @ ga_name g @ [CHR 0x22]) \<and>
    filter (\<lambda>c. c = CHR 0x22) v = [CHR 0x22, CHR 0x22] \<and> CHR 0x0D \<notin> set v \<and> CHR 0x0A \<notin> set v"
proof -
  let ?key = "storage_key rid (ga_name g)"
  let ?n = "filter (\<lambda>c. c \<notin> {CHR 0x22, CHR 0x0D, CHR 0x0A}) (ga_name g)"
  let ?v = "''attachment; filename='' @ [CHR 0x22] @ ?n @ [CHR 0x22]"
  have name: "safe_name (ga_name g) = ?n" unfolding safe_name_def by (rule filter_cong) auto
  obtain a where a: "a \<in> set (artifacts s')"
      "find (\<lambda>b. art_id b = next_uuid s \<and> art_run_id b = rid) (artifacts s') = Some a"
      "a = \<lparr>art_id = next_uuid s, art_run_id = rid, art_name = ga_name g, art_storage_key = ?key, art_mime_type = ga_mime_type g,
        art_size_bytes = int (length (ga_data g)), art_checksum = sha (ga_data g), art_created_at = tx_now s\<rparr>"
    by (rule insert_artifact_find[OF ins ids])
  have "fst (local_get root_dir fs' ?key) = Inr (Some (ga_data g))" by (rule local_store.get_put[OF put])
  moreover have "snd (local_get root_dir fs' ?key) = fs'" by (auto simp: local_get_def split: sum.splits)
  ultimately have "local_get root_dir fs' ?key = (Inr (Some (ga_data g)), fs')" by (simp add: prod_eq_iff)
  then have get: "local_fetch root_dir fs' ?key = (Inr (ga_data g), fs')" by (simp add: local_fetch_def)
  have "download_artifact (local_fetch root_dir) rid (art_id a) s' fs' =
      (Inr \<lparr>fr_content = ga_data g, fr_media_type = ga_mime_type g, fr_headers = [(''Content-Disposition'', ?v)]\<rparr>, fs')"
    using a get by (simp add: download_artifact_def name)
  moreover have "set (ga_name g) \<inter> {CHR 0x22, CHR 0x0D, CHR 0x0A} = {} \<longrightarrow> ?v = ''attachment; filename='' @ [CHR 0x22] @ ga_name g @ [CHR 0x22]"
    by (auto simp: filter_id_conv)
  moreover have "filter (\<lambda>c. c = CHR 0x22) ?n = []" by (auto simp: filter_empty_conv)
  then have "filter (\<lambda>c. c = CHR 0x22) ?v = [CHR 0x22, CHR 0x22]" by simp
  moreover have "CHR 0x0D \<notin> set ?v" "CHR 0x0A \<notin> set ?v" by auto
  ultimately show ?thesis
    using a(1) by (intro exI[of _ a] exI[of _ "\<lparr>fr_content = ga_data g, fr_media_type = ga_mime_type g,
        fr_headers = [(''Content-Disposition'', ?v)]\<rparr>"] exI[of _ ?v] conjI)
      (simp_all only: a(3) artifact.simps file_response.simps simp_thms)
qed

theorem artifact_download_roundtrip_witness:
  "\<exists>s' fs' (a::artifact) resp. insert_artifact (\<lambda>d. ''sha'') demo_db 11 \<lparr>ga_name = ''m.json'', ga_mime_type = ''application/json'', ga_data = ''{}''\<rparr>
       (storage_key 11 ''m.json'') = Inr s' \<and>
     local_put [''data''] Map.empty (storage_key 11 ''m.json'') ''{}'' ''application/json'' = (Inr (), fs') \<and>
     download_artifact (local_fetch [''data'']) 11 (art_id a) s' fs' = (Inr resp, fs') \<and> fr_content resp = ''{}'' \<and>
     fr_headers resp = [(''Content-Disposition'', ''attachment; filename='' @ [CHR 0x22] @ ''m.json'' @ [CHR 0x22])]"
proof -
  let ?g = "\<lparr>ga_name = ''m.json'', ga_mime_type = ''application/json'', ga_data = ''{}''\<rparr>"
  obtain s' where s': "insert_artifact (\<lambda>d. ''sha'') demo_db 11 ?g (storage_key 11 ''m.json'') = Inr s'"
    by (simp add: insert_artifact_def demo_db_def uuid4_def)
  have lp: "local_path [''data''] (storage_key 11 ''m.json'') = Inr [''data'', uuid_str 11, ''m.json'']"
    using storage_key_path[of "''m.json''" "[''data'']" 11] by (simp add: clean_def)
  obtain fs' where fs': "local_put [''data''] Map.empty (storage_key 11 ''m.json'') ''{}'' ''application/json'' = (Inr (), fs')"
    by (simp add: local_put_def lp mkdirs_def write_bytes_def is_file_def parents_def)
  have d: "\<forall>a\<in>set (artifacts demo_db). art_id a < next_uuid demo_db" by (simp add: demo_db_def)
  have put: "local_put [''data''] Map.empty (storage_key 11 (ga_name ?g)) (ga_data ?g) (ga_mime_type ?g) = (Inr (), fs')"
    and ins: "insert_artifact (\<lambda>d. ''sha'') demo_db 11 ?g (storage_key 11 (ga_name ?g)) = Inr s'"
    using s' fs' by simp_all
  have "set (ga_name ?g) \<inter> {CHR 0x22, CHR 0x0D, CHR 0x0A} = {}" by simp
  with artifact_download_roundtrip[OF put ins d] obtain a :: artifact and resp and v where
    "download_artifact (local_fetch [''data'']) 11 (art_id a) s' fs' = (Inr resp, fs')" "fr_content resp = ga_data ?g"
    "fr_headers resp = [(''Content-Disposition'', v)]" "v = ''attachment; filename='' @ [CHR 0x22] @ ga_name ?g @ [CHR 0x22]"
    by metis
  then show ?thesis
    by (intro exI[of _ s'] exI[of _ fs'] exI[of _ a] exI[of _ resp]) (simp add: s' fs')
qed

end
