(* ===== verification/Outbox.thy ===== *)
theory Outbox
  imports Lifecycle Config
begin

text \<open>
  The transactional outbox (\<open>outbox.py\<close>) and the producer side of the broker (\<open>broker.py\<close>). The
  Kafka client library is a parameter: what \<open>start\<close>, \<open>stop\<close> and \<open>send_and_wait\<close> do to its state and
  whether they raise. The broker object carries, beside the code's \<open>_started\<close> flag, the history of
  the sends that returned, so that "published" can be compared with "acknowledged".
\<close>

record 'k producer =
  pr_start :: "'k \<Rightarrow> unit res \<times> 'k"
  pr_stop :: "'k \<Rightarrow> unit res \<times> 'k"
  pr_send :: "'k \<Rightarrow> string \<Rightarrow> string \<Rightarrow> event_envelope \<Rightarrow> unit res \<times> 'k"

type_synonym delivery = "string \<times> string \<times> event_envelope"

record 'k kafka_broker =
  kb_started :: bool
  kb_producer :: 'k
  kb_acked :: "delivery list"

definition broker_start :: "'k producer \<Rightarrow> 'k kafka_broker \<Rightarrow> unit res \<times> 'k kafka_broker" where
  "broker_start p b =
     (if kb_started b then (Inr (), b)
      else case pr_start p (kb_producer b) of
             (Inl e, k) \<Rightarrow> (Inl e, b\<lparr>kb_producer := k\<rparr>)
           | (Inr _, k) \<Rightarrow> (Inr (), b\<lparr>kb_producer := k, kb_started := True\<rparr>))"

definition broker_stop :: "'k producer \<Rightarrow> 'k kafka_broker \<Rightarrow> unit res \<times> 'k kafka_broker" where
  "broker_stop p b =
     (if \<not> kb_started b then (Inr (), b)
      else case pr_stop p (kb_producer b) of
             (Inl e, k) \<Rightarrow> (Inl e, b\<lparr>kb_producer := k\<rparr>)
           | (Inr _, k) \<Rightarrow> (Inr (), b\<lparr>kb_producer := k, kb_started := False\<rparr>))"

definition kafka_publish ::
  "'k producer \<Rightarrow> 'k kafka_broker \<Rightarrow> string \<Rightarrow> string \<Rightarrow> event_envelope \<Rightarrow> unit res \<times> 'k kafka_broker" where
  "kafka_publish p b topic key ev =
     (case broker_start p b of
        (Inl e, b1) \<Rightarrow> (Inl e, b1)
      | (Inr _, b1) \<Rightarrow>
          (case pr_send p (kb_producer b1) topic key ev of
             (Inl e, k) \<Rightarrow> (Inl e, b1\<lparr>kb_producer := k\<rparr>)
           | (Inr _, k) \<Rightarrow> (Inr (), b1\<lparr>kb_producer := k, kb_acked := kb_acked b1 @ [(topic, key, ev)]\<rparr>)))"

text \<open>The rows a batch selects: \<open>lk\<close> tells which rows another dispatcher has locked.\<close>

definition dispatchable :: "int \<Rightarrow> (uuid \<Rightarrow> bool) \<Rightarrow> outbox_message \<Rightarrow> bool" where
  "dispatchable max_attempts lk m \<longleftrightarrow>
     o_published_at m = None \<and> o_publish_attempts m < max_attempts \<and> \<not> lk (o_id m)"

definition batch :: "db \<Rightarrow> nat \<Rightarrow> int \<Rightarrow> (uuid \<Rightarrow> bool) \<Rightarrow> outbox_message list" where
  "batch s limit max_attempts lk =
     take limit (sort_key o_created_at (filter (dispatchable max_attempts lk) (outbox_messages s)))"

definition mark_published :: "time \<Rightarrow> outbox_message \<Rightarrow> outbox_message" where
  "mark_published now m = m\<lparr>o_published_at := Some now, o_last_error := None\<rparr>"

definition mark_failed :: "exn \<Rightarrow> outbox_message \<Rightarrow> outbox_message" where
  "mark_failed e m = m\<lparr>o_publish_attempts := o_publish_attempts m + 1,
     o_last_error := Some (take 500 (exn_name e))\<rparr>"

definition save_outbox :: "db \<Rightarrow> outbox_message \<Rightarrow> db" where
  "save_outbox s m = outbox_messages_update (upd_row o_id (o_id m) (\<lambda>_. m)) s"

text \<open>
  The loop over the batch. \<open>publish\<close> is the broker's method; the first exception, from the
  validation of the stored envelope or from the broker, is recorded and ends the loop.
\<close>

fun dispatch_loop ::
  "('b \<Rightarrow> string \<Rightarrow> string \<Rightarrow> event_envelope \<Rightarrow> unit res \<times> 'b) \<Rightarrow> outbox_message list \<Rightarrow> nat \<Rightarrow> 'b \<Rightarrow> db
    \<Rightarrow> nat \<times> 'b \<times> db" where
  "dispatch_loop publish [] published b s = (published, b, s)"
| "dispatch_loop publish (m # ms) published b s =
     (let (outcome, b1) = (case validate_envelope (o_envelope m) of
            Inl e \<Rightarrow> (Inl e, b)
          | Inr ev \<Rightarrow> publish b (o_topic m) (o_partition_key m) ev)
      in case outcome of
           Inr _ \<Rightarrow> let (now, s1) = now_utc s
                    in dispatch_loop publish ms (Suc published) b1 (save_outbox s1 (mark_published now m))
         | Inl e \<Rightarrow> (published, b1, save_outbox s (mark_failed e m)))"

definition dispatch_batch ::
  "('b \<Rightarrow> string \<Rightarrow> string \<Rightarrow> event_envelope \<Rightarrow> unit res \<times> 'b) \<Rightarrow> nat \<Rightarrow> int \<Rightarrow> (uuid \<Rightarrow> bool) \<Rightarrow> 'b \<Rightarrow> db
    \<Rightarrow> nat \<times> 'b \<times> db" where
  "dispatch_batch publish limit max_attempts lk b s =
     dispatch_loop publish (batch s limit max_attempts lk) 0 b s"

text \<open>
  The dispatcher loop. \<open>next_delay\<close> is the pause after an iteration that published \<open>n\<close> messages or
  raised. An iteration whose database session fails raises after the broker was called: the rows are
  rolled back, the sends are not.
\<close>

fun next_delay :: "settings \<Rightarrow> rat \<Rightarrow> nat res \<Rightarrow> rat" where
  "next_delay cfg delay (Inr n) = (if n \<noteq> 0 then outbox_poll_seconds cfg else min (delay * (3/2)) 5)"
| "next_delay cfg delay (Inl e) = min (delay * 2) 5"

definition dispatcher_iteration ::
  "settings \<Rightarrow> ('b \<Rightarrow> string \<Rightarrow> string \<Rightarrow> event_envelope \<Rightarrow> unit res \<times> 'b) \<Rightarrow> (uuid \<Rightarrow> bool) \<times> exn option
    \<Rightarrow> rat \<times> 'b \<times> db \<Rightarrow> rat \<times> 'b \<times> db" where
  "dispatcher_iteration cfg publish = (\<lambda>(lk, fault) (delay, b, s).
     let (published, b1, s1) = dispatch_batch publish 50 (outbox_max_attempts cfg) lk b s
     in case fault of
          None \<Rightarrow> (next_delay cfg delay (Inr published), b1, s1)
        | Some e \<Rightarrow> (next_delay cfg delay (Inl e), b1, s))"

definition run_outbox_dispatcher ::
  "settings \<Rightarrow> ('b \<Rightarrow> string \<Rightarrow> string \<Rightarrow> event_envelope \<Rightarrow> unit res \<times> 'b) \<Rightarrow> ((uuid \<Rightarrow> bool) \<times> exn option) list
    \<Rightarrow> 'b \<Rightarrow> db \<Rightarrow> rat \<times> 'b \<times> db" where
  "run_outbox_dispatcher cfg publish its b s =
     fold (dispatcher_iteration cfg publish) its (outbox_poll_seconds cfg, b, s)"


section \<open>One batch\<close>

lemma save_outbox_rows [db_simps]:
  "outbox_messages (save_outbox s m) = upd_row o_id (o_id m) (\<lambda>_. m) (outbox_messages s)"
  by (simp add: save_outbox_def)

lemma mark_simps [simp]:
  "o_id (mark_published t m) = o_id m" "o_id (mark_failed e m) = o_id m"
  "o_topic (mark_published t m) = o_topic m" "o_topic (mark_failed e m) = o_topic m"
  "o_partition_key (mark_published t m) = o_partition_key m" "o_partition_key (mark_failed e m) = o_partition_key m"
  "o_envelope (mark_published t m) = o_envelope m" "o_envelope (mark_failed e m) = o_envelope m"
  "o_created_at (mark_published t m) = o_created_at m" "o_created_at (mark_failed e m) = o_created_at m"
  "o_published_at (mark_published t m) = Some t" "o_published_at (mark_failed e m) = o_published_at m"
  "o_publish_attempts (mark_published t m) = o_publish_attempts m"
  "o_publish_attempts (mark_failed e m) = o_publish_attempts m + 1"
  by (simp_all add: mark_published_def mark_failed_def)

lemma batchD:
  assumes "m \<in> set (batch s limit k lk)"
  shows "m \<in> set (outbox_messages s)" "dispatchable k lk m"
  using in_set_takeD[OF assms[unfolded batch_def]] by auto

lemma batch_id:
  assumes "distinct (map o_id (outbox_messages s))" "m \<in> set (outbox_messages s)" "x \<in> set (batch s limit k lk)"
  shows "o_id m = o_id x \<longleftrightarrow> m = x"
  using key_inj[OF assms(1,2) batchD(1)[OF assms(3)]] by blast

lemma batch_ids:
  assumes "distinct (map o_id (outbox_messages s))" "m \<in> set (outbox_messages s)"
  shows "o_id m \<in> o_id ` set (take n (batch s limit k lk)) \<longleftrightarrow> m \<in> set (take n (batch s limit k lk))"
proof
  assume "o_id m \<in> o_id ` set (take n (batch s limit k lk))"
  then obtain x where x: "x \<in> set (take n (batch s limit k lk))" "o_id m = o_id x" by blast
  with batch_id[OF assms in_set_takeD[OF x(1)]] show "m \<in> set (take n (batch s limit k lk))" by simp
qed simp

lemma batch_sorted: "sorted (map o_created_at (batch s limit k lk))"
  unfolding batch_def take_map[symmetric] by (rule sorted_wrt_take) simp

lemma batch_distinct:
  assumes "distinct (map o_id (outbox_messages s))"
  shows "distinct (map o_id (batch s limit k lk))"
proof -
  have "distinct (map o_id (filter (dispatchable k lk) (outbox_messages s)))"
    using assms by (rule distinct_map_filter)
  then have "distinct (map o_id (sort_key o_created_at (filter (dispatchable k lk) (outbox_messages s))))"
    by (simp add: distinct_map)
  then show ?thesis unfolding batch_def take_map[symmetric] by (rule distinct_take)
qed

text \<open>What it means that messages were sent: each has a valid envelope, and one \<open>publish\<close> after the other returned.\<close>

fun sent ::
  "('b \<Rightarrow> string \<Rightarrow> string \<Rightarrow> event_envelope \<Rightarrow> unit res \<times> 'b) \<Rightarrow> outbox_message list \<Rightarrow> 'b \<Rightarrow> 'b option" where
  "sent publish [] b = Some b"
| "sent publish (m # ms) b =
     (if envelope_ok (o_envelope m)
      then case publish b (o_topic m) (o_partition_key m) (o_envelope m) of
             (Inr _, b1) \<Rightarrow> sent publish ms b1
           | (Inl _, _) \<Rightarrow> None
      else None)"

text \<open>A message fails with \<open>e\<close>: its stored envelope is not valid, or \<open>publish\<close> raises.\<close>

definition refused ::
  "('b \<Rightarrow> string \<Rightarrow> string \<Rightarrow> event_envelope \<Rightarrow> unit res \<times> 'b) \<Rightarrow> outbox_message \<Rightarrow> 'b \<Rightarrow> exn \<Rightarrow> 'b \<Rightarrow> bool" where
  "refused publish m b e b' \<longleftrightarrow>
     (if envelope_ok (o_envelope m) then publish b (o_topic m) (o_partition_key m) (o_envelope m) = (Inl e, b')
      else e = ValidationError \<and> b' = b)"

text \<open>
  The effect of the loop on the rows \<open>ms\<close>: the first \<open>n\<close> are published at a time of the clock \<open>c\<close>, the next one,
  if there is one, has failed once more, with \<open>e\<close>; everything else is as it was.
\<close>

definition batch_row :: "(nat \<Rightarrow> time) \<Rightarrow> exn \<Rightarrow> outbox_message list \<Rightarrow> nat \<Rightarrow> outbox_message \<Rightarrow> outbox_message \<Rightarrow> bool" where
  "batch_row c e ms n m m' \<longleftrightarrow>
     (if o_id m \<in> o_id ` set (take n ms) then \<exists>i. m' = mark_published (c i) m
      else if n < length ms \<and> o_id m = o_id (ms ! n) then m' = mark_failed e m
      else m' = m)"

lemma list_all2_upd_row:
  assumes "list_all2 P xs ys" "\<And>x y. x \<in> set xs \<Longrightarrow> P x y \<Longrightarrow> key y = k \<Longrightarrow> Q x (f y)"
    and "\<And>x y. x \<in> set xs \<Longrightarrow> P x y \<Longrightarrow> key y \<noteq> k \<Longrightarrow> Q x y"
  shows "list_all2 Q xs (upd_row key k f ys)"
  using assms by (induction rule: list_all2_induct) auto

lemma dispatch_loop_rows:
  assumes "distinct (map o_id (outbox_messages s))" "distinct (map o_id ms)" "set ms \<subseteq> set (outbox_messages s)"
    and "dispatch_loop publish ms p b s = (p', b', s')"
  shows "\<exists>n b1 e. n \<le> length ms \<and> p' = p + n \<and> sent publish (take n ms) b = Some b1 \<and>
    (if n < length ms then refused publish (ms ! n) b1 e b' else b' = b1) \<and>
    list_all2 (batch_row (clock s) e ms n) (outbox_messages s) (outbox_messages s')"
  using assms
proof (induction ms arbitrary: p b s)
  case Nil
  then show ?case by (auto simp: batch_row_def list_all2_same)
next
  case (Cons m ms)
  obtain outcome b1 where out: "(case validate_envelope (o_envelope m) of Inl e \<Rightarrow> (Inl e, b)
      | Inr ev \<Rightarrow> publish b (o_topic m) (o_partition_key m) ev) = (outcome, b1)"
    by fastforce
  have m: "m \<in> set (outbox_messages s)" using Cons.prems(3) by simp
  have same: "x = m" if "x \<in> set (outbox_messages s)" "o_id x = o_id m" for x
    using key_inj[OF Cons.prems(1) that(1) m that(2)] .
  have nm: "o_id m \<notin> o_id ` set ms" using Cons.prems(2) by simp
  show ?case
  proof (cases outcome)
    case (Inl e)
    then have "p' = p" "s' = save_outbox s (mark_failed e m)" "b' = b1"
      using Cons.prems(4) out by auto
    moreover have "refused publish m b e b1"
      using out Inl by (auto simp: refused_def validate_envelope_def)
    moreover have "list_all2 (batch_row (clock s) e (m # ms) 0) (outbox_messages s)
        (outbox_messages (save_outbox s (mark_failed e m)))"
      unfolding save_outbox_rows
    proof (rule list_all2_upd_row[where P = "(=)"])
      fix x y assume "x \<in> set (outbox_messages s)" "x = y" "o_id y = o_id (mark_failed e m)"
      then show "batch_row (clock s) e (m # ms) 0 x (mark_failed e m)" using same[of x] by (auto simp: batch_row_def)
    qed (auto simp: list.rel_eq batch_row_def)
    ultimately show ?thesis by (intro exI[of _ 0] exI[of _ b] exI[of _ e]) auto
  next
    case (Inr u)
    let ?s1 = "save_outbox (snd (now_utc s)) (mark_published (fst (now_utc s)) m)"
    have rows: "outbox_messages ?s1 =
        upd_row o_id (o_id m) (\<lambda>_. mark_published (fst (now_utc s)) m) (outbox_messages s)"
      by (simp add: save_outbox_rows now_utc_def)
    have "dispatch_loop publish ms (Suc p) b1 ?s1 = (p', b', s')"
      using Cons.prems(4) out Inr by (auto simp: case_prod_beta Let_def)
    moreover have "distinct (map o_id (outbox_messages ?s1))"
      using Cons.prems(1) unfolding rows by (simp add: map_upd_row)
    moreover have "set ms \<subseteq> set (outbox_messages ?s1)"
    proof
      fix x assume x: "x \<in> set ms"
      then have "o_id x \<noteq> o_id m" using nm by (metis imageI)
      with x Cons.prems(3) show "x \<in> set (outbox_messages ?s1)" unfolding rows by (force simp: set_upd_row)
    qed
    moreover have cl: "clock ?s1 = clock s" by (simp add: save_outbox_def now_utc_def)
    ultimately obtain n b2 e where n: "n \<le> length ms" "p' = Suc p + n"
      "list_all2 (batch_row (clock s) e ms n) (outbox_messages ?s1) (outbox_messages s')"
      and sn: "sent publish (take n ms) b1 = Some b2" "if n < length ms then refused publish (ms ! n) b2 e b' else b' = b2"
      using Cons.IH[of ?s1 "Suc p" b1] Cons.prems(2) by auto
    have "sent publish (take (Suc n) (m # ms)) b = Some b2"
      using out Inr sn(1) by (auto simp: validate_envelope_def split: if_splits)
    moreover have "list_all2 (batch_row (clock s) e (m # ms) (Suc n)) (outbox_messages s) (outbox_messages s')"
      unfolding list_all2_conv_all_nth
    proof (intro conjI allI impI)
      show len: "length (outbox_messages s) = length (outbox_messages s')"
        using list_all2_lengthD[OF n(3)] by (simp add: rows)
      fix i assume i: "i < length (outbox_messages s)"
      let ?x = "outbox_messages s ! i"
      have step: "batch_row (clock s) e ms n (outbox_messages ?s1 ! i) (outbox_messages s' ! i)"
        using list_all2_nthD[OF n(3)] i by (simp add: rows)
      have nth: "outbox_messages ?s1 ! i = (if o_id ?x = o_id m then mark_published (clock s (ticks s)) m else ?x)"
        using i unfolding rows by (simp add: upd_row_def now_utc_def)
      show "batch_row (clock s) e (m # ms) (Suc n) ?x (outbox_messages s' ! i)"
      proof (cases "o_id ?x = o_id m")
        case True
        have "o_id m \<notin> o_id ` set (take n ms)" using nm in_set_takeD[of _ n ms] by blast
        moreover have "\<not> (n < length ms \<and> o_id m = o_id (ms ! n))" using nm by (metis imageI nth_mem)
        ultimately show ?thesis using True step nth same[of ?x] i by (auto simp: batch_row_def)
      next
        case False
        with step nth show ?thesis by (auto simp: batch_row_def)
      qed
    qed
    ultimately show ?thesis using n(1,2) sn(2) by (intro exI[of _ "Suc n"] exI[of _ b2] exI[of _ e]) simp
  qed
qed

text \<open>What a batch may count as published: at most the messages it selected.\<close>

lemma dispatch_batch_rows:
  assumes "distinct (map o_id (outbox_messages s))"
    and "dispatch_batch publish limit k lk b s = (n, b', s')"
  obtains b1 e where "n \<le> length (batch s limit k lk)" "sent publish (take n (batch s limit k lk)) b = Some b1"
    "if n < length (batch s limit k lk) then refused publish (batch s limit k lk ! n) b1 e b' else b' = b1"
    "list_all2 (batch_row (clock s) e (batch s limit k lk) n) (outbox_messages s) (outbox_messages s')"
  using dispatch_loop_rows[OF assms(1) batch_distinct[OF assms(1)], of limit k lk publish 0 b n b' s'] assms(2)
  by (auto simp: dispatch_batch_def dest: batchD)


section \<open>Draining the outbox\<close>

definition accepting :: "('b \<Rightarrow> string \<Rightarrow> string \<Rightarrow> event_envelope \<Rightarrow> unit res \<times> 'b) \<Rightarrow> bool" where
  "accepting publish \<longleftrightarrow> (\<forall>b t k e. fst (publish b t k e) = Inr ())"

lemma dispatch_loop_accepting:
  assumes "accepting publish" "\<forall>m\<in>set ms. envelope_ok (o_envelope m)"
  shows "fst (dispatch_loop publish ms p b s) = p + length ms"
  using assms(2)
proof (induction ms arbitrary: p b s)
  case (Cons m ms)
  have "validate_envelope (o_envelope m) = Inr (o_envelope m)" using Cons.prems by simp
  moreover obtain b1 where "publish b (o_topic m) (o_partition_key m) (o_envelope m) = (Inr (), b1)"
    using assms(1) by (metis accepting_def fst_conv surj_pair)
  ultimately show ?case
    using Cons by (simp add: case_prod_beta Let_def del: validate_envelope_Inr)
qed simp

lemma dispatch_loop_clock: "dispatch_loop publish ms p b s = (n, b', s') \<Longrightarrow> clock s' = clock s"
proof (induction ms arbitrary: p b s)
  case (Cons m ms)
  have save: "clock (save_outbox x y) = clock x" for x y by (simp add: save_outbox_def)
  show ?case
    using Cons.prems Cons.IH by (fastforce simp: Let_def now_utc_def save split: prod.splits sum.splits)
qed simp

definition pending :: "int \<Rightarrow> db \<Rightarrow> outbox_message list" where
  "pending k s = filter (dispatchable k (\<lambda>_. False)) (outbox_messages s)"

definition pending_sorted :: "int \<Rightarrow> db \<Rightarrow> outbox_message list" where
  "pending_sorted k s = sort_key o_created_at (pending k s)"

lemma batch_pending_sorted: "batch s limit k (\<lambda>_. False) = take limit (pending_sorted k s)"
  by (simp add: batch_def pending_sorted_def pending_def)

lemma accepting_count:
  assumes "accepting publish" "\<forall>m\<in>set (outbox_messages s). envelope_ok (o_envelope m)"
    and "dispatch_batch publish limit k (\<lambda>_. False) b s = (n, b', s')"
  shows "n = length (batch s limit k (\<lambda>_. False))"
  using dispatch_loop_accepting[OF assms(1), of "batch s limit k (\<lambda>_. False)" 0 b s] assms(2,3) batchD(1)
  by (fastforce simp: dispatch_batch_def)

text \<open>The messages \<open>M\<close> are published, at times of the clock \<open>c\<close>; the other rows are as they were.\<close>

definition drained_row :: "(nat \<Rightarrow> time) \<Rightarrow> outbox_message list \<Rightarrow> outbox_message \<Rightarrow> outbox_message \<Rightarrow> bool" where
  "drained_row c M m m' \<longleftrightarrow> (if m \<in> set M then \<exists>j. m' = mark_published (c j) m else m' = m)"

lemma filter_drop_taken: "distinct xs \<Longrightarrow> filter (\<lambda>x. x \<notin> set (take n xs)) xs = drop n xs"
proof -
  assume d: "distinct xs"
  then have "set (take n xs) \<inter> set (drop n xs) = {}" by (simp add: set_take_disj_set_drop_if_distinct)
  then have "filter (\<lambda>x. x \<notin> set (take n xs)) (take n xs @ drop n xs) = drop n xs"
    unfolding filter_append by (subst filter_False) (auto simp: filter_id_conv)
  then show ?thesis unfolding append_take_drop_id .
qed

lemma drained_pending:
  assumes "distinct (outbox_messages s)" "M = take limit (pending_sorted k s)"
    and "list_all2 (drained_row c M) (outbox_messages s) (outbox_messages s')"
  shows "pending_sorted k s' = drop limit (pending_sorted k s)"
proof -
  have "pending k s' = filter (\<lambda>m. m \<notin> set M) (pending k s)"
    unfolding pending_def using assms(3)
    by (induction rule: list_all2_induct) (auto simp: drained_row_def dispatchable_def split: if_splits)
  then have "pending_sorted k s' = filter (\<lambda>m. m \<notin> set M) (pending_sorted k s)"
    by (simp add: pending_sorted_def filter_sort)
  moreover have "distinct (pending_sorted k s)"
    using assms(1) by (simp add: pending_sorted_def pending_def)
  ultimately show ?thesis using filter_drop_taken assms(2) by metis
qed

lemma accepting_step:
  assumes "accepting publish" "distinct (map o_id (outbox_messages s))"
    and "\<forall>m\<in>set (outbox_messages s). envelope_ok (o_envelope m)"
    and "dispatch_batch publish limit k (\<lambda>_. False) b s = (n, b', s')"
  shows "list_all2 (drained_row (clock s) (take limit (pending_sorted k s))) (outbox_messages s) (outbox_messages s')"
    "pending_sorted k s' = drop limit (pending_sorted k s)" "distinct (map o_id (outbox_messages s'))"
    "\<forall>m\<in>set (outbox_messages s'). envelope_ok (o_envelope m)" "clock s' = clock s"
proof -
  let ?B = "batch s limit k (\<lambda>_. False)"
  obtain e where r: "list_all2 (batch_row (clock s) e ?B n) (outbox_messages s) (outbox_messages s')"
    using dispatch_batch_rows[OF assms(2,4)] by blast
  have "drained_row (clock s) ?B m m'"
    if "m \<in> set (outbox_messages s)" "batch_row (clock s) e ?B n m m'" for m m'
  proof -
    have "o_id m \<in> o_id ` set ?B \<longleftrightarrow> m \<in> set ?B"
      using batch_ids[OF assms(2) that(1), of "length ?B" limit k "\<lambda>_. False"] by simp
    with that(2) accepting_count[OF assms(1,3,4)] show ?thesis by (simp add: batch_row_def drained_row_def)
  qed
  then show rows: "list_all2 (drained_row (clock s) (take limit (pending_sorted k s))) (outbox_messages s) (outbox_messages s')"
    using list.rel_mono_strong[OF r] unfolding batch_pending_sorted by blast
  show "pending_sorted k s' = drop limit (pending_sorted k s)"
    using drained_pending[OF _ refl rows] assms(2) by (simp add: distinct_map)
  have proj: "map (\<lambda>m. (o_id m, o_envelope m)) (outbox_messages s') = map (\<lambda>m. (o_id m, o_envelope m)) (outbox_messages s)"
    using rows by (auto simp: list_all2_conv_all_nth list_eq_iff_nth_eq drained_row_def split: if_splits)
  from arg_cong[OF proj, of "map fst"] show "distinct (map o_id (outbox_messages s'))"
    using assms(2) by (simp add: comp_def)
  from arg_cong[OF proj, of "\<lambda>xs. snd ` set xs"] show "\<forall>m\<in>set (outbox_messages s'). envelope_ok (o_envelope m)"
    using assms(3) by (simp add: image_image) (metis (no_types, lifting) image_iff)
  show "clock s' = clock s" using dispatch_loop_clock assms(4) by (simp add: dispatch_batch_def)
qed

lemma dispatcher_drains:
  assumes "accepting publish" "distinct (map o_id (outbox_messages s))"
    and "\<forall>m\<in>set (outbox_messages s). envelope_ok (o_envelope m)"
  shows "length (pending (outbox_max_attempts cfg)
      (snd (snd (fold (dispatcher_iteration cfg publish) (replicate i (\<lambda>_. False, None)) (d, b, s))))) =
    length (pending (outbox_max_attempts cfg) s) - 50 * i"
  using assms(2,3)
proof (induction i arbitrary: d b s)
  case (Suc i)
  obtain n b1 s1 where db: "dispatch_batch publish 50 (outbox_max_attempts cfg) (\<lambda>_. False) b s = (n, b1, s1)"
    by (metis prod_cases3)
  note step = accepting_step[OF assms(1) Suc.prems db]
  from arg_cong[OF step(2), of length] show ?case
    using Suc.IH[OF step(3,4)] by (simp add: dispatcher_iteration_def db pending_sorted_def)
qed simp


section \<open>The broker as an interface\<close>

text \<open>Everything stored as published is among the acknowledged deliveries \<open>ds\<close>.\<close>

definition published_acked :: "delivery list \<Rightarrow> db \<Rightarrow> bool" where
  "published_acked ds s \<longleftrightarrow> (\<forall>m\<in>set (outbox_messages s). o_published_at m \<noteq> None \<longrightarrow>
     (o_topic m, o_partition_key m, o_envelope m) \<in> set ds)"

text \<open>
  What dispatching may do to a row, given what was delivered: it stays what it is, a published row is never
  touched again, failures are counted, and a row becomes published only by being delivered.
\<close>

abbreviation delivery_of :: "outbox_message \<Rightarrow> delivery" where
  "delivery_of m \<equiv> (o_topic m, o_partition_key m, o_envelope m)"

definition accounted :: "delivery list \<Rightarrow> outbox_message \<Rightarrow> outbox_message \<Rightarrow> bool" where
  "accounted ds m m' \<longleftrightarrow> o_id m' = o_id m \<and> delivery_of m' = delivery_of m \<and> o_created_at m' = o_created_at m \<and>
     o_publish_attempts m \<le> o_publish_attempts m' \<and> (o_published_at m \<noteq> None \<longrightarrow> m' = m) \<and>
     (o_published_at m = None \<longrightarrow> o_published_at m' \<noteq> None \<longrightarrow> delivery_of m \<in> set ds)"

lemma accounted_refl: "accounted ds m m"
  by (simp add: accounted_def)

lemma accounted_trans: "accounted ds m m1 \<Longrightarrow> accounted ds' m1 m' \<Longrightarrow> accounted (ds @ ds') m m'"
  unfolding accounted_def by (cases "o_published_at m1") auto

lemma accounted_ids: "list_all2 (accounted ds) ms ms' \<Longrightarrow> map o_id ms' = map o_id ms"
  by (induction rule: list_all2_induct) (simp_all add: accounted_def)

lemma accounted_published:
  assumes "list_all2 (accounted ds) (outbox_messages s) (outbox_messages s')" "published_acked as s"
  shows "published_acked (as @ ds) s'"
  unfolding published_acked_def
proof (intro ballI impI)
  fix m' assume "m' \<in> set (outbox_messages s')" "o_published_at m' \<noteq> None"
  moreover then obtain m where "m \<in> set (outbox_messages s)" "accounted ds m m'"
    using assms(1) by (metis list_all2_conv_all_nth in_set_conv_nth)
  ultimately show "delivery_of m' \<in> set (as @ ds)"
    using assms(2) by (cases "o_published_at m") (auto simp: accounted_def published_acked_def)
qed

text \<open>
  What the dispatcher relies on: a \<open>publish\<close> that returns has been acknowledged and is at the end of
  the history; one that raises has not.
\<close>

locale acked_broker =
  fixes publish :: "'b \<Rightarrow> string \<Rightarrow> string \<Rightarrow> event_envelope \<Rightarrow> unit res \<times> 'b"
    and acked :: "'b \<Rightarrow> delivery list"
  assumes publish_ok: "publish b t k e = (Inr u, b') \<Longrightarrow> acked b' = acked b @ [(t, k, e)]"
    and publish_err: "publish b t k e = (Inl x, b') \<Longrightarrow> acked b' = acked b"
begin

lemma loop_acks:
  "dispatch_loop publish ms p b s = (p', b', s') \<Longrightarrow> p \<le> p' \<and>
   acked b' = acked b @ map (\<lambda>m. (o_topic m, o_partition_key m, o_envelope m)) (take (p' - p) ms)"
proof (induction ms arbitrary: p b s)
  case Nil
  then show ?case by simp
next
  case (Cons m ms)
  show ?case
  proof (cases "envelope_ok (o_envelope m)")
    case False
    then show ?thesis using Cons.prems by (auto simp: validate_envelope_def)
  next
    case True
    then have val: "validate_envelope (o_envelope m) = Inr (o_envelope m)" by simp
    obtain outcome b1 where out: "publish b (o_topic m) (o_partition_key m) (o_envelope m) = (outcome, b1)"
      by fastforce
    show ?thesis
    proof (cases outcome)
      case (Inl e)
      with out Cons.prems publish_err show ?thesis by (auto simp: val simp del: validate_envelope_Inr)
    next
      case (Inr u)
      have "dispatch_loop publish ms (Suc p) b1 (save_outbox (snd (now_utc s)) (mark_published (fst (now_utc s)) m)) =
          (p', b', s')"
        using Cons.prems out Inr by (simp add: val case_prod_beta Let_def del: validate_envelope_Inr)
      from Cons.IH[OF this] have "Suc p \<le> p'"
        "acked b' = acked b1 @ map (\<lambda>m. (o_topic m, o_partition_key m, o_envelope m)) (take (p' - Suc p) ms)"
        by auto
      moreover have "acked b1 = acked b @ [(o_topic m, o_partition_key m, o_envelope m)]"
        using publish_ok out Inr by blast
      moreover have "p' - p = Suc (p' - Suc p)" using \<open>Suc p \<le> p'\<close> by simp
      ultimately show ?thesis by simp
    qed
  qed
qed

lemma batch_accounted:
  assumes "distinct (map o_id (outbox_messages s))" "dispatch_batch publish limit k lk b s = (n, b', s')"
  shows "\<exists>ds. acked b' = acked b @ ds \<and> list_all2 (accounted ds) (outbox_messages s) (outbox_messages s')"
proof -
  let ?B = "batch s limit k lk"
  obtain b1 e where rows: "list_all2 (batch_row (clock s) e ?B n) (outbox_messages s) (outbox_messages s')"
    using dispatch_batch_rows[OF assms] by blast
  have "acked b' = acked b @ map delivery_of (take n ?B)"
    using loop_acks[of ?B 0 b s n b' s'] assms(2) by (simp add: dispatch_batch_def)
  moreover have "accounted (map delivery_of (take n ?B)) m m'"
    if m: "m \<in> set (outbox_messages s)" and row: "batch_row (clock s) e ?B n m m'" for m m'
  proof -
    note tk = batch_ids[OF assms(1) m, of n limit k lk]
    have unpublished: "o_published_at x = None" if "x \<in> set ?B" for x
      using batchD(2)[OF that] by (simp add: dispatchable_def)
    have taken: "o_published_at m = None" if "m \<in> set (take n ?B)"
      using unpublished[OF in_set_takeD[OF that]] .
    have failed: "o_published_at m = None" if "n < length ?B" "o_id m = o_id (?B ! n)"
      using unpublished[OF nth_mem[OF that(1)]] batch_id[OF assms(1) m nth_mem[OF that(1)]] that(2) by metis
    consider "m \<in> set (take n ?B)" "\<exists>i. m' = mark_published (clock s i) m"
      | "o_published_at m = None" "m' = mark_failed e m" | "m' = m"
      using row[unfolded batch_row_def tk] failed by metis
    then show ?thesis
    proof cases
      case 1
      then have "delivery_of m \<in> set (map delivery_of (take n ?B))" by (simp add: rev_image_eqI)
      with 1 taken show ?thesis by (auto simp: accounted_def)
    qed (auto simp: accounted_def)
  qed
  ultimately show ?thesis using list.rel_mono_strong[OF rows] by blast
qed

lemma dispatcher_accounted:
  assumes "distinct (map o_id (outbox_messages s))"
    and "fold (dispatcher_iteration cfg publish) its (d, b, s) = (d', b', s')"
  shows "\<exists>ds. acked b' = acked b @ ds \<and> list_all2 (accounted ds) (outbox_messages s) (outbox_messages s')"
  using assms
proof (induction its arbitrary: d b s)
  case Nil
  then show ?case by (auto simp: list_all2_same accounted_refl)
next
  case (Cons it its)
  obtain lk fault where it: "it = (lk, fault)" by fastforce
  obtain n b1 s1 where db: "dispatch_batch publish 50 (outbox_max_attempts cfg) lk b s = (n, b1, s1)"
    by (metis prod_cases3)
  obtain ds where ds: "acked b1 = acked b @ ds" "list_all2 (accounted ds) (outbox_messages s) (outbox_messages s1)"
    using batch_accounted[OF Cons.prems(1) db] by blast
  show ?case
  proof (cases fault)
    case None
    have "distinct (map o_id (outbox_messages s1))" using accounted_ids[OF ds(2)] Cons.prems(1) by simp
    moreover have "fold (dispatcher_iteration cfg publish) its (next_delay cfg d (Inr n), b1, s1) = (d', b', s')"
      using Cons.prems(2) None by (simp add: dispatcher_iteration_def it db)
    ultimately obtain ds' where "acked b' = acked b1 @ ds'"
        "list_all2 (accounted ds') (outbox_messages s1) (outbox_messages s')"
      using Cons.IH by blast
    moreover then have "list_all2 (accounted (ds @ ds')) (outbox_messages s) (outbox_messages s')"
      by (intro list_all2_trans[OF _ ds(2)]) (rule accounted_trans)
    ultimately show ?thesis using ds(1) by auto
  next
    case (Some e)
    have "fold (dispatcher_iteration cfg publish) its (next_delay cfg d (Inl e), b1, s) = (d', b', s')"
      using Cons.prems(2) Some by (simp add: dispatcher_iteration_def it db)
    then obtain ds' where "acked b' = acked b1 @ ds'"
        "list_all2 (accounted ds') (outbox_messages s) (outbox_messages s')"
      using Cons.IH[OF Cons.prems(1)] by blast
    then show ?thesis
      using ds(1) list_all2_mono[OF _ accounted_trans[OF accounted_refl]] by (intro exI[of _ "ds @ ds'"]) auto
  qed
qed

lemma dispatcher_published_acked:
  assumes "distinct (map o_id (outbox_messages s))" "published_acked (acked b) s"
  shows "published_acked (acked (fst (snd (fold (dispatcher_iteration cfg publish) its (d, b, s)))))
    (snd (snd (fold (dispatcher_iteration cfg publish) its (d, b, s))))"
proof -
  obtain d' b' s' where f: "fold (dispatcher_iteration cfg publish) its (d, b, s) = (d', b', s')" by (metis prod_cases3)
  from dispatcher_accounted[OF assms(1) f] assms(2) show ?thesis
    by (auto simp: f intro: accounted_published)
qed

lemma accepting_batch:
  assumes "accepting publish" "distinct (map o_id (outbox_messages s))"
    and "\<forall>m\<in>set (outbox_messages s). envelope_ok (o_envelope m)"
    and "dispatch_batch publish limit k (\<lambda>_. False) b s = (n, b', s')"
  shows "acked b' = acked b @ map delivery_of (take limit (pending_sorted k s))"
  using loop_acks[of "batch s limit k (\<lambda>_. False)" 0 b s n b' s'] assms(4)
    accepting_count[OF assms(1,3,4)] by (simp add: dispatch_batch_def batch_pending_sorted min_def split: if_splits)

lemma dispatcher_drained:
  assumes "accepting publish" "distinct (map o_id (outbox_messages s))"
    and "\<forall>m\<in>set (outbox_messages s). envelope_ok (o_envelope m)"
    and "fold (dispatcher_iteration cfg publish) (replicate i (\<lambda>_. False, None)) (d, b, s) = (d', b', s')"
  shows "acked b' = acked b @ map delivery_of (take (50 * i) (pending_sorted (outbox_max_attempts cfg) s)) \<and>
    list_all2 (drained_row (clock s) (take (50 * i) (pending_sorted (outbox_max_attempts cfg) s)))
      (outbox_messages s) (outbox_messages s')"
  using assms(2-4)
proof (induction i arbitrary: d b s)
  case 0
  then show ?case by (auto simp: list_all2_same drained_row_def)
next
  case (Suc i)
  let ?k = "outbox_max_attempts cfg"
  obtain n b1 s1 where db: "dispatch_batch publish 50 ?k (\<lambda>_. False) b s = (n, b1, s1)" by (metis prod_cases3)
  have rest: "fold (dispatcher_iteration cfg publish) (replicate i (\<lambda>_. False, None)) (next_delay cfg d (Inr n), b1, s1) = (d', b', s')"
    using Suc.prems(3) by (simp add: dispatcher_iteration_def db)
  note step = accepting_step[OF assms(1) Suc.prems(1,2) db]
  note IH = Suc.IH[OF step(3,4) rest, unfolded step(2,5)]
  have split: "take (50 * Suc i) (pending_sorted ?k s) =
      take 50 (pending_sorted ?k s) @ take (50 * i) (drop 50 (pending_sorted ?k s))"
    by (simp add: take_add)
  have "list_all2 (drained_row (clock s) (take (50 * Suc i) (pending_sorted ?k s))) (outbox_messages s) (outbox_messages s')"
  proof (rule list_all2_trans[OF _ step(1) conjunct2[OF IH]])
    fix m m1 m' assume r: "drained_row (clock s) (take 50 (pending_sorted ?k s)) m m1"
      "drained_row (clock s) (take (50 * i) (drop 50 (pending_sorted ?k s))) m1 m'"
    have "m1 \<notin> set (take (50 * i) (drop 50 (pending_sorted ?k s)))" if "o_published_at m1 \<noteq> None"
      using that by (auto simp: pending_sorted_def pending_def dispatchable_def dest!: in_set_takeD in_set_dropD)
    with r show "drained_row (clock s) (take (50 * Suc i) (pending_sorted ?k s)) m m'"
      unfolding split by (auto simp: drained_row_def split: if_splits)
  qed
  then show ?case
    using IH accepting_batch[OF assms(1) Suc.prems(1,2) db] unfolding split by simp
qed

end

lemma kafka_publish_acked:
  "kafka_publish p b t k e = (Inr u, b') \<Longrightarrow> kb_acked b' = kb_acked b @ [(t, k, e)]"
  "kafka_publish p b t k e = (Inl x, b') \<Longrightarrow> kb_acked b' = kb_acked b"
  by (auto simp: kafka_publish_def broker_start_def split: prod.splits sum.splits if_splits)

interpretation kafka: acked_broker "kafka_publish p" kb_acked for p
  by unfold_locales (fact kafka_publish_acked)+


section \<open>Properties of the outbox\<close>

text \<open>The selection \<open>... ORDER BY created_at LIMIT n\<close>, whatever the database does with equal times.\<close>

definition oldest_of :: "(outbox_message \<Rightarrow> bool) \<Rightarrow> nat \<Rightarrow> outbox_message list \<Rightarrow> outbox_message list \<Rightarrow> bool" where
  "oldest_of P n ms M \<longleftrightarrow> distinct M \<and> (\<forall>m\<in>set M. m \<in> set ms \<and> P m) \<and> length M = min n (length (filter P ms)) \<and>
     sorted (map o_created_at M) \<and> (\<forall>m\<in>set ms. P m \<longrightarrow> m \<notin> set M \<longrightarrow> (\<forall>x\<in>set M. o_created_at x \<le> o_created_at m))"

lemma oldest_of_take:
  assumes "distinct ms"
  shows "oldest_of P n ms (take n (sort_key o_created_at (filter P ms)))"
proof -
  let ?S = "sort_key o_created_at (filter P ms)"
  have "o_created_at x \<le> o_created_at m"
    if x: "x \<in> set (take n ?S)" and m: "m \<in> set ms" "P m" "m \<notin> set (take n ?S)" for x m
  proof -
    have "m \<in> set ?S" using m(1,2) by simp
    then have "m \<in> set (drop n ?S)" using m(3) append_take_drop_id[of n ?S] by (metis Un_iff set_append)
    moreover have "sorted_wrt (\<lambda>a c. o_created_at a \<le> o_created_at c) (take n ?S @ drop n ?S)"
      using sorted_sort_key[of o_created_at "filter P ms"] by (simp add: sorted_map)
    ultimately show ?thesis using x unfolding sorted_wrt_append by blast
  qed
  moreover have "sorted (map o_created_at (take n ?S))"
    unfolding take_map[symmetric] by (rule sorted_wrt_take) simp
  moreover have "x \<in> set ms \<and> P x" if "x \<in> set (take n ?S)" for x using in_set_takeD[OF that] by simp
  moreover have "length (take n ?S) = min n (length (filter P ms))" by simp
  moreover have "distinct (take n ?S)" using assms by (simp add: distinct_take)
  ultimately show ?thesis unfolding oldest_of_def by blast
qed

lemma batch_oldest:
  assumes "distinct (map o_id (outbox_messages s))"
  shows "oldest_of (\<lambda>m. o_published_at m = None \<and> o_publish_attempts m < k \<and> \<not> lk (o_id m)) limit
    (outbox_messages s) (batch s limit k lk)"
proof -
  have "dispatchable k lk = (\<lambda>m. o_published_at m = None \<and> o_publish_attempts m < k \<and> \<not> lk (o_id m))"
    by (simp add: fun_eq_iff dispatchable_def)
  then show ?thesis using oldest_of_take assms by (metis batch_def distinct_map)
qed

lemma batch_row_exact:
  assumes dst: "distinct (map o_id (outbox_messages s))" and m: "m \<in> set (outbox_messages s)"
    and row: "batch_row c e (batch s limit k lk) n m m'"
  shows "if m \<in> set (take n (batch s limit k lk)) then \<exists>j. m' = mark_published (c j) m
    else if n < length (batch s limit k lk) \<and> m = batch s limit k lk ! n then m' = mark_failed e m else m' = m"
proof -
  let ?B = "batch s limit k lk"
  note tk = batch_ids[OF dst m, of n limit k lk]
  have nt: "n < length ?B \<and> o_id m = o_id (?B ! n) \<longleftrightarrow> n < length ?B \<and> m = ?B ! n"
    using batch_id[OF dst m nth_mem] by blast
  show ?thesis using row unfolding batch_row_def tk nt .
qed

text \<open>
  C17. A batch publishes a prefix and stops at the first failure. It selects the oldest \<open>limit\<close> messages \<open>B\<close>
  that are unpublished, below the attempt bound and not locked by somebody else. The first \<open>n\<close> of them are
  sent, in this order, and their \<open>publish\<close> returned; the next one, if there is one, failed with the exception
  \<open>e\<close> (its stored envelope is invalid, or \<open>publish\<close> raised), and the broker is not called again. The rows of
  the first \<open>n\<close> are marked published at a time of the clock with their error cleared, the failed one has one
  more attempt and the name of the exception as its error, every other row of the table is unchanged; \<open>n\<close> is
  the result, and no attempt counter exceeds the bound.
\<close>

theorem dispatch_batch_prefix:
  assumes "distinct (map o_id (outbox_messages s))" "dispatch_batch publish limit k lk b s = (n, b', s')"
    and "\<forall>m\<in>set (outbox_messages s). o_publish_attempts m \<le> k"
  shows "\<exists>B b1 e.
    oldest_of (\<lambda>m. o_published_at m = None \<and> o_publish_attempts m < k \<and> \<not> lk (o_id m)) limit (outbox_messages s) B \<and>
    n \<le> length B \<and> sent publish (take n B) b = Some b1 \<and>
    (if n < length B then refused publish (B ! n) b1 e b' else b' = b1) \<and>
    list_all2 (\<lambda>m m'.
      if m \<in> set (take n B) then \<exists>j. m' = m\<lparr>o_published_at := Some (clock s j), o_last_error := None\<rparr>
      else if n < length B \<and> m = B ! n
      then m' = m\<lparr>o_publish_attempts := o_publish_attempts m + 1, o_last_error := Some (take 500 (exn_name e))\<rparr>
      else m' = m) (outbox_messages s) (outbox_messages s') \<and>
    (\<forall>m\<in>set (outbox_messages s'). o_publish_attempts m \<le> k)"
proof -
  let ?B = "batch s limit k lk"
  obtain b1 e where b: "n \<le> length ?B" "sent publish (take n ?B) b = Some b1"
      "if n < length ?B then refused publish (?B ! n) b1 e b' else b' = b1"
    and rows: "list_all2 (batch_row (clock s) e ?B n) (outbox_messages s) (outbox_messages s')"
    using dispatch_batch_rows[OF assms(1,2)] by blast
  let ?R = "\<lambda>m m'. if m \<in> set (take n ?B) then \<exists>j. m' = mark_published (clock s j) m
    else if n < length ?B \<and> m = ?B ! n then m' = mark_failed e m else m' = m"
  have exact: "list_all2 ?R (outbox_messages s) (outbox_messages s')"
    by (rule list.rel_mono_strong[OF rows]) (rule batch_row_exact[OF assms(1)])
  have "o_publish_attempts m' \<le> k" if "m \<in> set (outbox_messages s)" "?R m m'" for m m'
  proof -
    have "o_publish_attempts m < k" if "n < length ?B" "m = ?B ! n"
      using that batchD(2)[OF nth_mem[OF that(1)]] by (simp add: dispatchable_def)
    with that assms(3) show ?thesis by (auto split: if_splits)
  qed
  then have "list_all2 (\<lambda>m m'. o_publish_attempts m' \<le> k) (outbox_messages s) (outbox_messages s')"
    by (rule list.rel_mono_strong[OF exact])
  then have "\<forall>m\<in>set (outbox_messages s'). o_publish_attempts m \<le> k"
    by (auto simp: list_all2_conv_all_nth in_set_conv_nth)
  with b batch_oldest[OF assms(1)] exact show ?thesis
    unfolding mark_published_def mark_failed_def by blast
qed

definition demo_envelope :: "uuid \<Rightarrow> event_envelope" where
  "demo_envelope i = \<lparr>ev_event_id = i, ev_event_version = 1, ev_event_type = ''run.queued'', ev_occurred_at = 0,
     ev_correlation_id = ''c'', ev_run_id = Some 10, ev_worker_id = None, ev_payload = []\<rparr>"

definition demo_message :: "uuid \<Rightarrow> outbox_message" where
  "demo_message i = \<lparr>o_id = i, o_topic = ''runs'', o_partition_key = ''k'', o_envelope = demo_envelope (i + 1),
     o_created_at = int i, o_published_at = None, o_publish_attempts = 0, o_last_error = None\<rparr>"

definition demo_outbox_db :: db where
  "demo_outbox_db = demo_db\<lparr>outbox_messages := [demo_message 41, demo_message 31]\<rparr>"

text \<open>A producer whose broker has gone away after the first \<open>k\<close> sends.\<close>

definition demo_producer :: "nat producer" where
  "demo_producer = \<lparr>pr_start = (\<lambda>k. (Inr (), k)), pr_stop = (\<lambda>k. (Inr (), k)),
     pr_send = (\<lambda>k t key e. case k of 0 \<Rightarrow> (Inl (OtherError ''KafkaConnectionError''), 0) | Suc n \<Rightarrow> (Inr (), n))\<rparr>"

definition demo_broker :: "nat \<Rightarrow> nat kafka_broker" where
  "demo_broker k = \<lparr>kb_started = False, kb_producer = k, kb_acked = []\<rparr>"

lemmas demo_outbox_defs = demo_outbox_db_def demo_message_def demo_envelope_def demo_producer_def demo_broker_def
  demo_db_def

theorem dispatch_batch_prefix_witness:
  "\<exists>n b s'. dispatch_batch (kafka_publish demo_producer) 50 10 (\<lambda>_. False) (demo_broker 1) demo_outbox_db = (n, b, s') \<and>
     (\<exists>B. oldest_of (\<lambda>m. o_published_at m = None \<and> o_publish_attempts m < 10 \<and> \<not> False) 50 (outbox_messages demo_outbox_db) B \<and>
       n \<le> length B) \<and> (\<forall>m\<in>set (outbox_messages s'). o_publish_attempts m \<le> 10)"
proof -
  obtain n b s' where d: "dispatch_batch (kafka_publish demo_producer) 50 10 (\<lambda>_. False) (demo_broker 1)
      demo_outbox_db = (n, b, s')" by (metis prod_cases3)
  have "distinct (map o_id (outbox_messages demo_outbox_db))" "\<forall>m\<in>set (outbox_messages demo_outbox_db). o_publish_attempts m \<le> 10"
    by (simp_all add: demo_outbox_defs)
  from dispatch_batch_prefix[OF this(1) d this(2)] d show ?thesis by blast
qed

text \<open>
  C18. No message is lost. For the Kafka broker with any client library, through any number of dispatcher
  iterations, whatever rows are locked, whenever the broker refuses and whenever the database rolls an
  iteration back: let \<open>ds\<close> be what the broker acknowledged meanwhile. Every row of the outbox is still there, in
  its place, with its identity, topic, key, envelope and time; a published row is not touched again; a failed
  one is only counted; and a row has become published only if its message is among \<open>ds\<close>. So whatever is
  stored as published has been acknowledged by the broker, and what is not stored as published is still there.
\<close>

theorem dispatcher_never_loses_a_message:
  assumes "distinct (map o_id (outbox_messages s))" "published_acked (kb_acked b) s"
    and "run_outbox_dispatcher cfg (kafka_publish p) its b s = (d, b', s')"
  shows "\<exists>ds. kb_acked b' = kb_acked b @ ds \<and>
    list_all2 (\<lambda>m m'. o_id m' = o_id m \<and> o_topic m' = o_topic m \<and> o_partition_key m' = o_partition_key m \<and>
      o_envelope m' = o_envelope m \<and> o_created_at m' = o_created_at m \<and>
      o_publish_attempts m \<le> o_publish_attempts m' \<and> (o_published_at m \<noteq> None \<longrightarrow> m' = m) \<and>
      (o_published_at m = None \<and> o_published_at m' \<noteq> None \<longrightarrow>
        (o_topic m, o_partition_key m, o_envelope m) \<in> set ds)) (outbox_messages s) (outbox_messages s') \<and>
    (\<forall>m\<in>set (outbox_messages s'). o_published_at m \<noteq> None \<longrightarrow>
      (o_topic m, o_partition_key m, o_envelope m) \<in> set (kb_acked b'))"
proof -
  obtain ds where ds: "kb_acked b' = kb_acked b @ ds" "list_all2 (accounted ds) (outbox_messages s) (outbox_messages s')"
    using kafka.dispatcher_accounted[OF assms(1) assms(3)[unfolded run_outbox_dispatcher_def]] by blast
  then have "published_acked (kb_acked b') s'" using accounted_published[OF ds(2) assms(2)] by simp
  moreover have "list_all2 (\<lambda>m m'. o_id m' = o_id m \<and> o_topic m' = o_topic m \<and> o_partition_key m' = o_partition_key m \<and>
      o_envelope m' = o_envelope m \<and> o_created_at m' = o_created_at m \<and>
      o_publish_attempts m \<le> o_publish_attempts m' \<and> (o_published_at m \<noteq> None \<longrightarrow> m' = m) \<and>
      (o_published_at m = None \<and> o_published_at m' \<noteq> None \<longrightarrow>
        (o_topic m, o_partition_key m, o_envelope m) \<in> set ds)) (outbox_messages s) (outbox_messages s')"
    by (rule list_all2_mono[OF ds(2)]) (simp add: accounted_def)
  ultimately show ?thesis using ds(1) unfolding published_acked_def by blast
qed

theorem dispatcher_never_loses_a_message_witness:
  "\<exists>d b s'. run_outbox_dispatcher default_settings (kafka_publish demo_producer)
       [(\<lambda>_. False, None), (\<lambda>_. False, Some IntegrityError)] (demo_broker 1) demo_outbox_db = (d, b, s') \<and>
     map o_id (outbox_messages s') = [41, 31] \<and> published_acked (kb_acked b) s'"
proof -
  obtain d b s' where r: "run_outbox_dispatcher default_settings (kafka_publish demo_producer)
       [(\<lambda>_. False, None), (\<lambda>_. False, Some IntegrityError)] (demo_broker 1) demo_outbox_db = (d, b, s')"
    by (metis prod_cases3)
  have i: "distinct (map o_id (outbox_messages demo_outbox_db))" "published_acked (kb_acked (demo_broker 1)) demo_outbox_db"
    "outbox_messages demo_outbox_db = [demo_message 41, demo_message 31]"
    by (simp_all add: demo_outbox_defs published_acked_def)
  from dispatcher_never_loses_a_message[OF i(1,2) r] have "map o_id (outbox_messages s') = [41, 31]"
    "published_acked (kb_acked b) s'"
    unfolding i(3) published_acked_def by (auto simp: list_all2_Cons1 demo_message_def)
  with r show ?thesis by (intro exI conjI)
qed

text \<open>
  C19. The outbox drains. With a Kafka client that accepts every message, valid stored envelopes and no
  disturbance, \<open>i\<close> iterations of the dispatcher send exactly the oldest fifty times \<open>i\<close> pending messages \<open>M\<close>,
  oldest first, once each, and mark exactly these as published, at times of the clock; so a backlog of at most
  \<open>50 * i\<close> messages is sent completely and nothing stays pending.
\<close>

theorem dispatcher_drains_outbox:
  assumes "accepting (kafka_publish p)" "distinct (map o_id (outbox_messages s))"
    and "\<forall>m\<in>set (outbox_messages s). envelope_ok (o_envelope m)"
    and "run_outbox_dispatcher cfg (kafka_publish p) (replicate i (\<lambda>_. False, None)) b s = (d, b', s')"
  shows "\<exists>M. oldest_of (\<lambda>m. o_published_at m = None \<and> o_publish_attempts m < outbox_max_attempts cfg) (50 * i)
      (outbox_messages s) M \<and>
    kb_acked b' = kb_acked b @ map (\<lambda>m. (o_topic m, o_partition_key m, o_envelope m)) M \<and>
    list_all2 (\<lambda>m m'. if m \<in> set M then \<exists>j. m' = m\<lparr>o_published_at := Some (clock s j), o_last_error := None\<rparr>
      else m' = m) (outbox_messages s) (outbox_messages s') \<and>
    length (filter (\<lambda>m. o_published_at m = None \<and> o_publish_attempts m < outbox_max_attempts cfg) (outbox_messages s')) =
    length (filter (\<lambda>m. o_published_at m = None \<and> o_publish_attempts m < outbox_max_attempts cfg) (outbox_messages s)) - 50 * i"
proof -
  let ?k = "outbox_max_attempts cfg" and ?P = "\<lambda>m. o_published_at m = None \<and> o_publish_attempts m < outbox_max_attempts cfg"
  let ?M = "take (50 * i) (pending_sorted ?k s)"
  note f = assms(4)[unfolded run_outbox_dispatcher_def]
  note dr = kafka.dispatcher_drained[OF assms(1-3) f]
  have P: "dispatchable ?k (\<lambda>_. False) = ?P" by (simp add: fun_eq_iff dispatchable_def)
  have "oldest_of ?P (50 * i) (outbox_messages s) ?M"
    using oldest_of_take[of "outbox_messages s" ?P] assms(2)
    unfolding pending_sorted_def pending_def P by (simp add: distinct_map)
  moreover have "list_all2 (\<lambda>m m'. if m \<in> set ?M then \<exists>j. m' = m\<lparr>o_published_at := Some (clock s j), o_last_error := None\<rparr>
      else m' = m) (outbox_messages s) (outbox_messages s')"
    by (rule list_all2_mono[OF conjunct2[OF dr]]) (simp add: drained_row_def mark_published_def split: if_splits)
  moreover have "length (filter ?P (outbox_messages s')) = length (filter ?P (outbox_messages s)) - 50 * i"
    using dispatcher_drains[OF assms(1-3), of cfg i "outbox_poll_seconds cfg" b] unfolding f pending_def P by simp
  ultimately show ?thesis using conjunct1[OF dr] by blast
qed

text \<open>A Kafka client whose broker is there.\<close>

definition healthy_producer :: "unit producer" where
  "healthy_producer = \<lparr>pr_start = (\<lambda>k. (Inr (), k)), pr_stop = (\<lambda>k. (Inr (), k)), pr_send = (\<lambda>k t key e. (Inr (), k))\<rparr>"

lemma healthy_accepting: "accepting (kafka_publish healthy_producer)"
  by (simp add: accepting_def kafka_publish_def broker_start_def healthy_producer_def)

theorem dispatcher_drains_outbox_witness:
  "\<exists>d b s'. run_outbox_dispatcher default_settings (kafka_publish healthy_producer) (replicate 1 (\<lambda>_. False, None))
       \<lparr>kb_started = False, kb_producer = (), kb_acked = []\<rparr> demo_outbox_db = (d, b, s') \<and>
     length (kb_acked b) = 2 \<and> pending 10 s' = []"
proof -
  obtain d b s' where r: "run_outbox_dispatcher default_settings (kafka_publish healthy_producer)
      (replicate 1 (\<lambda>_. False, None)) \<lparr>kb_started = False, kb_producer = (), kb_acked = []\<rparr> demo_outbox_db = (d, b, s')"
    by (metis prod_cases3)
  have i: "distinct (map o_id (outbox_messages demo_outbox_db))"
    "\<forall>m\<in>set (outbox_messages demo_outbox_db). envelope_ok (o_envelope m)"
    "length (filter (\<lambda>m. o_published_at m = None \<and> o_publish_attempts m < 10) (outbox_messages demo_outbox_db)) = 2"
    "outbox_max_attempts default_settings = 10"
    by (simp_all add: demo_outbox_defs envelope_ok_def default_settings_def)
  from dispatcher_drains_outbox[OF healthy_accepting i(1,2) r]
  have "length (kb_acked b) = 2" "length (pending 10 s') = 0"
    by (auto simp: i oldest_of_def pending_def dispatchable_def[abs_def])
  with r show ?thesis by blast
qed

text \<open>
  The pause between iterations backs off and stays bounded: whatever the iterations do, the delay
  never exceeds five seconds (or the configured poll interval, if that is longer) and never falls
  below the smaller of the two; every iteration that published something resets it to the interval.
\<close>

lemma dispatcher_delay_bounds:
  assumes "0 \<le> outbox_poll_seconds cfg" "run_outbox_dispatcher cfg publish its b s = (d, b', s')"
  shows "min (outbox_poll_seconds cfg) 5 \<le> d \<and> d \<le> max (outbox_poll_seconds cfg) 5"
proof -
  have step: "min (outbox_poll_seconds cfg) 5 \<le> next_delay cfg e r \<and> next_delay cfg e r \<le> max (outbox_poll_seconds cfg) 5"
    if "min (outbox_poll_seconds cfg) 5 \<le> e" for e r
    using that assms(1) by (cases r) (auto simp: min_def max_def)
  have "min (outbox_poll_seconds cfg) 5 \<le> fst (fold (dispatcher_iteration cfg publish) its (e, b, s)) \<and>
      fst (fold (dispatcher_iteration cfg publish) its (e, b, s)) \<le> max (outbox_poll_seconds cfg) 5"
    if "min (outbox_poll_seconds cfg) 5 \<le> e" "e \<le> max (outbox_poll_seconds cfg) 5" for e b s
    using that
  proof (induction its arbitrary: e b s)
    case (Cons it its)
    obtain e1 b1 s1 where it: "dispatcher_iteration cfg publish it (e, b, s) = (e1, b1, s1)" by (metis prod_cases3)
    have "\<exists>r. e1 = next_delay cfg e r"
      using it by (auto simp: dispatcher_iteration_def case_prod_beta Let_def
          simp del: next_delay.simps split: option.splits)
    with step[OF Cons.prems(1)] Cons.IH[of e1 b1 s1] show ?case by (auto simp: it)
  qed simp
  from this[of "outbox_poll_seconds cfg" b s] assms(2) show ?thesis
    by (simp add: run_outbox_dispatcher_def)
qed

end
