(* ===== verification/Platform.thy ===== *)
theory Platform
  imports Listing Outbox Storage Templates
begin

text \<open>
  The endpoints about the platform itself: workers (\<open>api/workers.py\<close>, \<open>schemas/workers.py\<close>), health,
  readiness and summary (\<open>api/health.py\<close>) and the Prometheus gauges (\<open>metrics.py\<close>). The clients of
  Redis, Kafka and S3 are parameters; a probe is its outcome together with the time it took.
\<close>

section \<open>Workers\<close>

record worker_register =
  wr_name :: string
  wr_total_cpu :: rat
  wr_total_memory_mb :: int

definition worker_register_ok :: "worker_register \<Rightarrow> bool" where
  "worker_register_ok b \<longleftrightarrow> 1 \<le> length (wr_name b) \<and> length (wr_name b) \<le> 120 \<and>
     0 < wr_total_cpu b \<and> wr_total_cpu b \<le> 128 \<and> 0 < wr_total_memory_mb b \<and> wr_total_memory_mb b \<le> 1048576"

record allocation_response =
  al_id :: uuid
  al_run_id :: uuid
  al_worker_id :: uuid
  al_cpu :: rat
  al_memory_mb :: int
  al_lease_expires_at :: time
  al_released_at :: "time option"

record worker_detail =
  wd_worker :: worker
  wd_active_allocations :: "allocation_response list"

definition worker_not_found :: exn where
  "worker_not_found = app_err ''worker_not_found'' ''Worker was not found'' 404 []"

definition get_worker_or_404 :: "db \<Rightarrow> uuid \<Rightarrow> worker res" where
  "get_worker_or_404 s wid = (case get_worker s wid of None \<Rightarrow> Inl worker_not_found | Some w \<Rightarrow> Inr w)"

definition list_workers :: "db \<Rightarrow> worker list" where
  "list_workers s = sort_key (\<lambda>w. (w_status w, collation s (w_name w))) (workers s)"

definition allocation_response_of :: "resource_allocation \<Rightarrow> allocation_response" where
  "allocation_response_of a =
     \<lparr>al_id = a_id a, al_run_id = a_run_id a, al_worker_id = a_worker_id a, al_cpu = a_cpu a,
      al_memory_mb = a_memory_mb a, al_lease_expires_at = a_lease_expires_at a, al_released_at = a_released_at a\<rparr>"

definition read_worker :: "uuid \<Rightarrow> db \<Rightarrow> worker_detail res" where
  "read_worker wid s =
     res_bind (get_worker_or_404 s wid) (\<lambda>w.
       Inr \<lparr>wd_worker = w,
         wd_active_allocations = map allocation_response_of
           (sort_key a_lease_expires_at (active_of (w_id w) (resource_allocations s)))\<rparr>)"

text \<open>The registry returns the worker it registered; a missing one stands for the impossible case.\<close>

definition register_endpoint :: "worker_register \<Rightarrow> db \<Rightarrow> (worker \<times> db) res" where
  "register_endpoint body s =
     (case register_worker s (py_strip (wr_name body)) (wr_total_cpu body) (wr_total_memory_mb body) of
        (Some w, s1) \<Rightarrow> Inr (w, s1)
      | (None, s1) \<Rightarrow> Inl (OtherError ''InvalidRequestError''))"

definition heartbeat_endpoint :: "settings \<Rightarrow> uuid \<Rightarrow> db \<Rightarrow> (worker \<times> db) res" where
  "heartbeat_endpoint cfg wid s =
     (case heartbeat_worker s wid (allocation_lease_seconds cfg) of
        (Some w, s1) \<Rightarrow> Inr (w, s1)
      | (None, s1) \<Rightarrow> Inl worker_not_found)"


section \<open>Dependencies\<close>

datatype dependency = Healthy | Unavailable

record dependency_status =
  ds_status :: dependency
  ds_latency_ms :: rat

record probe_run =
  pb_outcome :: "unit res"
  pb_elapsed :: rat

text \<open>
  \<open>timed_probe\<close>: a probe that raises, or is not done within two seconds, makes the dependency
  unavailable. The latency is in milliseconds with two decimals.
\<close>

definition timed_probe :: "probe_run \<Rightarrow> dependency_status" where
  "timed_probe p =
     \<lparr>ds_status = (if is_ok (pb_outcome p) \<and> pb_elapsed p < 2 then Healthy else Unavailable),
      ds_latency_ms = of_int (round_half_even (pb_elapsed p * 1000 * 100)) / 100\<rparr>"

record redis_client =
  rd_ping :: "unit res"
  rd_get :: "string \<Rightarrow> string option res"
  rd_close :: "unit res"

text \<open>\<open>try: ... finally: close()\<close>: an exception of the clean-up wins.\<close>

definition finally_do :: "'a res \<Rightarrow> unit res \<Rightarrow> 'a res" where
  "finally_do m cleanup = res_bind cleanup (\<lambda>_. m)"

definition probe_redis :: "redis_client \<Rightarrow> unit res" where
  "probe_redis c = finally_do (rd_ping c) (rd_close c)"

definition probe_scheduler :: "redis_client \<Rightarrow> unit res" where
  "probe_scheduler c =
     finally_do (res_bind (rd_get c ''runscope:scheduler:heartbeat'') (\<lambda>v.
        case v of None \<Rightarrow> Inl (RuntimeError ''Scheduler heartbeat is absent'') | Some _ \<Rightarrow> Inr ())) (rd_close c)"

definition probe_redpanda :: "'k producer \<Rightarrow> 'k \<Rightarrow> unit res" where
  "probe_redpanda p k =
     (let (outcome, b1) = broker_start p \<lparr>kb_started = False, kb_producer = k, kb_acked = []\<rparr>
      in finally_do outcome (fst (broker_stop p b1)))"

record probes =
  pr_postgresql :: probe_run
  pr_redis :: probe_run
  pr_redpanda :: probe_run
  pr_minio :: probe_run
  pr_scheduler :: probe_run

definition dependency_statuses :: "probes \<Rightarrow> (string \<times> dependency_status) list" where
  "dependency_statuses p =
     [(''api'', \<lparr>ds_status = Healthy, ds_latency_ms = 0\<rparr>),
      (''postgresql'', timed_probe (pr_postgresql p)), (''redis'', timed_probe (pr_redis p)),
      (''redpanda'', timed_probe (pr_redpanda p)), (''minio'', timed_probe (pr_minio p)),
      (''scheduler'', timed_probe (pr_scheduler p))]"

definition health :: "string \<times> string" where
  "health = (''ok'', ''api'')"

record readiness_response =
  rr_status_code :: int
  rr_status :: string
  rr_dependencies :: "(string \<times> dependency) list"

definition healthy_in :: "(string \<times> dependency_status) list \<Rightarrow> string \<Rightarrow> bool" where
  "healthy_in statuses name = (case map_of statuses name of None \<Rightarrow> False | Some d \<Rightarrow> ds_status d = Healthy)"

definition readiness :: "probes \<Rightarrow> readiness_response" where
  "readiness p =
     (let statuses = dependency_statuses p;
          ready = list_all (healthy_in statuses) [''postgresql'', ''redis'', ''redpanda'', ''minio'']
      in \<lparr>rr_status_code = (if ready then 200 else 503), rr_status = (if ready then ''ready'' else ''not_ready''),
          rr_dependencies = map (\<lambda>(n, d). (n, ds_status d)) statuses\<rparr>)"

definition dependency_health :: "probes \<Rightarrow> string \<times> (string \<times> dependency_status) list" where
  "dependency_health p =
     (let dependencies = dependency_statuses p
      in (if list_all (\<lambda>(_, d). ds_status d = Healthy) dependencies then ''healthy'' else ''degraded'', dependencies))"


section \<open>The summary\<close>

record platform_summary =
  ps_active_runs :: nat
  ps_queued_runs :: nat
  ps_failed_runs :: nat
  ps_successful_runs :: nat
  ps_success_rate :: rat
  ps_average_duration_seconds :: "rat option"
  ps_workers_online :: nat
  ps_workers_total :: nat
  ps_available_cpu :: rat
  ps_total_cpu :: rat
  ps_available_memory_mb :: int
  ps_total_memory_mb :: int
  ps_queue_depth :: nat
  ps_unpublished_messages :: nat

definition count_status :: "db \<Rightarrow> run_status list \<Rightarrow> nat" where
  "count_status s ts = length (filter (\<lambda>r. r_status r \<in> set ts) (runs s))"

text \<open>\<open>(completed_at - started_at).total_seconds()\<close> of the runs that have both.\<close>

definition run_durations :: "db \<Rightarrow> rat list" where
  "run_durations s =
     concat (map (\<lambda>r. case (r_started_at r, r_completed_at r) of
        (Some a, Some b) \<Rightarrow> [of_int (b - a) / 1000000] | _ \<Rightarrow> []) (runs s))"

definition online_workers :: "db \<Rightarrow> worker list" where
  "online_workers s = filter (\<lambda>w. w_status w = ONLINE) (workers s)"

definition platform_summary_of :: "db \<Rightarrow> platform_summary" where
  "platform_summary_of s =
     (let terminal = count_status s [SUCCEEDED, FAILED, CANCELLED];
          successful = count_status s [SUCCEEDED];
          durations = run_durations s;
          online = online_workers s;
          queued = count_status s [QUEUED]
      in \<lparr>ps_active_runs = count_status s [SCHEDULING, RUNNING, CANCELLING], ps_queued_runs = queued,
          ps_failed_runs = count_status s [FAILED], ps_successful_runs = successful,
          ps_success_rate = (if terminal \<noteq> 0 then of_nat successful / of_nat terminal else 0),
          ps_average_duration_seconds =
            (if durations \<noteq> [] then Some (sum_list durations / of_nat (length durations)) else None),
          ps_workers_online = length online, ps_workers_total = length (workers s),
          ps_available_cpu = sum_list (map w_available_cpu online), ps_total_cpu = sum_list (map w_total_cpu online),
          ps_available_memory_mb = sum_list (map w_available_memory_mb online),
          ps_total_memory_mb = sum_list (map w_total_memory_mb online), ps_queue_depth = queued,
          ps_unpublished_messages = length (filter (\<lambda>m. o_published_at m = None) (outbox_messages s))\<rparr>)"


section \<open>Metrics\<close>

record gauges =
  g_runs_by_status :: "(string \<times> nat) list"
  g_queue_depth :: nat
  g_workers_online :: nat
  g_worker_cpu_available :: rat
  g_outbox_backlog :: nat

definition all_statuses :: "run_status list" where
  "all_statuses = [DRAFT, QUEUED, SCHEDULING, RUNNING, SUCCEEDED, FAILED, CANCELLING, CANCELLED, RETRYING]"

definition refresh_domain_metrics :: "db \<Rightarrow> int \<Rightarrow> gauges" where
  "refresh_domain_metrics s max_outbox_attempts =
     \<lparr>g_runs_by_status = map (\<lambda>t. (status_value t, count_status s [t])) all_statuses,
      g_queue_depth = count_status s [QUEUED],
      g_workers_online = length (filter (\<lambda>w. w_status w = ONLINE) (workers s)),
      g_worker_cpu_available = sum_list (map w_available_cpu (filter (\<lambda>w. w_status w = ONLINE) (workers s))),
      g_outbox_backlog = length (filter (\<lambda>m. o_published_at m = None \<and> o_publish_attempts m < max_outbox_attempts)
        (outbox_messages s))\<rparr>"

text \<open>The endpoint of the exposition; the text format is the client library's.\<close>

definition prometheus_metrics :: "settings \<Rightarrow> db \<Rightarrow> gauges" where
  "prometheus_metrics cfg s = refresh_domain_metrics s (outbox_max_attempts cfg)"

text \<open>
  \<open>MetricsMiddleware.dispatch\<close>: one more request of a method, path and status, and its duration;
  a request whose handler raised past the middleware is not counted.
\<close>

record http_metrics =
  hm_requests :: "((string \<times> string \<times> string) \<times> nat) list"
  hm_durations :: "((string \<times> string) \<times> rat) list"

definition count_request :: "string \<Rightarrow> string option \<Rightarrow> int res \<Rightarrow> rat \<Rightarrow> http_metrics \<Rightarrow> http_metrics" where
  "count_request meth route outcome elapsed m =
     (case outcome of
        Inl _ \<Rightarrow> m
      | Inr status \<Rightarrow>
          let path = (case route of None \<Rightarrow> ''unmatched'' | Some p \<Rightarrow> p);
              k = (meth, path, show_int status)
          in m\<lparr>hm_requests := AList.update k (case map_of (hm_requests m) k of None \<Rightarrow> 1 | Some n \<Rightarrow> n + 1) (hm_requests m),
               hm_durations := hm_durations m @ [((meth, path), elapsed)]\<rparr>)"

section \<open>What the platform reports\<close>

lemma busy_runs_leases:
  assumes "lifecycle_inv s"
  shows "count_status s [SCHEDULING, RUNNING, CANCELLING] = length (filter active (resource_allocations s))"
proof -
  let ?rs = "filter (\<lambda>r. r_status r \<in> set [SCHEDULING, RUNNING, CANCELLING]) (runs s)" and ?as = "filter active (resource_allocations s)"
  have inv: "status_inv s" "distinct (map r_id (runs s))" "distinct (map a_run_id ?as)"
    using assms by (auto simp: lifecycle_inv_def book_inv_def ids_inv_def)
  have busy: "busy (r_status r) \<longleftrightarrow> r_id r \<in> a_run_id ` set ?as" if "r \<in> set (runs s)" for r
    using status_invD[OF inv(1) that] leases_None_iff[of s "r_id r"] by (force split: option.splits)
  have "r_id ` set ?rs = a_run_id ` set ?as"
  proof
    show "r_id ` set ?rs \<subseteq> a_run_id ` set ?as" using busy by (auto simp: busy_def)
    show "a_run_id ` set ?as \<subseteq> r_id ` set ?rs"
    proof
      fix i assume i: "i \<in> a_run_id ` set ?as"
      then obtain r where "r \<in> set (runs s)" "r_id r = i" using inv(1) by (auto simp: status_inv_def)
      with busy[of r] i show "i \<in> r_id ` set ?rs" by (auto simp: busy_def)
    qed
  qed
  then have "card (set (map r_id ?rs)) = card (set (map a_run_id ?as))" by simp
  then show ?thesis
    using distinct_card[OF distinct_map_filter[OF inv(2)], of "\<lambda>r. r_status r \<in> set [SCHEDULING, RUNNING, CANCELLING]"]
      distinct_card[OF inv(3)] by (simp add: count_status_def)
qed

lemma count_status_sum: "sum_list (map (\<lambda>t. count_status s [t]) all_statuses) = length (runs s)"
proof -
  have one: "sum_list (map (\<lambda>t. if r_status r = t then 1 else (0::nat)) all_statuses) = 1" for r
    by (cases "r_status r") (auto simp: all_statuses_def)
  have "sum_list (map (\<lambda>t. length (filter (\<lambda>r. r_status r = t) rs)) all_statuses) = length rs" for rs
  proof (induction rs)
    case (Cons r rs)
    have "sum_list (map (\<lambda>t. length (filter (\<lambda>r. r_status r = t) (r # rs))) all_statuses) =
        sum_list (map (\<lambda>t. (if r_status r = t then 1 else 0) + length (filter (\<lambda>r. r_status r = t) rs)) all_statuses)"
      by (intro arg_cong[of _ _ sum_list] map_cong) auto
    then show ?case using Cons.IH one by (simp add: sum_list_addf)
  qed (simp add: all_statuses_def)
  then show ?thesis by (simp add: count_status_def)
qed

lemma distinct_length_filter': "distinct xs \<Longrightarrow> length (filter P xs) = card {x \<in> set xs. P x}"
  by (simp add: distinct_length_filter Int_def conj_commute)

lemma distinct_sum_filter: "distinct xs \<Longrightarrow> sum_list (map f (filter P xs)) = sum f {x \<in> set xs. P x}"
  by (simp add: sum_list_distinct_conv_sum_set)

lemma count_status_card:
  "lifecycle_inv s \<Longrightarrow> count_status s ts = card {r \<in> set (runs s). r_status r \<in> set ts}"
  by (simp add: count_status_def distinct_length_filter' lifecycle_inv_def book_inv_def ids_inv_def distinct_map)

text \<open>What is free on a worker: its total less its active leases, and never less than nothing.\<close>

lemma worker_free:
  assumes "lifecycle_inv s" "w \<in> set (workers s)"
  shows "w_available_cpu w = max 0 (w_total_cpu w -
      (\<Sum>a\<in>{a \<in> set (resource_allocations s). a_worker_id a = w_id w \<and> a_released_at a = None}. a_cpu a))"
    "w_available_memory_mb w = max 0 (w_total_memory_mb w -
      (\<Sum>a\<in>{a \<in> set (resource_allocations s). a_worker_id a = w_id w \<and> a_released_at a = None}. a_memory_mb a))"
proof -
  have "capacity_ok (resource_allocations s) w" "distinct (resource_allocations s)"
    using assms by (auto simp: lifecycle_inv_def book_inv_def capacity_inv_def list_all_iff ids_inv_def distinct_map)
  then show "w_available_cpu w = max 0 (w_total_cpu w -
      (\<Sum>a\<in>{a \<in> set (resource_allocations s). a_worker_id a = w_id w \<and> a_released_at a = None}. a_cpu a))"
    "w_available_memory_mb w = max 0 (w_total_memory_mb w -
      (\<Sum>a\<in>{a \<in> set (resource_allocations s). a_worker_id a = w_id w \<and> a_released_at a = None}. a_memory_mb a))"
    by (simp_all add: capacity_ok_def used_cpu_def used_memory_def active_of_def distinct_sum_filter)
qed

lemma run_durations_filter:
  "run_durations s = map (\<lambda>r. of_int (the (r_completed_at r) - the (r_started_at r)) / 1000000)
     (filter (\<lambda>r. r_started_at r \<noteq> None \<and> r_completed_at r \<noteq> None) (runs s))"
proof -
  have "concat (map (\<lambda>r. case (r_started_at r, r_completed_at r) of
        (Some a, Some b) \<Rightarrow> [of_int (b - a) / 1000000 :: rat] | _ \<Rightarrow> []) rs) =
      map (\<lambda>r. of_int (the (r_completed_at r) - the (r_started_at r)) / 1000000)
        (filter (\<lambda>r. r_started_at r \<noteq> None \<and> r_completed_at r \<noteq> None) rs)" for rs
    by (induction rs) (auto split: option.splits)
  then show ?thesis unfolding run_durations_def .
qed

lemma summary_runs:
  assumes "lifecycle_inv s" "p = platform_summary_of s"
  shows "ps_active_runs p = length (filter (\<lambda>a. a_released_at a = None) (resource_allocations s)) \<and>
    ps_queued_runs p = card {r \<in> set (runs s). r_status r = QUEUED} \<and>
    ps_queue_depth p = ps_queued_runs p \<and>
    ps_failed_runs p = card {r \<in> set (runs s). r_status r = FAILED} \<and>
    ps_successful_runs p = card {r \<in> set (runs s). r_status r = SUCCEEDED} \<and>
    ps_success_rate p = of_nat (ps_successful_runs p) /
      of_nat (card {r \<in> set (runs s). r_status r = SUCCEEDED \<or> r_status r = FAILED \<or> r_status r = CANCELLED}) \<and>
    0 \<le> ps_success_rate p \<and> ps_success_rate p \<le> 1"
proof -
  have act: "active = (\<lambda>a. a_released_at a = None)" by (simp add: fun_eq_iff active_def)
  let ?S = "{r \<in> set (runs s). r_status r = SUCCEEDED}"
  let ?T = "{r \<in> set (runs s). r_status r = SUCCEEDED \<or> r_status r = FAILED \<or> r_status r = CANCELLED}"
  have "card ?S \<le> card ?T" by (rule card_mono) auto
  moreover have "0 \<le> (of_nat a / of_nat b :: rat) \<and> of_nat a / of_nat b \<le> (1 :: rat)" if "a \<le> b" for a b :: nat
    using that by (auto simp: divide_le_eq_1)
  ultimately have "0 \<le> (of_nat (card ?S) / of_nat (card ?T) :: rat) \<and> of_nat (card ?S) / of_nat (card ?T) \<le> (1 :: rat)"
    by blast
  then show ?thesis
    using busy_runs_leases[OF assms(1)] unfolding assms(2) act
    by (simp add: platform_summary_of_def Let_def count_status_card[OF assms(1)])
qed

lemma summary_workers:
  assumes "lifecycle_inv s" "\<forall>w\<in>set (workers s). 0 \<le> w_total_cpu w \<and> 0 \<le> w_total_memory_mb w"
    "p = platform_summary_of s" "online = {w \<in> set (workers s). w_status w = ONLINE}"
  shows "ps_workers_online p = card online \<and> ps_workers_total p = card (set (workers s)) \<and>
    ps_total_cpu p = (\<Sum>w\<in>online. w_total_cpu w) \<and> ps_total_memory_mb p = (\<Sum>w\<in>online. w_total_memory_mb w) \<and>
    ps_available_cpu p = (\<Sum>w\<in>online. w_available_cpu w) \<and>
    ps_available_memory_mb p = (\<Sum>w\<in>online. w_available_memory_mb w) \<and>
    0 \<le> ps_available_cpu p \<and> ps_available_cpu p \<le> ps_total_cpu p \<and>
    0 \<le> ps_available_memory_mb p \<and> ps_available_memory_mb p \<le> ps_total_memory_mb p"
proof -
  have d: "distinct (workers s)"
    using assms(1) by (simp add: lifecycle_inv_def book_inv_def ids_inv_def distinct_map)
  have "0 \<le> w_available_cpu w \<and> w_available_cpu w \<le> w_total_cpu w \<and>
      0 \<le> w_available_memory_mb w \<and> w_available_memory_mb w \<le> w_total_memory_mb w" if "w \<in> online" for w
  proof -
    have w: "w \<in> set (workers s)" using that assms(4) by simp
    have "\<forall>a\<in>set (resource_allocations s). 0 \<le> a_cpu a \<and> 0 \<le> a_memory_mb a"
      using assms(1) by (simp add: lifecycle_inv_def book_inv_def)
    then have "0 \<le> (\<Sum>a\<in>{a \<in> set (resource_allocations s). a_worker_id a = w_id w \<and> a_released_at a = None}. a_cpu a)"
      "0 \<le> (\<Sum>a\<in>{a \<in> set (resource_allocations s). a_worker_id a = w_id w \<and> a_released_at a = None}. a_memory_mb a)"
      by (auto intro!: sum_nonneg)
    with worker_free[OF assms(1) w] assms(2) w show ?thesis by simp
  qed
  then have "0 \<le> (\<Sum>w\<in>online. w_available_cpu w)" "(\<Sum>w\<in>online. w_available_cpu w) \<le> (\<Sum>w\<in>online. w_total_cpu w)"
    "0 \<le> (\<Sum>w\<in>online. w_available_memory_mb w)" "(\<Sum>w\<in>online. w_available_memory_mb w) \<le> (\<Sum>w\<in>online. w_total_memory_mb w)"
    by (auto intro!: sum_nonneg sum_mono)
  moreover have "ps_workers_online p = card online" "ps_workers_total p = card (set (workers s))"
    "ps_total_cpu p = (\<Sum>w\<in>online. w_total_cpu w)" "ps_total_memory_mb p = (\<Sum>w\<in>online. w_total_memory_mb w)"
    "ps_available_cpu p = (\<Sum>w\<in>online. w_available_cpu w)"
    "ps_available_memory_mb p = (\<Sum>w\<in>online. w_available_memory_mb w)"
    using d by (simp_all add: assms(3,4) platform_summary_of_def Let_def online_workers_def distinct_length_filter'
        distinct_sum_filter distinct_card)
  ultimately show ?thesis by simp
qed

lemma summary_messages:
  assumes "p = platform_summary_of s" "m = refresh_domain_metrics s k"
  shows "ps_unpublished_messages p = length (filter (\<lambda>m. o_published_at m = None) (outbox_messages s)) \<and>
    (\<forall>limit. length (batch s limit k (\<lambda>_. False)) = min limit (g_outbox_backlog m)) \<and>
    g_outbox_backlog m + length (filter (\<lambda>m. o_published_at m = None \<and> k \<le> o_publish_attempts m) (outbox_messages s)) =
      ps_unpublished_messages p"
proof -
  have g: "g_outbox_backlog m = length (filter (\<lambda>m. o_published_at m = None \<and> o_publish_attempts m < k) (outbox_messages s))"
    by (simp add: assms refresh_domain_metrics_def)
  have "length (filter (\<lambda>m. o_published_at m = None \<and> o_publish_attempts m < k) ms) +
      length (filter (\<lambda>m. o_published_at m = None \<and> k \<le> o_publish_attempts m) ms) =
    length (filter (\<lambda>m. o_published_at m = None) ms)" for ms
    by (induction ms) auto
  then show ?thesis
    by (simp add: g assms(1) platform_summary_of_def Let_def batch_pending_sorted pending_sorted_def pending_def dispatchable_def[abs_def] min.commute)
qed

lemma gauges_runs:
  assumes "lifecycle_inv s" "m = refresh_domain_metrics s k"
  shows "map_of (g_runs_by_status m) (status_value t) = Some (card {r \<in> set (runs s). r_status r = t})"
    "sum_list (map snd (g_runs_by_status m)) = length (runs s)"
proof -
  show "sum_list (map snd (g_runs_by_status m)) = length (runs s)"
    using count_status_sum[of s] by (simp add: assms(2) refresh_domain_metrics_def comp_def)
  show "map_of (g_runs_by_status m) (status_value t) = Some (card {r \<in> set (runs s). r_status r = t})"
    using count_status_card[OF assms(1), of "[t]"]
    by (cases t) (simp_all add: assms(2) refresh_domain_metrics_def all_statuses_def)
qed

text \<open>
  C31. The platform reports what the database holds. In a consistent database the summary counts as active
  exactly the active leases, and as queued, failed and successful exactly the runs in that status; the success
  rate is the share of the successful runs among the finished ones (0 if there is none) and lies between 0 and
  1; the average duration is that of the runs with both times. Online and total workers are counted; the total
  capacity is that of the online workers, the free one what their active leases leave, non-negative and at most
  the total. The gauges give for every status the number of runs in it and agree with the summary on queue,
  workers and free CPU; the backlog is what a batch of the dispatcher would select, and together with the
  messages that have used up their attempts it makes the unpublished messages.
\<close>

theorem platform_reports_consistent:
  assumes "lifecycle_inv s" "\<forall>w\<in>set (workers s). 0 \<le> w_total_cpu w \<and> 0 \<le> w_total_memory_mb w"
    and p: "p = platform_summary_of s" and m: "m = refresh_domain_metrics s k"
    and on: "online = {w \<in> set (workers s). w_status w = ONLINE}"
    and held: "held = (\<lambda>w. {a \<in> set (resource_allocations s). a_worker_id a = w_id w \<and> a_released_at a = None})"
    and timed: "timed = filter (\<lambda>r. r_started_at r \<noteq> None \<and> r_completed_at r \<noteq> None) (runs s)"
  shows "ps_active_runs p = length (filter (\<lambda>a. a_released_at a = None) (resource_allocations s)) \<and>
    ps_queued_runs p = card {r \<in> set (runs s). r_status r = QUEUED} \<and> ps_queue_depth p = ps_queued_runs p \<and>
    ps_failed_runs p = card {r \<in> set (runs s). r_status r = FAILED} \<and>
    ps_successful_runs p = card {r \<in> set (runs s). r_status r = SUCCEEDED} \<and>
    ps_success_rate p = of_nat (ps_successful_runs p) /
      of_nat (card {r \<in> set (runs s). r_status r = SUCCEEDED \<or> r_status r = FAILED \<or> r_status r = CANCELLED}) \<and>
    0 \<le> ps_success_rate p \<and> ps_success_rate p \<le> 1 \<and>
    ps_average_duration_seconds p = (if timed = [] then None
      else Some ((\<Sum>r\<leftarrow>timed. of_int (the (r_completed_at r) - the (r_started_at r)) / 1000000) / of_nat (length timed))) \<and>
    ps_workers_online p = card online \<and> ps_workers_total p = card (set (workers s)) \<and>
    ps_total_cpu p = (\<Sum>w\<in>online. w_total_cpu w) \<and> ps_total_memory_mb p = (\<Sum>w\<in>online. w_total_memory_mb w) \<and>
    ps_available_cpu p = (\<Sum>w\<in>online. max 0 (w_total_cpu w - (\<Sum>a\<in>held w. a_cpu a))) \<and>
    ps_available_memory_mb p = (\<Sum>w\<in>online. max 0 (w_total_memory_mb w - (\<Sum>a\<in>held w. a_memory_mb a))) \<and>
    0 \<le> ps_available_cpu p \<and> ps_available_cpu p \<le> ps_total_cpu p \<and>
    0 \<le> ps_available_memory_mb p \<and> ps_available_memory_mb p \<le> ps_total_memory_mb p \<and>
    ps_unpublished_messages p = length (filter (\<lambda>x. o_published_at x = None) (outbox_messages s)) \<and>
    (\<forall>t. map_of (g_runs_by_status m) (status_value t) = Some (card {r \<in> set (runs s). r_status r = t})) \<and>
    sum_list (map snd (g_runs_by_status m)) = length (runs s) \<and>
    g_queue_depth m = ps_queue_depth p \<and> g_workers_online m = ps_workers_online p \<and>
    g_worker_cpu_available m = ps_available_cpu p \<and>
    (\<forall>limit. length (batch s limit k (\<lambda>_. False)) = min limit (g_outbox_backlog m)) \<and>
    g_outbox_backlog m + length (filter (\<lambda>x. o_published_at x = None \<and> k \<le> o_publish_attempts x) (outbox_messages s)) =
      ps_unpublished_messages p"
proof -
  have "g_queue_depth m = ps_queue_depth p" "g_workers_online m = ps_workers_online p"
    "g_worker_cpu_available m = ps_available_cpu p"
    by (simp_all add: p m refresh_domain_metrics_def platform_summary_of_def Let_def online_workers_def)
  moreover have "ps_average_duration_seconds p = (if timed = [] then None
      else Some ((\<Sum>r\<leftarrow>timed. of_int (the (r_completed_at r) - the (r_started_at r)) / 1000000) / of_nat (length timed)))"
    by (simp add: p timed platform_summary_of_def Let_def run_durations_filter)
  moreover have "(\<Sum>w\<in>online. w_available_cpu w) = (\<Sum>w\<in>online. max 0 (w_total_cpu w - (\<Sum>a\<in>held w. a_cpu a)))"
    "(\<Sum>w\<in>online. w_available_memory_mb w) = (\<Sum>w\<in>online. max 0 (w_total_memory_mb w - (\<Sum>a\<in>held w. a_memory_mb a)))"
    using worker_free[OF assms(1)] by (auto simp: on held intro!: sum.cong)
  note workers = summary_workers[OF assms(1,2) p on, unfolded this]
  ultimately show ?thesis
    using summary_runs[OF assms(1) p] workers summary_messages[OF p m] gauges_runs[OF assms(1) m] by blast
qed

theorem platform_reports_consistent_witness:
  "ps_active_runs (platform_summary_of demo_db) = 1 \<and> ps_failed_runs (platform_summary_of demo_db) = 1 \<and>
   ps_workers_total (platform_summary_of demo_db) = 1 \<and> ps_available_cpu (platform_summary_of demo_db) \<le> 4"
proof -
  have t: "ps_total_cpu (platform_summary_of demo_db) = 4"
    "length (filter (\<lambda>a. a_released_at a = None) (resource_allocations demo_db)) = 1"
    "{r \<in> set (runs demo_db). r_status r = FAILED} = {demo_run 12 FAILED (Some 5)}" "card (set (workers demo_db)) = 1"
    by (auto simp: platform_summary_of_def online_workers_def demo_defs Let_def)
  have w: "\<forall>w\<in>set (workers demo_db). 0 \<le> w_total_cpu w \<and> 0 \<le> w_total_memory_mb w" by (simp add: demo_defs)
  note platform_reports_consistent[OF demo_lifecycle_inv w refl refl refl refl refl, of 10, unfolded t]
  then have "ps_active_runs (platform_summary_of demo_db) = 1 \<and> ps_failed_runs (platform_summary_of demo_db) = card {demo_run 12 FAILED (Some 5)} \<and>
    ps_workers_total (platform_summary_of demo_db) = 1 \<and> ps_available_cpu (platform_summary_of demo_db) \<le> 4" by blast
  then show ?thesis by simp
qed

text \<open>
  Readiness: the service is ready exactly when the four services it needs answered in time; the
  scheduler's heartbeat is reported and not required.
\<close>

lemma readiness_iff:
  "rr_status_code (readiness p) = 200 \<longleftrightarrow>
     (\<forall>q\<in>{pr_postgresql p, pr_redis p, pr_redpanda p, pr_minio p}. is_ok (pb_outcome q) \<and> pb_elapsed q < 2)"
  by (auto simp: readiness_def dependency_statuses_def healthy_in_def timed_probe_def Let_def)

end
