(* ===== verification/Api.thy ===== *)
theory Api
  imports Run_Commands Platform
begin

text \<open>
  The API as a whole (\<open>main.py\<close> with the routers of \<open>api/\<close>): what a request is, who may send it, how it
  is validated, served and answered. A request names its endpoint and carries its path, query and body
  after the conversion to the declared types. FastAPI solves the dependencies first, so a request
  without permission is rejected before its parameters are validated; a request that fails validation
  is answered with 422 by FastAPI itself; an exception of the handler goes to the handlers of
  \<open>errors.py\<close>, and the session of the request is closed without a commit. An endpoint that commits
  does so before its answer is converted to the response model.
\<close>

section \<open>Requests and answers\<close>

datatype public_request =
    Health
  | Ready
  | Metrics
  | SignIn sign_in_request

datatype request =
    Public public_request
  | Me
  | Dependencies
  | Summary
  | ListProjects int int "string option" catalog_sort bool
  | CreateProject project_create
  | ReadProject uuid
  | UpdateProject uuid project_update
  | DeleteProject uuid
  | ListExperiments int int "string option" "uuid option" "string option" catalog_sort bool
  | CreateExperiment experiment_create
  | ReadExperiment uuid
  | UpdateExperiment uuid experiment_update
  | DeleteExperiment uuid
  | ListTemplates
  | ReadTemplate string string
  | CreateRun run_create
  | ListRuns int int "uuid option" "run_status option" run_sort bool
  | CompareRuns "uuid list"
  | ReadRun uuid
  | CancelRun uuid
  | RetryRun uuid dict
  | UpdateRunMetadata uuid metadata_update
  | StreamRun uuid
  | ListParameters uuid
  | ListMetrics uuid
  | ListLogs uuid
  | ListEvents uuid
  | ListArtifacts uuid
  | DownloadArtifact uuid uuid
  | ListWorkers
  | ReadWorker uuid
  | RegisterWorker worker_register
  | Heartbeat uuid

datatype 'tok answer =
    AHealth "string \<times> string"
  | AReady readiness_response
  | AMetrics gauges
  | AToken "'tok token_response"
  | AUser user_response
  | ADependencies "string \<times> (string \<times> dependency_status) list"
  | ASummary platform_summary
  | AProjects "project page"
  | AProject project
  | AExperiments "experiment_row page"
  | AExperiment experiment_row
  | ATemplates "training_template list"
  | ATemplate training_template
  | ARuns "run page"
  | ARun run
  | AComparison compare_response
  | AStream uuid
  | AParameters "parameter_response list"
  | AMetricValues "metric_response list"
  | ALogs "log_response list"
  | AEvents "event_response list"
  | AArtifacts "artifact_response list"
  | AFile file_response
  | AWorkers "worker list"
  | AWorkerDetail worker_detail
  | AWorker worker
  | ANothing

text \<open>The code of the reply: \<open>status_code\<close> of the route, or what the endpoint sets.\<close>

fun success_code :: "request \<Rightarrow> 'tok answer \<Rightarrow> int" where
  "success_code (CreateProject _) _ = 201"
| "success_code (CreateExperiment _) _ = 201"
| "success_code (CreateRun _) _ = 201"
| "success_code (RetryRun _ _) _ = 201"
| "success_code (DeleteProject _) _ = 204"
| "success_code (DeleteExperiment _) _ = 204"
| "success_code (Public Ready) (AReady r) = rr_status_code r"
| "success_code _ _ = 200"

datatype 'tok reply =
    Answered int "'tok answer"
  | Unprocessable
  | Rejected json_response

text \<open>What a request arrives with: the \<open>Authorization\<close> and \<open>X-Correlation-ID\<close> headers, the time and a fresh UUID.\<close>

record 'tok call =
  cl_credentials :: "(string \<times> 'tok) option"
  cl_correlation_id :: "string option"
  cl_now :: time
  cl_fresh :: uuid

text \<open>What the process was started with: the libraries, the settings, the artifact store and the probes.\<close>

record ('tok, 'w) api =
  ap_lib :: "'tok auth_library"
  ap_settings :: settings
  ap_pydantic :: pydantic
  ap_get :: "'w \<Rightarrow> string \<Rightarrow> bytes res \<times> 'w"
  ap_probes :: probes


section \<open>Permissions and validation\<close>

text \<open>The user annotation of each endpoint: \<open>CurrentUser\<close>, \<open>ResearcherUser\<close> or \<open>AdministratorUser\<close>.\<close>

fun permitted :: "request \<Rightarrow> user res \<Rightarrow> user res" where
  "permitted (CreateProject _) = researcher_user"
| "permitted (UpdateProject _ _) = researcher_user"
| "permitted (DeleteProject _) = researcher_user"
| "permitted (CreateExperiment _) = researcher_user"
| "permitted (UpdateExperiment _ _) = researcher_user"
| "permitted (DeleteExperiment _) = researcher_user"
| "permitted (CreateRun _) = researcher_user"
| "permitted (CancelRun _) = researcher_user"
| "permitted (RetryRun _ _) = researcher_user"
| "permitted (UpdateRunMetadata _ _) = researcher_user"
| "permitted (RegisterWorker _) = administrator_user"
| "permitted (Heartbeat _) = administrator_user"
| "permitted _ = (\<lambda>u. u)"

definition text_within :: "nat \<Rightarrow> string option \<Rightarrow> bool" where
  "text_within n t = (case t of None \<Rightarrow> True | Some x \<Rightarrow> length x \<le> n)"

definition check_that :: "bool \<Rightarrow> 'a \<Rightarrow> 'a res" where
  "check_that b x = (if b then Inr x else Inl ValidationError)"

text \<open>Validation of query and body; the request that is served carries the normalised body.\<close>

fun validated_public :: "'tok auth_library \<Rightarrow> public_request \<Rightarrow> public_request res" where
  "validated_public lib (SignIn b) = res_bind (validate_sign_in lib b) (\<lambda>b. Inr (SignIn b))"
| "validated_public lib p = Inr p"

fun validated :: "'tok auth_library \<Rightarrow> request \<Rightarrow> request res" where
  "validated lib (Public p) = res_bind (validated_public lib p) (\<lambda>p. Inr (Public p))"
| "validated lib (ListProjects p n q k a) = check_that (page_query_ok p n \<and> text_within 120 q) (ListProjects p n q k a)"
| "validated lib (CreateProject b) = res_bind (validate_project_create b) (\<lambda>b. Inr (CreateProject b))"
| "validated lib (UpdateProject i b) = res_bind (validate_project_update b) (\<lambda>b. Inr (UpdateProject i b))"
| "validated lib (ListExperiments p n q x t k a) =
     check_that (page_query_ok p n \<and> text_within 120 q \<and> text_within 40 t) (ListExperiments p n q x t k a)"
| "validated lib (CreateExperiment b) = res_bind (validate_experiment_create b) (\<lambda>b. Inr (CreateExperiment b))"
| "validated lib (UpdateExperiment i b) = res_bind (validate_experiment_update b) (\<lambda>b. Inr (UpdateExperiment i b))"
| "validated lib (CreateRun b) = check_that (run_create_ok b) (CreateRun b)"
| "validated lib (ListRuns p n x t k a) = check_that (page_query_ok p n) (ListRuns p n x t k a)"
| "validated lib (CompareRuns ids) = check_that (compare_request_ok ids) (CompareRuns ids)"
| "validated lib (UpdateRunMetadata i b) = check_that (metadata_update_ok b) (UpdateRunMetadata i b)"
| "validated lib (RegisterWorker b) = check_that (worker_register_ok b) (RegisterWorker b)"
| "validated lib r = Inr r"


section \<open>Serving a request\<close>

text \<open>An endpoint that only reads commits nothing; one that writes commits its database if it does not raise.\<close>

definition reads :: "('a \<Rightarrow> 'b) \<Rightarrow> 'a res \<Rightarrow> 'b res \<times> db option" where
  "reads f m = (res_bind m (\<lambda>x. Inr (f x)), None)"

definition commits :: "('a \<Rightarrow> 'b res) \<Rightarrow> ('a \<times> db) res \<Rightarrow> 'b res \<times> db option" where
  "commits f m = (case m of Inl e \<Rightarrow> (Inl e, None) | Inr (x, s) \<Rightarrow> (f x, Some s))"

fun handle_public :: "('tok, 'w) api \<Rightarrow> time \<Rightarrow> public_request \<Rightarrow> db \<Rightarrow> 'tok answer res" where
  "handle_public api now Health s = Inr (AHealth health)"
| "handle_public api now Ready s = Inr (AReady (readiness (ap_probes api)))"
| "handle_public api now Metrics s = Inr (AMetrics (prometheus_metrics (ap_settings api) s))"
| "handle_public api now (SignIn b) s = res_bind (sign_in (ap_lib api) (ap_settings api) now b s) (\<lambda>t. Inr (AToken t))"

fun handle ::
  "('tok, 'w) api \<Rightarrow> string \<Rightarrow> time \<Rightarrow> user \<Rightarrow> request \<Rightarrow> 'w \<Rightarrow> db \<Rightarrow> ('tok answer res \<times> db option) \<times> 'w" where
  "handle api cid now u (Public p) w s = (reads id (handle_public api now p s), w)"
| "handle api cid now u Me w s = (reads AUser (current_user (ap_lib api) u), w)"
| "handle api cid now u Dependencies w s = (reads ADependencies (Inr (dependency_health (ap_probes api))), w)"
| "handle api cid now u Summary w s = (reads ASummary (Inr (platform_summary_of s)), w)"
| "handle api cid now u (ListProjects p n q k a) w s = (reads AProjects (Inr (list_projects p n q k a s)), w)"
| "handle api cid now u (CreateProject b) w s = (commits (\<lambda>p. Inr (AProject p)) (create_project b u s), w)"
| "handle api cid now u (ReadProject i) w s = (reads AProject (read_project i s), w)"
| "handle api cid now u (UpdateProject i b) w s = (commits (\<lambda>p. Inr (AProject p)) (update_project i b s), w)"
| "handle api cid now u (DeleteProject i) w s =
     (commits (\<lambda>_. Inr ANothing) (res_bind (delete_project i s) (\<lambda>s'. Inr ((), s'))), w)"
| "handle api cid now u (ListExperiments p n q x t k a) w s =
     (reads AExperiments (list_experiments p n q x t k a s), w)"
| "handle api cid now u (CreateExperiment b) w s =
     (commits (\<lambda>x. res_bind (experiment_response_of x) (\<lambda>x. Inr (AExperiment x))) (create_experiment b u s), w)"
| "handle api cid now u (ReadExperiment i) w s =
     (reads AExperiment (res_bind (read_experiment i s) experiment_response_of), w)"
| "handle api cid now u (UpdateExperiment i b) w s =
     (commits (\<lambda>x. res_bind (experiment_response_of x) (\<lambda>x. Inr (AExperiment x))) (update_experiment i b s), w)"
| "handle api cid now u (DeleteExperiment i) w s =
     (commits (\<lambda>_. Inr ANothing) (res_bind (delete_experiment i s) (\<lambda>s'. Inr ((), s'))), w)"
| "handle api cid now u ListTemplates w s = (reads ATemplates (Inr (list_templates s)), w)"
| "handle api cid now u (ReadTemplate k v) w s = (reads ATemplate (read_template k v s), w)"
| "handle api cid now u (CreateRun b) w s =
     (commits (\<lambda>r. Inr (ARun r)) (create_run (ap_pydantic api) (ap_settings api) cid b u s), w)"
| "handle api cid now u (ListRuns p n x t k a) w s = (reads ARuns (Inr (list_runs p n x t k a s)), w)"
| "handle api cid now u (CompareRuns ids) w s = (reads AComparison (compare_runs ids s), w)"
| "handle api cid now u (ReadRun i) w s = (reads ARun (read_run i s), w)"
| "handle api cid now u (CancelRun i) w s = (commits (\<lambda>r. Inr (ARun r)) (cancel_run (ap_settings api) cid i u s), w)"
| "handle api cid now u (RetryRun i ps) w s =
     (commits (\<lambda>r. Inr (ARun r)) (retry_run (ap_pydantic api) (ap_settings api) cid i ps u s), w)"
| "handle api cid now u (UpdateRunMetadata i b) w s =
     (commits (\<lambda>r. Inr (ARun r)) (update_run_metadata i b u s), w)"
| "handle api cid now u (StreamRun i) w s = (reads (\<lambda>r. AStream (r_id r)) (get_run_or_404 s i), w)"
| "handle api cid now u (ListParameters i) w s = (reads AParameters (list_parameters i s), w)"
| "handle api cid now u (ListMetrics i) w s = (reads AMetricValues (list_metrics i s), w)"
| "handle api cid now u (ListLogs i) w s = (reads ALogs (list_logs i s), w)"
| "handle api cid now u (ListEvents i) w s = (reads AEvents (list_events i s), w)"
| "handle api cid now u (ListArtifacts i) w s = (reads AArtifacts (list_artifacts i s), w)"
| "handle api cid now u (DownloadArtifact i a) w s =
     (let (m, w') = download_artifact (ap_get api) i a s w in (reads AFile m, w'))"
| "handle api cid now u ListWorkers w s = (reads AWorkers (Inr (list_workers s)), w)"
| "handle api cid now u (ReadWorker i) w s = (reads AWorkerDetail (read_worker i s), w)"
| "handle api cid now u (RegisterWorker b) w s = (commits (\<lambda>v. Inr (AWorker v)) (register_endpoint b s), w)"
| "handle api cid now u (Heartbeat i) w s =
     (commits (\<lambda>v. Inr (AWorker v)) (heartbeat_endpoint (ap_settings api) i s), w)"

text \<open>The identity a request is served under.\<close>

definition authorise :: "('tok, 'w) api \<Rightarrow> 'tok call \<Rightarrow> request \<Rightarrow> db \<Rightarrow> user res" where
  "authorise api call req s =
     permitted req (get_current_user (ap_lib api) (ap_settings api) (cl_now call) (cl_credentials call) s)"

definition respond :: "string \<Rightarrow> request \<Rightarrow> 'tok answer res \<Rightarrow> 'tok reply" where
  "respond cid req m =
     (case m of Inl e \<Rightarrow> Rejected (handle_exception cid e) | Inr x \<Rightarrow> Answered (success_code req x) x)"

definition serve_public ::
  "('tok, 'w) api \<Rightarrow> 'tok call \<Rightarrow> string \<Rightarrow> public_request \<Rightarrow> db \<Rightarrow> 'tok reply" where
  "serve_public api call cid p s =
     (case validated_public (ap_lib api) p of
        Inl _ \<Rightarrow> Unprocessable
      | Inr q \<Rightarrow> respond cid (Public p) (handle_public api (cl_now call) q s))"

definition serve_as ::
  "('tok, 'w) api \<Rightarrow> 'tok call \<Rightarrow> string \<Rightarrow> user \<Rightarrow> request \<Rightarrow> 'w \<Rightarrow> db \<Rightarrow> ('tok reply \<times> db option) \<times> 'w" where
  "serve_as api call cid u req w s =
     (case validated (ap_lib api) req of
        Inl _ \<Rightarrow> ((Unprocessable, None), w)
      | Inr r \<Rightarrow>
          let ((m, committed), w') = handle api cid (cl_now call) u r w s
          in ((respond cid req m, committed), w'))"

text \<open>Only four routes are declared without a user.\<close>

fun as_public :: "request \<Rightarrow> public_request option" where
  "as_public (Public p) = Some p"
| "as_public _ = None"

definition serve ::
  "('tok, 'w) api \<Rightarrow> 'tok call \<Rightarrow> request \<Rightarrow> 'w \<times> db \<Rightarrow> 'tok reply \<times> 'w \<times> db" where
  "serve api call req = (\<lambda>(w, s).
     let s0 = begin_transaction s;
         cid = request_correlation_id (dispatch_correlation_id (cl_correlation_id call) (cl_fresh call)) [] (cl_correlation_id call)
     in case as_public req of
          Some p \<Rightarrow> (serve_public api call cid p s0, w, s)
        | None \<Rightarrow>
            (case authorise api call req s0 of
               Inl e \<Rightarrow> (Rejected (handle_exception cid e), w, s)
             | Inr u \<Rightarrow>
                 let ((reply, committed), w') = serve_as api call cid u req w s0
                 in (reply, w', case committed of None \<Rightarrow> s | Some s' \<Rightarrow> s')))"

text \<open>
  \<open>CorrelationIdMiddleware.dispatch\<close> puts the identifier into the header of whatever response comes back, the
  framework's own reply to a body that fails validation included, replacing the value a handler has set. The
  response to an unexpected exception is made outside of it and carries the header already. What the
  middleware and the handlers set is listed; the headers of a downloaded file are part of its answer.
\<close>

definition reply_headers :: "'tok call \<Rightarrow> 'tok reply \<Rightarrow> (string \<times> string) list" where
  "reply_headers call reply =
     AList.update ''X-Correlation-ID'' (dispatch_correlation_id (cl_correlation_id call) (cl_fresh call))
       (case reply of Rejected resp \<Rightarrow> resp_headers resp | _ \<Rightarrow> [])"

end
