(* ===== verification/Responses.thy ===== *)
theory Responses
  imports Api
begin

text \<open>
  The bodies of the answers: the response models of \<open>schemas/\<close> and \<open>api/health.py\<close>, written out as the JSON value
  that FastAPI sends. Identifiers are sent as text, enumerations by value, absent values as \<open>null\<close>; \<open>stamp\<close> is
  pydantic's text of a point in time, \<open>tok\<close> the text of a token. A model lists the columns it sends, so what it does not list stays inside.
\<close>

section \<open>Values\<close>

definition opt_json :: "('a \<Rightarrow> json) \<Rightarrow> 'a option \<Rightarrow> json" where
  "opt_json f v = (case v of None \<Rightarrow> JNull | Some x \<Rightarrow> f x)"

definition id_json :: "uuid \<Rightarrow> json" where
  "id_json i = JStr (uuid_str i)"

definition time_json :: "(time \<Rightarrow> string) \<Rightarrow> time \<Rightarrow> json" where
  "time_json stamp t = JStr (stamp t)"

definition strings_json :: "string list \<Rightarrow> json" where
  "strings_json ts = JList (map JStr ts)"

lemma opt_json_simps [simp]: "opt_json f None = JNull" "opt_json f (Some x) = f x"
  by (simp_all add: opt_json_def)


section \<open>The response models\<close>

definition user_body :: "(time \<Rightarrow> string) \<Rightarrow> user_response \<Rightarrow> json" where
  "user_body stamp u = JObj
     [(''id'', id_json (ur_id u)), (''email'', JStr (ur_email u)), (''role'', JStr (role_value (ur_role u))),
      (''created_at'', time_json stamp (ur_created_at u))]"

definition token_body :: "('tok \<Rightarrow> string) \<Rightarrow> (time \<Rightarrow> string) \<Rightarrow> 'tok token_response \<Rightarrow> json" where
  "token_body tok stamp t = JObj
     [(''access_token'', JStr (tok (tk_access_token t))), (''token_type'', JStr (tk_token_type t)),
      (''expires_in'', JInt (tk_expires_in t)), (''user'', user_body stamp (tk_user t))]"

definition page_body :: "('a \<Rightarrow> json) \<Rightarrow> 'a page \<Rightarrow> json" where
  "page_body f p = JObj
     [(''items'', JList (map f (pg_items p))), (''page'', JInt (pg_page p)), (''page_size'', JInt (pg_page_size p)),
      (''total'', JInt (pg_total p)), (''pages'', JInt (pg_pages p))]"

definition project_body :: "(time \<Rightarrow> string) \<Rightarrow> project \<Rightarrow> json" where
  "project_body stamp p = JObj
     [(''id'', id_json (pj_id p)), (''name'', JStr (pj_name p)), (''description'', JStr (pj_description p)),
      (''created_by'', id_json (pj_created_by p)), (''created_at'', time_json stamp (pj_created_at p)),
      (''updated_at'', time_json stamp (pj_updated_at p))]"

definition experiment_body :: "(time \<Rightarrow> string) \<Rightarrow> experiment_row \<Rightarrow> json" where
  "experiment_body stamp x = JObj
     [(''id'', id_json (x_id x)), (''project_id'', id_json (x_project_id x)), (''name'', JStr (x_name x)),
      (''description'', JStr (x_description x)), (''tags'', opt_json strings_json (x_tags x)),
      (''created_by'', id_json (x_created_by x)), (''created_at'', time_json stamp (x_created_at x)),
      (''updated_at'', time_json stamp (x_updated_at x))]"

definition template_body :: "(time \<Rightarrow> string) \<Rightarrow> training_template \<Rightarrow> json" where
  "template_body stamp t = JObj
     [(''id'', id_json (t_id t)), (''key'', JStr (t_key t)), (''name'', JStr (t_name t)),
      (''description'', JStr (t_description t)), (''version'', JStr (t_version t)),
      (''parameter_schema'', JObj (t_parameter_schema t)), (''enabled'', JBool (t_enabled t)),
      (''created_at'', time_json stamp (t_created_at t))]"

definition run_body :: "(time \<Rightarrow> string) \<Rightarrow> run \<Rightarrow> json" where
  "run_body stamp r = JObj
     [(''id'', id_json (r_id r)), (''experiment_id'', id_json (r_experiment_id r)),
      (''template_id'', id_json (r_template_id r)), (''status'', JStr (status_value (r_status r))),
      (''priority'', JInt (r_priority r)), (''requested_cpu'', JFloat (r_requested_cpu r)),
      (''requested_memory_mb'', JInt (r_requested_memory_mb r)),
      (''assigned_worker_id'', opt_json id_json (r_assigned_worker_id r)),
      (''attempt_number'', JInt (r_attempt_number r)), (''parent_run_id'', opt_json id_json (r_parent_run_id r)),
      (''created_by'', id_json (r_created_by r)), (''created_at'', time_json stamp (r_created_at r)),
      (''queued_at'', opt_json (time_json stamp) (r_queued_at r)),
      (''started_at'', opt_json (time_json stamp) (r_started_at r)),
      (''completed_at'', opt_json (time_json stamp) (r_completed_at r)),
      (''failure_code'', opt_json JStr (r_failure_code r)), (''failure_message'', opt_json JStr (r_failure_message r)),
      (''notes'', JStr (r_notes r)), (''tags'', strings_json (r_tags r)), (''version'', JInt (r_version r))]"

definition parameter_body :: "parameter_response \<Rightarrow> json" where
  "parameter_body p = JObj [(''id'', id_json (rp_id p)), (''name'', JStr (rp_name p)), (''value'', rp_value p)]"

definition metric_body :: "(time \<Rightarrow> string) \<Rightarrow> metric_response \<Rightarrow> json" where
  "metric_body stamp m = JObj
     [(''id'', id_json (rm_id m)), (''name'', JStr (rm_name m)), (''value'', JFloat (rm_value m)),
      (''step'', JInt (rm_step m)), (''recorded_at'', time_json stamp (rm_recorded_at m))]"

definition log_body :: "(time \<Rightarrow> string) \<Rightarrow> log_response \<Rightarrow> json" where
  "log_body stamp l = JObj
     [(''id'', id_json (rl_id l)), (''sequence_number'', JInt (rl_sequence_number l)), (''level'', JStr (rl_level l)),
      (''message'', JStr (rl_message l)), (''recorded_at'', time_json stamp (rl_recorded_at l))]"

definition artifact_body :: "(time \<Rightarrow> string) \<Rightarrow> artifact_response \<Rightarrow> json" where
  "artifact_body stamp a = JObj
     [(''id'', id_json (ra_id a)), (''name'', JStr (ra_name a)), (''mime_type'', JStr (ra_mime_type a)),
      (''size_bytes'', JInt (ra_size_bytes a)), (''checksum'', JStr (ra_checksum a)),
      (''created_at'', time_json stamp (ra_created_at a))]"

definition event_body :: "(time \<Rightarrow> string) \<Rightarrow> event_response \<Rightarrow> json" where
  "event_body stamp e = JObj
     [(''id'', id_json (re_id e)), (''event_type'', JStr (re_event_type e)),
      (''previous_status'', opt_json (\<lambda>t. JStr (status_value t)) (re_previous_status e)),
      (''new_status'', opt_json (\<lambda>t. JStr (status_value t)) (re_new_status e)),
      (''event_metadata'', JObj (re_event_metadata e)), (''created_at'', time_json stamp (re_created_at e))]"

definition comparison_body :: "(time \<Rightarrow> string) \<Rightarrow> compare_response \<Rightarrow> json" where
  "comparison_body stamp c = JObj
     [(''items'', JList (map (\<lambda>i. JObj [(''run'', run_body stamp (ci_run i)), (''parameters'', JObj (ci_parameters i)),
         (''metrics'', JObj (map (\<lambda>(n, v). (n, JFloat v)) (ci_metrics i)))]) (cmp_items c))),
      (''best_by_metric'', JObj (map (\<lambda>(n, i). (n, id_json i)) (cmp_best_by_metric c)))]"

definition worker_body :: "(time \<Rightarrow> string) \<Rightarrow> worker \<Rightarrow> json" where
  "worker_body stamp w = JObj
     [(''id'', id_json (w_id w)), (''name'', JStr (w_name w)), (''status'', JStr (worker_status_value (w_status w))),
      (''total_cpu'', JFloat (w_total_cpu w)), (''available_cpu'', JFloat (w_available_cpu w)),
      (''total_memory_mb'', JInt (w_total_memory_mb w)), (''available_memory_mb'', JInt (w_available_memory_mb w)),
      (''current_run_count'', JInt (w_current_run_count w)), (''last_heartbeat_at'', time_json stamp (w_last_heartbeat_at w)),
      (''created_at'', time_json stamp (w_created_at w)), (''updated_at'', time_json stamp (w_updated_at w))]"

definition allocation_body :: "(time \<Rightarrow> string) \<Rightarrow> allocation_response \<Rightarrow> json" where
  "allocation_body stamp a = JObj
     [(''id'', id_json (al_id a)), (''run_id'', id_json (al_run_id a)), (''worker_id'', id_json (al_worker_id a)),
      (''cpu'', JFloat (al_cpu a)), (''memory_mb'', JInt (al_memory_mb a)),
      (''lease_expires_at'', time_json stamp (al_lease_expires_at a)),
      (''released_at'', opt_json (time_json stamp) (al_released_at a))]"

definition worker_detail_body :: "(time \<Rightarrow> string) \<Rightarrow> worker_detail \<Rightarrow> json" where
  "worker_detail_body stamp d = JObj
     [(''worker'', worker_body stamp (wd_worker d)),
      (''active_allocations'', JList (map (allocation_body stamp) (wd_active_allocations d)))]"

fun dependency_value :: "dependency \<Rightarrow> string" where
  "dependency_value Healthy = ''healthy''"
| "dependency_value Unavailable = ''unavailable''"

definition health_body :: "string \<times> string \<Rightarrow> json" where
  "health_body h = JObj [(''status'', JStr (fst h)), (''service'', JStr (snd h))]"

definition readiness_body :: "readiness_response \<Rightarrow> json" where
  "readiness_body r = JObj
     [(''status'', JStr (rr_status r)),
      (''dependencies'', JObj (map (\<lambda>(n, d). (n, JStr (dependency_value d))) (rr_dependencies r)))]"

definition dependencies_body :: "string \<times> (string \<times> dependency_status) list \<Rightarrow> json" where
  "dependencies_body d = JObj
     [(''status'', JStr (fst d)),
      (''dependencies'', JObj (map (\<lambda>(n, x). (n, JObj [(''status'', JStr (dependency_value (ds_status x))),
         (''latency_ms'', JFloat (ds_latency_ms x))])) (snd d)))]"

definition summary_body :: "platform_summary \<Rightarrow> json" where
  "summary_body p = JObj
     [(''active_runs'', JInt (int (ps_active_runs p))), (''queued_runs'', JInt (int (ps_queued_runs p))),
      (''failed_runs'', JInt (int (ps_failed_runs p))), (''successful_runs'', JInt (int (ps_successful_runs p))),
      (''success_rate'', JFloat (ps_success_rate p)),
      (''average_duration_seconds'', opt_json JFloat (ps_average_duration_seconds p)),
      (''workers_online'', JInt (int (ps_workers_online p))), (''workers_total'', JInt (int (ps_workers_total p))),
      (''available_cpu'', JFloat (ps_available_cpu p)), (''total_cpu'', JFloat (ps_total_cpu p)),
      (''available_memory_mb'', JInt (ps_available_memory_mb p)), (''total_memory_mb'', JInt (ps_total_memory_mb p)),
      (''queue_depth'', JInt (int (ps_queue_depth p))), (''unpublished_messages'', JInt (int (ps_unpublished_messages p)))]"

text \<open>
  The body of an answer, by the response model of its route. The exposition of metrics, the event stream, a
  downloaded file and the reply to a deletion are not JSON.
\<close>

fun answer_body :: "('tok \<Rightarrow> string) \<Rightarrow> (time \<Rightarrow> string) \<Rightarrow> 'tok answer \<Rightarrow> json option" where
  "answer_body tok stamp (AHealth h) = Some (health_body h)"
| "answer_body tok stamp (AReady r) = Some (readiness_body r)"
| "answer_body tok stamp (AToken t) = Some (token_body tok stamp t)"
| "answer_body tok stamp (AUser u) = Some (user_body stamp u)"
| "answer_body tok stamp (ADependencies d) = Some (dependencies_body d)"
| "answer_body tok stamp (ASummary p) = Some (summary_body p)"
| "answer_body tok stamp (AProjects p) = Some (page_body (project_body stamp) p)"
| "answer_body tok stamp (AProject p) = Some (project_body stamp p)"
| "answer_body tok stamp (AExperiments p) = Some (page_body (experiment_body stamp) p)"
| "answer_body tok stamp (AExperiment x) = Some (experiment_body stamp x)"
| "answer_body tok stamp (ATemplates ts) = Some (JList (map (template_body stamp) ts))"
| "answer_body tok stamp (ATemplate t) = Some (template_body stamp t)"
| "answer_body tok stamp (ARuns p) = Some (page_body (run_body stamp) p)"
| "answer_body tok stamp (ARun r) = Some (run_body stamp r)"
| "answer_body tok stamp (AComparison c) = Some (comparison_body stamp c)"
| "answer_body tok stamp (AParameters ps) = Some (JList (map parameter_body ps))"
| "answer_body tok stamp (AMetricValues ms) = Some (JList (map (metric_body stamp) ms))"
| "answer_body tok stamp (ALogs ls) = Some (JList (map (log_body stamp) ls))"
| "answer_body tok stamp (AEvents es) = Some (JList (map (event_body stamp) es))"
| "answer_body tok stamp (AArtifacts as) = Some (JList (map (artifact_body stamp) as))"
| "answer_body tok stamp (AWorkers ws) = Some (JList (map (worker_body stamp) ws))"
| "answer_body tok stamp (AWorkerDetail d) = Some (worker_detail_body stamp d)"
| "answer_body tok stamp (AWorker w) = Some (worker_body stamp w)"
| "answer_body tok stamp _ = None"

end
