(* ===== verification/Scheduler.thy ===== *)
theory Scheduler
  imports Lifecycle Config
begin

text \<open>
  The scheduler (\<open>services/scheduler/runscope_scheduler/service.py\<close>). One call of \<open>schedule_once\<close> is
  one database transaction: it recovers expired leases, then walks the queued runs by priority and
  reserves a worker for each. Rows that another transaction has locked are skipped
  (\<open>FOR UPDATE SKIP LOCKED\<close>); which rows those are is an argument of the model. A pass is one atomic step: a
  commit of another service while it runs, which can make the code raise \<open>StaleDataError\<close> on a run it read without
  a lock and roll the pass back, is not modelled.
\<close>

record locks =
  lk_runs :: "uuid \<Rightarrow> bool"
  lk_workers :: "uuid \<Rightarrow> bool"
  lk_allocations :: "uuid \<Rightarrow> bool"

definition no_locks :: locks where
  "no_locks = \<lparr>lk_runs = (\<lambda>_. False), lk_workers = (\<lambda>_. False), lk_allocations = (\<lambda>_. False)\<rparr>"

definition add_assignment_event ::
  "db \<Rightarrow> settings \<Rightarrow> uuid \<Rightarrow> uuid \<Rightarrow> resource_allocation \<Rightarrow> db res" where
  "add_assignment_event s cfg rid wid allocation =
     (let (eid, s1) = uuid4 s; (now, s2) = now_utc s1; (cid, s3) = uuid4 s2
      in res_bind (mk_envelope eid ''run.assigned'' now (''scheduler-'' @ uuid_str cid) (Some rid) (Some wid)
           [(''lease_token'', JStr (uuid_str (a_lease_token allocation))),
            (''requested_cpu'', JFloat (a_cpu allocation)),
            (''requested_memory_mb'', JInt (a_memory_mb allocation))])
         (\<lambda>event. Inr (add_outbox s3 (broker_topic cfg) (uuid_str rid) event)))"

definition stale_workers :: "db \<Rightarrow> locks \<Rightarrow> time \<Rightarrow> worker list" where
  "stale_workers s lk stale_before =
     filter (\<lambda>w. w_status w = ONLINE \<and> w_last_heartbeat_at w < stale_before \<and> \<not> lk_workers lk (w_id w))
       (workers s)"

definition expired_allocations :: "db \<Rightarrow> locks \<Rightarrow> time \<Rightarrow> uuid list \<Rightarrow> resource_allocation list" where
  "expired_allocations s lk current_time stale_ids =
     filter (\<lambda>a. a_released_at a = None \<and>
         (a_lease_expires_at a < current_time \<or> a_worker_id a \<in> set stale_ids) \<and>
         \<not> lk_allocations lk (a_id a))
       (resource_allocations s)"

text \<open>The body of the recovery loop: settle the run by its status, then release the lease.\<close>

definition recover_one :: "resource_allocation \<Rightarrow> db \<Rightarrow> db res" where
  "recover_one a s =
     (let wmeta = (''worker_id'', JStr (uuid_str (a_worker_id a)));
          finish = (\<lambda>s'. Inr (release s' (a_run_id a)))
      in case get_run s (a_run_id a) of
           None \<Rightarrow> finish s
         | Some r \<Rightarrow>
             if r_status r = SCHEDULING then
               res_bind (transition_and_flush s r QUEUED ''run.assignment.expired'' [wmeta]
                   (\<lambda>r. r\<lparr>r_assigned_worker_id := None\<rparr>)) (\<lambda>(_, s'). finish s')
             else if r_status r = RUNNING then
               res_bind (transition_and_flush s
                   (r\<lparr>r_failure_code := Some ''worker_lease_expired'',
                      r_failure_message := Some ''The assigned worker stopped heartbeating''\<rparr>)
                   FAILED ''run.failed'' [wmeta, (''reason'', JStr ''lease_expired'')] id)
                 (\<lambda>(_, s'). finish s')
             else if r_status r = CANCELLING then
               res_bind (transition_and_flush s r CANCELLED ''run.cancelled''
                   [wmeta, (''reason'', JStr ''lease_expired'')] id) (\<lambda>(_, s'). finish s')
             else finish s)"

definition mark_stale :: "worker list \<Rightarrow> db \<Rightarrow> db" where
  "mark_stale ws s = fold (\<lambda>w s. save_worker s (w_id w) (\<lambda>w. w\<lparr>w_status := STALE\<rparr>)) ws s"

definition recover_expired_allocations ::
  "db \<Rightarrow> settings \<Rightarrow> locks \<Rightarrow> time option \<Rightarrow> (int \<times> db) res" where
  "recover_expired_allocations s cfg lk now =
     (let (current_time, s0) = (case now of Some t \<Rightarrow> (t, s) | None \<Rightarrow> now_utc s);
          stale_before = current_time - secs (worker_stale_seconds cfg);
          stale = stale_workers s0 lk stale_before;
          stale_ids = map w_id stale;
          s1 = mark_stale stale s0;
          allocations = expired_allocations s1 lk current_time stale_ids
      in res_bind (res_fold recover_one allocations s1) (\<lambda>s2.
           Inr (int (length allocations),
                fold (\<lambda>w s. refresh_worker_capacity s (w_id w)) stale s2)))"

definition queued_runs :: "db \<Rightarrow> locks \<Rightarrow> run list" where
  "queued_runs s lk =
     take 100 (sort_key (\<lambda>r. (- r_priority r, r_created_at r, r_id r))
       (filter (\<lambda>r. r_status r = QUEUED \<and> \<not> lk_runs lk (r_id r)) (runs s)))"

definition eligible :: "locks \<Rightarrow> time \<Rightarrow> run \<Rightarrow> worker \<Rightarrow> bool" where
  "eligible lk healthy_after r w \<longleftrightarrow> w_status w = ONLINE \<and> healthy_after \<le> w_last_heartbeat_at w \<and>
     r_requested_cpu r \<le> w_available_cpu w \<and> r_requested_memory_mb r \<le> w_available_memory_mb w \<and>
     \<not> lk_workers lk (w_id w)"

definition pick_worker :: "db \<Rightarrow> locks \<Rightarrow> time \<Rightarrow> run \<Rightarrow> worker option" where
  "pick_worker s lk healthy_after r =
     first_by (\<lambda>w. (w_current_run_count w, collation s (w_name w)))
       (filter (eligible lk healthy_after r) (workers s))"

definition charge :: "run \<Rightarrow> worker \<Rightarrow> worker" where
  "charge r w = w\<lparr>w_available_cpu := w_available_cpu w - r_requested_cpu r,
     w_available_memory_mb := w_available_memory_mb w - r_requested_memory_mb r,
     w_current_run_count := w_current_run_count w + 1\<rparr>"

text \<open>
  Reserving worker \<open>w\<close> for run \<open>r\<close>. The insert is flushed first, so the unique index on active
  leases can refuse it; the status change, the worker's counters and the outbox event follow.
\<close>

definition assign_run ::
  "settings \<Rightarrow> time \<Rightarrow> run \<Rightarrow> worker \<Rightarrow> db \<Rightarrow> db res" where
  "assign_run cfg now r w s =
     (let (aid, s1) = uuid4 s; (token, s2) = uuid4 s1;
          allocation = \<lparr>a_id = aid, a_run_id = r_id r, a_worker_id = w_id w,
            a_cpu = r_requested_cpu r, a_memory_mb = r_requested_memory_mb r, a_lease_token = token,
            a_lease_expires_at = now + secs (allocation_lease_seconds cfg), a_released_at = None\<rparr>;
          s3 = resource_allocations_update (\<lambda>as. as @ [allocation]) s2
      in if list_ex (\<lambda>a. a_run_id a = r_id r \<and> a_released_at a = None) (resource_allocations s)
         then Inl IntegrityError
         else res_bind (transition_and_flush s3 (r\<lparr>r_assigned_worker_id := Some (w_id w)\<rparr>) SCHEDULING
                ''run.scheduling'' [(''worker_id'', JStr (uuid_str (w_id w))), (''lease_id'', JStr (uuid_str aid))] id)
              (\<lambda>(_, s4).
                 add_assignment_event (save_worker s4 (w_id w) (charge r)) cfg (r_id r) (w_id w) allocation))"

definition schedule_run ::
  "settings \<Rightarrow> locks \<Rightarrow> time \<Rightarrow> time \<Rightarrow> run \<Rightarrow> int \<times> db \<Rightarrow> (int \<times> db) res" where
  "schedule_run cfg lk now healthy_after r = (\<lambda>(assigned, s).
     case pick_worker s lk healthy_after r of
       None \<Rightarrow> Inr (assigned, s)
     | Some w \<Rightarrow> res_bind (assign_run cfg now r w s) (\<lambda>s'. Inr (assigned + 1, s')))"

definition schedule_once :: "db \<Rightarrow> settings \<Rightarrow> locks \<Rightarrow> (int \<times> db) res" where
  "schedule_once s cfg lk =
     res_bind (recover_expired_allocations s cfg lk None) (\<lambda>(_, s1).
       let (now, s2) = now_utc s1;
           healthy_after = now - secs (worker_stale_seconds cfg)
       in res_fold (schedule_run cfg lk now healthy_after) (queued_runs s2 lk) (0, s2))"


section \<open>Recovery of expired leases\<close>

text \<open>What recovery does to the status of a run whose lease is gone.\<close>

fun settle :: "run_status \<Rightarrow> run_status" where
  "settle SCHEDULING = QUEUED"
| "settle RUNNING = FAILED"
| "settle CANCELLING = CANCELLED"
| "settle t = t"

definition settle_runs :: "uuid set \<Rightarrow> (uuid \<times> run_status) list \<Rightarrow> (uuid \<times> run_status) list" where
  "settle_runs X sts = map (\<lambda>(i, t). (i, if i \<in> X then settle t else t)) sts"

lemma settle_runs_settle_runs: "settle_runs Y (settle_runs X sts) = settle_runs (X \<union> Y) sts"
proof -
  have "settle (settle t) = settle t" for t by (cases t) auto
  then show ?thesis by (auto simp: settle_runs_def)
qed

lemma settle_runs_empty [simp]: "settle_runs {} sts = sts"
  by (simp add: settle_runs_def case_prod_beta)

abbreviation statuses :: "db \<Rightarrow> (uuid \<times> run_status) list" where
  "statuses s \<equiv> map (\<lambda>r. (r_id r, r_status r)) (runs s)"

definition worker_core :: "worker \<Rightarrow> uuid \<times> string \<times> worker_status \<times> rat \<times> int \<times> time" where
  "worker_core w = (w_id w, w_name w, w_status w, w_total_cpu w, w_total_memory_mb w, w_last_heartbeat_at w)"

lemma worker_core_refresh [simp]:
  "map worker_core (workers (refresh_worker_capacity s wid)) = map worker_core (workers s)"
  by (simp add: refresh_worker_capacity_def db_simps Let_def worker_core_def map_upd_row)

lemma worker_core_release [simp]:
  "map worker_core (workers (release s rid)) = map worker_core (workers s)"
  by (simp add: release_allocation_def now_utc_def Let_def split: option.split)

lemma statuses_after_move:
  assumes "keeps_core f"
  shows "statuses (after_move s r t ty md f) =
    map (\<lambda>q. (r_id q, if r_id q = r_id r then t else r_status q)) (runs s)"
  using assms by (simp add: db_simps upd_row_def)

lemma keeps_core_simps [simp]:
  "keeps_core id" "keeps_core (\<lambda>r. r)" "keeps_core (\<lambda>r. r\<lparr>r_assigned_worker_id := x\<rparr>)"
  by (simp_all add: keeps_core_def)

text \<open>
  One round of the recovery loop on an active lease: it never raises, keeps the invariant, removes
  exactly that lease and settles exactly that run.
\<close>

lemma recover_one_ok:
  assumes inv: "lifecycle_inv s" and a: "a \<in> set (resource_allocations s)" "active a"
  obtains s' where "recover_one a s = Inr s'" "lifecycle_inv s'"
    "filter active (resource_allocations s') =
       filter (\<lambda>b. active b \<and> a_run_id b \<noteq> a_run_id a) (resource_allocations s)"
    "statuses s' = settle_runs {a_run_id a} (statuses s)"
    "map worker_core (workers s') = map worker_core (workers s)"
    "clock s' = clock s" "outbox_messages s' = outbox_messages s"
proof -
  note result = that
  have book: "book_inv s" and st: "status_inv s"
    and dst: "distinct (map r_id (runs s))"
    and dsa: "distinct (map a_id (resource_allocations s))"
      "distinct (map a_run_id (filter active (resource_allocations s)))"
    using inv by (auto simp: lifecycle_inv_def book_inv_def ids_inv_def)
  obtain r where r: "r \<in> set (runs s)" "r_id r = a_run_id a"
    using st a by (auto simp: status_inv_def)
  have get: "get_run s (a_run_id a) = Some r"
    using r dst get_row_in by (fastforce simp: get_run_def)
  have "leases s (r_id r) = Some (a_worker_id a, a_cpu a, a_memory_mb a)"
    using leases_in[OF dsa(2) a] r(2) by simp
  with status_invD[OF st r(1)] have bsy: "busy (r_status r)" by simp
  have uniq: "q = r" if "q \<in> set (runs s)" "r_id q = a_run_id a" for q
    using key_inj[OF dst that(1) r(1)] that(2) r(2) by simp
  have step: thesis
    if eq: "recover_one a s = res_bind (transition_and_flush s r' t ty md f) (\<lambda>(_, s'). Inr (release s' (a_run_id a)))"
      and r': "r_id r' = r_id r" "r_status r' = r_status r" "r_version r' = r_version r"
        "r_requested_cpu r' = r_requested_cpu r" "r_requested_memory_mb r' = r_requested_memory_mb r"
      and t: "t \<in> set (VALID_TRANSITIONS (r_status r))" "\<not> busy t" "t = settle (r_status r)"
      and f: "keeps_core f" for r' t ty md f
  proof -
    let ?s = "after_move s r' t ty md f"
    have tf: "transition_and_flush s r' t ty md f = Inr (moved s r' t f, ?s)"
      using get r r' t f by (intro transition_and_flush_ok[where d = r]) auto
    have inv': "lifecycle_inv (release ?s (r_id r'))"
      using get r r' t f inv by (intro lifecycle_inv_finish[where d = r]) auto
    have act: "filter active (resource_allocations (release ?s (a_run_id a))) =
        filter (\<lambda>b. active b \<and> a_run_id b \<noteq> a_run_id a) (resource_allocations s)"
      using dsa by (subst release_active) (simp_all add: frame_simps)
    have sts: "statuses (release ?s (a_run_id a)) = settle_runs {a_run_id a} (statuses s)"
      unfolding frame_simps statuses_after_move[OF f] settle_runs_def map_map
    proof (rule map_cong[OF refl])
      fix q assume "q \<in> set (runs s)"
      then show "(r_id q, if r_id q = r_id r' then t else r_status q) =
          ((\<lambda>(i, t). (i, if i \<in> {a_run_id a} then settle t else t)) \<circ> (\<lambda>r. (r_id r, r_status r))) q"
        using uniq[of q] t(3) r(2) r'(1) by (cases "r_id q = a_run_id a") simp_all
    qed
    show thesis
    proof (rule result[OF _ _ act sts])
      show "recover_one a s = Inr (release ?s (a_run_id a))" using eq tf by simp
      show "lifecycle_inv (release ?s (a_run_id a))" using inv' r(2) r'(1) by simp
    qed (simp_all add: frame_simps)
  qed
  consider "r_status r = SCHEDULING" | "r_status r = RUNNING" | "r_status r = CANCELLING"
    using bsy by (auto simp: busy_def)
  then show thesis
  proof cases
    case 1
    show thesis
      by (rule step[where r' = r and t = QUEUED and f = "\<lambda>r. r\<lparr>r_assigned_worker_id := None\<rparr>"])
        (simp_all add: recover_one_def get Let_def 1 busy_def)
  next
    case 2
    show thesis
      by (rule step[where t = FAILED and f = id and r' = "r\<lparr>r_failure_code := Some ''worker_lease_expired'',
          r_failure_message := Some ''The assigned worker stopped heartbeating''\<rparr>"])
        (simp_all add: recover_one_def get Let_def 2 busy_def)
  next
    case 3
    show thesis
      by (rule step[where r' = r and t = CANCELLED and f = id])
        (simp_all add: recover_one_def get Let_def 3 busy_def)
  qed
qed


text \<open>The whole loop, by induction on the leases to recover.\<close>

lemma recover_fold_ok:
  assumes "lifecycle_inv s" "set as \<subseteq> {a \<in> set (resource_allocations s). active a}"
    and "distinct (map a_run_id as)"
  shows "\<exists>s'. res_fold recover_one as s = Inr s' \<and> lifecycle_inv s' \<and>
    filter active (resource_allocations s') =
      filter (\<lambda>b. active b \<and> a_run_id b \<notin> a_run_id ` set as) (resource_allocations s) \<and>
    statuses s' = settle_runs (a_run_id ` set as) (statuses s) \<and>
    map worker_core (workers s') = map worker_core (workers s) \<and>
    clock s' = clock s \<and> outbox_messages s' = outbox_messages s"
  using assms
proof (induction as arbitrary: s)
  case Nil
  then show ?case by simp
next
  case (Cons a as)
  have a: "a \<in> set (resource_allocations s)" "active a" using Cons.prems(2) by auto
  obtain s1 where s1: "recover_one a s = Inr s1" "lifecycle_inv s1"
    "filter active (resource_allocations s1) =
       filter (\<lambda>b. active b \<and> a_run_id b \<noteq> a_run_id a) (resource_allocations s)"
    "statuses s1 = settle_runs {a_run_id a} (statuses s)"
    "map worker_core (workers s1) = map worker_core (workers s)"
    "clock s1 = clock s" "outbox_messages s1 = outbox_messages s"
    using recover_one_ok[OF Cons.prems(1) a] .
  have "set as \<subseteq> {a \<in> set (resource_allocations s1). active a}"
  proof
    fix b assume b: "b \<in> set as"
    have "a_run_id a \<notin> a_run_id ` set as" using Cons.prems(3) by simp
    with b have "a_run_id b \<noteq> a_run_id a" by (metis imageI)
    with b have "b \<in> set (filter active (resource_allocations s1))"
      unfolding s1(3) using Cons.prems(2) by auto
    then show "b \<in> {a \<in> set (resource_allocations s1). active a}" by simp
  qed
  from Cons.IH[OF s1(2) this] Cons.prems(3)
  obtain s2 where s2: "res_fold recover_one as s1 = Inr s2" "lifecycle_inv s2"
    "filter active (resource_allocations s2) =
      filter (\<lambda>b. a_run_id b \<notin> a_run_id ` set as) (filter active (resource_allocations s1))"
    "statuses s2 = settle_runs (a_run_id ` set as) (statuses s1)"
    "map worker_core (workers s2) = map worker_core (workers s1)"
    "clock s2 = clock s1" "outbox_messages s2 = outbox_messages s1"
    by (auto simp: conj_commute)
  have "filter active (resource_allocations s2) =
      filter (\<lambda>b. active b \<and> a_run_id b \<notin> a_run_id ` set (a # as)) (resource_allocations s)"
    unfolding s2(3) s1(3) filter_filter by (rule filter_cong) auto
  moreover have "statuses s2 = settle_runs (a_run_id ` set (a # as)) (statuses s)"
    unfolding s2(4) s1(4) settle_runs_settle_runs by simp
  ultimately show ?case using s1 s2 by simp
qed

lemma lifecycle_inv_workers:
  assumes "lifecycle_inv s" "book_inv s'" "runs s' = runs s" "run_events s' = run_events s"
    and "resource_allocations s' = resource_allocations s"
  shows "lifecycle_inv s'"
  using assms by (simp add: lifecycle_inv_def status_inv_def audit_inv_def request_inv_def leases_def)

lemma mark_stale_frame:
  "runs (mark_stale ws s) = runs s \<and> run_events (mark_stale ws s) = run_events s \<and>
   resource_allocations (mark_stale ws s) = resource_allocations s \<and> clock (mark_stale ws s) = clock s \<and>
   outbox_messages (mark_stale ws s) = outbox_messages s \<and>
   map (\<lambda>w. (w_id w, w_name w, w_total_cpu w, w_total_memory_mb w, w_last_heartbeat_at w)) (workers (mark_stale ws s)) =
   map (\<lambda>w. (w_id w, w_name w, w_total_cpu w, w_total_memory_mb w, w_last_heartbeat_at w)) (workers s) \<and>
   map (\<lambda>w. (w_id w, w_status w)) (workers (mark_stale ws s)) =
   map (\<lambda>w. (w_id w, if w_id w \<in> w_id ` set ws then STALE else w_status w)) (workers s)"
proof (induction ws arbitrary: s)
  case Nil
  then show ?case by (simp add: mark_stale_def)
next
  case (Cons v ws)
  let ?s = "save_worker s (w_id v) (\<lambda>w. w\<lparr>w_status := STALE\<rparr>)"
  have "mark_stale (v # ws) s = mark_stale ws ?s" by (simp add: mark_stale_def)
  then show ?case
    using Cons.IH[of ?s] by (auto simp: frame_simps db_simps map_upd_row upd_row_def)
qed

lemma mark_stale_book_inv:
  "book_inv s \<Longrightarrow> book_inv (mark_stale ws s)"
proof (induction ws arbitrary: s)
  case Nil
  then show ?case by (simp add: mark_stale_def)
next
  case (Cons v ws)
  have "book_inv (save_worker s (w_id v) (\<lambda>w. w\<lparr>w_status := STALE\<rparr>))"
    using Cons.prems by (intro book_inv_save_worker capacity_save_worker) (auto simp: book_inv_def)
  then show ?case using Cons.IH by (simp add: mark_stale_def)
qed

lemma refresh_fold:
  "runs (fold (\<lambda>w s. refresh_worker_capacity s (w_id w)) ws s) = runs s"
  "run_events (fold (\<lambda>w s. refresh_worker_capacity s (w_id w)) ws s) = run_events s"
  "resource_allocations (fold (\<lambda>w s. refresh_worker_capacity s (w_id w)) ws s) = resource_allocations s"
  "outbox_messages (fold (\<lambda>w s. refresh_worker_capacity s (w_id w)) ws s) = outbox_messages s"
  "clock (fold (\<lambda>w s. refresh_worker_capacity s (w_id w)) ws s) = clock s"
  "map worker_core (workers (fold (\<lambda>w s. refresh_worker_capacity s (w_id w)) ws s)) = map worker_core (workers s)"
  by (induction ws arbitrary: s) (auto simp: frame_simps)

lemma refresh_fold_book_inv:
  "book_inv s \<Longrightarrow> book_inv (fold (\<lambda>w s. refresh_worker_capacity s (w_id w)) ws s)"
  by (induction ws arbitrary: s) (simp_all add: refresh_book_inv)

text \<open>
  Recovery as a whole: it returns the number of recovered leases, keeps the invariant, drops exactly
  the selected leases from the active ones, settles exactly their runs and marks exactly the silent
  workers stale.
\<close>

definition stale_at :: "db \<Rightarrow> settings \<Rightarrow> locks \<Rightarrow> time \<Rightarrow> worker list" where
  "stale_at s cfg lk t = stale_workers s lk (t - secs (worker_stale_seconds cfg))"

definition expired_at :: "db \<Rightarrow> settings \<Rightarrow> locks \<Rightarrow> time \<Rightarrow> resource_allocation list" where
  "expired_at s cfg lk t = expired_allocations s lk t (map w_id (stale_at s cfg lk t))"

lemma recover_ok:
  assumes inv: "lifecycle_inv s"
  obtains s' where
    "recover_expired_allocations s cfg lk (Some t) = Inr (int (length (expired_at s cfg lk t)), s')"
    "lifecycle_inv s'"
    "filter active (resource_allocations s') =
       filter (\<lambda>b. active b \<and> b \<notin> set (expired_at s cfg lk t)) (resource_allocations s)"
    "statuses s' = settle_runs (a_run_id ` set (expired_at s cfg lk t)) (statuses s)"
    "map (\<lambda>w. (w_id w, w_status w)) (workers s') =
       map (\<lambda>w. (w_id w, if w_id w \<in> w_id ` set (stale_at s cfg lk t) then STALE else w_status w)) (workers s)"
    "map (\<lambda>w. (w_id w, w_total_cpu w, w_total_memory_mb w)) (workers s') =
       map (\<lambda>w. (w_id w, w_total_cpu w, w_total_memory_mb w)) (workers s)"
    "clock s' = clock s" "outbox_messages s' = outbox_messages s"
proof -
  let ?stale = "stale_at s cfg lk t"
  let ?exp = "expired_at s cfg lk t"
  let ?s1 = "mark_stale ?stale s"
  note fr = mark_stale_frame[of ?stale s]
  have inv1: "lifecycle_inv ?s1"
    using inv fr by (intro lifecycle_inv_workers[OF inv] mark_stale_book_inv) (auto simp: lifecycle_inv_def)
  have exp: "?exp = expired_allocations ?s1 lk t (map w_id ?stale)"
    using fr by (simp add: expired_at_def expired_allocations_def)
  have sub: "set ?exp \<subseteq> {a \<in> set (resource_allocations ?s1). active a}"
    unfolding exp by (auto simp: expired_allocations_def active_def)
  have filt: "?exp = filter (\<lambda>a. a \<in> set ?exp) (filter active (resource_allocations s))"
    by (auto simp: expired_at_def expired_allocations_def active_def filter_filter intro!: filter_cong)
  have dsr: "distinct (map a_run_id (filter active (resource_allocations s)))"
    using inv by (simp add: lifecycle_inv_def book_inv_def)
  then have dst: "distinct (map a_run_id ?exp)"
    by (subst filt) (rule distinct_map_filter)
  from recover_fold_ok[OF inv1 sub dst]
  obtain s2 where s2: "res_fold recover_one ?exp ?s1 = Inr s2" "lifecycle_inv s2"
    "filter active (resource_allocations s2) =
      filter (\<lambda>b. active b \<and> a_run_id b \<notin> a_run_id ` set ?exp) (resource_allocations ?s1)"
    "statuses s2 = settle_runs (a_run_id ` set ?exp) (statuses ?s1)"
    "map worker_core (workers s2) = map worker_core (workers ?s1)"
    "clock s2 = clock ?s1" "outbox_messages s2 = outbox_messages ?s1"
    by blast
  let ?s3 = "fold (\<lambda>w s. refresh_worker_capacity s (w_id w)) ?stale s2"
  have core: "map f (workers ?s3) = map f (workers ?s1)" if "\<And>w. f w = g (worker_core w)" for f g
  proof -
    have "map f ws = map g (map worker_core ws)" for ws using that by simp
    then show ?thesis by (simp only: refresh_fold(6) s2(5))
  qed
  have act: "filter active (resource_allocations ?s3) =
      filter (\<lambda>b. active b \<and> b \<notin> set ?exp) (resource_allocations s)"
  proof -
    have "a_run_id b \<in> a_run_id ` set ?exp \<longleftrightarrow> b \<in> set ?exp"
      if "b \<in> set (resource_allocations s)" "active b" for b
      using that sub fr distinct_map_inj[OF dsr, of b] by auto
    with s2(3) fr show ?thesis by (auto simp: refresh_fold intro!: filter_cong)
  qed
  show thesis
  proof (rule that[OF _ _ act])
    show "recover_expired_allocations s cfg lk (Some t) = Inr (int (length ?exp), ?s3)"
      using s2(1) exp
      by (simp add: recover_expired_allocations_def stale_at_def[symmetric] Let_def)
    show "lifecycle_inv ?s3"
      using s2(2) by (rule lifecycle_inv_workers)
        (use s2(2) in \<open>auto simp: refresh_fold lifecycle_inv_def intro: refresh_fold_book_inv\<close>)
    show "statuses ?s3 = settle_runs (a_run_id ` set ?exp) (statuses s)"
      using s2(4) fr by (simp add: refresh_fold)
    show "map (\<lambda>w. (w_id w, w_status w)) (workers ?s3) =
       map (\<lambda>w. (w_id w, if w_id w \<in> w_id ` set ?stale then STALE else w_status w)) (workers s)"
      using fr core[of "\<lambda>w. (w_id w, w_status w)" "\<lambda>(i, n, st, c, m, h). (i, st)"]
      by (simp add: worker_core_def)
    have "map (\<lambda>w. (w_id w, w_total_cpu w, w_total_memory_mb w)) (workers ?s1) =
        map (\<lambda>w. (w_id w, w_total_cpu w, w_total_memory_mb w)) (workers s)"
      using fr by (auto dest!: arg_cong[where f = "map (\<lambda>(i, n, c, m, h). (i, c, m))"] simp: comp_def)
    then show "map (\<lambda>w. (w_id w, w_total_cpu w, w_total_memory_mb w)) (workers ?s3) =
        map (\<lambda>w. (w_id w, w_total_cpu w, w_total_memory_mb w)) (workers s)"
      using core[of "\<lambda>w. (w_id w, w_total_cpu w, w_total_memory_mb w)" "\<lambda>(i, n, st, c, m, h). (i, c, m)"]
      by (simp add: worker_core_def)
  qed (use s2 fr in \<open>simp_all add: refresh_fold\<close>)
qed


lemma recover_None:
  "recover_expired_allocations s cfg lk None =
   recover_expired_allocations (s\<lparr>ticks := Suc (ticks s)\<rparr>) cfg lk (Some (clock s (ticks s)))"
  by (simp add: recover_expired_allocations_def now_utc_def)


section \<open>Reserving a worker\<close>

text \<open>The outbox row an assignment leaves behind.\<close>

definition assignment_message :: "db \<Rightarrow> settings \<Rightarrow> uuid \<Rightarrow> uuid \<Rightarrow> resource_allocation \<Rightarrow> outbox_message" where
  "assignment_message s cfg rid wid a =
     \<lparr>o_id = next_uuid s + 2, o_topic = broker_topic cfg, o_partition_key = uuid_str rid,
      o_envelope = \<lparr>ev_event_id = next_uuid s, ev_event_version = 1, ev_event_type = ''run.assigned'',
        ev_occurred_at = clock s (ticks s),
        ev_correlation_id = ''scheduler-'' @ uuid_str (next_uuid s + 1),
        ev_run_id = Some rid, ev_worker_id = Some wid,
        ev_payload = [(''lease_token'', JStr (uuid_str (a_lease_token a))),
          (''requested_cpu'', JFloat (a_cpu a)), (''requested_memory_mb'', JInt (a_memory_mb a))]\<rparr>,
      o_created_at = tx_now s, o_published_at = None, o_publish_attempts = 0, o_last_error = None\<rparr>"

lemma add_assignment_event_eq:
  "add_assignment_event s cfg rid wid a =
     Inr (outbox_messages_update (\<lambda>ms. ms @ [assignment_message s cfg rid wid a])
       (s\<lparr>next_uuid := next_uuid s + 3, ticks := Suc (ticks s)\<rparr>))"
  by (simp add: add_assignment_event_def uuid4_def now_utc_def mk_envelope_def validate_envelope_def
      envelope_ok_def add_outbox_def Let_def assignment_message_def)

definition new_lease :: "settings \<Rightarrow> time \<Rightarrow> run \<Rightarrow> worker \<Rightarrow> db \<Rightarrow> resource_allocation" where
  "new_lease cfg now r w s =
     \<lparr>a_id = next_uuid s, a_run_id = r_id r, a_worker_id = w_id w, a_cpu = r_requested_cpu r,
      a_memory_mb = r_requested_memory_mb r, a_lease_token = Suc (next_uuid s),
      a_lease_expires_at = now + secs (allocation_lease_seconds cfg), a_released_at = None\<rparr>"

lemma charge_simps [simp]:
  "w_id (charge r w) = w_id w" "w_name (charge r w) = w_name w" "w_status (charge r w) = w_status w"
  "w_total_cpu (charge r w) = w_total_cpu w" "w_total_memory_mb (charge r w) = w_total_memory_mb w"
  "w_last_heartbeat_at (charge r w) = w_last_heartbeat_at w"
  by (simp_all add: charge_def)

text \<open>
  The specification of one assignment, over the tables: one new lease, the run's row replaced by
  \<open>r'\<close>, the worker charged, one lifecycle event, one outbox message that carries the lease token.
\<close>

definition assign_effect ::
  "settings \<Rightarrow> time \<Rightarrow> run \<Rightarrow> worker \<Rightarrow> db \<Rightarrow> db \<Rightarrow> run \<Rightarrow> run_event \<Rightarrow> outbox_message \<Rightarrow> bool" where
  "assign_effect cfg now r w s s' r' e m \<longleftrightarrow>
     resource_allocations s' = resource_allocations s @ [new_lease cfg now r w s] \<and>
     runs s' = upd_row r_id (r_id r) (\<lambda>_. r') (runs s) \<and>
     r_id r' = r_id r \<and> r_status r' = SCHEDULING \<and> r_assigned_worker_id r' = Some (w_id w) \<and>
     r_requested_cpu r' = r_requested_cpu r \<and> r_requested_memory_mb r' = r_requested_memory_mb r \<and>
     workers s' = upd_row w_id (w_id w) (\<lambda>v. touch_worker (tx_now s) v (charge r v)) (workers s) \<and>
     run_events s' = run_events s @ [e] \<and> e_run_id e = r_id r \<and>
     e_previous_status e = Some QUEUED \<and> e_new_status e = Some SCHEDULING \<and>
     outbox_messages s' = outbox_messages s @ [m] \<and> o_published_at m = None \<and>
     envelope_ok (o_envelope m) \<and> ev_event_type (o_envelope m) = ''run.assigned'' \<and>
     ev_run_id (o_envelope m) = Some (r_id r) \<and> ev_worker_id (o_envelope m) = Some (w_id w) \<and>
     map_of (ev_payload (o_envelope m)) ''lease_token'' =
       Some (JStr (uuid_str (a_lease_token (new_lease cfg now r w s)))) \<and>
     next_uuid s' = next_uuid s + 6 \<and> clock s' = clock s \<and> collation s' = collation s \<and> tx_now s' = tx_now s"

text \<open>An assignment whose run was just read as queued and holds no lease does not fail.\<close>

lemma assign_run_ok:
  assumes inv: "lifecycle_inv s" and r: "r \<in> set (runs s)" "r_status r = QUEUED"
  obtains s' r' e m where "assign_run cfg now r w s = Inr s'" "assign_effect cfg now r w s s' r' e m"
proof -
  have dst: "distinct (map r_id (runs s))" and st: "status_inv s"
    using inv by (auto simp: lifecycle_inv_def book_inv_def ids_inv_def)
  have free: "\<not> list_ex (\<lambda>a. a_run_id a = r_id r \<and> a_released_at a = None) (resource_allocations s)"
  proof -
    have "leases s (r_id r) = None"
      using status_invD[OF st r(1)] r(2) by (auto simp: busy_def split: option.splits)
    then show ?thesis by (auto simp: leases_None_iff list_ex_iff active_def)
  qed
  let ?r = "r\<lparr>r_assigned_worker_id := Some (w_id w)\<rparr>"
  let ?s3 = "resource_allocations_update (\<lambda>as. as @ [new_lease cfg now r w s])
    (s\<lparr>next_uuid := Suc (Suc (next_uuid s))\<rparr>)"
  let ?md = "[(''worker_id'', JStr (uuid_str (w_id w))), (''lease_id'', JStr (uuid_str (next_uuid s)))]"
  let ?s4 = "after_move ?s3 ?r SCHEDULING ''run.scheduling'' ?md id"
  let ?s5 = "save_worker ?s4 (w_id w) (charge r)"
  have get: "get_run ?s3 (r_id ?r) = Some r"
    using get_row_in[OF dst r(1)] by (simp add: get_run_def)
  have tf: "transition_and_flush ?s3 ?r SCHEDULING ''run.scheduling'' ?md id =
      Inr (moved ?s3 ?r SCHEDULING id, ?s4)"
    using get r(2) by (intro transition_and_flush_ok[where d = r]) auto
  let ?s6 = "outbox_messages_update
      (\<lambda>ms. ms @ [assignment_message ?s5 cfg (r_id r) (w_id w) (new_lease cfg now r w s)])
      (?s5\<lparr>next_uuid := next_uuid ?s5 + 3, ticks := Suc (ticks ?s5)\<rparr>)"
  have eq: "assign_run cfg now r w s = Inr ?s6"
    using free tf
    by (simp add: assign_run_def uuid4_def Let_def new_lease_def add_assignment_event_eq)
  have "r_assigned_worker_id (moved ?s3 ?r SCHEDULING id) = Some (w_id w)" by (simp add: moved_def)
  then show thesis
    by (intro that[OF eq, of "moved ?s3 ?r SCHEDULING id" "last (run_events ?s6)" "last (outbox_messages ?s6)"])
      (simp add: assign_effect_def frame_simps db_simps assignment_message_def r(2) envelope_ok_def)
qed


lemma new_lease_simps [simp]:
  "a_run_id (new_lease cfg now r w s) = r_id r" "a_worker_id (new_lease cfg now r w s) = w_id w"
  "a_id (new_lease cfg now r w s) = next_uuid s" "a_cpu (new_lease cfg now r w s) = r_requested_cpu r"
  "a_memory_mb (new_lease cfg now r w s) = r_requested_memory_mb r"
  "active (new_lease cfg now r w s)" "a_released_at (new_lease cfg now r w s) = None"
  "a_lease_expires_at (new_lease cfg now r w s) = now + secs (allocation_lease_seconds cfg)"
  by (simp_all add: new_lease_def active_def)

lemma used_append:
  assumes "active a"
  shows "used_cpu v (as @ [a]) = used_cpu v as + (if a_worker_id a = v then a_cpu a else 0)"
    "used_memory v (as @ [a]) = used_memory v as + (if a_worker_id a = v then a_memory_mb a else 0)"
    "length (active_of v (as @ [a])) = length (active_of v as) + (if a_worker_id a = v then 1 else 0)"
  using assms by (simp_all add: used_cpu_def used_memory_def active_of_def active_def)

lemma max_charge:
  fixes x q :: "'a::linordered_idom"
  assumes "0 \<le> q" "q \<le> max 0 x"
  shows "max 0 (x - q) = max 0 x - q"
  using assms by (auto simp: max_def split: if_splits)

lemma capacity_ok_charge:
  assumes "capacity_ok as w" "active a" "a_worker_id a = w_id w" "a_cpu a = r_requested_cpu r"
    and "a_memory_mb a = r_requested_memory_mb r" "0 \<le> r_requested_cpu r" "0 \<le> r_requested_memory_mb r"
    and "r_requested_cpu r \<le> w_available_cpu w" "r_requested_memory_mb r \<le> w_available_memory_mb w"
  shows "capacity_ok (as @ [a]) (touch_worker t w (charge r w))"
proof -
  have "max 0 (w_total_cpu w - used_cpu (w_id w) as - r_requested_cpu r) = w_available_cpu w - r_requested_cpu r"
    "max 0 (w_total_memory_mb w - used_memory (w_id w) as - r_requested_memory_mb r) =
      w_available_memory_mb w - r_requested_memory_mb r"
    using assms(1,6-9) max_charge[of "r_requested_cpu r" "w_total_cpu w - used_cpu (w_id w) as"]
      max_charge[of "r_requested_memory_mb r" "w_total_memory_mb w - used_memory (w_id w) as"]
    by (auto simp: capacity_ok_def)
  then show ?thesis
    using assms(1-5) by (auto simp: capacity_ok_def used_append charge_def diff_diff_add)
qed

lemma leases_append:
  assumes "resource_allocations s' = resource_allocations s @ [a]" "active a" "leases s (a_run_id a) = None"
  shows "leases s' = (leases s)(a_run_id a \<mapsto> (a_worker_id a, a_cpu a, a_memory_mb a))"
proof -
  have "leases s' = [a_run_id a \<mapsto> (a_worker_id a, a_cpu a, a_memory_mb a)] ++ leases s"
    using assms(1,2) by (simp add: leases_def)
  with assms(3) show ?thesis by (simp add: fun_eq_iff map_add_def split: option.split)
qed

text \<open>An assignment keeps the lifecycle invariant and puts exactly one lease on the book.\<close>

lemma assign_run_inv:
  assumes inv: "lifecycle_inv s" and r: "r \<in> set (runs s)" "r_status r = QUEUED"
    and w: "w \<in> set (workers s)" and el: "eligible lk h r w"
    and eq: "assign_run cfg now r w s = Inr s'"
  shows "lifecycle_inv s'"
proof -
  obtain r' e m where eff: "assign_effect cfg now r w s s' r' e m"
    using assign_run_ok[OF inv r, of cfg now w] eq by (metis Inr_inject)
  then have s': "resource_allocations s' = resource_allocations s @ [new_lease cfg now r w s]"
    "runs s' = upd_row r_id (r_id r) (\<lambda>_. r') (runs s)"
    and r': "r_id r' = r_id r" "r_status r' = SCHEDULING" "r_assigned_worker_id r' = Some (w_id w)"
      "r_requested_cpu r' = r_requested_cpu r" "r_requested_memory_mb r' = r_requested_memory_mb r"
    and ws: "workers s' = upd_row w_id (w_id w) (\<lambda>v. touch_worker (tx_now s) v (charge r v)) (workers s)"
    and ev: "run_events s' = run_events s @ [e]" "e_run_id e = r_id r"
       "e_previous_status e = Some QUEUED" "e_new_status e = Some SCHEDULING"
    and nx: "next_uuid s' = next_uuid s + 6"
    by (simp_all add: assign_effect_def)
  have dst: "distinct (map r_id (runs s))" and dsw: "distinct (map w_id (workers s))"
    and book: "book_inv s" and st: "status_inv s"
    and cap: "\<forall>v\<in>set (workers s). capacity_ok (resource_allocations s) v"
    using inv by (auto simp: lifecycle_inv_def book_inv_def ids_inv_def capacity_inv_def list_all_iff)
  have req: "0 < r_requested_cpu r" "0 < r_requested_memory_mb r"
    using inv r(1) by (auto simp: lifecycle_inv_def request_inv_def)
  have none: "leases s (r_id r) = None"
    using status_invD[OF st r(1)] r(2) by (auto simp: busy_def split: option.splits)
  have ls: "leases s' = (leases s)(r_id r \<mapsto> (w_id w, r_requested_cpu r, r_requested_memory_mb r))"
    using leases_append[OF s'(1)] none by simp
  have wids: "map w_id (workers s') = map w_id (workers s)" "map w_name (workers s') = map w_name (workers s)"
    unfolding ws by (simp_all add: map_upd_row)
  have wimg: "w_id ` set (workers s') = w_id ` set (workers s)" by (metis wids(1) set_map)
  have rids: "map r_id (runs s') = map r_id (runs s)" unfolding s'(2) by (simp add: map_upd_row r')
  have rimg: "r_id ` set (runs s') = r_id ` set (runs s)" by (metis rids set_map)
  have "capacity_inv s'"
    unfolding capacity_inv_def list_all_iff ws ball_upd_row s'(1)
  proof
    fix v assume v: "v \<in> set (workers s)"
    show "if w_id v = w_id w then capacity_ok (resource_allocations s @ [new_lease cfg now r w s])
        (touch_worker (tx_now s) v (charge r v))
      else capacity_ok (resource_allocations s @ [new_lease cfg now r w s]) v"
    proof (cases "w_id v = w_id w")
      case True
      with key_inj[OF dsw v w] have "v = w" by simp
      with cap w el req show ?thesis by (simp add: capacity_ok_charge eligible_def)
    next
      case False
      with cap v show ?thesis by (simp add: capacity_ok_def used_append)
    qed
  qed
  moreover have "ids_inv s'"
    using book wids rids nx s'(1) keys_bounded[OF wids(1), of "next_uuid s" "next_uuid s'"]
      keys_bounded[OF rids, of "next_uuid s" "next_uuid s'"]
    by (auto simp: book_inv_def ids_inv_def)
  moreover have "distinct (map a_run_id (filter active (resource_allocations s')))"
    using book none s'(1) by (auto simp: book_inv_def leases_None_iff)
  ultimately have "book_inv s'"
    using book req w unfolding book_inv_def wimg s'(1) by auto
  moreover have "status_inv s'"
    unfolding status_inv_def s'(2) ball_upd_row
    using st r' rimg r(1) by (auto simp: ls status_inv_def busy_def s' set_upd_row)
  moreover have "audit_inv s'"
    using audit_inv_transition[of s r r SCHEDULING s' r'] inv ev dst r get_row_in[OF dst r(1)] s'(2) r'
    by (auto simp: lifecycle_inv_def get_run_def)
  moreover have "request_inv s'"
    using inv req by (auto simp: lifecycle_inv_def request_inv_def s'(2) ball_upd_row r')
  ultimately show ?thesis by (simp add: lifecycle_inv_def)
qed

end
