(* ===== verification/Schedule_Pass.thy ===== *)
theory Schedule_Pass
  imports Scheduler
begin

text \<open>
  What one scheduling pass guarantees. The loop over the queued runs is described by one predicate,
  \<open>pass_effect\<close>, proved by induction over the queue; the properties of \<open>schedule_once\<close> are read
  off it.
\<close>

section \<open>The scheduling pass\<close>

text \<open>
  Between two points of a pass a worker's identity, status and last heartbeat stay and its free
  capacity does not grow, so a run that fits nowhere at its turn fits nowhere at the end.
\<close>

definition shrinks :: "db \<Rightarrow> db \<Rightarrow> bool" where
  "shrinks s s' \<longleftrightarrow> (\<forall>v'\<in>set (workers s'). \<exists>v\<in>set (workers s). w_id v = w_id v' \<and>
     w_status v = w_status v' \<and> w_last_heartbeat_at v = w_last_heartbeat_at v' \<and>
     w_available_cpu v' \<le> w_available_cpu v \<and> w_available_memory_mb v' \<le> w_available_memory_mb v)"

lemma shrinks_refl [simp]: "shrinks s s"
  by (auto simp: shrinks_def)

lemma shrinks_trans:
  assumes "shrinks s s1" "shrinks s1 s2"
  shows "shrinks s s2"
  unfolding shrinks_def
proof
  fix v2 assume "v2 \<in> set (workers s2)"
  then obtain v1 where v1: "v1 \<in> set (workers s1)" "w_id v1 = w_id v2" "w_status v1 = w_status v2"
    "w_last_heartbeat_at v1 = w_last_heartbeat_at v2" "w_available_cpu v2 \<le> w_available_cpu v1"
    "w_available_memory_mb v2 \<le> w_available_memory_mb v1"
    using assms(2) by (auto simp: shrinks_def)
  moreover obtain v where "v \<in> set (workers s)" "w_id v = w_id v1" "w_status v = w_status v1"
    "w_last_heartbeat_at v = w_last_heartbeat_at v1" "w_available_cpu v1 \<le> w_available_cpu v"
    "w_available_memory_mb v1 \<le> w_available_memory_mb v"
    using assms(1) v1(1) by (auto simp: shrinks_def)
  ultimately show "\<exists>v\<in>set (workers s). w_id v = w_id v2 \<and> w_status v = w_status v2 \<and>
      w_last_heartbeat_at v = w_last_heartbeat_at v2 \<and> w_available_cpu v2 \<le> w_available_cpu v \<and>
      w_available_memory_mb v2 \<le> w_available_memory_mb v"
    by (intro bexI[of _ v]) auto
qed

lemma shrinks_eligible:
  assumes "shrinks s s'" "\<forall>w\<in>set (workers s). \<not> eligible lk h r w"
  shows "\<forall>w\<in>set (workers s'). \<not> eligible lk h r w"
proof
  fix v' assume "v' \<in> set (workers s')"
  then obtain v where "v \<in> set (workers s)" "w_id v = w_id v'" "w_status v = w_status v'"
    "w_last_heartbeat_at v = w_last_heartbeat_at v'" "w_available_cpu v' \<le> w_available_cpu v"
    "w_available_memory_mb v' \<le> w_available_memory_mb v"
    using assms(1) by (auto simp: shrinks_def)
  with assms(2) show "\<not> eligible lk h r v'" by (fastforce simp: eligible_def)
qed

lemma assign_shrinks:
  assumes "assign_effect cfg now r w s s' r' e m" "0 \<le> r_requested_cpu r" "0 \<le> r_requested_memory_mb r"
  shows "shrinks s s'"
proof -
  have ws: "workers s' = upd_row w_id (w_id w) (\<lambda>v. touch_worker (tx_now s) v (charge r v)) (workers s)"
    using assms(1) by (simp add: assign_effect_def)
  show ?thesis
    unfolding shrinks_def ws ball_upd_row
    using assms(2,3) by (auto simp: charge_def intro!: bexI)
qed

lemma pick_workerD:
  assumes "pick_worker s lk h r = Some w"
  shows "w \<in> set (workers s)" "eligible lk h r w"
  using first_by_SomeD(1)[OF assms[unfolded pick_worker_def]] by auto

lemma pick_worker_None: "pick_worker s lk h r = None \<longleftrightarrow> (\<forall>w\<in>set (workers s). \<not> eligible lk h r w)"
  by (simp add: pick_worker_def filter_empty_conv)

text \<open>A worker is within its capacity when its active leases do not exceed its totals.\<close>

definition within_totals :: "db \<Rightarrow> worker \<Rightarrow> bool" where
  "within_totals s w \<longleftrightarrow> used_cpu (w_id w) (resource_allocations s) \<le> w_total_cpu w \<and>
     used_memory (w_id w) (resource_allocations s) \<le> w_total_memory_mb w"

lemma assign_within:
  assumes inv: "lifecycle_inv s" and eff: "assign_effect cfg now r w s s' r' e m"
    and w: "w \<in> set (workers s)" "eligible lk h r w"
    and req: "0 < r_requested_cpu r" "0 < r_requested_memory_mb r"
    and v': "v' \<in> set (workers s')"
    and ok: "w_id v' = w_id w \<or> (\<exists>v\<in>set (workers s). w_id v = w_id v' \<and> within_totals s v)"
  shows "within_totals s' v'"
proof -
  have dsw: "distinct (map w_id (workers s))" and cap: "capacity_ok (resource_allocations s) w"
    using inv w(1) by (auto simp: lifecycle_inv_def book_inv_def ids_inv_def capacity_inv_def list_all_iff)
  have ra: "resource_allocations s' = resource_allocations s @ [new_lease cfg now r w s]"
    using eff by (simp add: assign_effect_def)
  obtain v where v: "v \<in> set (workers s)"
    "v' = (if w_id v = w_id w then touch_worker (tx_now s) v (charge r v) else v)"
    using v' eff by (auto simp: assign_effect_def set_upd_row)
  then have id: "w_id v' = w_id v" by auto
  show ?thesis
  proof (cases "w_id v = w_id w")
    case True
    with key_inj[OF dsw v(1) w(1)] have "v = w" by simp
    with v(2) cap w(2) req show ?thesis
      by (auto simp: within_totals_def ra used_append capacity_ok_def eligible_def max_def split: if_splits)
  next
    case False
    with ok id key_inj[OF dsw v(1)] have "within_totals s v" by (metis (no_types))
    with False v(2) show ?thesis by (simp add: within_totals_def ra used_append)
  qed
qed

text \<open>
  The effect of a pass over the runs \<open>rs\<close>: the new leases \<open>as\<close> and the assignment messages \<open>ms\<close>
  correspond, the leased runs are \<open>SCHEDULING\<close>, the other runs keep their rows, whoever of \<open>rs\<close>
  got no lease fits no healthy worker, and a run is passed over in favour of a later one only if it
  asks for more of some resource.
\<close>

definition announces :: "outbox_message \<Rightarrow> uuid option \<times> uuid option \<times> json option" where
  "announces m = (ev_run_id (o_envelope m), ev_worker_id (o_envelope m),
     map_of (ev_payload (o_envelope m)) ''lease_token'')"

definition announcement :: "resource_allocation \<Rightarrow> uuid option \<times> uuid option \<times> json option" where
  "announcement a = (Some (a_run_id a), Some (a_worker_id a), Some (JStr (uuid_str (a_lease_token a))))"

definition fair :: "uuid set \<Rightarrow> run \<Rightarrow> run \<Rightarrow> bool" where
  "fair X r q \<longleftrightarrow> r_id q \<in> X \<longrightarrow> r_id r \<in> X \<or>
     r_requested_cpu q < r_requested_cpu r \<or> r_requested_memory_mb q < r_requested_memory_mb r"

definition pass_effect ::
  "locks \<Rightarrow> time \<Rightarrow> run list \<Rightarrow> db \<Rightarrow> db \<Rightarrow> resource_allocation list \<Rightarrow> outbox_message list \<Rightarrow> bool" where
  "pass_effect lk h rs s s' as ms \<longleftrightarrow> lifecycle_inv s' \<and> shrinks s s' \<and>
     resource_allocations s' = resource_allocations s @ as \<and>
     outbox_messages s' = outbox_messages s @ ms \<and>
     map announces ms = map announcement as \<and>
     (\<forall>a\<in>set as. active a) \<and> a_run_id ` set as \<subseteq> r_id ` set rs \<and>
     statuses s' = map (\<lambda>(i, t). (i, if i \<in> a_run_id ` set as then SCHEDULING else t)) (statuses s) \<and>
     {q \<in> set (runs s'). r_id q \<notin> a_run_id ` set as} \<subseteq> set (runs s) \<and>
     (\<forall>r\<in>set rs. r_id r \<notin> a_run_id ` set as \<longrightarrow> (\<forall>w\<in>set (workers s'). \<not> eligible lk h r w)) \<and>
     (\<forall>r\<in>set rs. r_id r \<in> a_run_id ` set as \<longrightarrow> (\<exists>w\<in>set (workers s). eligible lk h r w)) \<and>
     sorted_wrt (fair (a_run_id ` set as)) rs \<and>
     (\<forall>v'\<in>set (workers s'). (\<exists>a\<in>set as. a_worker_id a = w_id v') \<or>
        (\<exists>v\<in>set (workers s). w_id v = w_id v' \<and> within_totals s v) \<longrightarrow> within_totals s' v')"

lemma pass_effectD:
  assumes "pass_effect lk h rs s s' as ms"
  shows "lifecycle_inv s'" "shrinks s s'" "resource_allocations s' = resource_allocations s @ as"
    "outbox_messages s' = outbox_messages s @ ms" "map announces ms = map announcement as"
    "\<forall>a\<in>set as. active a" "a_run_id ` set as \<subseteq> r_id ` set rs"
    "statuses s' = map (\<lambda>(i, t). (i, if i \<in> a_run_id ` set as then SCHEDULING else t)) (statuses s)"
    "{q \<in> set (runs s'). r_id q \<notin> a_run_id ` set as} \<subseteq> set (runs s)"
    "r \<in> set rs \<Longrightarrow> r_id r \<notin> a_run_id ` set as \<Longrightarrow> w \<in> set (workers s') \<Longrightarrow> \<not> eligible lk h r w"
    "r \<in> set rs \<Longrightarrow> r_id r \<in> a_run_id ` set as \<Longrightarrow> \<exists>w\<in>set (workers s). eligible lk h r w"
    "sorted_wrt (fair (a_run_id ` set as)) rs"
    "v' \<in> set (workers s') \<Longrightarrow> (\<exists>a\<in>set as. a_worker_id a = w_id v') \<or>
        (\<exists>v\<in>set (workers s). w_id v = w_id v' \<and> within_totals s v) \<Longrightarrow> within_totals s' v'"
  using assms unfolding pass_effect_def by blast+

lemma eligible_mono:
  "eligible lk h q w \<Longrightarrow> r_requested_cpu r \<le> r_requested_cpu q \<Longrightarrow>
   r_requested_memory_mb r \<le> r_requested_memory_mb q \<Longrightarrow> eligible lk h r w"
  by (auto simp: eligible_def)

text \<open>Passing over a run that fits nowhere keeps the description.\<close>

lemma pass_effect_skip:
  assumes "pass_effect lk h rs s s' as ms" "r_id r \<notin> r_id ` set rs"
    and "\<forall>w\<in>set (workers s). \<not> eligible lk h r w"
  shows "pass_effect lk h (r # rs) s s' as ms"
proof -
  have r: "r_id r \<notin> a_run_id ` set as" using pass_effectD(7)[OF assms(1)] assms(2) by blast
  have "fair (a_run_id ` set as) r q" if q: "q \<in> set rs" for q
    unfolding fair_def
  proof (rule impI, rule disjI2)
    assume x: "r_id q \<in> a_run_id ` set as"
    obtain w where "w \<in> set (workers s)" "eligible lk h q w"
      using pass_effectD(11)[OF assms(1) q x] by blast
    with assms(3) eligible_mono[of lk h q w r]
    show "r_requested_cpu q < r_requested_cpu r \<or> r_requested_memory_mb q < r_requested_memory_mb r"
      by fastforce
  qed
  moreover have "\<forall>w\<in>set (workers s'). \<not> eligible lk h r w"
    using shrinks_eligible[OF pass_effectD(2)[OF assms(1)] assms(3)] .
  ultimately show ?thesis
    using assms(1) r by (auto simp: pass_effect_def)
qed

text \<open>So does assigning a run and going on.\<close>

lemma shrinks_eligible_back:
  assumes "shrinks s s'" "\<exists>w\<in>set (workers s'). eligible lk h r w"
  shows "\<exists>w\<in>set (workers s). eligible lk h r w"
  using shrinks_eligible[OF assms(1)] assms(2) by blast

lemma pass_effect_assign:
  assumes inv: "lifecycle_inv s" and eff: "assign_effect cfg now r w s s1 r' e m"
    and rest: "pass_effect lk h rs s1 s' as ms"
    and w: "w \<in> set (workers s)" "eligible lk h r w" and r: "r \<in> set (runs s)"
    and fresh: "r_id r \<notin> r_id ` set rs"
  shows "pass_effect lk h (r # rs) s s' (new_lease cfg now r w s # as) (m # ms)"
proof -
  have req: "0 < r_requested_cpu r" "0 < r_requested_memory_mb r"
    using inv r by (auto simp: lifecycle_inv_def request_inv_def)
  have sh: "shrinks s s1" using assign_shrinks[OF eff] req by simp
  then have sh': "shrinks s s'" using pass_effectD(2)[OF rest] by (rule shrinks_trans)
  have st1: "statuses s1 = map (\<lambda>(i, t). (i, if i = r_id r then SCHEDULING else t)) (statuses s)"
    using eff by (auto simp: assign_effect_def upd_row_def)
  have rows: "{q \<in> set (runs s'). r_id q \<notin> insert (r_id r) (a_run_id ` set as)} \<subseteq> set (runs s)"
    using pass_effectD(9)[OF rest] eff by (auto simp: assign_effect_def set_upd_row split: if_splits)
  have elig: "\<exists>w\<in>set (workers s). eligible lk h q w"
    if "q \<in> set (r # rs)" "r_id q \<in> insert (r_id r) (a_run_id ` set as)" for q
  proof (cases "q = r")
    case False
    then have q: "q \<in> set rs" using that by simp
    then have "r_id q \<noteq> r_id r" using fresh by (metis imageI)
    with q have "r_id q \<in> a_run_id ` set as" "q \<in> set rs" using that(2) by simp_all
    with pass_effectD(11)[OF rest] have "\<exists>w\<in>set (workers s1). eligible lk h q w" by blast
    with sh show ?thesis by (rule shrinks_eligible_back)
  qed (use w in blast)
  have wi1: "within_totals s1 v1" if "v1 \<in> set (workers s1)"
    "w_id v1 = w_id w \<or> (\<exists>v\<in>set (workers s). w_id v = w_id v1 \<and> within_totals s v)" for v1
    using assign_within[OF inv eff w req that] .
  have wi: "within_totals s' v'"
    if v': "v' \<in> set (workers s')" and or: "(\<exists>a\<in>set (new_lease cfg now r w s # as). a_worker_id a = w_id v') \<or>
        (\<exists>v\<in>set (workers s). w_id v = w_id v' \<and> within_totals s v)" for v'
  proof -
    obtain v1 where v1: "v1 \<in> set (workers s1)" "w_id v1 = w_id v'"
      using pass_effectD(2)[OF rest] v' by (auto simp: shrinks_def)
    have "(\<exists>a\<in>set as. a_worker_id a = w_id v') \<or> within_totals s1 v1"
      using or wi1[OF v1(1)] v1(2) by auto
    with pass_effectD(13)[OF rest v'] v1 show ?thesis by blast
  qed
  have srt: "sorted_wrt (fair (insert (r_id r) (a_run_id ` set as))) (r # rs)"
  proof -
    have "sorted_wrt (fair (insert (r_id r) (a_run_id ` set as))) rs"
    proof (rule sorted_wrt_mono_rel[OF _ pass_effectD(12)[OF rest]])
      fix p q assume pq: "p \<in> set rs" "q \<in> set rs" "fair (a_run_id ` set as) p q"
      then have "r_id q \<noteq> r_id r" using fresh by (metis imageI)
      with pq(3) show "fair (insert (r_id r) (a_run_id ` set as)) p q" by (auto simp: fair_def)
    qed
    then show ?thesis by (simp add: fair_def)
  qed
  have base: "resource_allocations s' = resource_allocations s @ new_lease cfg now r w s # as"
    "outbox_messages s' = outbox_messages s @ m # ms" "map announces (m # ms) = map announcement (new_lease cfg now r w s # as)"
    using pass_effectD(3-5)[OF rest] eff
    by (auto simp: assign_effect_def announces_def announcement_def)
  have sts: "statuses s' = map (\<lambda>(i, t). (i, if i \<in> insert (r_id r) (a_run_id ` set as) then SCHEDULING else t)) (statuses s)"
  proof -
    have "statuses s' = map (\<lambda>(i, t). (i, if i \<in> a_run_id ` set as then SCHEDULING else t)) (statuses s1)"
      using pass_effectD(8)[OF rest] .
    then show ?thesis unfolding st1 by auto
  qed
  have img: "a_run_id ` set (new_lease cfg now r w s # as) = insert (r_id r) (a_run_id ` set as)" by simp
  show ?thesis
    unfolding pass_effect_def img
  proof (intro conjI)
    show "\<forall>q\<in>set (r # rs). r_id q \<notin> insert (r_id r) (a_run_id ` set as) \<longrightarrow>
        (\<forall>w\<in>set (workers s'). \<not> eligible lk h q w)"
      using pass_effectD(10)[OF rest] by auto
    show "insert (r_id r) (a_run_id ` set as) \<subseteq> r_id ` set (r # rs)" using pass_effectD(7)[OF rest] by auto
    show "\<forall>a\<in>set (new_lease cfg now r w s # as). active a" using pass_effectD(6)[OF rest] by simp
  qed (use pass_effectD(1)[OF rest] sh' base sts rows elig wi srt in blast)+
qed

lemma schedule_loop_ok:
  assumes "lifecycle_inv s" "\<forall>r\<in>set rs. r \<in> set (runs s) \<and> r_status r = QUEUED" "distinct (map r_id rs)"
  shows "\<exists>s' as ms. res_fold (schedule_run cfg lk now h) rs (n, s) = Inr (n + int (length as), s') \<and>
    pass_effect lk h rs s s' as ms"
  using assms
proof (induction rs arbitrary: n s)
  case Nil
  then show ?case
    by (intro exI[of _ s] exI[of _ "[]"]) (auto simp: pass_effect_def case_prod_beta dest: key_inj
        simp: lifecycle_inv_def book_inv_def ids_inv_def within_totals_def)
next
  case (Cons r rs)
  have r: "r \<in> set (runs s)" "r_status r = QUEUED" using Cons.prems(2) by auto
  have fresh: "r_id r \<notin> r_id ` set rs" using Cons.prems(3) by auto
  show ?case
  proof (cases "pick_worker s lk h r")
    case None
    have "\<exists>s' as ms. res_fold (schedule_run cfg lk now h) rs (n, s) = Inr (n + int (length as), s') \<and>
        pass_effect lk h rs s s' as ms"
      using Cons.prems by (intro Cons.IH) auto
    then obtain s' as ms where IH: "res_fold (schedule_run cfg lk now h) rs (n, s) = Inr (n + int (length as), s')"
      "pass_effect lk h rs s s' as ms" by blast
    have "pass_effect lk h (r # rs) s s' as ms"
      using pass_effect_skip[OF IH(2) fresh] None by (simp add: pick_worker_None)
    moreover have "schedule_run cfg lk now h r (n, s) = Inr (n, s)" using None by (simp add: schedule_run_def)
    ultimately show ?thesis using IH(1) by auto
  next
    case (Some w)
    obtain s1 r' e m where s1: "assign_run cfg now r w s = Inr s1" "assign_effect cfg now r w s s1 r' e m"
      using assign_run_ok[OF Cons.prems(1) r] .
    have inv1: "lifecycle_inv s1"
      using assign_run_inv[OF Cons.prems(1) r pick_workerD[OF Some] s1(1)] .
    have "\<forall>q\<in>set rs. q \<in> set (runs s1) \<and> r_status q = QUEUED"
    proof
      fix q assume q: "q \<in> set rs"
      then have "r_id q \<noteq> r_id r" using fresh by (metis imageI)
      with q show "q \<in> set (runs s1) \<and> r_status q = QUEUED"
        using Cons.prems(2) s1(2) by (force simp: assign_effect_def set_upd_row)
    qed
    then obtain s' as ms where IH: "res_fold (schedule_run cfg lk now h) rs (n + 1, s1) = Inr (n + 1 + int (length as), s')"
      "pass_effect lk h rs s1 s' as ms" using Cons.IH[OF inv1, of "n + 1"] Cons.prems(3) by auto
    have "pass_effect lk h (r # rs) s s' (new_lease cfg now r w s # as) (m # ms)"
      using pass_effect_assign[OF Cons.prems(1) s1(2) IH(2) pick_workerD[OF Some] r(1) fresh] .
    moreover have "schedule_run cfg lk now h r (n, s) = Inr (n + 1, s1)"
      using s1(1) Some by (simp add: schedule_run_def)
    ultimately show ?thesis
      using IH(1)
      by (intro exI[of _ s'] exI[of _ "new_lease cfg now r w s # as"] exI[of _ "m # ms"])
        (simp add: add.assoc)
  qed
qed


section \<open>The pass as a transaction\<close>

text \<open>
  The state in which the queue is read: after recovery, one clock reading later. \<open>pass_time\<close> is that
  reading and \<open>pass_horizon\<close> the oldest heartbeat that still counts as healthy.
\<close>

definition pass_start :: "db \<Rightarrow> settings \<Rightarrow> locks \<Rightarrow> db" where
  "pass_start s cfg lk =
     (case recover_expired_allocations s cfg lk None of Inl _ \<Rightarrow> s | Inr (_, s1) \<Rightarrow> snd (now_utc s1))"

definition pass_horizon :: "db \<Rightarrow> settings \<Rightarrow> locks \<Rightarrow> time" where
  "pass_horizon s cfg lk =
     (case recover_expired_allocations s cfg lk None of Inl _ \<Rightarrow> 0
      | Inr (_, s1) \<Rightarrow> fst (now_utc s1) - secs (worker_stale_seconds cfg))"

lemma lifecycle_inv_ticks [simp]: "lifecycle_inv (s\<lparr>ticks := k\<rparr>) = lifecycle_inv s"
  by (simp add: lifecycle_inv_def book_inv_def ids_inv_def capacity_inv_def status_inv_def audit_inv_def
      request_inv_def leases_def)

lemma queued_runsD:
  assumes "r \<in> set (queued_runs s lk)"
  shows "r \<in> set (runs s)" "r_status r = QUEUED" "\<not> lk_runs lk (r_id r)"
  using in_set_takeD[OF assms[unfolded queued_runs_def]] by auto

lemma queued_runs_distinct:
  assumes "distinct (map r_id (runs s))"
  shows "distinct (map r_id (queued_runs s lk))"
proof -
  have "distinct (map r_id (sort_key k xs))" if "distinct (map r_id xs)" for k :: "run \<Rightarrow> int \<times> int \<times> nat" and xs
    using that by (simp add: distinct_map)
  then show ?thesis
    using assms unfolding queued_runs_def by (simp add: take_map[symmetric] distinct_map_filter distinct_take)
qed

lemma queued_runs_sorted:
  "sorted_wrt (\<lambda>r q. (- r_priority r, r_created_at r, r_id r) \<le> (- r_priority q, r_created_at q, r_id q))
     (queued_runs s lk)"
proof -
  have "sorted (map (\<lambda>r. (- r_priority r, r_created_at r, r_id r)) (queued_runs s lk))"
    unfolding queued_runs_def take_map[symmetric] by (rule sorted_wrt_take) simp
  then show ?thesis by (simp add: sorted_wrt_map)
qed

lemma pass_start_inv:
  assumes "lifecycle_inv s"
  shows "lifecycle_inv (pass_start s cfg lk)"
  by (rule recover_ok[of "s\<lparr>ticks := Suc (ticks s)\<rparr>" cfg lk "clock s (ticks s)"])
    (use assms in \<open>auto simp: pass_start_def recover_None now_utc_def\<close>)

lemma schedule_once_ok:
  assumes inv: "lifecycle_inv s"
  obtains s' as ms where "schedule_once s cfg lk = Inr (int (length as), s')"
    "pass_effect lk (pass_horizon s cfg lk) (queued_runs (pass_start s cfg lk) lk) (pass_start s cfg lk) s' as ms"
proof -
  obtain k s1 where rec: "recover_expired_allocations s cfg lk None = Inr (k, s1)" and inv1: "lifecycle_inv s1"
    unfolding recover_None
    by (rule recover_ok[of "s\<lparr>ticks := Suc (ticks s)\<rparr>" cfg lk "clock s (ticks s)"]) (use inv in auto)
  let ?s2 = "snd (now_utc s1)"
  have start: "pass_start s cfg lk = ?s2"
    "pass_horizon s cfg lk = fst (now_utc s1) - secs (worker_stale_seconds cfg)"
    using rec by (simp_all add: pass_start_def pass_horizon_def)
  have inv2: "lifecycle_inv ?s2" using inv1 by (simp add: now_utc_def)
  then have "distinct (map r_id (runs ?s2))" by (simp add: lifecycle_inv_def book_inv_def ids_inv_def)
  from schedule_loop_ok[OF inv2 _ queued_runs_distinct[OF this], of lk cfg lk "fst (now_utc s1)"
      "pass_horizon s cfg lk" 0]
  show thesis
    using that rec by (auto simp: schedule_once_def start case_prod_beta Let_def dest: queued_runsD)
qed


section \<open>Properties of the scheduler\<close>

text \<open>
  A worker is silent when it is online in name but has not been heard of for the configured time; a lease is
  lost when it was not renewed in time or its worker is silent. Rows locked by others are left to them.
\<close>

definition silent_worker :: "db \<Rightarrow> settings \<Rightarrow> locks \<Rightarrow> time \<Rightarrow> uuid \<Rightarrow> bool" where
  "silent_worker s cfg lk t wid \<longleftrightarrow> (\<exists>w\<in>set (workers s). w_id w = wid \<and> w_status w = ONLINE \<and>
     w_last_heartbeat_at w + secs (worker_stale_seconds cfg) < t \<and> \<not> lk_workers lk wid)"

definition lost_lease :: "db \<Rightarrow> settings \<Rightarrow> locks \<Rightarrow> time \<Rightarrow> resource_allocation \<Rightarrow> bool" where
  "lost_lease s cfg lk t a \<longleftrightarrow> a_released_at a = None \<and> \<not> lk_allocations lk (a_id a) \<and>
     (a_lease_expires_at a < t \<or> silent_worker s cfg lk t (a_worker_id a))"

lemma stale_at_silent: "i \<in> w_id ` set (stale_at s cfg lk t) \<longleftrightarrow> silent_worker s cfg lk t i"
  by (auto simp: stale_at_def stale_workers_def silent_worker_def)

lemma expired_at_lost: "expired_at s cfg lk t = filter (lost_lease s cfg lk t) (resource_allocations s)"
  unfolding expired_at_def expired_allocations_def
  by (intro filter_cong[OF refl]) (auto simp: lost_lease_def simp flip: stale_at_silent)

text \<open>
  C9. Lease recovery is exact. On a consistent database it never raises. The lost leases are those not renewed in
  time and those of silent workers: it returns their number, exactly they stop being active, and exactly their
  runs are settled (a scheduled run goes back to the queue, a running run fails, a run being cancelled is
  cancelled); exactly the silent workers become stale; no message is sent; and the lifecycle invariant, including
  the free capacity of every worker, holds afterwards.
\<close>

theorem recover_expired_allocations_exact:
  assumes "lifecycle_inv s"
  shows "\<exists>s'. recover_expired_allocations s cfg lk (Some t) =
      Inr (int (length (filter (lost_lease s cfg lk t) (resource_allocations s))), s') \<and>
    lifecycle_inv s' \<and>
    filter active (resource_allocations s') = filter (\<lambda>a. active a \<and> \<not> lost_lease s cfg lk t a) (resource_allocations s) \<and>
    map (\<lambda>r. (r_id r, r_status r)) (runs s') =
      map (\<lambda>r. (r_id r, if \<exists>a\<in>set (resource_allocations s). lost_lease s cfg lk t a \<and> a_run_id a = r_id r
          then (case r_status r of SCHEDULING \<Rightarrow> QUEUED | RUNNING \<Rightarrow> FAILED | CANCELLING \<Rightarrow> CANCELLED | st \<Rightarrow> st)
          else r_status r)) (runs s) \<and>
    map (\<lambda>w. (w_id w, w_status w)) (workers s') =
      map (\<lambda>w. (w_id w, if silent_worker s cfg lk t (w_id w) then STALE else w_status w)) (workers s) \<and>
    outbox_messages s' = outbox_messages s"
proof -
  obtain s' where s': "recover_expired_allocations s cfg lk (Some t) = Inr (int (length (expired_at s cfg lk t)), s')"
    "lifecycle_inv s'"
    "filter active (resource_allocations s') =
      filter (\<lambda>a. active a \<and> a \<notin> set (expired_at s cfg lk t)) (resource_allocations s)"
    "statuses s' = settle_runs (a_run_id ` set (expired_at s cfg lk t)) (statuses s)"
    "map (\<lambda>w. (w_id w, w_status w)) (workers s') =
      map (\<lambda>w. (w_id w, if w_id w \<in> w_id ` set (stale_at s cfg lk t) then STALE else w_status w)) (workers s)"
    "outbox_messages s' = outbox_messages s"
    by (rule recover_ok[OF assms, of cfg lk t])
  have settle: "settle st = (case st of SCHEDULING \<Rightarrow> QUEUED | RUNNING \<Rightarrow> FAILED | CANCELLING \<Rightarrow> CANCELLED | st \<Rightarrow> st)" for st
    by (cases st) simp_all
  have "filter active (resource_allocations s') = filter (\<lambda>a. active a \<and> \<not> lost_lease s cfg lk t a) (resource_allocations s)"
    unfolding s'(3) expired_at_lost by (rule filter_cong) auto
  moreover have "statuses s' = map (\<lambda>r. (r_id r, if \<exists>a\<in>set (resource_allocations s). lost_lease s cfg lk t a \<and> a_run_id a = r_id r
      then (case r_status r of SCHEDULING \<Rightarrow> QUEUED | RUNNING \<Rightarrow> FAILED | CANCELLING \<Rightarrow> CANCELLED | st \<Rightarrow> st)
      else r_status r)) (runs s)"
  proof -
    have "i \<in> a_run_id ` set (filter (lost_lease s cfg lk t) (resource_allocations s)) \<longleftrightarrow>
        (\<exists>a\<in>set (resource_allocations s). lost_lease s cfg lk t a \<and> a_run_id a = i)" for i by auto
    then show ?thesis unfolding s'(4) settle_runs_def map_map expired_at_lost by (auto simp: settle)
  qed
  ultimately show ?thesis using s'(1,2,5,6) unfolding expired_at_lost stale_at_silent by blast
qed

theorem recover_expired_allocations_exact_witness:
  "lifecycle_inv demo_db \<and>
   (\<exists>s'. recover_expired_allocations demo_db default_settings no_locks (Some (secs 20)) = Inr (1, s') \<and>
      map (\<lambda>r. (r_id r, r_status r)) (runs s') = [(10, QUEUED), (11, FAILED), (12, FAILED)] \<and>
      map (\<lambda>w. (w_id w, w_status w)) (workers s') = [(5, STALE)])"
proof -
  have e: "silent_worker demo_db default_settings no_locks (secs 20) 5"
    "lost_lease demo_db default_settings no_locks (secs 20) demo_lease"
    by (simp_all add: lost_lease_def silent_worker_def no_locks_def default_settings_def demo_defs secs_def)
  have d: "runs demo_db = [demo_run 10 QUEUED None, demo_run 11 RUNNING (Some 5), demo_run 12 FAILED (Some 5)]"
    "workers demo_db = [demo_worker]" "resource_allocations demo_db = [demo_lease]" by (simp_all add: demo_db_def)
  have i: "a_run_id demo_lease = 11" "w_id demo_worker = 5" "r_id (demo_run i t w) = i" "r_status (demo_run i t w) = t" for i t w
    by (simp_all add: demo_lease_def demo_worker_def demo_run_def)
  from recover_expired_allocations_exact[OF demo_lifecycle_inv, of default_settings no_locks "secs 20"]
  show ?thesis using demo_lifecycle_inv e unfolding d by (auto simp: i)
qed

text \<open>
  C10. The number a pass returns is the number of leases it appended, and leases and outbox messages
  go together one to one and in order: every new lease is announced by exactly one message with the
  run, the worker and the lease token, in the same transaction. The leased runs, and no others,
  became \<open>SCHEDULING\<close>. The pass never raises, and leaves the database as consistent as it found it.
\<close>

theorem schedule_once_announces_leases:
  assumes "lifecycle_inv s"
  shows "\<exists>s' as ms. schedule_once s cfg lk = Inr (int (length as), s') \<and>
    resource_allocations s' = resource_allocations (pass_start s cfg lk) @ as \<and>
    outbox_messages s' = outbox_messages (pass_start s cfg lk) @ ms \<and>
    map announces ms = map announcement as \<and>
    statuses s' = map (\<lambda>(i, t). (i, if i \<in> a_run_id ` set as then SCHEDULING else t)) (statuses (pass_start s cfg lk)) \<and>
    lifecycle_inv s'"
  by (rule schedule_once_ok[OF assms, of cfg lk]) (blast dest: pass_effectD(1,3,4,5,8))

theorem schedule_once_announces_leases_witness:
  "lifecycle_inv demo_db \<and> (\<exists>s' as ms. schedule_once demo_db default_settings no_locks = Inr (int (length as), s') \<and>
     map announces ms = map announcement as \<and>
     outbox_messages s' = outbox_messages (pass_start demo_db default_settings no_locks) @ ms)"
  using schedule_once_announces_leases[OF demo_lifecycle_inv, of default_settings no_locks] demo_lifecycle_inv
  by blast

lemma sorted_before:
  fixes k :: "'a \<Rightarrow> 'k::linorder"
  assumes "sorted (map k (as @ r # bs))" "distinct (map k (as @ r # bs))" "q \<in> set as"
  shows "k q < k r"
proof -
  have "k q \<le> k r" using assms(1,3) by (simp add: sorted_append)
  moreover have "k q \<noteq> k r" using assms(2,3) by (auto simp: image_iff)
  ultimately show ?thesis by simp
qed

lemma considered_run:
  assumes "distinct (map r_id (runs s))" "r \<in> set (runs s)" "r_status r = QUEUED" "\<not> lk_runs lk (r_id r)"
    and "length (filter (\<lambda>q. r_status q = QUEUED \<and> \<not> lk_runs lk (r_id q) \<and>
      (- r_priority q, r_created_at q, r_id q) < (- r_priority r, r_created_at r, r_id r)) (runs s)) < 100"
  shows "r \<in> set (queued_runs s lk)"
proof -
  let ?k = "\<lambda>q. (- r_priority q, r_created_at q, r_id q)" and ?P = "\<lambda>q. r_status q = QUEUED \<and> \<not> lk_runs lk (r_id q)"
  let ?ys = "sort_key ?k (filter ?P (runs s))"
  have "r \<in> set ?ys" using assms(2-4) by simp
  then obtain as bs where ys: "?ys = as @ r # bs" by (meson split_list)
  have "distinct (map ?k ?ys)"
  proof -
    have "distinct (map r_id (filter ?P (runs s)))" using assms(1) by (rule distinct_map_filter)
    then show ?thesis by (auto simp: distinct_map inj_on_def)
  qed
  moreover have "sorted (map ?k ?ys)" by simp
  ultimately have "\<forall>q\<in>set as. ?k q < ?k r" unfolding ys using sorted_before[of ?k as r bs] by blast
  then have "length as \<le> length (filter (\<lambda>q. ?k q < ?k r) ?ys)" unfolding ys by (simp add: filter_True)
  also have "\<dots> = length (filter (\<lambda>q. ?P q \<and> ?k q < ?k r) (runs s))"
    by (simp only: filter_sort length_sort filter_filter)
  finally have "length as < 100" using assms(5) by (simp add: conj_assoc)
  then obtain k where "100 - length as = Suc k" by (metis Suc_diff_Suc zero_less_diff)
  then have "r \<in> set (take 100 ?ys)" unfolding ys take_append by simp
  then show ?thesis unfolding queued_runs_def .
qed

text \<open>
  C11. The scheduler is work-conserving. Take a queued, unlocked run with fewer than a hundred such runs before it
  (of higher priority, or as high and older, or as old with a smaller identifier) that holds no lease after
  the pass. Then every online, unlocked worker that was heard of in time is too full for it: what its active leases add up to at
  the end of the pass, together with what the run asks for, exceeds its CPU or its memory.
\<close>

theorem schedule_once_work_conserving:
  assumes "lifecycle_inv s" "schedule_once s cfg lk = Inr (n, s')"
    and "r \<in> set (runs (pass_start s cfg lk))" "r_status r = QUEUED" "\<not> lk_runs lk (r_id r)"
    and "length (filter (\<lambda>q. r_status q = QUEUED \<and> \<not> lk_runs lk (r_id q) \<and>
      (- r_priority q, r_created_at q, r_id q) < (- r_priority r, r_created_at r, r_id r)) (runs (pass_start s cfg lk))) < 100"
    and "leases s' (r_id r) = None"
    and "w \<in> set (workers s')" "w_status w = ONLINE" "\<not> lk_workers lk (w_id w)" "pass_horizon s cfg lk \<le> w_last_heartbeat_at w"
  shows "w_total_cpu w < used_cpu (w_id w) (resource_allocations s') + r_requested_cpu r \<or>
    w_total_memory_mb w < used_memory (w_id w) (resource_allocations s') + r_requested_memory_mb r"
proof -
  obtain as ms where pe: "pass_effect lk (pass_horizon s cfg lk) (queued_runs (pass_start s cfg lk) lk)
      (pass_start s cfg lk) s' as ms"
    by (rule schedule_once_ok[OF assms(1), of cfg lk]) (use assms(2) in auto)
  have inv1: "lifecycle_inv (pass_start s cfg lk)" by (rule pass_start_inv[OF assms(1)])
  then have "r \<in> set (queued_runs (pass_start s cfg lk) lk)"
    using assms(3-6) by (intro considered_run) (simp_all add: lifecycle_inv_def book_inv_def ids_inv_def)
  moreover have "r_id r \<notin> a_run_id ` set as"
    using assms(7) pass_effectD(3,6)[OF pe] by (auto simp: leases_None_iff)
  ultimately have "\<not> eligible lk (pass_horizon s cfg lk) r w" by (rule pass_effectD(10)[OF pe _ _ assms(8)])
  then have full: "w_available_cpu w < r_requested_cpu r \<or> w_available_memory_mb w < r_requested_memory_mb r"
    using assms(9-11) by (auto simp: eligible_def)
  have "capacity_ok (resource_allocations s') w"
    using pass_effectD(1)[OF pe] assms(8) by (auto simp: lifecycle_inv_def book_inv_def capacity_inv_def list_all_iff)
  moreover have "0 < r_requested_cpu r" "0 < r_requested_memory_mb r"
    using inv1 assms(3) by (auto simp: lifecycle_inv_def request_inv_def)
  ultimately show ?thesis using full by (auto simp: capacity_ok_def)
qed

text \<open>
  C12. No priority inversion within a pass: if one considered run precedes another in the queue order
  (higher priority, then older, then smaller identifier) and only the later one is given a lease,
  then the earlier one asks for strictly more CPU or strictly more memory.
\<close>

theorem schedule_once_no_priority_inversion:
  assumes "lifecycle_inv s" "schedule_once s cfg lk = Inr (n, s')"
    and "i < j" "j < length (queued_runs (pass_start s cfg lk) lk)"
    and "r = queued_runs (pass_start s cfg lk) lk ! i" "q = queued_runs (pass_start s cfg lk) lk ! j"
    and "leases s' (r_id r) = None" "leases s' (r_id q) \<noteq> None"
  shows "(- r_priority r, r_created_at r, r_id r) \<le> (- r_priority q, r_created_at q, r_id q) \<and>
    (r_requested_cpu q < r_requested_cpu r \<or> r_requested_memory_mb q < r_requested_memory_mb r)"
proof -
  let ?s1 = "pass_start s cfg lk" and ?qs = "queued_runs (pass_start s cfg lk) lk"
  obtain as ms where pe: "pass_effect lk (pass_horizon s cfg lk) ?qs ?s1 s' as ms"
    by (rule schedule_once_ok[OF assms(1), of cfg lk]) (use assms(2) in auto)
  have inv1: "lifecycle_inv ?s1"
    by (rule pass_start_inv[OF assms(1)])
  have q: "q \<in> set (runs ?s1)" "r_status q = QUEUED"
    using queued_runsD(1,2)[of q ?s1 lk] assms(4,6) by auto
  have "leases ?s1 (r_id q) = None"
    using status_invD[OF _ q(1)] inv1 q(2) by (auto simp: lifecycle_inv_def busy_def split: option.splits)
  then have "r_id q \<in> a_run_id ` set as"
    using assms(8) pass_effectD(3)[OF pe] by (auto simp: leases_None_iff) (metis imageI)
  moreover have "r_id r \<notin> a_run_id ` set as"
    using assms(7) pass_effectD(3,6)[OF pe] by (auto simp: leases_None_iff)
  moreover have "fair (a_run_id ` set as) r q"
    using sorted_wrt_nth_less[OF pass_effectD(12)[OF pe] assms(3,4)] assms(5,6) by simp
  moreover have "(- r_priority r, r_created_at r, r_id r) \<le> (- r_priority q, r_created_at q, r_id q)"
    using sorted_wrt_nth_less[OF queued_runs_sorted assms(3,4)] assms(5,6) by simp
  ultimately show ?thesis unfolding fair_def by blast
qed

text \<open>
  C4. A pass never over-commits: every worker that received a lease in the pass, and every worker that
  was within its totals at its start, has at the end active leases that sum up to no more than its
  CPU and no more than its memory.
\<close>

theorem schedule_once_never_overcommits:
  assumes "lifecycle_inv s" "schedule_once s cfg lk = Inr (n, s')" "w \<in> set (workers s')"
    and "(\<exists>a\<in>set (resource_allocations s') - set (resource_allocations (pass_start s cfg lk)).
            a_worker_id a = w_id w) \<or>
         (\<exists>v\<in>set (workers (pass_start s cfg lk)). w_id v = w_id w \<and> within_totals (pass_start s cfg lk) v)"
  shows "used_cpu (w_id w) (resource_allocations s') \<le> w_total_cpu w \<and>
    used_memory (w_id w) (resource_allocations s') \<le> w_total_memory_mb w"
proof -
  obtain as ms where pe: "pass_effect lk (pass_horizon s cfg lk) (queued_runs (pass_start s cfg lk) lk)
      (pass_start s cfg lk) s' as ms"
    by (rule schedule_once_ok[OF assms(1), of cfg lk]) (use assms(2) in auto)
  have "within_totals s' w"
    using pass_effectD(13)[OF pe assms(3)] pass_effectD(3)[OF pe] assms(4) by auto
  then show ?thesis by (simp add: within_totals_def)
qed

definition demo_queue_db :: db where
  "demo_queue_db = demo_db\<lparr>
     runs := (demo_run 9 QUEUED None)\<lparr>r_requested_cpu := 100, r_priority := 5\<rparr> # runs demo_db,
     run_events := demo_event 28 9 DRAFT QUEUED # run_events demo_db\<rparr>"

lemma demo_queue_inv: "lifecycle_inv demo_queue_db"
  by (simp add: lifecycle_inv_def book_inv_def ids_inv_def capacity_inv_def capacity_ok_def used_cpu_def
      used_memory_def active_of_def active_def status_inv_def audit_inv_def request_inv_def leases_def busy_def
      trail_def demo_queue_db_def demo_defs)

lemma demo_queue_start: "recover_expired_allocations demo_queue_db default_settings no_locks None =
    Inr (0, demo_queue_db\<lparr>ticks := 1\<rparr>)"
proof -
  let ?s = "demo_queue_db\<lparr>ticks := 1\<rparr>"
  have nw: "now_utc demo_queue_db = (0, ?s)" "worker_stale_seconds default_settings = 15"
    by (simp_all add: now_utc_def demo_queue_db_def demo_db_def default_settings_def)
  have st: "stale_workers ?s no_locks (0 - secs 15) = []"
    by (simp add: stale_workers_def demo_queue_db_def demo_defs secs_def)
  have "expired_allocations ?s no_locks 0 [] = []"
    by (simp add: expired_allocations_def demo_queue_db_def demo_defs secs_def)
  then show ?thesis
    unfolding recover_expired_allocations_def option.case Let_def nw prod.case st
    by (simp add: mark_stale_def)
qed

abbreviation demo_big :: run where
  "demo_big \<equiv> (demo_run 9 QUEUED None)\<lparr>r_requested_cpu := 100, r_priority := 5\<rparr>"

lemma demo_pass_start:
  "pass_start demo_queue_db default_settings no_locks = demo_queue_db\<lparr>ticks := 2\<rparr>"
  "pass_horizon demo_queue_db default_settings no_locks = 1 - secs 15"
  unfolding pass_start_def pass_horizon_def demo_queue_start
  by (simp_all add: now_utc_def demo_queue_db_def demo_db_def default_settings_def)

lemma demo_queue: "queued_runs (demo_queue_db\<lparr>ticks := 2\<rparr>) no_locks = [demo_big, demo_run 10 QUEUED None]"
  by (simp add: queued_runs_def no_locks_def demo_queue_db_def demo_defs)

lemma demo_pick:
  "pick_worker (demo_queue_db\<lparr>ticks := 2\<rparr>) no_locks (1 - secs 15) demo_big = None"
  "pick_worker (demo_queue_db\<lparr>ticks := 2\<rparr>) no_locks (1 - secs 15) (demo_run 10 QUEUED None) = Some demo_worker"
  unfolding pick_worker_None
  by (simp_all add: pick_worker_def first_by_def eligible_def no_locks_def demo_queue_db_def demo_defs secs_def)

lemma demo_queue_pass: "\<exists>s' v. schedule_once demo_queue_db default_settings no_locks = Inr (1, s') \<and>
    leases s' 9 = None \<and> leases s' 10 \<noteq> None \<and> workers s' = [v] \<and> w_id v = 5 \<and> w_status v = ONLINE \<and> w_last_heartbeat_at v = 0"
proof -
  let ?s = "demo_queue_db\<lparr>ticks := 2\<rparr>" and ?r = "demo_run 10 QUEUED None"
  have r: "?r \<in> set (runs ?s)" "r_status ?r = QUEUED" by (simp_all add: demo_queue_db_def demo_defs)
  have inv: "lifecycle_inv ?s" using demo_queue_inv by simp
  obtain s' r' e m where s': "assign_run default_settings 1 ?r demo_worker ?s = Inr s'"
    and eff: "assign_effect default_settings 1 ?r demo_worker ?s s' r' e m"
    using assign_run_ok[OF inv r, of default_settings 1 demo_worker] .
  let ?f = "schedule_run default_settings no_locks 1 (1 - secs 15)"
  have "?f demo_big (0, ?s) = Inr (0, ?s)" "?f ?r (0, ?s) = Inr (1, s')"
    unfolding schedule_run_def prod.case demo_pick by (simp_all add: s')
  then have "res_fold ?f (queued_runs ?s no_locks) (0, ?s) = Inr (1, s')" by (simp add: demo_queue)
  moreover have nw: "now_utc (demo_queue_db\<lparr>ticks := 1\<rparr>) = (1, ?s)" "worker_stale_seconds default_settings = 15"
    by (simp_all add: now_utc_def demo_queue_db_def demo_db_def default_settings_def)
  ultimately have "schedule_once demo_queue_db default_settings no_locks = Inr (1, s')"
    unfolding schedule_once_def demo_queue_start by (simp add: Let_def)
  moreover have ra: "resource_allocations s' = [demo_lease, new_lease default_settings 1 ?r demo_worker ?s]"
    using eff by (simp add: assign_effect_def demo_queue_db_def demo_db_def)
  then have "leases s' 9 = None" "leases s' 10 \<noteq> None"
    by (simp_all add: leases_None_iff active_def) (simp_all add: demo_defs)
  moreover obtain v where "workers s' = [v]" "w_id v = 5" "w_status v = ONLINE" "w_last_heartbeat_at v = 0"
    using eff by (auto simp: assign_effect_def demo_queue_db_def demo_db_def) (simp add: demo_worker_def charge_def)
  ultimately show ?thesis by blast
qed

theorem schedule_once_work_conserving_witness:
  "\<exists>s' v. schedule_once demo_queue_db default_settings no_locks = Inr (1, s') \<and> leases s' 9 = None \<and> workers s' = [v] \<and>
     (w_total_cpu v < used_cpu 5 (resource_allocations s') + 100 \<or>
      w_total_memory_mb v < used_memory 5 (resource_allocations s') + 512)"
proof -
  obtain s' v where s': "schedule_once demo_queue_db default_settings no_locks = Inr (1, s')"
    "leases s' 9 = None" "workers s' = [v]" "w_id v = 5" "w_status v = ONLINE" "w_last_heartbeat_at v = 0"
    using demo_queue_pass by blast
  have r: "demo_big \<in> set (runs (demo_queue_db\<lparr>ticks := 2\<rparr>))" "r_id demo_big = 9" "r_requested_cpu demo_big = 100"
    "r_requested_memory_mb demo_big = 512" "r_status demo_big = QUEUED"
    by (simp_all add: demo_queue_db_def demo_run_def)
  have q: "length (filter (\<lambda>q. r_status q = QUEUED \<and> \<not> lk_runs no_locks (r_id q) \<and>
      (- r_priority q, r_created_at q, r_id q) < (- r_priority demo_big, r_created_at demo_big, r_id demo_big))
      (runs (demo_queue_db\<lparr>ticks := 2\<rparr>))) < 100"
    by (simp add: demo_queue_db_def demo_defs)
  have l: "\<not> lk_runs no_locks i" "\<not> lk_workers no_locks i" "1 - secs 15 \<le> 0" for i by (simp_all add: no_locks_def secs_def)
  have v: "v \<in> set (workers s')" "leases s' (r_id demo_big) = None" using s' r by simp_all
  note w = schedule_once_work_conserving[OF demo_queue_inv s'(1), of demo_big v, unfolded demo_pass_start, OF r(1,5) l(1) q v(2,1) s'(5) l(2)]
  show ?thesis using w l(3) s' r(3,4) by (intro exI[of _ s'] exI[of _ v]) simp
qed

theorem schedule_once_no_priority_inversion_witness:
  "\<exists>s'. schedule_once demo_queue_db default_settings no_locks = Inr (1, s') \<and> leases s' 9 = None \<and>
     leases s' 10 \<noteq> None \<and> (r_requested_cpu (demo_run 10 QUEUED None) < r_requested_cpu demo_big \<or>
       r_requested_memory_mb (demo_run 10 QUEUED None) < r_requested_memory_mb demo_big)"
proof -
  obtain s' where s': "schedule_once demo_queue_db default_settings no_locks = Inr (1, s')"
    "leases s' 9 = None" "leases s' 10 \<noteq> None" using demo_queue_pass by blast
  from schedule_once_no_priority_inversion[OF demo_queue_inv s'(1), of 0 1 demo_big "demo_run 10 QUEUED None"]
  show ?thesis using s' by (intro exI[of _ s']) (simp add: demo_pass_start demo_queue demo_run_def)
qed

theorem schedule_once_never_overcommits_witness:
  "\<exists>s' v. schedule_once demo_queue_db default_settings no_locks = Inr (1, s') \<and> workers s' = [v] \<and>
     used_cpu 5 (resource_allocations s') \<le> w_total_cpu v"
proof -
  obtain s' v where s': "schedule_once demo_queue_db default_settings no_locks = Inr (1, s')"
    "workers s' = [v]" "w_id v = 5" using demo_queue_pass by blast
  have "within_totals (demo_queue_db\<lparr>ticks := 2\<rparr>) demo_worker" "w_id demo_worker = 5"
    "demo_worker \<in> set (workers (demo_queue_db\<lparr>ticks := 2\<rparr>))"
    by (simp_all add: within_totals_def used_cpu_def used_memory_def active_of_def demo_queue_db_def demo_defs)
  with schedule_once_never_overcommits[OF demo_queue_inv s'(1), of v] s' show ?thesis
    unfolding demo_pass_start by (intro exI[of _ s'] exI[of _ v]) auto
qed


section \<open>Relations a pass respects\<close>

lemma res_fold_closed:
  assumes "\<And>x s s'. x \<in> set xs \<Longrightarrow> P s \<Longrightarrow> f x s = Inr s' \<Longrightarrow> R s s' \<and> P s'"
    and "\<And>s. R s s" "\<And>s s1 s2. R s s1 \<Longrightarrow> R s1 s2 \<Longrightarrow> R s s2"
    and "P s" "res_fold f xs s = Inr s'"
  shows "R s s' \<and> P s'"
  using assms(1,4,5)
proof (induction xs arbitrary: s)
  case (Cons x xs)
  obtain s1 where s1: "f x s = Inr s1" "res_fold f xs s1 = Inr s'" using Cons.prems(3) by (auto simp: res_bind_Inr_iff)
  have "R s s1" "P s1" using Cons.prems(1)[OF _ Cons.prems(2) s1(1)] by auto
  moreover have "R s1 s' \<and> P s'"
    using Cons.prems(1) by (intro Cons.IH[OF _ \<open>P s1\<close> s1(2)]) auto
  ultimately show ?case by (blast intro: assms(3))
qed (auto intro: assms(2))

text \<open>
  A relation between states that each write of a pass respects (a worker's row, the clock, the
  settlement of a run, a release, an assignment) is respected by the whole pass.
\<close>

locale pass_relation =
  fixes R :: "db \<Rightarrow> db \<Rightarrow> bool"
  assumes stays: "R s s"
    and joins: "R s s1 \<Longrightarrow> R s1 s2 \<Longrightarrow> R s s2"
    and keeps_refs: "R s s' \<Longrightarrow> run_refs s' = run_refs s"
    and ticked: "R s (s\<lparr>ticks := k\<rparr>)"
    and worker_saved: "R s (save_worker s wid g)"
    and released: "R s (release s rid)"
    and settled: "transition_and_flush s r t ty md f = Inr (r', s') \<Longrightarrow> keeps_core f \<Longrightarrow> t \<noteq> SCHEDULING \<Longrightarrow>
      distinct (map r_id (runs s)) \<Longrightarrow> (r_id r, r_experiment_id r, r_template_id r) \<in> set (run_refs s) \<Longrightarrow> R s s'"
    and assigned: "assign_run cfg now r w s = Inr s' \<Longrightarrow>
      distinct (map r_id (runs s)) \<Longrightarrow> (r_id r, r_experiment_id r, r_template_id r) \<in> set (run_refs s) \<Longrightarrow> R s s'"
begin

lemma keeps_distinct: "R s s' \<Longrightarrow> distinct (map r_id (runs s)) \<Longrightarrow> distinct (map r_id (runs s'))"
  unfolding distinct_run_refs[symmetric] using keeps_refs[of s s'] by simp

lemma recover_one_closed:
  assumes "recover_one a s = Inr s'" "distinct (map r_id (runs s))"
  shows "R s s'"
proof (cases "get_run s (a_run_id a)")
  case None
  with assms(1) show ?thesis by (auto simp: recover_one_def Let_def intro: released)
next
  case (Some r)
  have ref: "(r_id r, r_experiment_id r, r_template_id r) \<in> set (run_refs s)" using get_run_SomeD[OF Some] by (intro run_refs_in) simp
  have step: "R s (release s1 (a_run_id a))"
    if "transition_and_flush s r' t ty md f = Inr (r1, s1)" "keeps_core f" "r_id r' = r_id r" "r_experiment_id r' = r_experiment_id r"
      "r_template_id r' = r_template_id r" "t \<noteq> SCHEDULING" for r' t ty md f r1 s1
    using settled[OF that(1,2,6) assms(2)] ref that(3-5) joins released by auto
  show ?thesis
    using assms(1) Some by (auto simp: recover_one_def Let_def res_bind_Inr_iff split: if_splits intro: step released)
qed

lemma fold_closed: "(\<And>x s. R s (f x s)) \<Longrightarrow> R s (fold f xs s)"
  by (induction xs arbitrary: s) (auto intro: stays joins)

lemma recover_closed:
  assumes "recover_expired_allocations s cfg lk None = Inr (n, s')" "distinct (map r_id (runs s))"
  shows "R s s'"
proof -
  let ?s0 = "s\<lparr>ticks := Suc (ticks s)\<rparr>" and ?t = "clock s (ticks s)"
  let ?stale = "stale_workers ?s0 lk (?t - secs (worker_stale_seconds cfg))"
  let ?s1 = "mark_stale ?stale ?s0"
  obtain s2 where s2: "res_fold recover_one (expired_allocations ?s1 lk ?t (map w_id ?stale)) ?s1 = Inr s2"
    and s': "s' = fold (\<lambda>w s. refresh_worker_capacity s (w_id w)) ?stale s2"
    using assms(1) by (auto simp: recover_expired_allocations_def now_utc_def Let_def res_bind_Inr_iff)
  have p1: "R s ?s1" unfolding mark_stale_def by (rule joins[OF ticked[of s "Suc (ticks s)"] fold_closed[OF worker_saved]])
  have "R ?s1 s2 \<and> distinct (map r_id (runs s2))"
    using keeps_distinct[OF p1 assms(2)]
    by (intro res_fold_closed[where R = R, OF _ stays joins _ s2])
      (auto dest: recover_one_closed intro: keeps_distinct)
  moreover have "R s2 s'"
    unfolding s' by (intro fold_closed) (simp add: refresh_worker_capacity_def Let_def worker_saved)
  ultimately show ?thesis using p1 by (blast intro: joins)
qed

lemma schedule_once_closed:
  assumes "schedule_once s cfg lk = Inr (n, s')" "distinct (map r_id (runs s))"
  shows "R s s'"
proof -
  obtain k s1 where rec: "recover_expired_allocations s cfg lk None = Inr (k, s1)"
    and lp: "res_fold (schedule_run cfg lk (clock s1 (ticks s1)) (clock s1 (ticks s1) - secs (worker_stale_seconds cfg)))
      (queued_runs (s1\<lparr>ticks := Suc (ticks s1)\<rparr>) lk) (0, s1\<lparr>ticks := Suc (ticks s1)\<rparr>) = Inr (n, s')"
    using assms(1) by (auto simp: schedule_once_def now_utc_def Let_def res_bind_Inr_iff)
  have p1: "R s s1" by (rule recover_closed[OF rec assms(2)])
  let ?P = "\<lambda>x :: int \<times> db. distinct (map r_id (runs (snd x))) \<and> run_refs (snd x) = run_refs s1"
  have "R (snd (0 :: int, s1\<lparr>ticks := Suc (ticks s1)\<rparr>)) (snd (n, s')) \<and> ?P (n, s')"
  proof (rule res_fold_closed[where P = ?P and R = "\<lambda>x y. R (snd x) (snd y)", OF _ stays joins _ lp])
    show "?P (0, s1\<lparr>ticks := Suc (ticks s1)\<rparr>)" using keeps_distinct[OF p1 assms(2)] by (simp add: run_refs_def)
    fix r x x'
    assume r: "r \<in> set (queued_runs (s1\<lparr>ticks := Suc (ticks s1)\<rparr>) lk)" and P: "?P x"
      and st: "schedule_run cfg lk (clock s1 (ticks s1)) (clock s1 (ticks s1) - secs (worker_stale_seconds cfg)) r x = Inr x'"
    have "r \<in> set (runs s1)" using r by (auto simp: queued_runs_def dest: in_set_takeD)
    then have ref: "(r_id r, r_experiment_id r, r_template_id r) \<in> set (run_refs (snd x))" using P by (auto intro: run_refs_in)
    obtain a u where x: "x = (a, u)" by fastforce
    have "R u (snd x')"
      using st P ref by (auto simp: x schedule_run_def res_bind_Inr_iff split: option.splits intro: stays dest: assigned)
    then show "R (snd x) (snd x') \<and> ?P x'"
      using P keeps_distinct[of u "snd x'"] keeps_refs[of u "snd x'"] by (simp add: x)
  qed
  then have "R (s1\<lparr>ticks := Suc (ticks s1)\<rparr>) s'" by simp
  with p1 show ?thesis by (blast intro: joins ticked)
qed

end

text \<open>The steps of an assignment that succeeds.\<close>

abbreviation lease_added :: "settings \<Rightarrow> time \<Rightarrow> run \<Rightarrow> worker \<Rightarrow> db \<Rightarrow> db" where
  "lease_added cfg now r w s \<equiv>
     resource_allocations_update (\<lambda>as. as @ [new_lease cfg now r w s]) (s\<lparr>next_uuid := Suc (Suc (next_uuid s))\<rparr>)"

lemma assign_run_Inr:
  assumes "assign_run cfg now r w s = Inr s'"
  obtains r4 s4 where "\<forall>b\<in>set (resource_allocations s). active b \<longrightarrow> a_run_id b \<noteq> r_id r"
    "transition_and_flush (lease_added cfg now r w s) (r\<lparr>r_assigned_worker_id := Some (w_id w)\<rparr>) SCHEDULING
        ''run.scheduling'' [(''worker_id'', JStr (uuid_str (w_id w))), (''lease_id'', JStr (uuid_str (next_uuid s)))] id = Inr (r4, s4)"
    "add_assignment_event (save_worker s4 (w_id w) (charge r)) cfg (r_id r) (w_id w) (new_lease cfg now r w s) = Inr s'"
proof -
  let ?busy = "list_ex (\<lambda>a. a_run_id a = r_id r \<and> a_released_at a = None) (resource_allocations s)"
  have eq: "\<not> ?busy" "res_bind (transition_and_flush (lease_added cfg now r w s) (r\<lparr>r_assigned_worker_id := Some (w_id w)\<rparr>) SCHEDULING
      ''run.scheduling'' [(''worker_id'', JStr (uuid_str (w_id w))), (''lease_id'', JStr (uuid_str (next_uuid s)))] id)
      (\<lambda>(_, s4). add_assignment_event (save_worker s4 (w_id w) (charge r)) cfg (r_id r) (w_id w) (new_lease cfg now r w s)) = Inr s'"
    using assms by (simp_all add: assign_run_def uuid4_def Let_def new_lease_def split: if_splits)
  then obtain r4 s4 where "transition_and_flush (lease_added cfg now r w s) (r\<lparr>r_assigned_worker_id := Some (w_id w)\<rparr>) SCHEDULING
      ''run.scheduling'' [(''worker_id'', JStr (uuid_str (w_id w))), (''lease_id'', JStr (uuid_str (next_uuid s)))] id = Inr (r4, s4)"
    "add_assignment_event (save_worker s4 (w_id w) (charge r)) cfg (r_id r) (w_id w) (new_lease cfg now r w s) = Inr s'"
    unfolding res_bind_Inr_iff by auto
  then show thesis using eq(1) by (intro that) (auto simp: active_def list_ex_iff)
qed

lemma assign_run_advances:
  assumes "assign_run cfg now r w s = Inr s'" "distinct (map r_id (runs s))"
    and "(r_id r, r_experiment_id r, r_template_id r) \<in> set (run_refs s)"
  shows "advances s s'"
proof -
  let ?a = "new_lease cfg now r w s" and ?s3 = "lease_added cfg now r w s"
  obtain r4 s4 where free: "\<forall>b\<in>set (resource_allocations s). active b \<longrightarrow> a_run_id b \<noteq> r_id r"
    and tf: "transition_and_flush ?s3 (r\<lparr>r_assigned_worker_id := Some (w_id w)\<rparr>) SCHEDULING
        ''run.scheduling'' [(''worker_id'', JStr (uuid_str (w_id w))), (''lease_id'', JStr (uuid_str (next_uuid s)))] id = Inr (r4, s4)"
    and ev: "add_assignment_event (save_worker s4 (w_id w) (charge r)) cfg (r_id r) (w_id w) ?a = Inr s'"
    by (rule assign_run_Inr[OF assms(1)])
  have "progress s ?s3" by (rule progress_frame) simp_all
  moreover have "run_refs ?s3 = run_refs s" by (simp add: run_refs_def)
  then have "progress ?s3 s4" using assms(2,3) by (intro progress_transition[OF tf]) simp_all
  ultimately have "progress s s4" by (rule progress_trans)
  moreover have "no_revival s s4"
  proof (rule no_revivalI)
    have ids: "distinct (map r_id (runs ?s3))" using assms(2) by simp
    note tr = transition_get_run[OF tf _ ids]
    have as: "resource_allocations s4 = resource_allocations s @ [?a]" using tr(3) by simp
    show "\<exists>b\<in>set (resource_allocations s). active b \<and> a_run_id b = a_run_id a \<and> a_worker_id b = a_worker_id a \<and>
        a_lease_token b = a_lease_token a"
      if "a \<in> set (resource_allocations s4)" "active a" "a_lease_token a < next_uuid s" for a
      using that by (auto simp: as new_lease_def)
    show "(\<exists>d. get_run s rid = Some d \<and> r_status d = SCHEDULING) \<or>
        (\<forall>b\<in>set (resource_allocations s). active b \<longrightarrow> a_run_id b \<noteq> rid)"
      if "get_run s4 rid = Some q" "r_status q = SCHEDULING" for rid q
      using that free tr(1)[of rid] by (auto simp: get_run_def split: if_splits)
  qed
  ultimately have "advances s s4" by (simp add: advances_def)
  moreover have "advances s4 s'"
    using ev by (intro advances_frame) (auto simp: add_assignment_event_def uuid4_def now_utc_def add_outbox_def Let_def
        res_bind_Inr_iff frame_simps)
  ultimately show ?thesis by (rule advances_trans)
qed

interpretation advancing: pass_relation advances
proof unfold_locales
  show "run_refs s' = run_refs s" if "advances s s'" for s s' using that by (simp add: advances_def progress_def)
  show "advances s (save_worker s wid g)" for s wid g by (rule advances_frame) (simp_all add: frame_simps)
qed (auto intro: advances_trans advances_transition assign_run_advances advances_frame)

lemmas schedule_once_advances = advancing.schedule_once_closed

end
