(* ===== verification/Api_Properties.thy ===== *)
theory Api_Properties
  imports Api Schedule_Pass
begin

text \<open>
  What the API guarantees: who may change what, that a rejected request changes nothing, and that
  every request keeps the invariants of the platform.
\<close>

section \<open>What a request may commit\<close>

lemma commits_Some: "commits f m = (a, Some s') \<longleftrightarrow> (\<exists>x. m = Inr (x, s') \<and> a = f x)"
  by (auto simp: commits_def split: sum.splits)

lemma reads_Some [simp]: "reads f m \<noteq> (a, Some s')"
  by (simp add: reads_def)

lemma validated_same:
  assumes "validated lib req = Inr r"
  shows "permitted r = permitted req" "(\<exists>p. r = Public p) \<longleftrightarrow> (\<exists>p. req = Public p)"
  using assms by (cases req; auto simp: res_bind_Inr_iff check_that_def split: if_splits)+

text \<open>The requests that commit, with the operation each performs.\<close>

inductive performs :: "('tok, 'w) api \<Rightarrow> string \<Rightarrow> user \<Rightarrow> request \<Rightarrow> db \<Rightarrow> db \<Rightarrow> bool"
  for api :: "('tok, 'w) api" and cid :: string and u :: user where
  "create_project b u s = Inr (p, s') \<Longrightarrow> performs api cid u (CreateProject b) s s'"
| "update_project i pb s = Inr (p, s') \<Longrightarrow> performs api cid u (UpdateProject i pb) s s'"
| "delete_project i s = Inr s' \<Longrightarrow> performs api cid u (DeleteProject i) s s'"
| "create_experiment xb u s = Inr (x, s') \<Longrightarrow> performs api cid u (CreateExperiment xb) s s'"
| "update_experiment i xu s = Inr (x, s') \<Longrightarrow> performs api cid u (UpdateExperiment i xu) s s'"
| "delete_experiment i s = Inr s' \<Longrightarrow> performs api cid u (DeleteExperiment i) s s'"
| "create_run (ap_pydantic api) (ap_settings api) cid rb u s = Inr (r, s') \<Longrightarrow> run_create_ok rb \<Longrightarrow>
     performs api cid u (CreateRun rb) s s'"
| "cancel_run (ap_settings api) cid i u s = Inr (r, s') \<Longrightarrow> performs api cid u (CancelRun i) s s'"
| "retry_run (ap_pydantic api) (ap_settings api) cid i ps u s = Inr (r, s') \<Longrightarrow> performs api cid u (RetryRun i ps) s s'"
| "update_run_metadata i mb u s = Inr (r, s') \<Longrightarrow> performs api cid u (UpdateRunMetadata i mb) s s'"
| "register_endpoint wb s = Inr (w, s') \<Longrightarrow> worker_register_ok wb \<Longrightarrow> performs api cid u (RegisterWorker wb) s s'"
| "heartbeat_endpoint (ap_settings api) i s = Inr (w, s') \<Longrightarrow> performs api cid u (Heartbeat i) s s'"

lemma handle_performs:
  assumes "handle api cid now u r w s = ((m, Some s'), w')"
    and "\<And>rb. r = CreateRun rb \<Longrightarrow> run_create_ok rb" "\<And>wb. r = RegisterWorker wb \<Longrightarrow> worker_register_ok wb"
  shows "performs api cid u r s s'"
  using assms by (cases r) (auto simp: commits_Some res_bind_Inr_iff Let_def split: prod.splits intro: performs.intros)

abbreviation call_id :: "'tok call \<Rightarrow> string" where
  "call_id call \<equiv> dispatch_correlation_id (cl_correlation_id call) (cl_fresh call)"

lemma validated_ok:
  "validated lib req = Inr (CreateRun rb) \<Longrightarrow> run_create_ok rb"
  "validated lib req = Inr (RegisterWorker wb) \<Longrightarrow> worker_register_ok wb"
  by (cases req; auto simp: res_bind_Inr_iff check_that_def split: if_splits)+

lemma validated_update:
  "validated lib req = Inr (UpdateExperiment i b) \<Longrightarrow> \<exists>b0. req = UpdateExperiment i b0"
  by (cases req) (auto simp: res_bind_Inr_iff check_that_def split: if_splits)

lemma serve_private:
  assumes "as_public req = None"
  shows "serve api call req (w, s) =
    (case authorise api call req (begin_transaction s) of
       Inl e \<Rightarrow> (Rejected (handle_exception (call_id call) e), w, s)
     | Inr u \<Rightarrow> (case serve_as api call (call_id call) u req w (begin_transaction s) of
          ((reply, committed), w') \<Rightarrow> (reply, w', case committed of None \<Rightarrow> s | Some s' \<Rightarrow> s')))"
  using assms by (simp add: serve_def request_correlation_id_dispatch Let_def split: sum.split prod.split)

text \<open>A change of the database was committed by the handler.\<close>

lemma serve_changed:
  assumes "serve api call req (w, s) = (reply, w', s')" "s' \<noteq> s"
  obtains u r m where "authorise api call req (begin_transaction s) = Inr u" "validated (ap_lib api) req = Inr r"
    "handle api (call_id call) (cl_now call) u r w (begin_transaction s) = ((m, Some s'), w')"
    "reply = respond (call_id call) req m"
proof -
  have "as_public req = None" using assms by (auto simp: serve_def Let_def split: option.splits)
  then obtain u where u: "authorise api call req (begin_transaction s) = Inr u"
    and as: "serve_as api call (call_id call) u req w (begin_transaction s) = ((reply, Some s'), w')"
    using assms by (auto simp: serve_private split: sum.splits prod.splits option.splits)
  then show thesis
    by (auto simp: serve_as_def Let_def split: sum.splits prod.splits intro: that[OF u])
qed

lemma serve_cases:
  assumes "serve api call req (w, s) = (reply, w', s')"
  obtains (same) "s' = s"
  | (committed) u r where "get_current_user (ap_lib api) (ap_settings api) (cl_now call) (cl_credentials call) s = Inr u"
      "permitted r (Inr u) = Inr u" "performs api (call_id call) u r (begin_transaction s) s'"
proof -
  have gu: "get_current_user (ap_lib api) (ap_settings api) (cl_now call) (cl_credentials call) (begin_transaction s) =
      get_current_user (ap_lib api) (ap_settings api) (cl_now call) (cl_credentials call) s"
  proof -
    have "get_user (begin_transaction s) = get_user s" by (simp add: get_user_def fun_eq_iff)
    then show ?thesis unfolding get_current_user_def by (rule ssubst) (rule refl)
  qed
  have perm: "permitted r m = Inr u \<Longrightarrow> m = Inr u \<and> permitted r (Inr u) = Inr u" for r m u
    by (cases r) (auto simp: researcher_user_def administrator_user_def require_roles_Inr)
  show thesis
  proof (cases "s' = s")
    case True
    then show thesis by (rule same)
  next
    case False
    obtain u r m where u: "authorise api call req (begin_transaction s) = Inr u" and v: "validated (ap_lib api) req = Inr r"
      and h: "handle api (call_id call) (cl_now call) u r w (begin_transaction s) = ((m, Some s'), w')"
      by (rule serve_changed[OF assms False])
    have "performs api (call_id call) u r (begin_transaction s) s'"
      using handle_performs[OF h] validated_ok v by blast
    moreover have "get_current_user (ap_lib api) (ap_settings api) (cl_now call) (cl_credentials call) s = Inr u"
        "permitted r (Inr u) = Inr u"
      using perm[OF u[unfolded authorise_def]] validated_same(1)[OF v] gu by auto
    ultimately show thesis using committed by blast
  qed
qed


section \<open>The invariants of the platform\<close>

definition platform_inv :: "db \<Rightarrow> bool" where
  "platform_inv s \<longleftrightarrow> lifecycle_inv s \<and> fk_inv s \<and> catalog_inv s"

lemma platform_invD: "platform_inv s \<Longrightarrow> lifecycle_inv s" "platform_inv s \<Longrightarrow> fk_inv s" "platform_inv s \<Longrightarrow> catalog_inv s"
  "platform_inv s \<Longrightarrow> distinct (map r_id (runs s))"
  by (simp_all add: platform_inv_def lifecycle_inv_def book_inv_def ids_inv_def)

text \<open>An operation on the catalog leaves everything around the runs alone.\<close>

definition catalog_only :: "db \<Rightarrow> db \<Rightarrow> bool" where
  "catalog_only s s' \<longleftrightarrow> runs s' = runs s \<and> run_events s' = run_events s \<and> run_parameters s' = run_parameters s \<and>
     workers s' = workers s \<and> resource_allocations s' = resource_allocations s \<and> users s' = users s \<and>
     training_templates s' = training_templates s \<and> next_uuid s \<le> next_uuid s'"

lemma catalog_ops:
  "create_project b u s = Inr (p, s') \<Longrightarrow> catalog_only s s'"
  "update_project i pb s = Inr (p, s') \<Longrightarrow> catalog_only s s'"
  "delete_project i s = Inr s' \<Longrightarrow> catalog_only s s'"
  "create_experiment xb u s = Inr (x, s') \<Longrightarrow> catalog_only s s'"
  "update_experiment i xu s = Inr (x, s') \<Longrightarrow> catalog_only s s'"
  "delete_experiment i s = Inr s' \<Longrightarrow> catalog_only s s'"
  by (auto simp: catalog_only_def create_project_def delete_project_def create_experiment_def delete_experiment_def
      uuid4_def Let_def res_bind_Inr_iff split: if_splits elim!: update_project_row update_experiment_row)

lemma catalog_only_inv:
  assumes "catalog_only s s'" "lifecycle_inv s" "fk_inv s"
  shows "lifecycle_inv s'" "fk_inv s'" "evolves s s'"
proof -
  show "lifecycle_inv s'" using assms(1) by (intro lifecycle_inv_frame[OF assms(2)]) (simp_all add: catalog_only_def)
  show "fk_inv s'" using assms(1) by (intro fk_inv_frame[OF assms(3)]) (auto simp: catalog_only_def)
  show "evolves s s'" using assms(1) by (intro evolves_runs) (simp add: catalog_only_def)
qed

text \<open>The two operations on workers.\<close>

lemma worker_ops_frame:
  assumes "s' = snd (register_worker s name c m) \<or> s' = snd (heartbeat_worker s wid n)"
  shows "runs s' = runs s \<and> run_events s' = run_events s \<and> run_parameters s' = run_parameters s \<and> users s' = users s \<and>
    projects s' = projects s \<and> experiments s' = experiments s \<and> training_templates s' = training_templates s \<and>
    next_uuid s \<le> next_uuid s' \<and> leases s' = leases s"
proof -
  have ext: "training_templates (extend_leases t w e) = training_templates t" for t w e by (simp add: extend_leases_def)
  have ls: "leases (refresh_worker_capacity t w) = leases t" "leases (save_worker t w f) = leases t" for t w f
    by (simp_all add: leases_def frame_simps)
  have lt: "leases (s\<lparr>ticks := k\<rparr>) = leases s" for k by (simp add: leases_def)
  from assms show ?thesis
  proof
    assume "s' = snd (register_worker s name c m)"
    then show ?thesis
      by (auto simp: register_worker_def now_utc_def uuid4_def Let_def frame_simps ls lt split: option.splits)
        (simp_all add: leases_def)
  next
    assume "s' = snd (heartbeat_worker s wid n)"
    then show ?thesis
      by (auto simp: heartbeat_worker_def now_utc_def Let_def frame_simps ext ls lt split: option.splits)
  qed
qed

lemma worker_ops_inv:
  assumes "s' = snd (register_worker s name c m) \<and> 0 \<le> c \<and> 0 \<le> m \<or> s' = snd (heartbeat_worker s wid n)" "platform_inv s"
  shows "platform_inv s'" "progress s s'"
proof -
  have fr: "runs s' = runs s" "run_events s' = run_events s" "run_parameters s' = run_parameters s" "users s' = users s"
      "projects s' = projects s" "experiments s' = experiments s" "next_uuid s \<le> next_uuid s'" "leases s' = leases s"
    using worker_ops_frame[of s' s name c m wid n] assms(1) by blast+
  have b: "book_inv s" using assms(2) by (simp add: platform_inv_def lifecycle_inv_def)
  have "book_inv s'" using assms(1) register_book_inv[OF b] heartbeat_book_inv[OF b] by blast
  moreover have "status_inv s'"
  proof -
    have "a_run_id a \<in> r_id ` set (runs s)" if "a \<in> set (resource_allocations s')" "active a" for a
    proof -
      have "leases s' (a_run_id a) \<noteq> None" using that by (auto simp: leases_None_iff)
      then obtain b where "b \<in> set (resource_allocations s)" "active b" "a_run_id b = a_run_id a"
        unfolding fr(8) by (auto simp: leases_None_iff)
      then show ?thesis using assms(2) by (force simp: platform_inv_def lifecycle_inv_def status_inv_def)
    qed
    then show ?thesis
      using assms(2) unfolding platform_inv_def lifecycle_inv_def status_inv_def fr(1,8) by blast
  qed
  ultimately have "lifecycle_inv s'"
    using assms(2) by (simp add: platform_inv_def lifecycle_inv_def audit_inv_def request_inv_def fr)
  moreover have "fk_inv s'" using assms(2) fr by (simp add: platform_inv_def fk_inv_def)
  moreover have "catalog_inv s'"
    using platform_invD(3)[OF assms(2)] by (rule catalog_inv_frame) (use platform_invD(3)[OF assms(2)] fr in \<open>auto simp: catalog_inv_def\<close>)
  ultimately show "platform_inv s'" by (simp add: platform_inv_def)
  show "progress s s'" using fr by (intro progress_frame)
qed


lemma evolves_append:
  assumes "runs s' = runs s @ [r]"
  shows "evolves s s'"
  unfolding evolves_def using assms by (auto simp: get_run_def get_row_append split: option.splits)

lemma platform_inv_catalog:
  assumes "catalog_only s s'" "platform_inv s" "catalog_inv s'"
  shows "platform_inv s' \<and> evolves s s'"
  using catalog_only_inv[OF assms(1)] assms(2,3) by (simp add: platform_inv_def)

lemma catalog_inv_runs:
  assumes "catalog_inv s" "same_catalog s s'" "next_uuid s \<le> next_uuid s'"
    and "\<And>r. r \<in> set (runs s') \<Longrightarrow> r_experiment_id r \<in> x_id ` set (experiments s)"
  shows "catalog_inv s'"
  using assms by (intro catalog_inv_frame[OF assms(1)]) (auto simp: same_catalog_def)

lemma catalog_inv_append:
  assumes "catalog_inv s" "same_catalog s s'" "next_uuid s \<le> next_uuid s'"
    and "runs s' = runs s @ [r]" "r_experiment_id r \<in> x_id ` set (experiments s)"
  shows "catalog_inv s'"
proof (rule catalog_inv_runs[OF assms(1-3)])
  fix q assume "q \<in> set (runs s')"
  then consider "q \<in> set (runs s)" | "q = r" using assms(4) by auto
  then show "r_experiment_id q \<in> x_id ` set (experiments s)"
    using assms(1,5) by cases (simp_all add: catalog_inv_def)
qed

lemma catalog_inv_replace:
  assumes "catalog_inv s" "same_catalog s s'" "next_uuid s \<le> next_uuid s'"
    and "runs s' = upd_row r_id rid (\<lambda>_. r') (runs s)" "\<exists>r. get_run s rid = Some r \<and> r_experiment_id r' = r_experiment_id r"
  shows "catalog_inv s'"
proof -
  obtain r where r: "r \<in> set (runs s)" "r_experiment_id r' = r_experiment_id r" using assms(5) get_run_SomeD by blast
  show ?thesis
    using assms(1) r by (intro catalog_inv_runs[OF assms(1-3)])
      (auto simp: assms(4) set_upd_row catalog_inv_def split: if_splits)
qed

lemma cancel_run_progress:
  assumes "cancel_run cfg cid rid u s = Inr (r', s')" "distinct (map r_id (runs s))"
  shows "progress s s'"
proof -
  obtain r s1 where r: "get_run s rid = Some r" "r_id r = rid" "r_status r = RUNNING"
    and s1: "s1 = after_move s r CANCELLING ''run.cancel.requested'' [] id"
    and ev: "add_outbox_event cfg cid r' ''run.cancel.requested'' [(''requested_by'', JStr (uuid_str (u_id u)))] s1 = Inr s'"
    by (rule cancel_run_Inr[OF assms(1)])
  have "progress s s1" unfolding s1 using r assms(2) by (intro progress_after_move[where d = r]) (simp_all add: keeps_core_def)
  moreover have "progress s1 s'"
    using add_outbox_event_frame[OF ev] by (intro progress_frame) (simp_all add: same_core_def same_catalog_def)
  ultimately show ?thesis by (rule progress_trans)
qed

lemma update_run_metadata_progress:
  assumes "update_run_metadata rid body u s = Inr (r', s')" "distinct (map r_id (runs s))"
  shows "progress s s'"
proof -
  obtain r where r: "get_run s rid = Some r"
    and fl: "flush_run (add_event s (r_id r) ''run.metadata.updated'' None None [(''updated_by'', JStr (uuid_str (u_id u)))])
      (r\<lparr>r_notes := mu_notes body, r_tags := fromkeys (stripped_tags (mu_tags body))\<rparr>) = Inr (r', s')"
    using assms(1) by (auto simp: update_run_metadata_def res_bind_Inr_iff Let_def split: if_splits)
  have m: "r \<in> set (runs s)" using get_run_SomeD[OF r] by simp
  let ?s1 = "add_event s (r_id r) ''run.metadata.updated'' None None [(''updated_by'', JStr (uuid_str (u_id u)))]"
  have p: "progress s ?s1" using m by (intro progress_add_event) simp
  have "progress ?s1 s'"
    using run_refs_in[OF m] assms(2) p by (intro progress_flush[OF fl]) (simp_all add: frame_simps progress_def)
  with p show ?thesis by (rule progress_trans)
qed

lemma performs_inv:
  assumes "performs api cid u r s s'" "platform_inv s" "1 \<le> length cid" "length cid \<le> 128"
  shows "platform_inv s' \<and> evolves s s'"
  using assms(1)
proof cases
  case (7 rb r')
  have ok: "create_queued_run (ap_pydantic api) (ap_settings api) cid rb (u_id u) s = Inr (r', s')"
    using 7(2) by (auto simp: create_run_def res_bind_Inr_iff)
  note q = create_queued_run_inv[OF platform_invD(1,2)[OF assms(2)] 7(3) assms(3,4) ok]
  have "catalog_inv s'" by (rule catalog_inv_append[OF platform_invD(3)[OF assms(2)] q(3,5,4,6)])
  then show ?thesis using q evolves_append[OF q(4)] by (simp add: platform_inv_def)
next
  case (8 i r')
  note q = cancel_run_inv[OF 8(2) platform_invD(1,2)[OF assms(2)]]
  have "catalog_inv s'" by (rule catalog_inv_replace[OF platform_invD(3)[OF assms(2)] q(3-6)])
  then show ?thesis
    using q cancel_run_progress[OF 8(2) platform_invD(4)[OF assms(2)]] by (simp add: platform_inv_def progress_def)
next
  case (9 i ps r')
  note q = retry_run_inv[OF 9(2) platform_invD(1,2)[OF assms(2)] assms(3,4)]
  have "catalog_inv s'" by (rule catalog_inv_append[OF platform_invD(3)[OF assms(2)] q(3-6)])
  then show ?thesis using q evolves_append[OF q(5)] by (simp add: platform_inv_def)
next
  case (10 i mb r')
  note q = update_run_metadata_inv[OF 10(2) platform_invD(1,2)[OF assms(2)]]
  have "catalog_inv s'" by (rule catalog_inv_replace[OF platform_invD(3)[OF assms(2)] q(3-6)])
  then show ?thesis
    using q update_run_metadata_progress[OF 10(2) platform_invD(4)[OF assms(2)]] by (simp add: platform_inv_def progress_def)
next
  case (11 wb w)
  have "s' = snd (register_worker s (py_strip (wr_name wb)) (wr_total_cpu wb) (wr_total_memory_mb wb))"
    using 11(2) by (auto simp: register_endpoint_def split: prod.splits option.splits)
  then show ?thesis
    using worker_ops_inv[of s' s "py_strip (wr_name wb)" "wr_total_cpu wb" "wr_total_memory_mb wb"] assms(2) 11(3)
    by (auto simp: worker_register_ok_def progress_def)
next
  case (12 i w)
  have "s' = snd (heartbeat_worker s i (allocation_lease_seconds (ap_settings api)))"
    using 12(2) by (auto simp: heartbeat_endpoint_def split: prod.splits option.splits)
  then show ?thesis
    using worker_ops_inv[of s' s _ _ _ i "allocation_lease_seconds (ap_settings api)"] assms(2) by (auto simp: progress_def)
next
  case 1
  show ?thesis by (rule platform_inv_catalog[OF catalog_ops(1)[OF 1(2)] assms(2) create_project_inv[OF 1(2) platform_invD(3)[OF assms(2)]]])
next
  case 2
  show ?thesis by (rule platform_inv_catalog[OF catalog_ops(2)[OF 2(2)] assms(2) update_project_inv[OF 2(2) platform_invD(3)[OF assms(2)]]])
next
  case 3
  show ?thesis by (rule platform_inv_catalog[OF catalog_ops(3)[OF 3(2)] assms(2) delete_project_inv[OF 3(2) platform_invD(3)[OF assms(2)]]])
next
  case 4
  show ?thesis by (rule platform_inv_catalog[OF catalog_ops(4)[OF 4(2)] assms(2) create_experiment_inv[OF 4(2) platform_invD(3)[OF assms(2)]]])
next
  case 5
  show ?thesis by (rule platform_inv_catalog[OF catalog_ops(5)[OF 5(2)] assms(2) update_experiment_inv[OF 5(2) platform_invD(3)[OF assms(2)]]])
next
  case 6
  show ?thesis by (rule platform_inv_catalog[OF catalog_ops(6)[OF 6(2)] assms(2) delete_experiment_inv[OF 6(2) platform_invD(3)[OF assms(2)]]])
qed

lemma begin_transaction_inv: "platform_inv s \<Longrightarrow> platform_inv (begin_transaction s)" "evolves s (begin_transaction s)"
  unfolding platform_inv_def by (auto intro: lifecycle_inv_frame evolves_runs simp: fk_inv_def catalog_inv_def)

lemma serve_inv:
  assumes "serve api call req (w, s) = (reply, w', s')" "platform_inv s"
  shows "platform_inv s' \<and> evolves s s'"
  using assms(1)
proof (cases rule: serve_cases)
  case (committed u r)
  show ?thesis
    using performs_inv[OF committed(3) begin_transaction_inv(1)[OF assms(2)]] dispatch_correlation_id_bounds
      evolves_trans[OF begin_transaction_inv(2)] by blast
qed (simp add: assms(2))


section \<open>Who may change what\<close>

lemma transition_row:
  assumes "transition_and_flush s r t ty md id = Inr (r', s')"
  shows "workers s' = workers s" "resource_allocations s' = resource_allocations s" "r_status r' = t" "r_created_by r' = r_created_by r"
    "\<exists>e. run_events s' = run_events s @ [e]"
proof -
  let ?s1 = "add_event (s\<lparr>ticks := Suc (ticks s)\<rparr>) (r_id r) ty (Some (r_status r)) (Some t) md"
  have fl: "flush_run ?s1 (stamp_run (clock s (ticks s)) t r) = Inr (r', s')"
    using assms by (auto simp: transition_and_flush_def res_bind_Inr_iff transition_run_Inr)
  obtain rs where s': "s' = ?s1\<lparr>runs := rs\<rparr>" using flush_run_frame[OF fl] by blast
  then show "workers s' = workers s" "resource_allocations s' = resource_allocations s" "\<exists>e. run_events s' = run_events s @ [e]"
    by (simp_all add: frame_simps run_events_add_event)
  obtain v where "r' = (stamp_run (clock s (ticks s)) t r)\<lparr>r_version := v\<rparr>" using flush_run_version[OF fl] by blast
  then show "r_status r' = t" "r_created_by r' = r_created_by r" by simp_all
qed

lemma enqueue_row:
  assumes "enqueue cfg cid r ps md payload s = Inr (r', s')"
  shows "workers s' = workers s" "resource_allocations s' = resource_allocations s" "r_status r' = QUEUED"
    "r_created_by r' = r_created_by r" "\<exists>e. run_events s' = run_events s @ [e]"
proof -
  obtain s2 s4 ev where s2: "insert_run s r = Inr s2"
    and tf: "transition_and_flush (fold (\<lambda>(name, v) s. add_parameter s (r_id r) name v) ps s2) r QUEUED ''run.queued'' md id = Inr (r', s4)"
    and s': "s' = add_outbox (s4\<lparr>next_uuid := Suc (next_uuid s4), ticks := Suc (ticks s4)\<rparr>) (broker_topic cfg) (uuid_str (r_id r)) ev"
    using assms by (auto simp: enqueue_def res_bind_Inr_iff uuid4_def now_utc_def Let_def)
  have "same_core s2 (fold (\<lambda>(name, v) s. add_parameter s (r_id r) name v) ps s2)" by (rule fold_core) auto
  moreover have "workers s2 = workers s" "resource_allocations s2 = resource_allocations s" "run_events s2 = run_events s"
    using s2 by (auto simp: insert_run_def split: if_splits)
  ultimately show "workers s' = workers s" "resource_allocations s' = resource_allocations s" "\<exists>e. run_events s' = run_events s @ [e]"
    using transition_row(1,2,5)[OF tf] by (simp_all add: s' add_outbox_def uuid4_def same_core_def Let_def)
  show "r_status r' = QUEUED" "r_created_by r' = r_created_by r" by (rule transition_row[OF tf])+
qed

text \<open>
  What a change by user \<open>u\<close> is confined to: workers and leases are the administrators' business, an
  existing run changes only at the hands of its creator or an administrator, new runs are queued in
  the name of the user, and accounts and templates are not touched at all.
\<close>

definition entitled :: "user \<Rightarrow> db \<Rightarrow> db \<Rightarrow> bool" where
  "entitled u s s' \<longleftrightarrow> u_role u \<in> {RESEARCHER, ADMINISTRATOR} \<and> users s' = users s \<and>
     training_templates s' = training_templates s \<and>
     (workers s' = workers s \<and> resource_allocations s' = resource_allocations s \<or> u_role u = ADMINISTRATOR) \<and>
     (\<forall>r\<in>set (runs s). get_run s' (r_id r) = Some r \<or> u_role u = ADMINISTRATOR \<or> r_created_by r = u_id u) \<and>
     (\<forall>r\<in>set (runs s'). r_id r \<in> r_id ` set (runs s) \<or> r_created_by r = u_id u \<and> r_status r = QUEUED)"

lemma entitled_same_runs:
  assumes "distinct (map r_id (runs s))" "runs s' = runs s" "users s' = users s" "training_templates s' = training_templates s"
    and "u_role u \<in> {RESEARCHER, ADMINISTRATOR}"
    and "workers s' = workers s \<and> resource_allocations s' = resource_allocations s \<or> u_role u = ADMINISTRATOR"
  shows "entitled u s s'"
  using assms by (auto simp: entitled_def get_run_def intro: get_row_in)

lemma entitled_append:
  assumes "distinct (map r_id (runs s))" "runs s' = runs s @ [r]" "same_catalog s s'" "workers s' = workers s"
    and "resource_allocations s' = resource_allocations s" "u_role u \<in> {RESEARCHER, ADMINISTRATOR}"
    and "r_created_by r = u_id u" "r_status r = QUEUED"
  shows "entitled u s s'"
proof -
  have "get_run s' (r_id q) = Some q" if "q \<in> set (runs s)" for q
    using get_row_in[OF assms(1) that] by (simp add: get_run_def assms(2) get_row_append)
  then show ?thesis using assms by (auto simp: entitled_def same_catalog_def)
qed

lemma entitled_replace:
  assumes "distinct (map r_id (runs s))" "runs s' = upd_row r_id rid (\<lambda>_. r') (runs s)" "r_id r' = rid" "same_catalog s s'"
    and "workers s' = workers s" "resource_allocations s' = resource_allocations s" "u_role u \<in> {RESEARCHER, ADMINISTRATOR}"
    and "get_run s rid = Some d" "u_role u = ADMINISTRATOR \<or> r_created_by d = u_id u"
  shows "entitled u s s'"
proof -
  have d: "d \<in> set (runs s)" "r_id d = rid" using get_run_SomeD[OF assms(8)] by auto
  have "get_run s' (r_id q) = Some q \<or> q = d" if "q \<in> set (runs s)" for q
  proof (cases "r_id q = rid")
    case True
    then show ?thesis using key_inj[OF assms(1) that d(1)] d(2) by simp
  next
    case False
    then show ?thesis using get_row_in[OF assms(1) that] assms(3) by (simp add: get_run_def assms(2) get_row_upd_row_other)
  qed
  moreover have "map r_id (runs s') = map r_id (runs s)" using assms(3) by (simp add: assms(2) map_upd_row)
  from arg_cong[OF this, of set] have "r_id ` set (runs s') = r_id ` set (runs s)" by simp
  ultimately show ?thesis using assms(4-7,9) by (fastforce simp: entitled_def same_catalog_def)
qed


lemma entitled_catalog:
  assumes "catalog_only s s'" "distinct (map r_id (runs s))" "u_role u \<in> {RESEARCHER, ADMINISTRATOR}"
  shows "entitled u s s'"
  using assms by (intro entitled_same_runs) (simp_all add: catalog_only_def)

lemma cancel_run_frame:
  assumes "cancel_run cfg cid rid u s = Inr (r', s')"
  shows "workers s' = workers s \<and> resource_allocations s' = resource_allocations s \<and> r_id r' = rid"
proof -
  obtain r s1 where "get_run s rid = Some r" "r_id r = rid" "r' = moved s r CANCELLING id"
      and s1: "s1 = after_move s r CANCELLING ''run.cancel.requested'' [] id"
      and ev: "add_outbox_event cfg cid r' ''run.cancel.requested'' [(''requested_by'', JStr (uuid_str (u_id u)))] s1 = Inr s'"
    by (rule cancel_run_Inr[OF assms])
  then show ?thesis using add_outbox_event_frame(1)[OF ev] by (simp add: s1 frame_simps same_core_def keeps_core_def)
qed

lemma performs_entitled:
  assumes p: "performs api cid u r s s'" and perm: "permitted r (Inr u) = Inr u" and inv: "platform_inv s"
    and cid: "1 \<le> length cid" "length cid \<le> 128"
  shows "entitled u s s'"
  using p
proof cases
  case (7 rb r')
  have role: "u_role u \<in> {RESEARCHER, ADMINISTRATOR}" using perm 7 by (auto simp: researcher_user_def require_roles_Inr)
  have ok: "create_queued_run (ap_pydantic api) (ap_settings api) cid rb (u_id u) s = Inr (r', s')"
    using 7(2) by (auto simp: create_run_def res_bind_Inr_iff)
  note q = create_queued_run_inv[OF platform_invD(1,2)[OF inv] 7(3) cid ok]
  have "workers s' = workers s" "resource_allocations s' = resource_allocations s" "r_status r' = QUEUED"
    using ok by (auto simp: create_queued_run_enqueue res_bind_Inr_iff dest: enqueue_row)
  then show ?thesis using q role by (intro entitled_append[OF platform_invD(4)[OF inv] q(4,3)])
next
  case (8 i r')
  have role: "u_role u \<in> {RESEARCHER, ADMINISTRATOR}" using perm 8 by (auto simp: researcher_user_def require_roles_Inr)
  obtain d where d: "get_run s i = Some d" "u_role u = ADMINISTRATOR \<or> r_created_by d = u_id u"
    by (rule cancel_run_Inr[OF 8(2)])
  note q = cancel_run_inv[OF 8(2) platform_invD(1,2)[OF inv]]
  show ?thesis
    using entitled_replace[OF platform_invD(4)[OF inv] q(5) _ q(3) _ _ role d] cancel_run_frame[OF 8(2)] by blast
next
  case (9 i ps r')
  have role: "u_role u \<in> {RESEARCHER, ADMINISTRATOR}" using perm 9 by (auto simp: researcher_user_def require_roles_Inr)
  note q = retry_run_inv[OF 9(2) platform_invD(1,2)[OF inv] cid]
  obtain parent t p ps' where par: "get_run s i = Some parent" "u_role u = ADMINISTRATOR \<or> r_created_by parent = u_id u"
    "r_status parent = FAILED" "get_template s (r_template_id parent) = Some t"
    "validate_parameters (ap_pydantic api) t (fold (\<lambda>(n, v) acc. AList.update n v acc) (stored_parameters s i @ ps) []) = Inr (p, ps')"
    by (rule retry_run_Inr[OF 9(2)])
  note row = enqueue_row[OF 9(2)[unfolded retry_run_enqueue[OF par]]]
  show ?thesis
    by (rule entitled_append[OF platform_invD(4)[OF inv] q(5,3) _ _ role]) (use row in simp_all)
next
  case (10 i mb r')
  have role: "u_role u \<in> {RESEARCHER, ADMINISTRATOR}" using perm 10 by (auto simp: researcher_user_def require_roles_Inr)
  obtain d where d: "get_run s i = Some d" "u_role u = ADMINISTRATOR \<or> r_created_by d = u_id u"
    and row: "\<exists>v. r' = d\<lparr>r_notes := mu_notes mb, r_tags := fromkeys (stripped_tags (mu_tags mb)), r_version := v\<rparr>"
    and s': "s' = (add_event s i ''run.metadata.updated'' None None [(''updated_by'', JStr (uuid_str (u_id u)))])
       \<lparr>runs := upd_row r_id i (\<lambda>_. r') (runs s)\<rparr>"
    by (rule update_run_metadata_Inr[OF 10(2) platform_invD(4)[OF inv]])
  note q = update_run_metadata_inv[OF 10(2) platform_invD(1,2)[OF inv]]
  have "r_id r' = i" using row get_run_SomeD[OF d(1)] by auto
  moreover have "workers s' = workers s" "resource_allocations s' = resource_allocations s" by (simp_all add: s' frame_simps)
  ultimately show ?thesis using entitled_replace[OF platform_invD(4)[OF inv] q(5) _ q(3) _ _ role d] by blast
next
  case (11 wb w)
  have role: "u_role u = ADMINISTRATOR" using perm 11 by (auto simp: administrator_user_def require_roles_Inr)
  have "s' = snd (register_worker s (py_strip (wr_name wb)) (wr_total_cpu wb) (wr_total_memory_mb wb))"
    using 11(2) by (auto simp: register_endpoint_def split: prod.splits option.splits)
  from worker_ops_frame[OF disjI1[OF this]] role platform_invD(4)[OF inv] show ?thesis by (intro entitled_same_runs) auto
next
  case (12 i w)
  have role: "u_role u = ADMINISTRATOR" using perm 12 by (auto simp: administrator_user_def require_roles_Inr)
  have "s' = snd (heartbeat_worker s i (allocation_lease_seconds (ap_settings api)))"
    using 12(2) by (auto simp: heartbeat_endpoint_def split: prod.splits option.splits)
  from worker_ops_frame[OF disjI2[OF this]] role platform_invD(4)[OF inv] show ?thesis by (intro entitled_same_runs) auto
qed (use perm in \<open>auto simp: researcher_user_def require_roles_Inr intro!: entitled_catalog platform_invD(4)[OF inv] dest: catalog_ops\<close>)


text \<open>A small deployment at which the properties are instantiated.\<close>

definition demo_probe :: probe_run where
  "demo_probe = \<lparr>pb_outcome = Inr (), pb_elapsed = 0\<rparr>"

definition demo_api :: "(token_payload \<times> string, string \<rightharpoonup> bytes) api" where
  "demo_api = \<lparr>ap_lib = demo_auth, ap_settings = default_settings, ap_pydantic = strict_pydantic,
     ap_get = (\<lambda>m k. (case m k of None \<Rightarrow> Inl FileNotFoundError | Some d \<Rightarrow> Inr d, m)),
     ap_probes = \<lparr>pr_postgresql = demo_probe, pr_redis = demo_probe, pr_redpanda = demo_probe, pr_minio = demo_probe,
       pr_scheduler = demo_probe\<rparr>\<rparr>"

definition demo_call :: "user \<Rightarrow> (token_payload \<times> string) call" where
  "demo_call u = \<lparr>cl_credentials = Some (''bearer'', (token_payload_of default_settings 0 u, jwt_secret default_settings)),
     cl_correlation_id = Some ''c'', cl_now = 0, cl_fresh = 0\<rparr>"

lemma demo_platform_inv: "platform_inv demo_db"
  using demo_lifecycle_inv demo_fk_inv demo_catalog_inv by (simp add: platform_inv_def)

lemma demo_signed_in:
  assumes "u_id u < 16 ^ 32" "get_user s (u_id u) = Some u"
  shows "get_current_user (ap_lib demo_api) (ap_settings demo_api) (cl_now (demo_call u)) (cl_credentials (demo_call u)) s = Inr u"
proof -
  have "py_lower ''bearer'' = ''bearer''" by code_simp
  moreover have "whole_seconds 0 \<le> 0" "0 < whole_seconds (secs (60 * access_token_minutes default_settings))"
    by (simp_all add: whole_seconds_def secs_def default_settings_def)
  ultimately show ?thesis
    using assms uuid_parse_str[OF assms(1)]
    by (simp add: get_current_user_def demo_api_def demo_call_def demo_auth_def token_payload_of_def subject_of_def)
qed

text \<open>
  C33. Only the entitled change anything. If serving a request changed the database, whatever the
  request and its headers, then it carried a valid token of a stored user who is a researcher or an
  administrator; workers and leases changed only for an administrator; a run that was there before
  changed only for its creator or an administrator; a new run is queued in the name of that user; and
  no account and no template changed. In particular viewers and anonymous callers change nothing.
\<close>

theorem only_the_entitled_change_data:
  assumes "platform_inv s" "serve api call req (w, s) = (reply, w', s')" "s' \<noteq> s"
  shows "\<exists>u. get_current_user (ap_lib api) (ap_settings api) (cl_now call) (cl_credentials call) s = Inr u \<and>
    get_user s (u_id u) = Some u \<and> u_role u \<in> {RESEARCHER, ADMINISTRATOR} \<and>
    (workers s' = workers s \<and> resource_allocations s' = resource_allocations s \<or> u_role u = ADMINISTRATOR) \<and>
    (\<forall>r\<in>set (runs s). get_run s' (r_id r) = Some r \<or> u_role u = ADMINISTRATOR \<or> r_created_by r = u_id u) \<and>
    (\<forall>r\<in>set (runs s'). r_id r \<in> r_id ` set (runs s) \<or> r_created_by r = u_id u \<and> r_status r = QUEUED) \<and>
    users s' = users s \<and> training_templates s' = training_templates s"
  using assms(2)
proof (cases rule: serve_cases)
  case same
  with assms(3) show ?thesis by contradiction
next
  case (committed u r)
  have "entitled u (begin_transaction s) s'"
    using performs_entitled[OF committed(3,2) begin_transaction_inv(1)[OF assms(1)]] dispatch_correlation_id_bounds by blast
  moreover have "get_user s (u_id u) = Some u" using get_current_user_Inr[OF committed(1)] by blast
  ultimately show ?thesis using committed(1) by (intro exI[of _ u]) (simp add: entitled_def)
qed

theorem only_the_entitled_change_data_witness:
  "\<exists>reply w' s'. serve demo_api (demo_call demo_user) (CancelRun 11) (Map.empty, demo_db) = (reply, w', s') \<and> s' \<noteq> demo_db \<and>
     workers s' = workers demo_db \<and> users s' = users demo_db"
proof -
  obtain reply w' s' where sv: "serve demo_api (demo_call demo_user) (CancelRun 11) (Map.empty, demo_db) = (reply, w', s')"
    by (metis prod_cases3)
  let ?s = "begin_transaction demo_db"
  have g: "get_run ?s 11 = Some (demo_run 11 RUNNING (Some 5))" by (simp add: get_run_def demo_defs)
  have d: "dispatch_correlation_id (Some ''c'') 0 = ''c''" by (simp add: dispatch_correlation_id_def)
  have u: "authorise demo_api (demo_call demo_user) (CancelRun 11) ?s = Inr demo_user"
    using demo_signed_in[of demo_user ?s]
    by (simp add: authorise_def researcher_user_def require_roles_def get_user_def demo_defs)
  obtain r s1 where c: "cancel_run default_settings ''c'' 11 demo_user ?s = Inr (r, s1)"
    using cancel_run_ok[OF g, of demo_user "''c''" default_settings] by (auto simp: demo_run_def demo_user_def)
  have s': "s' = s1"
    using sv c u by (simp add: serve_def serve_as_def commits_def demo_api_def demo_call_def d Let_def
        request_correlation_id_def)
  have rows: "runs s1 = upd_row r_id 11 (\<lambda>_. r) (runs ?s)" "r_id r = 11" "r_status r = CANCELLING"
    using cancel_run_inv(5)[OF c] begin_transaction_inv(1)[OF demo_platform_inv] platform_invD(1,2)
      cancel_run_frame[OF c] by (blast, blast) (rule cancel_run_Inr[OF c], simp add: keeps_core_def)
  have "get_run s1 11 = Some r" by (rule get_run_upd_row[OF rows(1) g rows(2)])
  moreover have "get_run demo_db 11 = Some (demo_run 11 RUNNING (Some 5))" by (simp add: get_run_def demo_defs)
  ultimately have ne: "s' \<noteq> demo_db" using rows(3) s' by (auto simp: demo_run_def)
  have "\<not> u_role demo_user = ADMINISTRATOR" by (simp add: demo_user_def)
  then have "workers s' = workers demo_db \<and> users s' = users demo_db"
    using only_the_entitled_change_data[OF demo_platform_inv sv ne] demo_signed_in[of demo_user demo_db]
    by (auto simp: get_user_def demo_defs)
  with sv ne show ?thesis by blast
qed



section \<open>Rejected requests\<close>

lemma handle_exception_form:
  "resp_headers (handle_exception cid e) = [(''X-Correlation-ID'', cid)] \<and>
   (\<exists>code msg det. resp_content (handle_exception cid e) = error_body code msg det cid)"
  by (cases e) (auto simp: handle_exception_def app_error_handler_def unexpected_error_handler_def)

text \<open>A committed change whose answer could not be built: an experiment without tags.\<close>

lemma handle_failed_commit:
  assumes "handle api cid now u r w s = ((Inl e, Some s'), w')"
  obtains i b x where "r = UpdateExperiment i b" "update_experiment i b s = Inr (x, s')" "x_tags x = None"
proof -
  have cr: "create_experiment b u s = Inr (x, s') \<Longrightarrow> x_tags x \<noteq> None" for b x
    by (auto simp: create_experiment_def res_bind_Inr_iff uuid4_def Let_def split: if_splits)
  have resp: "Inl e = res_bind (experiment_response_of x) (\<lambda>x. Inr (AExperiment x)) \<longleftrightarrow> x_tags x = None \<and> e = ValidationError" for x
    by (auto simp: experiment_response_of_def split: option.splits)
  show thesis
    using assms by (cases r) (auto simp: commits_Some resp Let_def dest: cr split: prod.splits intro: that)
qed

lemma serve_unanswered:
  assumes "serve api call req (w, s) = (reply, w', s')" "\<forall>c a. reply \<noteq> Answered c a" "s' \<noteq> s"
  obtains i b b' x where "req = UpdateExperiment i b" "update_experiment i b' (begin_transaction s) = Inr (x, s')" "x_tags x = None"
proof -
  obtain u r m where v: "validated (ap_lib api) req = Inr r"
    and h: "handle api (call_id call) (cl_now call) u r w (begin_transaction s) = ((m, Some s'), w')"
    and rep: "reply = respond (call_id call) req m"
    by (rule serve_changed[OF assms(1,3)])
  obtain e where e: "m = Inl e" using rep assms(2) by (cases m) (auto simp: respond_def)
  obtain i b x where r: "r = UpdateExperiment i b" "update_experiment i b (begin_transaction s) = Inr (x, s')" "x_tags x = None"
    by (rule handle_failed_commit[OF h[unfolded e]])
  moreover obtain b0 where "req = UpdateExperiment i b0" using validated_update v r(1) by blast
  ultimately show thesis using that by blast
qed

lemma serve_rejection:
  assumes "serve api call req (w, s) = (Rejected resp, w', s')"
  shows "\<exists>e. resp = handle_exception (call_id call) e"
proof (cases "as_public req")
  case (Some p)
  then show ?thesis
    using assms by (auto simp: serve_def request_correlation_id_dispatch serve_public_def respond_def Let_def split: sum.splits)
next
  case None
  then show ?thesis
    using assms by (auto simp: serve_private serve_as_def respond_def Let_def split: sum.splits prod.splits)
qed

lemma serve_unprocessable:
  assumes "serve api call req (w, s) = (Unprocessable, w', s')"
  shows "s' = s \<and> w' = w \<and> (\<exists>e. (\<exists>p. as_public req = Some p \<and> validated_public (ap_lib api) p = Inl e) \<or>
    as_public req = None \<and> validated (ap_lib api) req = Inl e)"
proof (cases "as_public req")
  case (Some p)
  then show ?thesis
    using assms by (auto simp: serve_def request_correlation_id_dispatch serve_public_def respond_def Let_def split: sum.splits)
next
  case None
  then show ?thesis
    using assms by (auto simp: serve_private serve_as_def respond_def Let_def split: sum.splits prod.splits)
qed

text \<open>
  C34. A request that is not answered changes nothing, and can be traced. Whether it is unauthenticated, not
  permitted, malformed, refused by the endpoint or met by an unexpected exception, the database is the one
  before it, and the response carries the correlation identifier of the request in its header. A rejection by
  the code also has it in its error body. A body or query that fails validation, and only that, is refused by
  the framework in its own format, before the endpoint and the store are touched. The single exception is an
  update that stores or keeps a null in an experiment's tags: it commits, and only then is its answer refused.
\<close>

theorem rejected_requests_change_nothing:
  assumes "serve api call req (w, s) = (reply, w', s')" "\<forall>c a. reply \<noteq> Answered c a"
  shows "(s' = s \<or> (\<exists>i b x resp. reply = Rejected resp \<and> req = UpdateExperiment i b \<and>
      get_experiment s' i = Some x \<and> x_tags x = None)) \<and>
    reply_headers call reply = [(''X-Correlation-ID'', dispatch_correlation_id (cl_correlation_id call) (cl_fresh call))] \<and>
    (\<forall>resp. reply = Rejected resp \<longrightarrow>
       resp_headers resp = [(''X-Correlation-ID'', dispatch_correlation_id (cl_correlation_id call) (cl_fresh call))] \<and>
       (\<exists>code msg det. resp_content resp =
          error_body code msg det (dispatch_correlation_id (cl_correlation_id call) (cl_fresh call)))) \<and>
    (reply = Unprocessable \<longrightarrow> s' = s \<and> w' = w \<and>
       (\<exists>e. (\<exists>p. as_public req = Some p \<and> validated_public (ap_lib api) p = Inl e) \<or>
         as_public req = None \<and> validated (ap_lib api) req = Inl e))"
proof -
  have rej: "resp_headers resp = [(''X-Correlation-ID'', call_id call)] \<and>
      (\<exists>code msg det. resp_content resp = error_body code msg det (call_id call))" if rj: "reply = Rejected resp" for resp
  proof -
    obtain e where "resp = handle_exception (call_id call) e"
      using serve_rejection[OF assms(1)[unfolded rj]] by blast
    then show ?thesis using handle_exception_form[of "call_id call" e] by simp
  qed
  moreover have "reply_headers call reply = [(''X-Correlation-ID'', call_id call)]"
    using rej assms(2) by (cases reply) (simp_all add: reply_headers_def)
  moreover have "s' = s \<or> (\<exists>i b x resp. reply = Rejected resp \<and> req = UpdateExperiment i b \<and>
      get_experiment s' i = Some x \<and> x_tags x = None)"
  proof (cases "s' = s")
    case False
    obtain i b b' x where x: "req = UpdateExperiment i b" "update_experiment i b' (begin_transaction s) = Inr (x, s')" "x_tags x = None"
      by (rule serve_unanswered[OF assms False])
    have "get_experiment s' i = Some x"
      by (rule update_experiment_row[OF x(2)]) (auto simp: get_experiment_def get_row_upd_row_same)
    moreover have "\<exists>resp. reply = Rejected resp"
      using assms False by (cases reply) (auto dest: serve_unprocessable)
    ultimately show ?thesis using x by blast
  qed simp
  moreover have "s' = s \<and> w' = w \<and> (\<exists>e. (\<exists>p. as_public req = Some p \<and> validated_public (ap_lib api) p = Inl e) \<or>
      as_public req = None \<and> validated (ap_lib api) req = Inl e)" if un: "reply = Unprocessable"
    by (rule serve_unprocessable[OF assms(1)[unfolded un]])
  ultimately show ?thesis by blast
qed

theorem rejected_requests_change_nothing_witness:
  "\<exists>resp. serve demo_api ((demo_call demo_user)\<lparr>cl_credentials := None\<rparr>) (DeleteExperiment 3) (Map.empty, demo_db) =
     (Rejected resp, Map.empty, demo_db) \<and> resp_status resp = 401 \<and> resp_headers resp = [(''X-Correlation-ID'', ''c'')]"
proof -
  let ?c = "(demo_call demo_user)\<lparr>cl_credentials := None\<rparr>"
  have d: "dispatch_correlation_id (cl_correlation_id ?c) (cl_fresh ?c) = ''c''"
    by (simp add: demo_call_def dispatch_correlation_id_def)
  obtain resp where r: "serve demo_api ?c (DeleteExperiment 3) (Map.empty, demo_db) = (Rejected resp, Map.empty, demo_db)"
    and st: "resp_status resp = 401"
    by (simp add: serve_def authorise_def researcher_user_def require_roles_def get_current_user_def Let_def
        handle_exception_def app_err_def app_error_handler_def)
  show ?thesis using rejected_requests_change_nothing[OF r] d r st by auto
qed

text \<open>An experiment with null tags makes every page that contains it fail.\<close>

lemma check_all_fails: "x \<in> set xs \<Longrightarrow> f x = Inl e \<Longrightarrow> \<exists>e. check_all f xs = Inl e"
  by (induction xs) (auto simp: res_bind_def split: sum.splits)

lemma null_tags_break_listing:
  assumes "x \<in> set (pg_items (paginate p n (order_experiments s k a (matching_experiments s q pid tag))))" "x_tags x = None"
  shows "\<exists>e. list_experiments p n q pid tag k a s = Inl e"
proof -
  have "experiment_response_of x = Inl ValidationError" using assms(2) by (simp add: experiment_response_of_def)
  from check_all_fails[OF assms(1), of experiment_response_of, OF this] show ?thesis by (auto simp: list_experiments_def Let_def)
qed

end
