(* ===== verification/Worker_Service.thy ===== *)
theory Worker_Service
  imports Execution_Outcomes Logging Storage
begin

text \<open>
  The worker process (\<open>services/worker/runscope_worker/main.py\<close>) and the consumer side of the broker
  (\<open>broker.KafkaEventConsumer\<close>): which events are acted on, the record of processed messages, the
  heartbeats and the reconnecting loop. A partition is the list of its messages, each already decoded
  (\<open>Inl\<close> when \<open>json.loads\<close> or \<open>EventEnvelope.model_validate\<close> raises), with the committed offset; the
  consumer reads from there. What other sessions do during an execution is in the runtime of that
  delivery; live events that cannot be published are dropped by the worker's publisher.
\<close>

section \<open>Processing an event\<close>

definition CONSUMER_NAME_PREFIX :: string where
  "CONSUMER_NAME_PREFIX = ''trusted-template-worker-v2''"

definition consumer_name :: "uuid \<Rightarrow> string" where
  "consumer_name wid = CONSUMER_NAME_PREFIX @ '':'' @ uuid_str wid"

text \<open>\<open>UUID(str(value)) if value else None\<close>: of the JSON values only a text or an integer can read as a UUID.\<close>

definition lease_token_of :: "dict \<Rightarrow> uuid option res" where
  "lease_token_of payload =
     (let parse = (\<lambda>t. case uuid_parse t of None \<Rightarrow> Inl ValueError | Some u \<Rightarrow> Inr (Some u))
      in case map_of payload ''lease_token'' of
           None \<Rightarrow> Inr None
         | Some v \<Rightarrow>
             if \<not> truthy v then Inr None
             else case v of JStr t \<Rightarrow> parse t | JInt n \<Rightarrow> parse (show_int n) | _ \<Rightarrow> Inl ValueError)"

definition was_processed :: "db \<Rightarrow> uuid \<Rightarrow> string \<Rightarrow> bool" where
  "was_processed s eid consumer = list_ex (\<lambda>m. pm_event_id m = eid \<and> pm_consumer_name m = consumer) (processed_messages s)"

text \<open>The insert is refused by the unique constraint when another session recorded the message meanwhile.\<close>

definition record_processed :: "db \<Rightarrow> uuid \<Rightarrow> string \<Rightarrow> db res" where
  "record_processed s eid consumer =
     (if was_processed s eid consumer then Inl IntegrityError
      else let (pid, s1) = uuid4 s
           in Inr (processed_messages_update (\<lambda>ms. ms @ [\<lparr>pm_id = pid, pm_event_id = eid, pm_consumer_name = consumer,
                pm_processed_at = tx_now s1\<rparr>]) s1))"

definition process_assignment ::
  "'w runtime \<Rightarrow> event_envelope \<Rightarrow> uuid option \<Rightarrow> 'w exec \<Rightarrow> bool res \<times> 'w exec" where
  "process_assignment rt event worker_id x =
     (case (ev_run_id event, ev_worker_id event) of
        (Some run_id, Some event_worker) \<Rightarrow>
          let active_worker = (case worker_id of Some w \<Rightarrow> w | None \<Rightarrow> event_worker);
              consumer = consumer_name active_worker
          in if was_processed (ex_db x) (ev_event_id event) consumer then (Inr False, x)
             else case lease_token_of (ev_payload event) of
               Inl e \<Rightarrow> (Inl e, x)
             | Inr lease_token \<Rightarrow>
                 (case execute_existing_run rt run_id (Some active_worker) lease_token x of
                    (Inl e, x1) \<Rightarrow> (Inl e, x1)
                  | (Inr _, x1) \<Rightarrow>
                      (case record_processed (ex_db x1) (ev_event_id event) consumer of
                         Inl e \<Rightarrow> (Inl e, x1)
                       | Inr s2 \<Rightarrow> (Inr True, x1\<lparr>ex_db := s2\<rparr>)))
      | _ \<Rightarrow> (Inr False, x))"

definition process_event ::
  "'w runtime \<Rightarrow> event_envelope \<Rightarrow> uuid option \<Rightarrow> 'w exec \<Rightarrow> bool res \<times> 'w exec" where
  "process_event rt event worker_id x =
     (if ev_event_type event \<noteq> ''run.assigned'' \<or> ev_run_id event = None \<or> ev_worker_id event = None \<or>
         (worker_id \<noteq> None \<and> ev_worker_id event \<noteq> worker_id)
      then (Inr False, x)
      else process_assignment rt event worker_id x)"


section \<open>Heartbeats\<close>

text \<open>One pass of the loop, with the exception its session meets, if any; every exception is logged and dropped.\<close>

definition heartbeat_once :: "settings \<Rightarrow> uuid \<Rightarrow> db \<Rightarrow> worker res \<times> db" where
  "heartbeat_once cfg wid s =
     (case heartbeat_worker s wid (allocation_lease_seconds cfg) of
        (None, s1) \<Rightarrow> (Inl (RuntimeError ''Registered worker record no longer exists''), s1)
      | (Some w, s1) \<Rightarrow> (Inr w, s1))"

fun heartbeat_loop :: "settings \<Rightarrow> uuid \<Rightarrow> exn option list \<Rightarrow> db \<Rightarrow> db" where
  "heartbeat_loop cfg wid [] s = s"
| "heartbeat_loop cfg wid (Some e # faults) s = heartbeat_loop cfg wid faults s"
| "heartbeat_loop cfg wid (None # faults) s = heartbeat_loop cfg wid faults (snd (heartbeat_once cfg wid s))"


section \<open>The consumer and the main loop\<close>

type_synonym partition = "event_envelope res list"

text \<open>
  \<open>consumer.events()\<close> with the body of the loop: each delivery has its own runtime and the outcome of
  the commit after it. A message that does not decode ends the iteration before its offset is
  committed; an exception of the processing is logged and dropped, so its offset is committed.
\<close>

fun deliver ::
  "uuid \<Rightarrow> partition \<Rightarrow> ('w runtime \<times> unit res) list \<Rightarrow> nat \<Rightarrow> 'w exec \<Rightarrow> unit res \<times> nat \<times> 'w exec" where
  "deliver wid part [] off x = (Inr (), off, x)"
| "deliver wid part ((rt, commit) # ds) off x =
     (if length part \<le> off then (Inr (), off, x)
      else case part ! off of
        Inl e \<Rightarrow> (Inl e, off, x)
      | Inr event \<Rightarrow>
          let (_, x1) = process_event rt event (Some wid) x
          in case commit of
               Inl e \<Rightarrow> (Inl e, off, x1)
             | Inr _ \<Rightarrow> deliver wid part ds (Suc off) x1)"

record 'w consumer_round =
  cr_start :: "unit res"
  cr_deliveries :: "('w runtime \<times> unit res) list"

definition consume ::
  "uuid \<Rightarrow> partition \<Rightarrow> 'w consumer_round \<Rightarrow> nat \<Rightarrow> 'w exec \<Rightarrow> unit res \<times> nat \<times> 'w exec" where
  "consume wid part rnd off x =
     (case cr_start rnd of Inl e \<Rightarrow> (Inl e, off, x) | Inr _ \<Rightarrow> deliver wid part (cr_deliveries rnd) off x)"

definition reconnect_delay :: "rat \<Rightarrow> unit res \<Rightarrow> rat" where
  "reconnect_delay delay outcome = (case outcome of Inr _ \<Rightarrow> 1 | Inl _ \<Rightarrow> min (delay * 2) 10)"

definition worker_round ::
  "uuid \<Rightarrow> partition \<Rightarrow> 'w consumer_round \<Rightarrow> rat \<times> nat \<times> 'w exec \<Rightarrow> rat \<times> nat \<times> 'w exec" where
  "worker_round wid part rnd = (\<lambda>(delay, off, x).
     let (outcome, off1, x1) = consume wid part rnd off x in (reconnect_delay delay outcome, off1, x1))"

text \<open>The process: registration under the configured name, then rounds of consumption from the committed offset.\<close>

definition run_worker ::
  "settings \<Rightarrow> partition \<Rightarrow> 'w consumer_round list \<Rightarrow> nat \<Rightarrow> 'w exec \<Rightarrow> rat \<times> nat \<times> 'w exec" where
  "run_worker cfg part rounds off x =
     (case register_worker (ex_db x) (worker_name_setting cfg) (worker_total_cpu cfg) (worker_total_memory_mb cfg) of
        (None, s1) \<Rightarrow> (1, off, x\<lparr>ex_db := s1\<rparr>)
      | (Some w, s1) \<Rightarrow> fold (worker_round (w_id w) part) rounds (1, off, x\<lparr>ex_db := s1\<rparr>))"


section \<open>Offsets\<close>

text \<open>The committed offset never goes back, and a round only leaves messages behind it that were decoded.\<close>

lemma deliver_offset:
  assumes "deliver wid part ds off x = (res, off', x')" "off \<le> length part"
  shows "off \<le> off' \<and> off' \<le> length part \<and> (\<forall>k. off \<le> k \<and> k < off' \<longrightarrow> is_ok (part ! k))"
  using assms
proof (induction ds arbitrary: off x)
  case (Cons d ds)
  obtain rt commit where d: "d = (rt, commit)" by fastforce
  show ?case
  proof (cases "length part \<le> off")
    case True
    then show ?thesis using Cons.prems d by auto
  next
    case False
    show ?thesis
    proof (cases "part ! off")
      case (Inl e)
      then show ?thesis using Cons.prems d False by auto
    next
      case (Inr event)
      obtain o1 x1 where pe: "process_event rt event (Some wid) x = (o1, x1)" by fastforce
      show ?thesis
      proof (cases commit)
        case (Inl e)
        then show ?thesis using Cons.prems d False Inr pe by auto
      next
        case ok: (Inr u)
        then have "deliver wid part ds (Suc off) x1 = (res, off', x')" using Cons.prems(1) d False Inr pe by simp
        from Cons.IH[OF this] False have "Suc off \<le> off' \<and> off' \<le> length part \<and> (\<forall>k. Suc off \<le> k \<and> k < off' \<longrightarrow> is_ok (part ! k))"
          by simp
        moreover have "is_ok (part ! k)" if "off \<le> k" "k < off'" for k
          using that calculation Inr by (cases "k = off") auto
        ultimately show ?thesis by auto
      qed
    qed
  qed
qed auto

text \<open>
  A message that does not decode stops its partition: no round gets past it, so nothing behind it is
  ever delivered.
\<close>

lemma undecodable_message_blocks:
  assumes "part ! k = Inl e" "off \<le> k" "k < length part"
  shows "fst (snd (fold (worker_round wid part) rounds (delay, off, x))) \<le> k"
proof -
  have step: "off1 \<le> k" if "deliver wid part ds off x = (res, off1, x1)" "off \<le> k" for ds off x res off1 x1
  proof (rule ccontr)
    assume "\<not> off1 \<le> k"
    then have "is_ok (part ! k)" using deliver_offset[OF that(1)] that(2) assms(3) by auto
    then show False using assms(1) by simp
  qed
  show ?thesis using assms(2)
  proof (induction rounds arbitrary: delay off x)
    case (Cons rnd rounds)
    obtain outcome off1 x1 where c: "consume wid part rnd off x = (outcome, off1, x1)" by (metis prod_cases3)
    then have "off1 \<le> k" using Cons.prems step by (auto simp: consume_def split: sum.splits)
    then show ?case using c Cons.IH[of off1] by (simp add: worker_round_def)
  qed simp
qed

lemma reconnect_delay_bounds: "1 \<le> delay \<Longrightarrow> delay \<le> 10 \<Longrightarrow> 1 \<le> reconnect_delay delay outcome \<and> reconnect_delay delay outcome \<le> 10"
  by (auto simp: reconnect_delay_def split: sum.split)

end
