(* ===== verification/System.thy ===== *)
theory System
  imports Api_Properties Worker_Service Outbox
begin

text \<open>
  The whole platform: API requests, scheduler passes, heartbeats, registrations, outbox dispatches and
  deliveries to workers, in any order, where everything else may happen while a worker executes a run.
\<close>

section \<open>What every service upholds\<close>

text \<open>
  Rows of runs are never lost and change only with their version, the history of events is only appended to,
  old assignments are not revived, and identifiers are never drawn twice.
\<close>

definition history_kept :: "db \<Rightarrow> db \<Rightarrow> bool" where
  "history_kept s s' \<longleftrightarrow> (\<exists>es. run_events s' = run_events s @ es)"

lemma history_kept_trans: "history_kept s s1 \<Longrightarrow> history_kept s1 s2 \<Longrightarrow> history_kept s s2"
  by (auto simp: history_kept_def)

definition upholds :: "db \<Rightarrow> db \<Rightarrow> bool" where
  "upholds s s' \<longleftrightarrow> evolves s s' \<and> history_kept s s' \<and> no_revival s s' \<and> next_uuid s \<le> next_uuid s'"

lemma progress_history: "progress s s' \<Longrightarrow> history_kept s s'"
  by (auto simp: progress_def history_kept_def)

lemma upholds_refl [simp]: "upholds s s"
  by (simp add: upholds_def history_kept_def)

lemma upholds_trans [trans]: "upholds s s1 \<Longrightarrow> upholds s1 s2 \<Longrightarrow> upholds s s2"
  unfolding upholds_def by (meson evolves_trans history_kept_trans no_revival_trans order_trans)

lemma advances_upholds: "advances s s' \<Longrightarrow> upholds s s'"
  by (simp add: advances_def upholds_def progress_history) (simp add: progress_def)

lemma worker_ops_no_revival:
  assumes "s' = snd (register_worker s name c m) \<or> s' = snd (heartbeat_worker s wid n)"
  shows "no_revival s s'"
proof -
  have runs: "get_run s' = get_run s" using worker_ops_frame[OF assms] by (simp add: get_run_def fun_eq_iff)
  let ?key = "\<lambda>a. (a_run_id a, a_worker_id a, a_lease_token a, a_released_at a)"
  have "map ?key (resource_allocations s') = map ?key (resource_allocations s)"
    using assms by (auto simp: register_worker_def heartbeat_worker_def extend_leases_def now_utc_def uuid4_def Let_def
        frame_simps split: option.splits)
  from arg_cong[OF this, of set] have keys: "?key ` set (resource_allocations s') = ?key ` set (resource_allocations s)" by simp
  have "\<exists>b\<in>set (resource_allocations s). active b \<and> a_run_id b = a_run_id a \<and> a_worker_id b = a_worker_id a \<and>
      a_lease_token b = a_lease_token a" if "a \<in> set (resource_allocations s')" "active a" for a
  proof -
    have "?key a \<in> ?key ` set (resource_allocations s)" using that(1) keys by blast
    then obtain b where "b \<in> set (resource_allocations s)" "?key b = ?key a" by (metis (lifting) imageE)
    with that(2) show ?thesis by (auto simp: active_def)
  qed
  then show ?thesis by (intro no_revivalI) (auto simp: runs)
qed

lemma no_revival_append:
  assumes "runs s' = runs s @ [r]" "r_status r = QUEUED" "resource_allocations s' = resource_allocations s"
  shows "no_revival s s'"
  using assms by (intro no_revivalI) (auto simp: get_run_def get_row_append split: option.splits if_splits)

lemma no_revival_replace:
  assumes "runs s' = upd_row r_id rid (\<lambda>_. r') (runs s)" "r_id r' = rid" "resource_allocations s' = resource_allocations s"
    and "r_status r' \<noteq> SCHEDULING \<or> get_run s rid = Some d \<and> r_status r' = r_status d"
  shows "no_revival s s'"
proof (rule no_revivalI)
  show "(\<exists>d. get_run s i = Some d \<and> r_status d = SCHEDULING) \<or>
      (\<forall>b\<in>set (resource_allocations s). active b \<longrightarrow> a_run_id b \<noteq> i)"
    if "get_run s' i = Some q" "r_status q = SCHEDULING" for i q
    using assms(1,2,4) that
    by (cases "i = rid") (auto simp: get_run_def get_row_upd_row_same get_row_upd_row_other)
qed (use assms(3) in auto)

lemma performs_upholds:
  assumes p: "performs api cid u r s s'" and inv: "platform_inv s" and cid: "1 \<le> length cid" "length cid \<le> 128"
  shows "upholds s s'"
proof -
  have "history_kept s s' \<and> no_revival s s' \<and> next_uuid s \<le> next_uuid s'"
    using p
  proof cases
    case (7 rb r')
    have ok: "create_queued_run (ap_pydantic api) (ap_settings api) cid rb (u_id u) s = Inr (r', s')"
      using 7(2) by (auto simp: create_run_def res_bind_Inr_iff)
    note q = create_queued_run_inv[OF platform_invD(1,2)[OF inv] 7(3) cid ok]
    have "resource_allocations s' = resource_allocations s" "r_status r' = QUEUED" "history_kept s s'"
      using ok by (auto simp: create_queued_run_enqueue res_bind_Inr_iff history_kept_def dest: enqueue_row)
    then show ?thesis using q no_revival_append[OF q(4)] by simp
  next
    case (8 i r')
    obtain d where d: "get_run s i = Some d" "r' = moved s d CANCELLING id" by (rule cancel_run_Inr[OF 8(2)])
    note q = cancel_run_inv[OF 8(2) platform_invD(1,2)[OF inv]]
    have "r_status r' = CANCELLING" using d by (simp add: keeps_core_def)
    moreover have "history_kept s s'"
      by (rule progress_history[OF cancel_run_progress[OF 8(2) platform_invD(4)[OF inv]]])
    ultimately show ?thesis using q(4) cancel_run_frame[OF 8(2)] by (intro conjI no_revival_replace[OF q(5), of d]) simp_all
  next
    case (9 i ps r')
    note q = retry_run_inv[OF 9(2) platform_invD(1,2)[OF inv] cid]
    obtain parent t p ps' where par: "get_run s i = Some parent" "u_role u = ADMINISTRATOR \<or> r_created_by parent = u_id u"
      "r_status parent = FAILED" "get_template s (r_template_id parent) = Some t"
      "validate_parameters (ap_pydantic api) t (fold (\<lambda>(n, v) acc. AList.update n v acc) (stored_parameters s i @ ps) []) = Inr (p, ps')"
      by (rule retry_run_Inr[OF 9(2)])
    note row = enqueue_row[OF 9(2)[unfolded retry_run_enqueue[OF par]]]
    show ?thesis using q(4) row no_revival_append[OF q(5)] by (auto simp: history_kept_def)
  next
    case (10 i mb r')
    obtain d where d: "get_run s i = Some d"
      and row: "\<exists>v. r' = d\<lparr>r_notes := mu_notes mb, r_tags := fromkeys (stripped_tags (mu_tags mb)), r_version := v\<rparr>"
      and s': "s' = (add_event s i ''run.metadata.updated'' None None [(''updated_by'', JStr (uuid_str (u_id u)))])
         \<lparr>runs := upd_row r_id i (\<lambda>_. r') (runs s)\<rparr>"
      by (rule update_run_metadata_Inr[OF 10(2) platform_invD(4)[OF inv]])
    note q = update_run_metadata_inv[OF 10(2) platform_invD(1,2)[OF inv]]
    have "r_id r' = i" "r_status r' = r_status d" using row get_run_SomeD[OF d] by auto
    then show ?thesis using q(4) d by (intro conjI no_revival_replace[OF q(5), of d]) (simp_all add: s' frame_simps history_kept_def run_events_add_event)
  next
    case (11 wb w)
    have "s' = snd (register_worker s (py_strip (wr_name wb)) (wr_total_cpu wb) (wr_total_memory_mb wb))"
      using 11(2) by (auto simp: register_endpoint_def split: prod.splits option.splits)
    from worker_ops_no_revival[OF disjI1[OF this]] worker_ops_frame[OF disjI1[OF this]] show ?thesis by (simp add: history_kept_def)
  next
    case (12 i w)
    have "s' = snd (heartbeat_worker s i (allocation_lease_seconds (ap_settings api)))"
      using 12(2) by (auto simp: heartbeat_endpoint_def split: prod.splits option.splits)
    from worker_ops_no_revival[OF disjI2[OF this]] worker_ops_frame[OF disjI2[OF this]] show ?thesis by (simp add: history_kept_def)
  qed (auto dest!: catalog_ops simp: catalog_only_def history_kept_def intro: no_revival_frame)
  then show ?thesis using performs_inv[OF p inv cid] by (simp add: upholds_def)
qed

lemma serve_upholds:
  assumes "serve api call req (w, s) = (reply, w', s')" "platform_inv s"
  shows "platform_inv s' \<and> upholds s s'"
  using assms(1)
proof (cases rule: serve_cases)
  case (committed u r)
  have b: "upholds s (begin_transaction s)" "platform_inv (begin_transaction s)"
    using begin_transaction_inv assms(2) by (simp_all add: upholds_def history_kept_def no_revival_frame)
  show ?thesis
    using performs_upholds[OF committed(3) b(2)] performs_inv[OF committed(3) b(2)] dispatch_correlation_id_bounds
      upholds_trans[OF b(1)] by blast
qed (simp add: assms(2))


section \<open>The steps of the platform\<close>

text \<open>
  \<open>act s s'\<close>: one service takes the database from \<open>s\<close> to \<open>s'\<close>: the API serves a request, the scheduler
  makes a pass, a worker registers or sends a heartbeat, the dispatcher publishes a batch, or a worker
  processes a delivery, during which, at every await, the others may do anything (\<open>acts\<close>).
\<close>

inductive act :: "('tok, 'w) api \<Rightarrow> ('b \<Rightarrow> string \<Rightarrow> string \<Rightarrow> event_envelope \<Rightarrow> unit res \<times> 'b) \<Rightarrow> db \<Rightarrow> db \<Rightarrow> bool"
  and acts :: "('tok, 'w) api \<Rightarrow> ('b \<Rightarrow> string \<Rightarrow> string \<Rightarrow> event_envelope \<Rightarrow> unit res \<times> 'b) \<Rightarrow> db \<Rightarrow> db \<Rightarrow> bool"
  for api :: "('tok, 'w) api" and publish :: "'b \<Rightarrow> string \<Rightarrow> string \<Rightarrow> event_envelope \<Rightarrow> unit res \<times> 'b" where
  request: "serve api call req (w, s) = (reply, w', s') \<Longrightarrow> act api publish s s'"
| pass: "schedule_once s (ap_settings api) lk = Inr (n, s') \<Longrightarrow> act api publish s s'"
| registration: "0 \<le> c \<Longrightarrow> 0 \<le> m \<Longrightarrow> act api publish s (snd (register_worker s name c m))"
| heartbeat: "act api publish s (snd (heartbeat_once (ap_settings api) wid s))"
| dispatch: "dispatch_batch publish limit (outbox_max_attempts (ap_settings api)) lk b s = (n, b', s') \<Longrightarrow> act api publish s s'"
| delivery: "process_event (rt :: 'w runtime) event (Some wid) x = (res, x') \<Longrightarrow> \<forall>k t. acts api publish t (rt_env rt k t) \<Longrightarrow>
    \<forall>rid i. rt_expired_id rt rid = Inr i \<longrightarrow> i = rid \<Longrightarrow> act api publish (ex_db x) (ex_db x')"
| nothing: "acts api publish s s"
| more: "acts api publish s s1 \<Longrightarrow> act api publish s1 s2 \<Longrightarrow> acts api publish s s2"

lemma acts_trans: "acts api publish s1 s2 \<Longrightarrow> acts api publish s s1 \<Longrightarrow> acts api publish s s2"
  by (induction s1 s2 rule: act_acts.inducts(2)[where ?P1.0 = "\<lambda>_ _. True"]) (auto intro: act_acts.more)


section \<open>What a delivery keeps\<close>

lemma record_processed_inputs: "record_processed s eid consumer = Inr s' \<Longrightarrow> same_inputs s s'"
  by (auto simp: record_processed_def same_inputs_def same_core_def uuid4_def Let_def split: if_splits)

lemma process_event_cases:
  assumes "process_event rt event (Some wid) x = (res, x')"
  obtains (ignored) "x' = x"
  | (executed) rid tok o1 x1 where "ev_run_id event = Some rid" "ev_worker_id event = Some wid"
      "lease_token_of (ev_payload event) = Inr tok"
      "execute_existing_run rt rid (Some wid) tok x = (o1, x1)"
      "ex_store x' = ex_store x1" "ex_live x' = ex_live x1"
      "ex_db x' = ex_db x1 \<or> record_processed (ex_db x1) (ev_event_id event) (consumer_name wid) = Inr (ex_db x')"
proof (cases "x' = x")
  case False
  then obtain rid tok where e: "ev_run_id event = Some rid" "ev_worker_id event = Some wid"
      "lease_token_of (ev_payload event) = Inr tok"
    using assms by (auto simp: process_event_def process_assignment_def Let_def split: if_splits option.splits sum.splits)
  obtain o1 x1 where ex: "execute_existing_run rt rid (Some wid) tok x = (o1, x1)" by fastforce
  have "ex_store x' = ex_store x1 \<and> ex_live x' = ex_live x1 \<and>
      (ex_db x' = ex_db x1 \<or> record_processed (ex_db x1) (ev_event_id event) (consumer_name wid) = Inr (ex_db x'))"
    using assms False e ex
    by (cases o1; cases "record_processed (ex_db x1) (ev_event_id event) (consumer_name wid)")
      (auto simp: process_event_def process_assignment_def Let_def split: if_splits)
  then show thesis using executed[OF e ex] by blast
qed (rule ignored)

context execution_invariant begin

lemma process_event_inv:
  assumes "env_ok inv (rt_env rt)" "inv (ex_db x)" "\<forall>rid i. rt_expired_id rt rid = Inr i \<longrightarrow> i = rid"
    and "process_event rt event (Some wid) x = (res, x')"
  shows "inv (ex_db x')"
  using assms(4)
proof (cases rule: process_event_cases)
  case (executed rid tok o1 x1)
  have "inv (ex_db x1)" using execute_inv[OF assms(1,2) _ executed(4)] assms(3) by blast
  then show ?thesis using executed(7) inputs_inv record_processed_inputs by metis
qed (simp add: assms(2))

end

text \<open>The instance for the platform: its invariant, and everything upheld since a given state.\<close>

lemma platform_survives:
  assumes "platform_inv s" "progress s s'" "lifecycle_inv s'"
  shows "platform_inv s'"
proof -
  have refs: "run_refs s' = run_refs s" using assms(2) by (simp add: progress_def)
  have "fk_inv s'"
    using assms(2) run_refs_ids[OF refs]
    by (intro fk_inv_frame[OF platform_invD(2)[OF assms(1)]]) (auto simp: progress_def)
  moreover have "r_experiment_id ` set (runs s') = r_experiment_id ` set (runs s)"
  proof -
    have "r_experiment_id ` set (runs t) = (fst \<circ> snd) ` set (run_refs t)" for t by (force simp: run_refs_def)
    then show ?thesis using refs by simp
  qed
  then have "catalog_inv s'"
    using assms(2) platform_invD(3)[OF assms(1)]
    by (intro catalog_inv_frame[OF platform_invD(3)[OF assms(1)]]) (auto simp: progress_def catalog_inv_def)
  ultimately show ?thesis using assms(3) by (simp add: platform_inv_def)
qed

interpretation since: execution_invariant "\<lambda>s. platform_inv s \<and> upholds s0 s" for s0
  by unfold_locales
    (auto simp: platform_invD intro: platform_survives upholds_trans advances_upholds[unfolded advances_def])

lemma env_ok_upholds:
  assumes "\<And>k t. platform_inv t \<longrightarrow> platform_inv (env k t) \<and> upholds t (env k t)"
  shows "env_ok (\<lambda>s. platform_inv s \<and> upholds s0 s) env"
  unfolding env_ok_def
proof (intro allI impI)
  fix k s assume s: "platform_inv s \<and> upholds s0 s"
  then have e: "platform_inv (env k s)" "upholds s (env k s)" using assms by blast+
  then have "evolves s (env k s)" by (simp add: upholds_def)
  then show "(platform_inv (env k s) \<and> upholds s0 (env k s)) \<and> evolves s (env k s)"
    using s e upholds_trans by blast
qed

lemma dispatch_upholds:
  assumes "dispatch_batch publish limit k lk b s = (n, b', s')" "platform_inv s"
  shows "platform_inv s' \<and> upholds s s'"
proof -
  have step: "same_inputs s (save_outbox s m)" "same_inputs s (save_outbox (s\<lparr>ticks := j\<rparr>) m)" for s m j
    by (simp_all add: same_inputs_def same_core_def save_outbox_def)
  have "same_inputs s (snd (snd (dispatch_loop publish ms p b s)))" for ms p b s
  proof (induction ms arbitrary: p b s)
    case (Cons m ms)
    then show ?case
      using step(1) by (auto simp: Let_def now_utc_def split: sum.splits prod.splits intro: same_inputs_trans[OF step(2) Cons.IH])
  qed simp
  then have "same_inputs s s'" using assms(1) by (metis dispatch_batch_def snd_conv)
  then show ?thesis using since.inputs_inv[of s s' s] assms(2) by simp
qed


section \<open>The invariant of the whole platform\<close>

lemma platform_steps:
  "act api publish s s' \<Longrightarrow> platform_inv s \<longrightarrow> platform_inv s' \<and> upholds s s'"
  "acts api publish s s' \<Longrightarrow> platform_inv s \<longrightarrow> platform_inv s' \<and> upholds s s'"
proof (induction s s' and s s' rule: act_acts.inducts)
  case (request call req w s reply w' s')
  show ?case using serve_upholds[OF request] by blast
next
  case (pass s lk n s')
  show ?case
  proof
    assume inv: "platform_inv s"
    have adv: "advances s s'" by (rule schedule_once_advances[OF pass platform_invD(4)[OF inv]])
    moreover have "lifecycle_inv s'"
      by (rule schedule_once_ok[OF platform_invD(1)[OF inv], of "ap_settings api" lk]) (use pass in \<open>auto dest: pass_effectD(1)\<close>)
    ultimately show "platform_inv s' \<and> upholds s s'"
      using platform_survives[OF inv] advances_upholds by (auto simp: advances_def)
  qed
next
  case (registration c m s name)
  show ?case
    using worker_ops_inv[OF disjI1, OF conjI[OF refl conjI[OF registration]]] worker_ops_no_revival[OF disjI1[OF refl]]
    by (auto simp: upholds_def progress_def intro: progress_history[unfolded progress_def])
next
  case (heartbeat s wid)
  have "snd (heartbeat_once cfg wid s) = snd (heartbeat_worker s wid (allocation_lease_seconds cfg))" for cfg
    by (simp add: heartbeat_once_def split: prod.split option.split)
  then show ?case
    using worker_ops_inv[OF disjI2[OF refl]] worker_ops_no_revival[OF disjI2[OF refl]] by (auto simp: upholds_def progress_def intro: progress_history[unfolded progress_def])
next
  case (dispatch limit lk b s n b' s')
  show ?case using dispatch_upholds[OF dispatch] by blast
next
  case (delivery rt event wid x res x')
  show ?case
  proof
    assume inv: "platform_inv (ex_db x)"
    have "platform_inv t \<longrightarrow> platform_inv (rt_env rt k t) \<and> upholds t (rt_env rt k t)" for k t using delivery.IH by blast
    from since.process_event_inv[OF env_ok_upholds[OF this] _ delivery.hyps(2,1)] inv
    show "platform_inv (ex_db x') \<and> upholds (ex_db x) (ex_db x')" using upholds_refl by blast
  qed
next
  case (nothing s)
  then show ?case by simp
next
  case (more s s1 s2)
  then show ?case using upholds_trans by blast
qed


text \<open>With its history a run's status is kept, or moved on along the transitions of the table.\<close>

lemma upholds_statuses:
  assumes "upholds s s'" "platform_inv s" "platform_inv s'" "get_run s rid = Some r"
  shows "\<exists>r'. get_run s' rid = Some r' \<and> status_step\<^sup>*\<^sup>* (r_status r) (r_status r')"
proof -
  obtain r' where r': "get_run s' rid = Some r'" using assms(1,4) by (auto simp: upholds_def evolves_def)
  obtain es where es: "run_events s' = run_events s @ es" using assms(1) by (auto simp: upholds_def history_kept_def)
  have "audit_inv s" "audit_inv s'" using assms(2,3) by (simp_all add: platform_inv_def lifecycle_inv_def)
  from audit_trail_steps[OF this es, of r r'] show ?thesis
    using get_run_SomeD[OF assms(4)] get_run_SomeD[OF r'] r' by simp
qed

lemma finished_for_good:
  assumes "upholds s s'" "platform_inv s" "platform_inv s'" "get_run s rid = Some r" "r_status r \<in> set TERMINAL_STATUSES"
  shows "\<exists>r'. get_run s' rid = Some r' \<and> r_status r' = r_status r"
proof -
  obtain r' where r': "get_run s' rid = Some r'" "status_step\<^sup>*\<^sup>* (r_status r) (r_status r')"
    using upholds_statuses[OF assms(1-4)] by blast
  then have "r_status r' = r_status r" using assms(5) terminal_iff_stuck by (metis converse_rtranclpE)
  with r'(1) show ?thesis by blast
qed

section \<open>An assignment is executed at most once\<close>

text \<open>An assignment is spent when its token has been drawn and it can no longer start a run.\<close>

definition spent :: "uuid \<Rightarrow> uuid \<Rightarrow> uuid \<Rightarrow> db \<Rightarrow> bool" where
  "spent rid wid tok s \<longleftrightarrow> tok < next_uuid s \<and> \<not> live_assignment s rid wid tok"

lemma spent_upholds: "upholds s s' \<Longrightarrow> spent rid wid tok s \<Longrightarrow> spent rid wid tok s'"
  unfolding upholds_def spent_def no_revival_def by (meson less_le_trans)

interpretation spent: execution_invariant "\<lambda>s. platform_inv s \<and> spent rid wid tok s" for rid wid tok
  by unfold_locales
    (auto simp: platform_invD intro: platform_survives spent_upholds advances_upholds[unfolded advances_def])

lemma spent_idle:
  assumes "spent rid wid tok (ex_db x)"
  shows "execute_existing_run rt rid (Some wid) (Some tok) x = (Inr (get_run (ex_db x) rid), x)"
proof (rule execute_idle, intro allI impI disjCI)
  fix r assume r: "get_run (ex_db x) rid = Some r" and lease: "\<not> lease_refused (active_allocation (ex_db x) rid) (Some wid) (Some tok)"
  then obtain a where "active_allocation (ex_db x) rid = Some a" "a_worker_id a = wid" "a_lease_token a = tok"
    by (auto simp: lease_refused_def split: option.splits)
  then have "\<exists>a\<in>set (resource_allocations (ex_db x)). active a \<and> a_run_id a = rid \<and> a_worker_id a = wid \<and> a_lease_token a = tok"
    by (auto simp: active_allocation_def active_def find_Some_iff2 dest!: find_SomeD)
  with assms r show "r_status r \<noteq> SCHEDULING" by (auto simp: spent_def live_assignment_def)
qed

text \<open>An execution that gets past its guards leaves its assignment spent, however it ends.\<close>

lemma execute_spends:
  assumes inv: "platform_inv (ex_db x)" and tok: "tok < next_uuid (ex_db x)"
    and env: "\<And>k t. platform_inv t \<longrightarrow> platform_inv (rt_env rt k t) \<and> upholds t (rt_env rt k t)"
    and ids: "\<forall>rid i. rt_expired_id rt rid = Inr i \<longrightarrow> i = rid"
    and ex: "execute_existing_run rt rid (Some wid) (Some tok) x = (res, x')"
  shows "x' = x \<or> spent rid wid tok (ex_db x')"
  using platform_invD(1)[OF inv] ex
proof (cases rule: execute_existing_run_cases)
  case (started r t p ev o1)
  let ?s1 = "after_move (ex_db x) r RUNNING ''run.started'' ev id"
  have r: "r_id r = rid" using get_run_SomeD[OF started(1)] by simp
  have "progress (ex_db x) ?s1"
    using platform_invD(4)[OF inv] started(1) r by (intro progress_after_move[where d = r]) (simp_all add: keeps_core_def)
  then have "platform_inv ?s1"
    using platform_survives[OF inv] start_run_ok(2)[OF platform_invD(1)[OF inv] started(1,2)] by blast
  moreover have "spent rid wid tok ?s1"
    using tok started(1) r by (auto simp: spent_def live_assignment_def get_run_after_move frame_simps)
  moreover have "env_ok (\<lambda>s. platform_inv s \<and> spent rid wid tok s) (rt_env rt)"
    unfolding env_ok_def using env spent_upholds by (metis upholds_def)
  ultimately show ?thesis
    using spent.started_inv[OF _ _ platform_invD(1)[OF inv] started(1,2) _ started(3)] ids by blast
qed simp


section \<open>Properties of the platform\<close>

text \<open>What the record of a processed message changes.\<close>

definition only_marks :: "db \<Rightarrow> db \<Rightarrow> bool" where
  "only_marks s s' \<longleftrightarrow> s' = s\<lparr>processed_messages := processed_messages s', next_uuid := next_uuid s'\<rparr>"

lemma only_marks_refl [simp]: "only_marks s s"
  by (simp add: only_marks_def)

lemma record_processed_marks: "record_processed s eid consumer = Inr s' \<Longrightarrow> only_marks s s'"
  by (auto simp: record_processed_def only_marks_def uuid4_def Let_def split: if_splits)

definition no_effect :: "'w exec \<Rightarrow> 'w exec \<Rightarrow> bool" where
  "no_effect x x' \<longleftrightarrow> only_marks (ex_db x) (ex_db x') \<and> ex_store x' = ex_store x \<and> ex_live x' = ex_live x"

lemma delivery_no_effect:
  assumes "process_event rt event (Some wid) x = (res, x')"
    and "\<And>rid tok. ev_run_id event = Some rid \<Longrightarrow> lease_token_of (ev_payload event) = Inr tok \<Longrightarrow>
      snd (execute_existing_run rt rid (Some wid) tok x) = x"
  shows "no_effect x x'"
  using assms(1)
proof (cases rule: process_event_cases)
  case (executed rid tok o1 x1)
  have "x1 = x" using assms(2)[OF executed(1,3)] executed(4) by simp
  then show ?thesis using executed(5-7) record_processed_marks by (auto simp: no_effect_def)
qed (simp add: no_effect_def)

lemma demo_sched_platform_inv: "platform_inv demo_sched_db"
proof -
  have "fk_inv demo_sched_db" by (simp add: fk_inv_def demo_sched_db_def demo_defs)
  moreover have "catalog_inv demo_sched_db"
    by (rule catalog_inv_frame[OF demo_catalog_inv]) (simp_all add: demo_sched_db_def demo_defs)
  ultimately show ?thesis using demo_sched_inv by (simp add: platform_inv_def)
qed

definition demo_assigned :: event_envelope where
  "demo_assigned = \<lparr>ev_event_id = 50, ev_event_version = 1, ev_event_type = ''run.assigned'', ev_occurred_at = 0,
     ev_correlation_id = ''scheduler-1'', ev_run_id = Some 11, ev_worker_id = Some 5,
     ev_payload = [(''lease_token'', JStr (uuid_str 7))]\<rparr>"

text \<open>
  C1. The invariant of the platform holds whatever the services do, in any interleaving: API requests
  (valid or not, by anybody), scheduler passes, registrations, heartbeats, outbox dispatches and
  deliveries to workers, where during an execution all of these, other executions included, may happen
  at every point at which the worker awaits. So always exactly the busy runs hold a lease, each of the
  worker the run is assigned to, no worker's capacity columns disagree with its leases, every run's
  status is the end of its audit trail, and no row refers to a missing one. Moreover no run is ever
  lost, a run changes only together with its version, and a spent assignment is never revived; and the
  history is only ever appended to, so that every status moves, if at all, along the transitions of the
  table: what is finished stays as it ended.
\<close>

theorem platform_invariant:
  assumes "acts api publish s s'" "platform_inv s"
  shows "platform_inv s' \<and> evolves s s' \<and> no_revival s s' \<and> (\<exists>es. run_events s' = run_events s @ es) \<and>
    (\<forall>rid r. get_run s rid = Some r \<longrightarrow> (\<exists>r'. get_run s' rid = Some r' \<and> status_step\<^sup>*\<^sup>* (r_status r) (r_status r')))"
proof -
  have "platform_inv s'" and up: "upholds s s'" using platform_steps(2)[OF assms(1)] assms(2) by simp_all
  then show ?thesis using upholds_statuses[OF up assms(2)] by (simp add: upholds_def history_kept_def)
qed

theorem platform_invariant_witness:
  "\<exists>s' n. acts demo_api (kafka_publish demo_producer) demo_db s' \<and> platform_inv s' \<and>
     schedule_once (snd (heartbeat_once default_settings 5 demo_db)) default_settings no_locks = Inr (n, s')"
proof -
  let ?acts = "acts demo_api (kafka_publish demo_producer)"
  let ?s1 = "snd (heartbeat_once default_settings 5 demo_db)"
  have cfg: "ap_settings demo_api = default_settings" by (simp add: demo_api_def)
  have h: "?acts demo_db ?s1"
    using act_acts.more[OF act_acts.nothing act_acts.heartbeat, of demo_api _ demo_db 5] by (simp add: cfg)
  have "lifecycle_inv ?s1" using platform_invariant[OF h demo_platform_inv] by (simp add: platform_inv_def)
  then obtain n s' where p: "schedule_once ?s1 default_settings no_locks = Inr (n, s')"
    by (rule schedule_once_ok[of _ default_settings no_locks])
  have "?acts demo_db s'" using act_acts.more[OF h act_acts.pass] p cfg by metis
  then show ?thesis using platform_invariant[OF _ demo_platform_inv] p by blast
qed

text \<open>
  C2. An assignment is executed at most once. Brokers redeliver: whatever the services did between two
  deliveries of the same assignment to a worker, and however the first one ended (success, failure, an
  exception half-way), either the first had no effect at all or the second has none: no row but the
  record of processed messages changes, nothing is stored and no observer hears anything. What may
  happen during the second delivery is not even restricted.
\<close>

theorem assignment_executed_at_most_once:
  fixes x y :: "'w exec" and api :: "('tok, 'w) api"
  assumes inv: "platform_inv (ex_db x)" and tok: "lease_token_of (ev_payload event) = Inr (Some tok)" "tok < next_uuid (ex_db x)"
    and env: "\<forall>k t. acts api publish t (rt_env rt k t)" "\<forall>rid i. rt_expired_id rt rid = Inr i \<longrightarrow> i = rid"
    and first: "process_event rt event (Some wid) x = (res, x')"
    and between: "acts api publish (ex_db x') (ex_db y)"
    and second: "process_event rt' event (Some wid) y = (res', y')"
  shows "no_effect x x' \<or> no_effect y y'"
  using first
proof (cases rule: process_event_cases)
  case ignored
  then show ?thesis by (simp add: no_effect_def)
next
  case (executed rid t o1 x1)
  have t: "t = Some tok" using executed(3) tok(1) by simp
  have steps: "platform_inv t \<longrightarrow> platform_inv (rt_env rt k t) \<and> upholds t (rt_env rt k t)" for k t
    using env(1) platform_steps(2) by blast
  have x': "act api publish (ex_db x) (ex_db x')" by (rule act_acts.delivery[OF first env])
  then have inv': "platform_inv (ex_db x')" using platform_steps(1) inv by blast
  from execute_spends[OF inv tok(2) steps env(2) executed(4)[unfolded t]] show ?thesis
  proof
    assume "x1 = x"
    then show ?thesis
      using executed by (intro disjI1 delivery_no_effect[OF first]) auto
  next
    assume "spent rid wid tok (ex_db x1)"
    moreover have "next_uuid (ex_db x1) \<le> next_uuid (ex_db x')" "no_revival (ex_db x1) (ex_db x')"
      using executed(7) record_processed_inputs[of "ex_db x1"]
      by (auto simp: same_inputs_def same_core_def intro: no_revival_frame)
    ultimately have "spent rid wid tok (ex_db x')" unfolding spent_def no_revival_def by (meson less_le_trans)
    moreover have "upholds (ex_db x') (ex_db y)" using platform_steps(2)[OF between] inv' by blast
    ultimately have "spent rid wid tok (ex_db y)" by (rule spent_upholds[rotated])
    then show ?thesis
      using executed(1) tok(1) by (intro disjI2 delivery_no_effect[OF second]) (auto simp: spent_idle)
  qed
qed

theorem assignment_executed_at_most_once_witness:
  "\<exists>x' y'. snd (process_event demo_rt demo_assigned (Some 5) (demo_exec demo_sched_db)) = x' \<and>
     snd (process_event demo_rt demo_assigned (Some 5) x') = y' \<and>
     (no_effect (demo_exec demo_sched_db) x' \<or> no_effect x' y')"
proof -
  obtain r1 x1 where x1: "process_event demo_rt demo_assigned (Some 5) (demo_exec demo_sched_db) = (r1, x1)" by fastforce
  obtain r2 x2 where x2: "process_event demo_rt demo_assigned (Some 5) x1 = (r2, x2)" by fastforce
  have "(7 :: nat) < 16 ^ 32" by simp
  then have tok: "lease_token_of (ev_payload demo_assigned) = Inr (Some 7)"
    by (simp add: lease_token_of_def demo_assigned_def uuid_parse_str) (simp add: uuid_str_def Let_def)
  have "no_effect (demo_exec demo_sched_db) x1 \<or> no_effect x1 x2"
    by (rule assignment_executed_at_most_once[OF _ tok _ _ _ x1 act_acts.nothing x2, of demo_api "kafka_publish demo_producer"])
      (simp_all add: demo_exec_def demo_sched_platform_inv demo_rt_def act_acts.nothing,
       simp add: demo_sched_db_def demo_db_def)
  then show ?thesis using x1 x2 by simp
qed

end
