(* ===== verification/Journey.thy ===== *)
theory Journey
  imports System
begin

text \<open>
  The way of a run through the services, from its submission to its end: the API queues it, a pass of the
  scheduler leases a worker and announces the lease in the outbox, the dispatcher publishes the
  announcement, and the worker that receives it executes the run.
\<close>

section \<open>What a pass carries over\<close>

text \<open>
  A pass writes neither templates nor the rows a worker writes, the tokens of its leases are drawn, and it
  appends to the outbox only fresh, unpublished announcements, each filed under its run.
\<close>

definition fresh_announcement :: "nat \<Rightarrow> nat \<Rightarrow> outbox_message \<Rightarrow> bool" where
  "fresh_announcement lo hi m \<longleftrightarrow> lo \<le> o_id m \<and> o_id m < hi \<and> lo \<le> ev_event_id (o_envelope m) \<and>
     o_published_at m = None \<and> o_publish_attempts m = 0 \<and> envelope_ok (o_envelope m) \<and>
     ev_event_type (o_envelope m) = ''run.assigned'' \<and>
     (\<exists>rid. ev_run_id (o_envelope m) = Some rid \<and> o_partition_key m = uuid_str rid)"

abbreviation tokens :: "db \<Rightarrow> uuid set" where
  "tokens s \<equiv> a_lease_token ` set (resource_allocations s)"

definition carries :: "db \<Rightarrow> db \<Rightarrow> bool" where
  "carries s s' \<longleftrightarrow> run_refs s' = run_refs s \<and> training_templates s' = training_templates s \<and>
     run_parameters s' = run_parameters s \<and> run_logs s' = run_logs s \<and> run_metrics s' = run_metrics s \<and>
     artifacts s' = artifacts s \<and> processed_messages s' = processed_messages s \<and> next_uuid s \<le> next_uuid s' \<and>
     tokens s' \<subseteq> tokens s \<union> {..<next_uuid s'} \<and>
     (\<exists>ms. outbox_messages s' = outbox_messages s @ ms \<and> distinct (map o_id ms) \<and>
        (\<forall>m\<in>set ms. fresh_announcement (next_uuid s) (next_uuid s') m))"

lemma fresh_announcement_mono:
  "fresh_announcement lo hi m \<Longrightarrow> lo' \<le> lo \<Longrightarrow> hi \<le> hi' \<Longrightarrow> fresh_announcement lo' hi' m"
  by (auto simp: fresh_announcement_def)

lemma carries_trans [trans]:
  assumes "carries s s1" "carries s1 s2"
  shows "carries s s2"
proof -
  obtain ms1 ms2 where m1: "outbox_messages s1 = outbox_messages s @ ms1" "distinct (map o_id ms1)"
      "\<forall>m\<in>set ms1. fresh_announcement (next_uuid s) (next_uuid s1) m"
    and m2: "outbox_messages s2 = outbox_messages s1 @ ms2" "distinct (map o_id ms2)"
      "\<forall>m\<in>set ms2. fresh_announcement (next_uuid s1) (next_uuid s2) m"
    using assms unfolding carries_def by blast
  have le: "next_uuid s \<le> next_uuid s1" "next_uuid s1 \<le> next_uuid s2" using assms by (simp_all add: carries_def)
  have st: "run_refs s2 = run_refs s" "training_templates s2 = training_templates s" "run_parameters s2 = run_parameters s"
    "run_logs s2 = run_logs s" "run_metrics s2 = run_metrics s" "artifacts s2 = artifacts s" "processed_messages s2 = processed_messages s"
    "next_uuid s \<le> next_uuid s2"
    using assms by (simp_all add: carries_def)
  have ids: "distinct (map o_id (ms1 @ ms2))"
    using m1(2,3) m2(2,3) by (force simp: fresh_announcement_def)
  have fresh: "\<forall>m\<in>set (ms1 @ ms2). fresh_announcement (next_uuid s) (next_uuid s2) m"
    using m1(3) m2(3) le by (auto intro: fresh_announcement_mono)
  have out: "outbox_messages s2 = outbox_messages s @ (ms1 @ ms2)" using m1(1) m2(1) by simp
  have chain: "A2 \<subseteq> A \<union> B2" if "A1 \<subseteq> A \<union> B1" "A2 \<subseteq> A1 \<union> B2" "B1 \<subseteq> B2" for A A1 A2 B1 B2 :: "nat set"
    using that by blast
  have tok: "tokens s2 \<subseteq> tokens s \<union> {..<next_uuid s2}"
    by (rule chain[of "tokens s1" _ "{..<next_uuid s1}"]) (use assms le(2) in \<open>simp_all add: carries_def\<close>)
  have "\<exists>ms. outbox_messages s2 = outbox_messages s @ ms \<and> distinct (map o_id ms) \<and>
      (\<forall>m\<in>set ms. fresh_announcement (next_uuid s) (next_uuid s2) m)"
    using out ids fresh by (intro exI[of _ "ms1 @ ms2"] conjI)
  then show ?thesis unfolding carries_def using st tok by (intro conjI)
qed

text \<open>Writes to other tables carry everything over.\<close>

lemma carries_frame:
  assumes "run_refs s' = run_refs s" "training_templates s' = training_templates s" "run_parameters s' = run_parameters s"
    and "run_logs s' = run_logs s" "run_metrics s' = run_metrics s" "artifacts s' = artifacts s"
    and "processed_messages s' = processed_messages s" "next_uuid s \<le> next_uuid s'" "outbox_messages s' = outbox_messages s"
    and "tokens s' \<subseteq> tokens s \<union> {..<next_uuid s'}"
  shows "carries s s'"
  using assms by (simp add: carries_def)

lemma transition_frame:
  assumes "transition_and_flush s r t ty md f = Inr (r', s')"
  obtains rs where "s' = add_event (s\<lparr>ticks := Suc (ticks s)\<rparr>) (r_id r) ty (Some (r_status r)) (Some t) md\<lparr>runs := rs\<rparr>"
proof -
  let ?s1 = "add_event (s\<lparr>ticks := Suc (ticks s)\<rparr>) (r_id r) ty (Some (r_status r)) (Some t) md"
  have "flush_run ?s1 (f (stamp_run (clock s (ticks s)) t r)) = Inr (r', s')"
    using assms by (auto simp: transition_and_flush_def res_bind_Inr_iff transition_run_Inr)
  from flush_run_frame[OF this] show thesis using that by blast
qed

lemma carries_transition:
  assumes tf: "transition_and_flush s r t ty md f = Inr (r', s')" and f: "keeps_core f"
    and ids: "distinct (map r_id (runs s))" and ref: "(r_id r, r_experiment_id r, r_template_id r) \<in> set (run_refs s)"
  shows "carries s s'"
proof -
  have refs: "run_refs s' = run_refs s" using progress_transition[OF tf f ids ref] by (simp add: progress_def)
  obtain rs where s': "s' = add_event (s\<lparr>ticks := Suc (ticks s)\<rparr>) (r_id r) ty (Some (r_status r)) (Some t) md\<lparr>runs := rs\<rparr>"
    by (rule transition_frame[OF tf])
  have "training_templates s' = training_templates s" "run_parameters s' = run_parameters s" "run_logs s' = run_logs s"
    "run_metrics s' = run_metrics s" "artifacts s' = artifacts s" "processed_messages s' = processed_messages s"
    "next_uuid s \<le> next_uuid s'" "outbox_messages s' = outbox_messages s" "tokens s' \<subseteq> tokens s \<union> {..<next_uuid s'}"
    unfolding s' by (simp_all add: add_event_def uuid4_def Let_def)
  with refs show ?thesis by (intro carries_frame)
qed

lemma carries_assignment_event:
  assumes "add_assignment_event s cfg rid wid a = Inr s'"
  shows "carries s s'"
  using assms
  by (auto simp: add_assignment_event_def uuid4_def now_utc_def add_outbox_def Let_def res_bind_Inr_iff mk_envelope_def
      validate_envelope_def carries_def fresh_announcement_def run_refs_def split: if_splits)

lemma carries_assign_run:
  assumes "assign_run cfg now r w s = Inr s'" "distinct (map r_id (runs s))"
    and "(r_id r, r_experiment_id r, r_template_id r) \<in> set (run_refs s)"
  shows "carries s s'"
proof -
  let ?s3 = "lease_added cfg now r w s"
  obtain r4 s4 where tf: "transition_and_flush ?s3 (r\<lparr>r_assigned_worker_id := Some (w_id w)\<rparr>) SCHEDULING
        ''run.scheduling'' [(''worker_id'', JStr (uuid_str (w_id w))), (''lease_id'', JStr (uuid_str (next_uuid s)))] id = Inr (r4, s4)"
    and ev: "add_assignment_event (save_worker s4 (w_id w) (charge r)) cfg (r_id r) (w_id w) (new_lease cfg now r w s) = Inr s'"
    by (rule assign_run_Inr[OF assms(1)])
  have "carries s ?s3" by (rule carries_frame) (auto simp: run_refs_def new_lease_def)
  also have "carries ?s3 s4"
    using assms(2,3) by (intro carries_transition[OF tf]) (simp_all add: run_refs_def)
  also have "carries s4 (save_worker s4 (w_id w) (charge r))"
    by (rule carries_frame) (simp_all add: save_worker_def run_refs_def)
  also have "carries (save_worker s4 (w_id w) (charge r)) s'" by (rule carries_assignment_event[OF ev])
  finally show ?thesis .
qed

interpretation carrying: pass_relation carries
proof unfold_locales
  show "carries s s" for s by (rule carries_frame) simp_all
  show "run_refs s' = run_refs s" if "carries s s'" for s s' using that by (simp add: carries_def)
  show "carries s (s\<lparr>ticks := k\<rparr>)" for s k by (rule carries_frame) (simp_all add: run_refs_def)
  show "carries s (save_worker s wid g)" for s wid g by (rule carries_frame) (simp_all add: save_worker_def run_refs_def)
  show "carries s (release s rid)" for s rid
  proof (rule carries_frame)
    have "tokens (release s rid) \<subseteq> tokens s"
    proof (cases "find (\<lambda>a. a_run_id a = rid \<and> a_released_at a = None) (resource_allocations s)")
      case (Some a)
      then have "a \<in> set (resource_allocations s)" using find_SomeD[OF Some] by simp
      then show ?thesis using Some by (auto simp: release_allocations set_upd_row)
    qed (simp add: release_allocations)
    then show "tokens (release s rid) \<subseteq> tokens s \<union> {..<next_uuid (release s rid)}" by blast
  qed (simp_all add: release_allocation_def refresh_worker_capacity_def save_worker_def now_utc_def run_refs_def Let_def
        split: option.split)
qed (auto intro: carries_trans carries_transition carries_assign_run)

section \<open>Publishing\<close>

text \<open>The dispatcher writes nothing but the outbox and reads the clock.\<close>

definition only_outbox :: "db \<Rightarrow> db \<Rightarrow> bool" where
  "only_outbox s s' \<longleftrightarrow> (\<exists>ms k. s' = s\<lparr>outbox_messages := ms, ticks := k\<rparr>)"

lemma only_outbox_refl: "only_outbox s s"
  unfolding only_outbox_def by (intro exI[of _ "outbox_messages s"] exI[of _ "ticks s"]) simp

lemma only_outbox_trans: "only_outbox s s1 \<Longrightarrow> only_outbox s1 s2 \<Longrightarrow> only_outbox s s2"
  unfolding only_outbox_def by force

lemma dispatch_loop_only: "dispatch_loop publish ms p b s = (n, b', s') \<Longrightarrow> only_outbox s s'"
proof (induction ms arbitrary: p b s)
  case (Cons m ms)
  have step: "only_outbox s (save_outbox (s\<lparr>ticks := j\<rparr>) m)" for s m j
    unfolding only_outbox_def save_outbox_def by (intro exI[of _ "upd_row o_id (o_id m) (\<lambda>_. m) (outbox_messages s)"] exI[of _ j]) simp
  have failed: "only_outbox s (save_outbox s m)" for s m using step[of s "ticks s" m] by simp
  show ?case
    using Cons.prems by (auto simp: Let_def now_utc_def failed split: prod.splits sum.splits
        intro: only_outbox_trans[OF step Cons.IH])
qed (simp add: only_outbox_refl)

text \<open>A row keeps what it announces; only its mark and its counters change.\<close>

definition same_message :: "outbox_message \<Rightarrow> outbox_message \<Rightarrow> bool" where
  "same_message m m' \<longleftrightarrow> o_topic m' = o_topic m \<and> o_partition_key m' = o_partition_key m \<and> o_envelope m' = o_envelope m \<and>
     o_publish_attempts m' = o_publish_attempts m"

lemma accepting_keeps:
  assumes "accepting publish" "distinct (map o_id (outbox_messages s))"
    and "\<forall>m\<in>set (outbox_messages s). envelope_ok (o_envelope m)"
    and "dispatch_batch publish limit k (\<lambda>_. False) b s = (n, b', s')" "m \<in> set (outbox_messages s)"
  shows "\<exists>m'\<in>set (outbox_messages s'). same_message m m'"
proof -
  have "same_message m m'" if "drained_row (clock s) M m m'" for M m'
    using that by (auto simp: drained_row_def same_message_def mark_published_def split: if_splits)
  with accepting_step(1)[OF assms(1-4)] assms(5) show ?thesis
    by (metis list_all2_conv_all_nth in_set_conv_nth)
qed

lemma dispatcher_only:
  "fold (dispatcher_iteration cfg publish) (replicate i (lk, None)) (d, b, s) = (d', b', s') \<Longrightarrow> only_outbox s s'"
proof (induction i arbitrary: d b s)
  case (Suc i)
  obtain n b1 s1 where db: "dispatch_batch publish 50 (outbox_max_attempts cfg) lk b s = (n, b1, s1)" by (metis prod_cases3)
  with Suc.prems have "only_outbox s1 s'" by (intro Suc.IH) (simp add: dispatcher_iteration_def)
  with dispatch_loop_only[OF db[unfolded dispatch_batch_def]] show ?case by (rule only_outbox_trans)
qed (simp add: only_outbox_refl)

lemma dispatcher_keeps:
  assumes "accepting publish" "distinct (map o_id (outbox_messages s))"
    and "\<forall>m\<in>set (outbox_messages s). envelope_ok (o_envelope m)" "m \<in> set (outbox_messages s)"
    and "fold (dispatcher_iteration cfg publish) (replicate i (\<lambda>_. False, None)) (d, b, s) = (d', b', s')"
  shows "\<exists>m'\<in>set (outbox_messages s'). same_message m m'"
  using assms(2-5)
proof (induction i arbitrary: d b s m)
  case (Suc i)
  obtain n b1 s1 where db: "dispatch_batch publish 50 (outbox_max_attempts cfg) (\<lambda>_. False) b s = (n, b1, s1)"
    by (metis prod_cases3)
  obtain m1 where m1: "m1 \<in> set (outbox_messages s1)" "same_message m m1"
    using accepting_keeps[OF assms(1) Suc.prems(1,2) db Suc.prems(3)] by blast
  have "fold (dispatcher_iteration cfg publish) (replicate i (\<lambda>_. False, None)) (next_delay cfg d (Inr n), b1, s1) = (d', b', s')"
    using Suc.prems(4) by (simp add: dispatcher_iteration_def db)
  from Suc.IH[OF accepting_step(3,4)[OF assms(1) Suc.prems(1,2) db] m1(1) this]
  show ?case using m1(2) by (auto simp: same_message_def)
qed (auto simp: same_message_def)

lemma drained_published:
  assumes pub: "accepting publish" and dst: "distinct (map o_id (outbox_messages s))"
    and ok: "\<forall>m\<in>set (outbox_messages s). envelope_ok (o_envelope m)"
    and run: "run_outbox_dispatcher cfg publish (replicate i (\<lambda>_. False, None)) b s = (d, b', s')"
    and enough: "length (pending (outbox_max_attempts cfg) s) \<le> 50 * i"
    and m: "m \<in> set (outbox_messages s)" "o_publish_attempts m < outbox_max_attempts cfg"
  shows "only_outbox s s' \<and> (\<exists>m'\<in>set (outbox_messages s'). same_message m m' \<and> o_published_at m' \<noteq> None)"
proof -
  note f = run[unfolded run_outbox_dispatcher_def]
  have none: "pending (outbox_max_attempts cfg) s' = []"
    using dispatcher_drains[OF pub dst ok, of cfg i "outbox_poll_seconds cfg" b] f enough by simp
  from dispatcher_keeps[OF pub dst ok m(1) f] dispatcher_only[OF f] obtain m' where
    m': "only_outbox s s'" "m' \<in> set (outbox_messages s')" "same_message m m'" by blast
  then have "o_published_at m' \<noteq> None"
    using none m(2) by (auto simp: pending_def filter_empty_conv dispatchable_def same_message_def)
  with m' show ?thesis by blast
qed


section \<open>An execution and the record of processed messages\<close>

text \<open>No write of an execution touches the record of processed messages.\<close>

abbreviation marks :: "db \<Rightarrow> processed_message list" where
  "marks s \<equiv> processed_messages s"

lemma transition_marks: "transition_and_flush s r t ty md f = Inr (r', s') \<Longrightarrow> marks s' = marks s"
  by (erule transition_frame) (simp add: add_event_def uuid4_def Let_def)

lemma release_marks: "marks (release s rid) = marks s"
  by (simp add: release_allocation_def refresh_worker_capacity_def save_worker_def now_utc_def Let_def split: option.split)

lemma finish_run_marks:
  assumes "finish_run s r t ty md = Inr (r', s')"
  shows "marks s' = marks s"
proof -
  obtain s1 where "transition_and_flush s r t ty md id = Inr (r', s1)" "s' = release s1 (r_id r)"
    using assms by (auto simp: finish_run_def res_bind_Inr_iff)
  then show ?thesis using transition_marks release_marks by metis
qed

lemma insert_marks:
  "insert_log s rid sq lv msg = Inr s' \<Longrightarrow> marks s' = marks s"
  "insert_artifact sha s rid g key = Inr s' \<Longrightarrow> marks s' = marks s"
  "marks (add_metric s rid n v k) = marks s"
  by (auto simp: insert_log_def add_log_def insert_artifact_def add_metric_def uuid4_def Let_def split: if_splits)

definition env_keeps_marks :: "'w runtime \<Rightarrow> bool" where
  "env_keeps_marks rt \<longleftrightarrow> (\<forall>k s. marks (rt_env rt k s) = marks s)"

lemma slow_step_marks:
  assumes "env_keeps_marks rt" "slow_step rt n k r x = (res, x')"
  shows "marks (ex_db x') = marks (ex_db x)"
  using assms
  by (auto simp: slow_step_def Let_def env_keeps_marks_def emit_def insert_marks res_bind_Inr_iff
      dest!: insert_marks(1) finish_run_marks split: option.splits if_splits sum.splits prod.splits)

lemma slow_loop_marks:
  assumes "env_keeps_marks rt" "slow_loop rt n ks r x = (res, x')"
  shows "marks (ex_db x') = marks (ex_db x)"
  using assms(2)
proof (induction ks arbitrary: r x)
  case (Cons k ks)
  obtain o1 x1 where st: "slow_step rt n k r x = (o1, x1)" by fastforce
  have "slow_loop rt n ks r1 x1 = (res, x')" if "o1 = Inr (Inr r1)" for r1 using Cons.prems st that by simp
  then show ?case
    using Cons.prems Cons.IH slow_step_marks[OF assms(1) st] st by (auto split: sum.splits)
qed simp

lemma slow_end_marks:
  assumes "env_keeps_marks rt" "slow_end rt p r x = (res, x')"
  shows "marks (ex_db x') = marks (ex_db x)"
proof (cases "fail_intentionally p")
  case True
  then show ?thesis
    using assms by (auto simp: slow_end_def emit_def dest!: finish_run_marks split: sum.splits prod.splits)
next
  case False
  obtain po w where put: "rt_put rt (ex_store x) (storage_key (r_id r) ''progress.json'')
      (progress_json (total_steps p)) ''application/json'' = (po, w)" by fastforce
  show ?thesis
  proof (cases po)
    case (Inl e)
    then show ?thesis
      using assms False put
      by (cases e) (auto simp: slow_end_def Let_def env_keeps_marks_def emit_def dest!: finish_run_marks split: sum.splits prod.splits)
  next
    case (Inr u)
    then show ?thesis
      using assms False put
      by (auto simp: slow_end_def Let_def env_keeps_marks_def emit_def res_bind_Inr_iff
          dest!: finish_run_marks insert_marks(2) split: sum.splits prod.splits)
  qed
qed

lemma execute_slow_run_marks:
  assumes "env_keeps_marks rt" "execute_slow_run rt r p x = (res, x')"
  shows "marks (ex_db x') = marks (ex_db x)"
  using assms(2)
  by (auto simp: execute_slow_run_def Let_def emit_def simp del: upt_Suc
      dest!: insert_marks(1) slow_loop_marks[OF assms(1)] slow_end_marks[OF assms(1)] split: sum.splits prod.splits if_splits)

lemma execute_slow_marks:
  assumes "env_keeps_marks rt" "lifecycle_inv (ex_db x)" "execute_existing_run rt rid ew lt x = (res, x')"
    and "\<forall>r t. get_run (ex_db x) rid = Some r \<longrightarrow> get_template (ex_db x) (r_template_id r) = Some t \<longrightarrow> t_key t = ''slow-demonstration''"
  shows "marks (ex_db x') = marks (ex_db x)"
proof (cases "x' = x")
  case False
  then obtain r t p dp r1 s1 o1 where g: "get_run (ex_db x) rid = Some r" "get_template (ex_db x) (r_template_id r) = Some t"
    and tf: "transition_and_flush (ex_db x) r RUNNING ''run.started'' dp id = Inr (r1, s1)"
    and rn: "run_template rt t p r1 (emit rt [status_event RUNNING] (x\<lparr>ex_db := s1\<rparr>)) = (o1, x')"
    using assms(3)
    by (auto simp: execute_existing_run_def Let_def res_bind_Inr_iff split: option.splits if_splits sum.splits prod.splits)
  have "t_key t = ''slow-demonstration''" using assms(4) g by blast
  then have "marks (ex_db x') = marks s1"
    using rn by (auto simp: run_template_def emit_def split: sum.splits parameters.splits if_splits
        dest!: execute_slow_run_marks[OF assms(1)])
  then show ?thesis using transition_marks[OF tf] by simp
qed simp

section \<open>Submitting\<close>

text \<open>The tables a submission leaves alone, and the announcement it adds.\<close>

definition same_files :: "db \<Rightarrow> db \<Rightarrow> bool" where
  "same_files s s' \<longleftrightarrow> run_logs s' = run_logs s \<and> run_metrics s' = run_metrics s \<and> artifacts s' = artifacts s \<and>
     marks s' = marks s \<and> training_templates s' = training_templates s \<and> next_uuid s \<le> next_uuid s' \<and>
     resource_allocations s' = resource_allocations s"

lemma same_files_trans: "same_files s s1 \<Longrightarrow> same_files s1 s2 \<Longrightarrow> same_files s s2"
  by (auto simp: same_files_def)

lemma add_parameters_files: "same_files s (fold (\<lambda>(n, v) s. add_parameter s rid n v) ps s)"
proof (induction ps arbitrary: s)
  case (Cons p ps)
  have "same_files s (add_parameter s rid (fst p) (snd p))"
    by (simp add: same_files_def add_parameter_def uuid4_def Let_def)
  then show ?case using Cons.IH[of "add_parameter s rid (fst p) (snd p)"] same_files_trans by (cases p) auto
qed (simp add: same_files_def)

lemma enqueue_files:
  assumes "enqueue cfg cid r ps md payload s = Inr (r', s')"
  shows "same_files s s' \<and> (\<exists>m. outbox_messages s' = outbox_messages s @ [m] \<and> next_uuid s \<le> o_id m \<and> o_id m < next_uuid s' \<and>
    envelope_ok (o_envelope m) \<and> o_published_at m = None)"
proof -
  let ?s2 = "runs_update (\<lambda>rs. rs @ [r]) s"
  let ?s3 = "fold (\<lambda>(name, v) s. add_parameter s (r_id r) name v) ps ?s2"
  obtain s4 where tf: "transition_and_flush ?s3 r QUEUED ''run.queued'' md id = Inr (r', s4)"
    and s': "res_bind (mk_envelope (next_uuid s4) ''run.submitted'' (clock s4 (ticks s4)) cid (Some (r_id r)) None (payload r'))
      (\<lambda>event. Inr (add_outbox (s4\<lparr>next_uuid := Suc (next_uuid s4), ticks := Suc (ticks s4)\<rparr>) (broker_topic cfg) (uuid_str (r_id r)) event)) = Inr s'"
    using assms by (auto simp: enqueue_def insert_run_def uuid4_def now_utc_def Let_def res_bind_Inr_iff split: if_splits)
  have f3: "same_files s ?s3" using add_parameters_files[of ?s2] by (simp add: same_files_def)
  obtain rs where "s4 = add_event (?s3\<lparr>ticks := Suc (ticks ?s3)\<rparr>) (r_id r) ''run.queued'' (Some (r_status r)) (Some QUEUED) md\<lparr>runs := rs\<rparr>"
    by (rule transition_frame[OF tf])
  then have "same_files ?s3 s4" "outbox_messages s4 = outbox_messages ?s3"
    by (simp_all add: same_files_def add_event_def uuid4_def Let_def)
  then have f4: "same_files s s4" "outbox_messages s4 = outbox_messages s"
    using same_files_trans[OF f3] fold_parameters_frame(2)[of "r_id r" ps ?s2] by simp_all
  then show ?thesis
    using s' by (auto simp: mk_envelope_def validate_envelope_def res_bind_Inr_iff add_outbox_def uuid4_def Let_def same_files_def
        split: if_splits)
qed


section \<open>What is known of every row\<close>

text \<open>
  Rows of a run belong to a run that exists, artifacts lie under the identifier of their run, identifiers
  have been drawn, and keys are unique: what the foreign keys, the primary keys and the code guarantee.
\<close>

definition records_inv :: "db \<Rightarrow> bool" where
  "records_inv s \<longleftrightarrow>
     l_run_id ` set (run_logs s) \<subseteq> r_id ` set (runs s) \<and> m_run_id ` set (run_metrics s) \<subseteq> r_id ` set (runs s) \<and>
     art_run_id ` set (artifacts s) \<subseteq> r_id ` set (runs s) \<and>
     (\<forall>a\<in>set (artifacts s). \<exists>n. art_storage_key a = storage_key (art_run_id a) n) \<and>
     (\<forall>m\<in>set (marks s). pm_event_id m < next_uuid s) \<and>
     (\<forall>m\<in>set (outbox_messages s). o_id m < next_uuid s \<and> envelope_ok (o_envelope m)) \<and>
     distinct (map o_id (outbox_messages s)) \<and> distinct (map t_id (training_templates s)) \<and>
     tokens s \<subseteq> {..<next_uuid s}"

lemma records_invD:
  assumes "records_inv s"
  shows "l \<in> set (run_logs s) \<Longrightarrow> l_run_id l \<in> r_id ` set (runs s)" "m \<in> set (run_metrics s) \<Longrightarrow> m_run_id m \<in> r_id ` set (runs s)"
    "a \<in> set (artifacts s) \<Longrightarrow> art_run_id a \<in> r_id ` set (runs s)"
    "a \<in> set (artifacts s) \<Longrightarrow> \<exists>n. art_storage_key a = storage_key (art_run_id a) n"
    "e \<in> set (marks s) \<Longrightarrow> pm_event_id e < next_uuid s" "distinct (map t_id (training_templates s))" "tokens s \<subseteq> {..<next_uuid s}"
  using assms by (simp_all add: records_inv_def image_subset_iff)

lemma uuid_str_inj: "u < 16 ^ 32 \<Longrightarrow> v < 16 ^ 32 \<Longrightarrow> uuid_str u = uuid_str v \<Longrightarrow> u = v"
  by (metis uuid_parse_str option.inject)

lemma storage_key_run:
  assumes "storage_key i n = storage_key j k" "i < 16 ^ 32" "j < 16 ^ 32"
  shows "i = j"
proof -
  have "uuid_str i = uuid_str j" using assms(1) append_eq_append_conv[of "uuid_str i" "uuid_str j"] by (simp add: storage_key_def)
  then show ?thesis using uuid_str_inj assms(2,3) by blast
qed

lemma new_run_unstarted:
  assumes "records_inv s" "get_run s rid = None" "rid < 16 ^ 32" "\<forall>r\<in>set (runs s). r_id r < 16 ^ 32"
    and "run_logs s' = run_logs s" "run_metrics s' = run_metrics s" "artifacts s' = artifacts s"
  shows "unstarted s' rid"
proof -
  have new: "rid \<notin> r_id ` set (runs s)" using assms(2) by (simp add: get_run_def get_row_None_iff)
  have "art_storage_key a \<noteq> storage_key rid n" if "a \<in> set (artifacts s)" for a n
  proof
    assume k: "art_storage_key a = storage_key rid n"
    have "art_run_id a \<in> r_id ` set (runs s)" by (rule records_invD(3)[OF assms(1) that])
    then obtain q where q: "q \<in> set (runs s)" "art_run_id a = r_id q" by (elim imageE)
    have "\<exists>n'. art_storage_key a = storage_key (art_run_id a) n'" by (rule records_invD(4)[OF assms(1) that])
    then obtain n' where "art_storage_key a = storage_key (r_id q) n'" unfolding q(2) ..
    then have "storage_key (r_id q) n' = storage_key rid n" using k by simp
    moreover have "r_id q < 16 ^ 32" using assms(4) q(1) by blast
    ultimately have "r_id q = rid" using assms(3) by (rule storage_key_run)
    then show False using new q(1) by blast
  qed
  moreover have "l_run_id l \<noteq> rid" if "l \<in> set (run_logs s)" for l using records_invD(1)[OF assms(1) that] new by blast
  then have "logs_of s rid = []" by (simp add: logs_of_def filter_empty_conv)
  moreover have "m_run_id l \<noteq> rid" if "l \<in> set (run_metrics s)" for l using records_invD(2)[OF assms(1) that] new by blast
  then have "metrics_of s rid = []" by (simp add: metrics_of_def filter_empty_conv)
  moreover have "art_run_id a \<noteq> rid" if "a \<in> set (artifacts s)" for a using records_invD(3)[OF assms(1) that] new by blast
  then have "artifacts_of s rid = []" by (simp add: artifacts_of_def filter_empty_conv)
  ultimately show ?thesis
    by (simp add: unstarted_def rows_cong(1)[OF assms(5)] rows_cong(2)[OF assms(6)] rows_cong(3)[OF assms(7)] assms(7))
qed


section \<open>Delivering an assignment\<close>

lemma active_allocation_in:
  assumes "lifecycle_inv s" "a \<in> set (resource_allocations s)" "active a"
  shows "active_allocation s (a_run_id a) = Some a"
proof -
  have dst: "distinct (map a_run_id (filter active (resource_allocations s)))"
    using assms(1) by (simp add: lifecycle_inv_def book_inv_def ids_inv_def)
  obtain b where b: "active_allocation s (a_run_id a) = Some b"
    using assms(2,3) by (cases "active_allocation s (a_run_id a)") (auto simp: active_allocation_def active_def find_None_iff)
  then have "b \<in> set (resource_allocations s)" "active b" "a_run_id b = a_run_id a"
    by (auto simp: active_allocation_def active_def dest: find_SomeD)
  then have "b = a" using key_inj[OF dst, of b a] assms(2,3) by simp
  with b show ?thesis by simp
qed

text \<open>The record of a message changes no row of a run.\<close>

lemma only_marks_rows:
  assumes "only_marks s s'"
  shows "finished s' rid r = finished s rid r" "logs_of s' rid = logs_of s rid" "metrics_of s' rid = metrics_of s rid"
    "artifacts_of s' rid = artifacts_of s rid"
proof -
  have eq: "runs s' = runs s" "resource_allocations s' = resource_allocations s" "run_logs s' = run_logs s"
    "run_metrics s' = run_metrics s" "artifacts s' = artifacts s"
    by (subst assms[unfolded only_marks_def], simp)+
  show "finished s' rid r = finished s rid r" by (simp add: finished_def get_run_def leases_def eq(1,2))
qed (use assms in \<open>subst assms[unfolded only_marks_def], simp add: logs_of_def metrics_of_def artifacts_of_def\<close>)+

definition slow_outcome :: "'w runtime \<Rightarrow> slow_parameters \<Rightarrow> db \<Rightarrow> uuid \<Rightarrow> run \<Rightarrow> bool" where
  "slow_outcome rt p s rid r \<longleftrightarrow> finished s rid r \<and>
     r_status r = (if fail_intentionally p then FAILED else SUCCEEDED) \<and>
     logs_of s rid = map int [1..<total_steps p + 2] \<and>
     metrics_of s rid = map (\<lambda>k. (''progress'', of_nat k / of_nat (total_steps p), int k)) [1..<Suc (total_steps p)] \<and>
     artifacts_of s rid = (if fail_intentionally p then []
       else [(''progress.json'', storage_key rid ''progress.json'', rt_sha256 rt (progress_json (total_steps p)))])"

lemma assignment_delivered:
  assumes calm: "calm rt" and inv: "lifecycle_inv (ex_db x)"
    and get: "get_run (ex_db x) (a_run_id a) = Some r" "r_status r = SCHEDULING"
    and a: "a \<in> set (resource_allocations (ex_db x))" "active a" "a_lease_token a < 16 ^ 32"
    and ev: "ev_event_type event = ''run.assigned''" "ev_run_id event = Some (a_run_id a)" "ev_worker_id event = Some (a_worker_id a)"
      "map_of (ev_payload event) ''lease_token'' = Some (JStr (uuid_str (a_lease_token a)))"
    and new: "\<forall>m\<in>set (marks (ex_db x)). pm_event_id m \<noteq> ev_event_id event"
    and tmpl: "get_template (ex_db x) (r_template_id r) = Some t" "t_key t = ''slow-demonstration''" "t_version t = ''1.0.0''"
    and par: "model_validate (lib_pydantic (rt_lib rt)) SlowDemoParameters (stored_parameters (ex_db x) (a_run_id a)) = Inr (SlowParameters p)"
    and fresh: "unstarted (ex_db x) (a_run_id a)"
    and put: "fst (rt_put rt (ex_store x) (storage_key (a_run_id a) ''progress.json'') (progress_json (total_steps p)) ''application/json'') = Inr ()"
  shows "\<exists>r' x'. process_event rt event (Some (a_worker_id a)) x = (Inr True, x') \<and> slow_outcome rt p (ex_db x') (a_run_id a) r'"
proof -
  let ?rid = "a_run_id a" and ?wid = "a_worker_id a" and ?tok = "a_lease_token a"
  have lease: "active_allocation (ex_db x) ?rid = Some a" "\<not> lease_refused (Some a) (Some ?wid) (Some ?tok)"
    using active_allocation_in[OF inv a(1,2)] by (simp_all add: lease_refused_def)
  obtain w where w: "rt_put rt (ex_store x) (storage_key ?rid ''progress.json'') (progress_json (total_steps p)) ''application/json'' = (Inr (), w)"
    using put by (metis prod.collapse)
  obtain r' x1 where ex: "execute_existing_run rt ?rid (Some ?wid) (Some ?tok) x = (Inr (Some r'), x1)"
    and out: "slow_outcome rt p (ex_db x1) ?rid r'"
    using slow_run_ends[OF calm inv get lease tmpl par fresh w] unfolding slow_outcome_def by auto
  have "env_keeps_marks rt" using calm by (simp add: env_keeps_marks_def calm_def)
  then have "marks (ex_db x1) = marks (ex_db x)"
    using get tmpl by (intro execute_slow_marks[OF _ inv ex]) auto
  then have np: "\<not> was_processed (ex_db x) (ev_event_id event) (consumer_name ?wid)"
      "\<not> was_processed (ex_db x1) (ev_event_id event) (consumer_name ?wid)"
    using new by (auto simp: was_processed_def list_ex_iff)
  obtain s2 where s2: "record_processed (ex_db x1) (ev_event_id event) (consumer_name ?wid) = Inr s2"
    using np(2) by (simp add: record_processed_def case_prod_beta Let_def)
  have "uuid_str ?tok \<noteq> []" using length_uuid_str[of ?tok] by (metis list.size(3) zero_neq_numeral)
  then have tok: "lease_token_of (ev_payload event) = Inr (Some ?tok)"
    using ev(4) uuid_parse_str[OF a(3)] by (simp add: lease_token_of_def)
  have "process_event rt event (Some ?wid) x = (Inr True, x1\<lparr>ex_db := s2\<rparr>)"
    using ev(1-3) np(1) tok ex s2 by (simp add: process_event_def process_assignment_def Let_def)
  moreover have "slow_outcome rt p s2 ?rid r'"
    using out only_marks_rows[OF record_processed_marks[OF s2]] by (simp add: slow_outcome_def)
  ultimately show ?thesis by (intro exI[of _ r'] exI[of _ "x1\<lparr>ex_db := s2\<rparr>"]) simp
qed


section \<open>From submission to success\<close>

text \<open>What a submission stores of the run and its announcements.\<close>

lemma submitted:
  assumes inv: "platform_inv s" and rec: "records_inv s" and ok: "create_queued_run px cfg cid body uid s = Inr (r, s1)"
    and body: "run_create_ok body" and cid: "1 \<le> length cid" "length cid \<le> 128"
  obtains t p where "find_template s (rc_template_key body) (rc_template_version body) = Inr t"
    "validate_parameters px t (rc_parameters body) = Inr (p, dump_parameters p)"
    "lifecycle_inv s1" "get_run s (r_id r) = None" "get_run s1 (r_id r) = Some r" "r_status r = QUEUED" "r_template_id r = t_id t"
    "stored_parameters s1 (r_id r) = dump_parameters p" "same_files s s1"
    "distinct (map o_id (outbox_messages s1))" "\<forall>m\<in>set (outbox_messages s1). o_id m < next_uuid s1 \<and> envelope_ok (o_envelope m)"
    "\<forall>ds. published_acked ds s \<longrightarrow> published_acked ds s1"
proof -
  obtain t p ps where t: "find_template s (rc_template_key body) (rc_template_version body) = Inr t"
    and p: "validate_parameters px t (rc_parameters body) = Inr (p, ps)"
    and en: "enqueue cfg cid (draft_run body (t_id t) uid s) ps []
         (\<lambda>r1. [(''template_key'', JStr (t_key t)), (''template_version'', JStr (t_version t)),
            (''requested_cpu'', JFloat (r_requested_cpu r1)), (''requested_memory_mb'', JInt (r_requested_memory_mb r1)),
            (''priority'', JInt (r_priority r1))]) (s\<lparr>next_uuid := Suc (next_uuid s)\<rparr>) = Inr (r, s1)"
    using ok by (auto simp: create_queued_run_enqueue res_bind_Inr_iff)
  let ?d = "draft_run body (t_id t) uid s" and ?s0 = "s\<lparr>next_uuid := Suc (next_uuid s)\<rparr>"
  have ps: "ps = dump_parameters p" using p by (auto simp: validate_parameters_Inr)
  obtain s2 where ins: "insert_run ?s0 ?d = Inr s2" using en by (auto simp: enqueue_def res_bind_Inr_iff)
  have row: "r_id ?d = next_uuid s" "r_status ?d = DRAFT" "0 < r_requested_cpu ?d" "0 < r_requested_memory_mb ?d" "r_queued_at ?d = None"
    using body by (auto simp: draft_run_def run_create_ok_def)
  have e: "lifecycle_inv s1" "get_run s (r_id ?d) = None" "get_run s1 (r_id ?d) = Some r"
      "\<exists>q. r = ?d\<lparr>r_status := QUEUED, r_queued_at := Some q, r_version := r_version ?d + 1\<rparr>"
      "stored_parameters s1 (r_id ?d) = ps"
    using enqueue_effect[OF platform_invD(1,2)[OF inv] row ins cid, of cfg ps "[]"
        "\<lambda>r1. [(''template_key'', JStr (t_key t)), (''template_version'', JStr (t_version t)),
            (''requested_cpu'', JFloat (r_requested_cpu r1)), (''requested_memory_mb'', JInt (r_requested_memory_mb r1)),
            (''priority'', JInt (r_priority r1))]"] unfolding en by auto
  have r: "r_id r = r_id ?d" "r_status r = QUEUED" "r_template_id r = t_id t" using e(4) by (auto simp: draft_run_def)
  obtain m where m: "same_files ?s0 s1" "outbox_messages s1 = outbox_messages s @ [m]" "Suc (next_uuid s) \<le> o_id m" "o_id m < next_uuid s1"
      "envelope_ok (o_envelope m)" "o_published_at m = None"
    using enqueue_files[OF en] by auto
  have f: "same_files s s1" using m(1) by (simp add: same_files_def)
  have old: "\<forall>m\<in>set (outbox_messages s). o_id m < next_uuid s \<and> envelope_ok (o_envelope m)" "distinct (map o_id (outbox_messages s))"
    using rec by (simp_all add: records_inv_def)
  have "distinct (map o_id (outbox_messages s1))" using old m(2,3) by fastforce
  moreover have "\<forall>m\<in>set (outbox_messages s1). o_id m < next_uuid s1 \<and> envelope_ok (o_envelope m)"
    using old(1) m(2-5) f by (auto simp: same_files_def)
  moreover have "\<forall>ds. published_acked ds s \<longrightarrow> published_acked ds s1" using m(2,6) by (auto simp: published_acked_def)
  ultimately show thesis
    using that[OF t p[unfolded ps] e(1)] e(2,3,5) r ps f by simp
qed

lemma run_refs_get:
  assumes "run_refs s' = run_refs s" "get_run s rid = Some r" "distinct (map r_id (runs s))"
  obtains r' where "get_run s' rid = Some r'" "r_template_id r' = r_template_id r"
proof -
  have r: "r \<in> set (runs s)" "r_id r = rid" using get_run_SomeD[OF assms(2)] by auto
  then obtain q where q: "q \<in> set (runs s')" "r_id q = rid" "r_template_id q = r_template_id r"
    using run_refs_in[OF r(1)] unfolding assms(1)[symmetric] by (auto simp: run_refs_def)
  have "distinct (map r_id (runs s'))" using assms(1,3) unfolding distinct_run_refs[symmetric] by simp
  then show thesis using that[of q] q get_row_in[of r_id "runs s'" q] by (simp add: get_run_def)
qed

text \<open>
  A pass, seen from one queued run: no worker is left that could take it, or it is leased, and a fresh
  announcement of exactly this lease is in the outbox.
\<close>

lemma pass_start_outbox:
  assumes "lifecycle_inv s"
  shows "outbox_messages (pass_start s cfg lk) = outbox_messages s"
proof -
  let ?s0 = "s\<lparr>ticks := Suc (ticks s)\<rparr>"
  have "lifecycle_inv ?s0" using assms by simp
  then obtain s' where "recover_expired_allocations ?s0 cfg lk (Some (clock s (ticks s))) =
      Inr (int (length (expired_at ?s0 cfg lk (clock s (ticks s)))), s')" "outbox_messages s' = outbox_messages ?s0"
    by (rule recover_ok[of ?s0 cfg lk "clock s (ticks s)"])
  then show ?thesis by (simp add: pass_start_def recover_None now_utc_def)
qed

lemma pass_leases_or_full:
  assumes inv: "lifecycle_inv s" and pass: "schedule_once s cfg lk = Inr (n, s')"
    and q: "r \<in> set (queued_runs (pass_start s cfg lk) lk)"
  obtains (full) "\<forall>w\<in>set (workers s'). \<not> eligible lk (pass_horizon s cfg lk) r w"
  | (leased) a m where "a \<in> set (resource_allocations s')" "active a" "a_run_id a = r_id r" "lifecycle_inv s'"
      "(r_id r, SCHEDULING) \<in> set (statuses s')" "m \<in> set (outbox_messages s')" "announces m = announcement a"
      "fresh_announcement (next_uuid s) (next_uuid s') m"
proof -
  obtain s'' as ms where p: "schedule_once s cfg lk = Inr (int (length as), s'')"
    "pass_effect lk (pass_horizon s cfg lk) (queued_runs (pass_start s cfg lk) lk) (pass_start s cfg lk) s'' as ms"
    by (rule schedule_once_ok[OF inv])
  have [simp]: "s'' = s'" using p(1) pass by simp
  note eff = p(2)[simplified]
  show thesis
  proof (cases "r_id r \<in> a_run_id ` set as")
    case False
    then show thesis using full pass_effectD(10)[OF eff q] by blast
  next
    case True
    then obtain a where a: "a \<in> set as" "a_run_id a = r_id r" by force
    have dst: "distinct (map r_id (runs s))" using inv by (simp add: lifecycle_inv_def book_inv_def ids_inv_def)
    obtain ms' where ms': "outbox_messages s' = outbox_messages s @ ms'" "\<forall>m\<in>set ms'. fresh_announcement (next_uuid s) (next_uuid s') m"
      using carrying.schedule_once_closed[OF pass dst] unfolding carries_def by blast
    have "ms' = ms" using ms'(1) pass_effectD(4)[OF eff] pass_start_outbox[OF inv] by simp
    moreover obtain m where m: "m \<in> set ms" "announces m = announcement a"
      using pass_effectD(5)[OF eff] a(1) by (metis (no_types, lifting) image_iff list.set_map)
    ultimately have "fresh_announcement (next_uuid s) (next_uuid s') m" "m \<in> set (outbox_messages s')" using ms' by auto
    moreover have "r \<in> set (runs (pass_start s cfg lk))" using queued_runsD(1)[OF q] .
    then have "(r_id r, SCHEDULING) \<in> set (statuses s')" using True pass_effectD(8)[OF eff] by force
    moreover have "a \<in> set (resource_allocations s')" "active a" using a pass_effectD(3,6)[OF eff] by auto
    ultimately show thesis using leased[of a m] a(2) m(2) pass_effectD(1)[OF eff] by blast
  qed
qed

lemma carries_outbox:
  assumes "carries s s'" "distinct (map o_id (outbox_messages s))"
    and "\<forall>m\<in>set (outbox_messages s). o_id m < next_uuid s \<and> envelope_ok (o_envelope m)" "published_acked ds s"
  shows "distinct (map o_id (outbox_messages s'))" "\<forall>m\<in>set (outbox_messages s'). envelope_ok (o_envelope m)" "published_acked ds s'"
proof -
  obtain ms where ms: "outbox_messages s' = outbox_messages s @ ms" "distinct (map o_id ms)"
      "\<forall>m\<in>set ms. fresh_announcement (next_uuid s) (next_uuid s') m"
    using assms(1) unfolding carries_def by blast
  show "distinct (map o_id (outbox_messages s'))" using ms assms(2,3) by (force simp: fresh_announcement_def)
  show "\<forall>m\<in>set (outbox_messages s'). envelope_ok (o_envelope m)" using ms(1,3) assms(3) by (auto simp: fresh_announcement_def)
  show "published_acked ds s'" using ms(1,3) assms(4) by (auto simp: published_acked_def fresh_announcement_def)
qed

lemma only_outbox_frame:
  assumes "only_outbox s s'"
  shows "runs s' = runs s" "run_events s' = run_events s" "workers s' = workers s" "resource_allocations s' = resource_allocations s"
    "run_logs s' = run_logs s" "run_metrics s' = run_metrics s" "artifacts s' = artifacts s" "marks s' = marks s"
    "run_parameters s' = run_parameters s" "training_templates s' = training_templates s" "next_uuid s' = next_uuid s"
  using assms by (auto simp: only_outbox_def)

text \<open>After enough rounds of the dispatcher the broker has acknowledged what was waiting.\<close>

lemma announced_acked:
  assumes "accepting (kafka_publish pr)" "distinct (map o_id (outbox_messages s))" "\<forall>m\<in>set (outbox_messages s). envelope_ok (o_envelope m)"
    and "published_acked (kb_acked b) s"
    and run: "run_outbox_dispatcher cfg (kafka_publish pr) (replicate i (\<lambda>_. False, None)) b s = (d, b', s')"
    and "length (pending (outbox_max_attempts cfg) s) \<le> 50 * i" "m \<in> set (outbox_messages s)" "o_publish_attempts m < outbox_max_attempts cfg"
  shows "only_outbox s s'" "(o_topic m, o_partition_key m, o_envelope m) \<in> set (kb_acked b')"
proof -
  obtain m' where m': "only_outbox s s'" "m' \<in> set (outbox_messages s')" "same_message m m'" "o_published_at m' \<noteq> None"
    using drained_published[OF assms(1-3) run assms(6-8)] by blast
  have "published_acked (kb_acked b') s'"
    using kafka.dispatcher_published_acked[OF assms(2,4), of cfg pr _ "outbox_poll_seconds cfg"] run
    by (metis run_outbox_dispatcher_def fst_conv snd_conv)
  with m' show "only_outbox s s'" "(o_topic m, o_partition_key m, o_envelope m) \<in> set (kb_acked b')"
    by (auto simp: published_acked_def same_message_def)
qed

text \<open>The state in which the announcement arrives is one in which the run can be executed.\<close>

lemma leased_run_ready:
  assumes rec: "records_inv s" and ids: "\<forall>q\<in>set (runs s). r_id q < next_uuid s"
    and new: "get_run s (r_id r) = None" and files: "same_files s s1"
    and s1: "lifecycle_inv s1" "get_run s1 (r_id r) = Some r" "stored_parameters s1 (r_id r) = ps"
    and car: "carries s1 s2" and s2: "lifecycle_inv s2" "(r_id r, SCHEDULING) \<in> set (statuses s2)"
    and only: "only_outbox s2 s3" and small: "next_uuid s3 \<le> 16 ^ 32"
  shows "lifecycle_inv s3" "\<exists>r3. get_run s3 (r_id r) = Some r3 \<and> r_status r3 = SCHEDULING \<and> r_template_id r3 = r_template_id r"
    "stored_parameters s3 (r_id r) = ps" "unstarted s3 (r_id r)" "training_templates s3 = training_templates s"
    "\<forall>e\<in>set (marks s3). pm_event_id e < next_uuid s1" "\<forall>k\<in>tokens s3. k < 16 ^ 32"
proof -
  note fr = only_outbox_frame[OF only]
  have le: "next_uuid s \<le> next_uuid s1" "next_uuid s1 \<le> next_uuid s2" "next_uuid s2 = next_uuid s3"
    using files car fr by (simp_all add: same_files_def carries_def)
  have dst: "distinct (map r_id (runs s1))" "distinct (map r_id (runs s2))" and bound: "\<forall>q\<in>set (runs s1). r_id q < next_uuid s1"
    using s1(1) s2(1) by (simp_all add: lifecycle_inv_def book_inv_def ids_inv_def)
  show "lifecycle_inv s3" by (rule lifecycle_inv_frame[OF s2(1)]) (simp_all add: fr)
  have "run_refs s2 = run_refs s1" using car by (simp add: carries_def)
  then obtain r2 where r2: "get_run s2 (r_id r) = Some r2" "r_template_id r2 = r_template_id r"
    by (rule run_refs_get[OF _ s1(2) dst(1)])
  obtain q where q: "q \<in> set (runs s2)" "r_id q = r_id r" "r_status q = SCHEDULING" using s2(2) by auto
  then have "q = r2" using r2(1) get_row_in[OF dst(2) q(1)] by (simp add: get_run_def)
  then show "\<exists>r3. get_run s3 (r_id r) = Some r3 \<and> r_status r3 = SCHEDULING \<and> r_template_id r3 = r_template_id r"
    using r2 q(3) by (simp add: get_run_def fr)
  show "stored_parameters s3 (r_id r) = ps" using s1(3) car by (simp add: stored_parameters_def fr carries_def)
  show "training_templates s3 = training_templates s" using files car by (simp add: fr carries_def same_files_def)
  have "r_id r < next_uuid s1" using bound get_run_SomeD[OF s1(2)] by auto
  then have rid: "r_id r < 16 ^ 32" using le small by simp
  have "\<forall>q\<in>set (runs s). r_id q < 16 ^ 32" using ids le small by fastforce
  then show "unstarted s3 (r_id r)"
    by (rule new_run_unstarted[OF rec new rid]) (use files car in \<open>simp_all add: fr carries_def same_files_def\<close>)
  show "\<forall>e\<in>set (marks s3). pm_event_id e < next_uuid s1"
    using records_invD(5)[OF rec] le(1) files car by (fastforce simp: fr carries_def same_files_def)
  have "tokens s1 = tokens s" "tokens s3 = tokens s2" using files by (simp_all add: fr same_files_def)
  moreover have "tokens s2 \<subseteq> tokens s1 \<union> {..<next_uuid s2}" using car by (simp add: carries_def)
  ultimately have "k < next_uuid s3" if "k \<in> tokens s3" for k
    using records_invD(7)[OF rec] le that by (auto dest!: subsetD)
  then show "\<forall>k\<in>tokens s3. k < 16 ^ 32" using small less_le_trans by blast
qed

text \<open>The worker that receives the announcement of a submitted run executes it with what was submitted.\<close>

lemma announced_run_executes:
  assumes inv: "platform_inv s" "records_inv s"
    and sub: "create_queued_run px cfg cid body uid s = Inr (r, s1)" "run_create_ok body" "1 \<le> length cid" "length cid \<le> 128"
      "rc_template_key body = ''slow-demonstration''" "rc_template_version body = ''1.0.0''"
    and car: "carries s1 s2" and only: "only_outbox s2 s3" and ids: "next_uuid s3 \<le> 16 ^ 32"
    and lease: "a \<in> set (resource_allocations s2)" "active a" "a_run_id a = r_id r" "lifecycle_inv s2"
      "(r_id r, SCHEDULING) \<in> set (statuses s2)"
    and ann: "announces m = announcement a" "fresh_announcement (next_uuid s1) (next_uuid s2) m"
    and wrk: "calm rt" "lib_pydantic (rt_lib rt) = px" "canonical px" "ex_db x = s3"
      "\<forall>st key data mime. fst (rt_put rt st key data mime) = Inr ()"
  shows "\<exists>p x' r'. model_validate px SlowDemoParameters (rc_parameters body) = Inr (SlowParameters p) \<and>
    process_event rt (o_envelope m) (Some (a_worker_id a)) x = (Inr True, x') \<and> slow_outcome rt p (ex_db x') (r_id r) r'"
proof -
  obtain t q where t: "find_template s (rc_template_key body) (rc_template_version body) = Inr t"
    and q: "validate_parameters px t (rc_parameters body) = Inr (q, dump_parameters q)"
    and s1: "lifecycle_inv s1" "get_run s (r_id r) = None" "get_run s1 (r_id r) = Some r" "r_template_id r = t_id t"
      "stored_parameters s1 (r_id r) = dump_parameters q" "same_files s s1"
    using submitted[OF inv sub(1-4)] by metis
  have key: "t_key t = ''slow-demonstration''" "t_version t = ''1.0.0''" "t \<in> set (training_templates s)"
    using t sub(5,6) by (auto simp: find_template_def split: option.splits sum.splits dest!: find_SomeD)
  then obtain p where p: "model_validate px SlowDemoParameters (rc_parameters body) = Inr (SlowParameters p)" "q = SlowParameters p"
    using q by (auto simp: validate_parameters_Inr registry_get_def registry_def res_bind_Inr_iff)
  have ev: "ev_run_id (o_envelope m) = Some (r_id r)" "ev_worker_id (o_envelope m) = Some (a_worker_id a)"
      "map_of (ev_payload (o_envelope m)) ''lease_token'' = Some (JStr (uuid_str (a_lease_token a)))"
    using lease(3) ann(1) by (auto simp: announces_def announcement_def)
  have old: "\<forall>q\<in>set (runs s). r_id q < next_uuid s"
    using platform_invD(1)[OF inv(1)] by (simp add: lifecycle_inv_def book_inv_def ids_inv_def)
  note ready = leased_run_ready[OF inv(2) old s1(2,6,1,3,5) car lease(4,5) only ids]
  obtain r3 where r3: "get_run s3 (a_run_id a) = Some r3" "r_status r3 = SCHEDULING" "r_template_id r3 = t_id t"
    using ready(2) s1(4) lease(3) by auto
  have "get_template s3 (t_id t) = Some t"
    using get_row_in[OF records_invD(6)[OF inv(2)] key(3)] by (simp add: get_template_def ready(5))
  moreover have "model_validate (lib_pydantic (rt_lib rt)) SlowDemoParameters (stored_parameters s3 (a_run_id a)) = Inr (SlowParameters p)"
    using dump_validate[OF wrk(3), of "SlowParameters p"] model_validate_ok[OF p(1)] by (simp add: lease(3) ready(3) p(2) wrk(2))
  moreover have "\<forall>e\<in>set (marks s3). pm_event_id e \<noteq> ev_event_id (o_envelope m)"
    using ready(6) ann(2) by (auto simp: fresh_announcement_def)
  moreover have a3: "a \<in> set (resource_allocations s3)" using lease(1) by (simp add: only_outbox_frame[OF only])
  moreover have "ev_event_type (o_envelope m) = ''run.assigned''" using ann(2) by (simp add: fresh_announcement_def)
  ultimately have "\<exists>r' x'. process_event rt (o_envelope m) (Some (a_worker_id a)) x = (Inr True, x') \<and> slow_outcome rt p (ex_db x') (a_run_id a) r'"
    using ready(1,4,7) r3 lease(2,3) ev key(1,2) wrk(4,5) by (intro assignment_delivered[OF wrk(1), where r = r3 and t = t]) simp_all
  then show ?thesis using p(1) lease(3) by auto
qed

text \<open>
  C3. A submitted run gets through. When the API has accepted a run of the slow demonstration, a pass of the
  scheduler that reaches it in the queue either leaves no worker that could take it, or leases one and announces
  the lease; once the dispatcher has worked off the backlog against a broker that accepts messages (one round for
  every fifty), the broker has acknowledged the announcement under the run's key; and the leased worker, on
  receiving it, executes the run with exactly the parameters that were submitted, to the end: the run has
  succeeded (or failed, if it was configured to fail), its lease is released, every step is logged and
  measured, the artifact is registered, and the message is recorded as processed.
\<close>

theorem submitted_run_completes:
  assumes inv: "platform_inv s" "records_inv s"
    and sub: "create_queued_run px cfg cid body uid s = Inr (r, s1)" "run_create_ok body" "1 \<le> length cid" "length cid \<le> 128"
      "rc_template_key body = ''slow-demonstration''" "rc_template_version body = ''1.0.0''"
    and pass: "schedule_once s1 cfg lk = Inr (n, s2)" "r \<in> set (queued_runs (pass_start s1 cfg lk) lk)"
    and pub: "accepting (kafka_publish pr)" "published_acked (kb_acked b) s" "0 < outbox_max_attempts cfg"
      "run_outbox_dispatcher cfg (kafka_publish pr) (replicate i (\<lambda>_. False, None)) b s2 = (d, b', s3)"
      "length (pending (outbox_max_attempts cfg) s2) \<le> 50 * i"
    and wrk: "calm rt" "lib_pydantic (rt_lib rt) = px" "canonical px" "ex_db x = s3"
      "\<forall>st key data mime. fst (rt_put rt st key data mime) = Inr ()"
    and ids: "next_uuid s3 \<le> 16 ^ 32"
  shows "(\<forall>w\<in>set (workers s2). \<not> eligible lk (pass_horizon s1 cfg lk) r w) \<or>
    (\<exists>p wid topic event x' r'. model_validate px SlowDemoParameters (rc_parameters body) = Inr (SlowParameters p) \<and>
       (topic, uuid_str (r_id r), event) \<in> set (kb_acked b') \<and>
       process_event rt event (Some wid) x = (Inr True, x') \<and> slow_outcome rt p (ex_db x') (r_id r) r')"
proof -
  have s1: "lifecycle_inv s1" and out1: "distinct (map o_id (outbox_messages s1))"
      "\<forall>m\<in>set (outbox_messages s1). o_id m < next_uuid s1 \<and> envelope_ok (o_envelope m)" "published_acked (kb_acked b) s1"
    using submitted[OF inv sub(1-4)] pub(2) by metis+
  have dst1: "distinct (map r_id (runs s1))" using s1 by (simp add: lifecycle_inv_def book_inv_def ids_inv_def)
  have car: "carries s1 s2" by (rule carrying.schedule_once_closed[OF pass(1) dst1])
  note out2 = carries_outbox[OF car out1]
  show ?thesis
    using s1 pass
  proof (cases rule: pass_leases_or_full)
    case (leased a m)
    have att: "o_publish_attempts m < outbox_max_attempts cfg" using leased(8) pub(3) by (simp add: fresh_announcement_def)
    note ack = announced_acked[OF pub(1) out2 pub(4,5) leased(6) att]
    have "ev_run_id (o_envelope m) = Some (r_id r)" using leased(3,7) by (auto simp: announces_def announcement_def)
    then have "o_partition_key m = uuid_str (r_id r)" using leased(8) by (auto simp: fresh_announcement_def)
    with ack(2) announced_run_executes[OF inv sub car ack(1) ids leased(1-5,7,8) wrk] show ?thesis by auto
  qed blast
qed

text \<open>An instance: a submission to the small database, with a broker that accepts everything.\<close>

lemma demo_submit:
  "\<exists>r s1. create_queued_run strict_pydantic default_settings ''c'' demo_body 1 (demo_db\<lparr>ticks := k\<rparr>) = Inr (r, s1) \<and>
     runs s1 = runs demo_db @ [r] \<and> r_status r = QUEUED \<and> workers s1 = [demo_worker] \<and>
     resource_allocations s1 = [demo_lease] \<and> clock s1 = clock demo_db \<and> ticks s1 = Suc (Suc k) \<and> next_uuid s1 = 107 \<and>
     r_requested_cpu r = 1 \<and> r_requested_memory_mb r = 512"
proof -
  let ?p = "SlowParameters \<lparr>duration_seconds = 4, interval_seconds = 1, fail_intentionally = False\<rparr>"
  have reg: "registry_get ''slow-demonstration'' ''1.0.0'' = Inr (registry ! 1)"
    by (simp add: registry_get_def registry_def)
  have t: "find_template (demo_db\<lparr>ticks := k\<rparr>) (rc_template_key demo_body) (rc_template_version demo_body) = Inr demo_template"
    using reg by (simp add: find_template_def demo_defs demo_body_def)
  have p: "validate_parameters strict_pydantic demo_template (rc_parameters demo_body) = Inr (?p, dump_parameters ?p)"
    using reg by (simp add: validate_parameters_def demo_template_def demo_body_def registry_def validate_slow_def
        field_def strict_pydantic_def slow_ok_def)
  show ?thesis
    unfolding create_queued_run_enqueue t p res_bind_simps prod.case
    by (simp add: enqueue_def insert_run_def draft_run_def add_parameter_def transition_and_flush_def transition_run_def stamp_run_def
        validate_transition_def
        flush_run_def get_run_def add_event_def mk_envelope_def validate_envelope_def envelope_ok_def add_outbox_def
        uuid4_def now_utc_def demo_defs demo_body_def Let_def)
qed

lemma demo_records: "records_inv demo_db"
  by (simp add: records_inv_def demo_defs)

text \<open>
  What a pass takes from a worker is at most what the considered runs ask for together, so a worker with
  room for all of them has room for each of them at the end.
\<close>

definition room_left :: "run list \<Rightarrow> db \<Rightarrow> db \<Rightarrow> bool" where
  "room_left rs s s' \<longleftrightarrow> (\<forall>w\<in>set (workers s). \<exists>w'\<in>set (workers s'). w_id w' = w_id w \<and> w_status w' = w_status w \<and>
     w_last_heartbeat_at w' = w_last_heartbeat_at w \<and>
     w_available_cpu w - sum_list (map r_requested_cpu rs) \<le> w_available_cpu w' \<and>
     w_available_memory_mb w - sum_list (map r_requested_memory_mb rs) \<le> w_available_memory_mb w')"

lemma assign_run_room:
  assumes "assign_run cfg now r w s = Inr s'" "0 \<le> r_requested_cpu r" "0 \<le> r_requested_memory_mb r"
  shows "room_left [r] s s'"
proof -
  obtain r4 s4 where
    tf: "transition_and_flush (lease_added cfg now r w s) (r\<lparr>r_assigned_worker_id := Some (w_id w)\<rparr>) SCHEDULING
        ''run.scheduling'' [(''worker_id'', JStr (uuid_str (w_id w))), (''lease_id'', JStr (uuid_str (next_uuid s)))] id = Inr (r4, s4)"
    and ev: "add_assignment_event (save_worker s4 (w_id w) (charge r)) cfg (r_id r) (w_id w) (new_lease cfg now r w s) = Inr s'"
    by (rule assign_run_Inr[OF assms(1)])
  have "workers s4 = workers s" by (rule transition_frame[OF tf]) (simp add: add_event_def uuid4_def Let_def)
  moreover have "workers s' = workers (save_worker s4 (w_id w) (charge r))"
    using ev by (auto simp: add_assignment_event_def uuid4_def now_utc_def add_outbox_def Let_def res_bind_Inr_iff)
  ultimately obtain t where t: "workers s' = upd_row w_id (w_id w) (\<lambda>w. touch_worker t w (charge r w)) (workers s)"
    by (auto simp: save_worker_def Let_def)
  show ?thesis
    unfolding room_left_def t
  proof
    fix v assume v: "v \<in> set (workers s)"
    let ?v = "if w_id v = w_id w then touch_worker t v (charge r v) else v"
    have "?v \<in> set (upd_row w_id (w_id w) (\<lambda>w. touch_worker t w (charge r w)) (workers s))"
      using v by (auto simp: set_upd_row)
    then show "\<exists>w'\<in>set (upd_row w_id (w_id w) (\<lambda>w. touch_worker t w (charge r w)) (workers s)).
        w_id w' = w_id v \<and> w_status w' = w_status v \<and> w_last_heartbeat_at w' = w_last_heartbeat_at v \<and>
        w_available_cpu v - sum_list (map r_requested_cpu [r]) \<le> w_available_cpu w' \<and>
        w_available_memory_mb v - sum_list (map r_requested_memory_mb [r]) \<le> w_available_memory_mb w'"
      by (rule bexI[rotated]) (use assms(2,3) in \<open>auto simp: charge_def\<close>)
  qed
qed

lemma schedule_loop_room:
  assumes "res_fold (schedule_run cfg lk now h) rs (k, s) = Inr (n, s')"
    and "\<forall>r\<in>set rs. 0 \<le> r_requested_cpu r \<and> 0 \<le> r_requested_memory_mb r"
  shows "room_left rs s s'"
  using assms
proof (induction rs arbitrary: k s)
  case (Cons r rs)
  obtain k1 s1 where s1: "schedule_run cfg lk now h r (k, s) = Inr (k1, s1)" "res_fold (schedule_run cfg lk now h) rs (k1, s1) = Inr (n, s')"
    using Cons.prems(1) by (auto simp: res_bind_Inr_iff)
  have refl: "room_left [r] s s" using Cons.prems(2) by (auto simp: room_left_def)
  have "room_left [r] s s1"
    using refl s1(1) Cons.prems(2) by (auto simp: schedule_run_def res_bind_Inr_iff assign_run_room split: option.splits)
  moreover have "room_left rs s1 s'" using Cons.IH[OF s1(2)] Cons.prems(2) by simp
  ultimately show ?case unfolding room_left_def by (fastforce simp: algebra_simps)
qed (auto simp: room_left_def)

text \<open>A pass draws six identifiers for each run it leases.\<close>

lemma assign_run_draws:
  assumes "assign_run cfg now r w s = Inr s'"
  shows "next_uuid s' = next_uuid s + 6"
proof -
  obtain r4 s4 where
    tf: "transition_and_flush (lease_added cfg now r w s) (r\<lparr>r_assigned_worker_id := Some (w_id w)\<rparr>) SCHEDULING
        ''run.scheduling'' [(''worker_id'', JStr (uuid_str (w_id w))), (''lease_id'', JStr (uuid_str (next_uuid s)))] id = Inr (r4, s4)"
    and ev: "add_assignment_event (save_worker s4 (w_id w) (charge r)) cfg (r_id r) (w_id w) (new_lease cfg now r w s) = Inr s'"
    by (rule assign_run_Inr[OF assms])
  have "next_uuid s4 = next_uuid s + 3"
    by (rule transition_frame[OF tf]) (simp add: add_event_def uuid4_def Let_def)
  moreover have "next_uuid s' = next_uuid s4 + 3"
    using ev by (auto simp: add_assignment_event_def uuid4_def now_utc_def add_outbox_def save_worker_def Let_def res_bind_Inr_iff)
  ultimately show ?thesis by simp
qed

lemma schedule_loop_draws:
  assumes "res_fold (schedule_run cfg lk now h) rs (k, s) = Inr (n, s')"
  shows "next_uuid s' \<le> next_uuid s + 6 * length rs"
  using assms
proof (induction rs arbitrary: k s)
  case (Cons r rs)
  obtain k1 s1 where s1: "schedule_run cfg lk now h r (k, s) = Inr (k1, s1)" "res_fold (schedule_run cfg lk now h) rs (k1, s1) = Inr (n, s')"
    using Cons.prems by (auto simp: res_bind_Inr_iff)
  have "next_uuid s1 \<le> next_uuid s + 6"
    using s1(1) by (auto simp: schedule_run_def res_bind_Inr_iff dest!: assign_run_draws split: option.splits)
  with Cons.IH[OF s1(2)] show ?case by simp
qed simp

lemma schedule_once_loop:
  assumes "schedule_once s cfg lk = Inr (n, s')"
  obtains now where "res_fold (schedule_run cfg lk now (pass_horizon s cfg lk)) (queued_runs (pass_start s cfg lk) lk)
      (0, pass_start s cfg lk) = Inr (n, s')"
  using assms by (auto simp: schedule_once_def pass_start_def pass_horizon_def now_utc_def Let_def res_bind_Inr_iff)

lemma pass_draws:
  assumes "schedule_once s cfg lk = Inr (n, s')"
  shows "next_uuid s' \<le> next_uuid (pass_start s cfg lk) + 600"
proof -
  obtain now where "res_fold (schedule_run cfg lk now (pass_horizon s cfg lk)) (queued_runs (pass_start s cfg lk) lk)
      (0, pass_start s cfg lk) = Inr (n, s')"
    by (rule schedule_once_loop[OF assms])
  from schedule_loop_draws[OF this] show ?thesis
    using length_take[of 100] by (simp add: queued_runs_def)
qed

text \<open>Nothing has expired in the small database, so a pass starts with it as it is.\<close>

lemma demo_pass_start_of:
  assumes "workers s = [demo_worker]" "resource_allocations s = [demo_lease]" "clock s = clock demo_db" "ticks s \<le> 10"
  shows "pass_start s default_settings no_locks = s\<lparr>ticks := Suc (Suc (ticks s))\<rparr>" "pass_horizon s default_settings no_locks \<le> 0"
proof -
  let ?s = "s\<lparr>ticks := Suc (ticks s)\<rparr>" and ?t = "int (ticks s)"
  have nw: "now_utc s = (?t, ?s)" "worker_stale_seconds default_settings = 15"
    using assms by (simp_all add: now_utc_def demo_db_def default_settings_def)
  have st: "stale_workers ?s no_locks (?t - secs 15) = []"
    using assms by (simp add: stale_workers_def demo_worker_def secs_def)
  have "expired_allocations ?s no_locks ?t [] = []"
    using assms by (simp add: expired_allocations_def demo_lease_def secs_def)
  then have rec: "recover_expired_allocations s default_settings no_locks None = Inr (0, ?s)"
    unfolding recover_expired_allocations_def option.case Let_def nw prod.case st by (simp add: mark_stale_def)
  then show "pass_start s default_settings no_locks = s\<lparr>ticks := Suc (Suc (ticks s))\<rparr>" by (simp add: pass_start_def now_utc_def)
  show "pass_horizon s default_settings no_locks \<le> 0"
    unfolding pass_horizon_def rec using nw(2) assms(3,4) by (simp add: now_utc_def secs_def demo_db_def)
qed

definition open_producer :: "unit producer" where
  "open_producer = \<lparr>pr_start = (\<lambda>k. (Inr (), k)), pr_stop = (\<lambda>k. (Inr (), k)), pr_send = (\<lambda>k t key e. (Inr (), k))\<rparr>"

text \<open>The pass has two runs to consider, of one core each, and the worker has three cores left.\<close>

lemma demo_pass_room:
  assumes s1: "runs s1 = runs demo_db @ [r]" "r_status r = QUEUED" "r_requested_cpu r = 1" "r_requested_memory_mb r = 512"
    and start: "pass_start s1 default_settings no_locks = s1\<lparr>ticks := k\<rparr>" "workers s1 = [demo_worker]"
    and p: "schedule_once s1 default_settings no_locks = Inr (n, s2)" and h: "h \<le> 0"
  shows "\<exists>w\<in>set (workers s2). eligible no_locks h r w"
proof -
  let ?q = "queued_runs (s1\<lparr>ticks := k\<rparr>) no_locks"
  have q: "sum_list (map r_requested_cpu ?q) = 2" "sum_list (map r_requested_memory_mb ?q) = 1024"
      "\<forall>r\<in>set ?q. 0 \<le> r_requested_cpu r \<and> 0 \<le> r_requested_memory_mb r"
    using s1 by (simp_all add: queued_runs_def no_locks_def demo_db_def demo_run_def)
  obtain now where "res_fold (schedule_run default_settings no_locks now (pass_horizon s1 default_settings no_locks)) ?q
      (0, s1\<lparr>ticks := k\<rparr>) = Inr (n, s2)"
    by (rule schedule_once_loop[OF p, unfolded start(1)])
  from schedule_loop_room[OF this q(3)]
  obtain w where "w \<in> set (workers s2)" "w_status w = ONLINE" "w_last_heartbeat_at w = 0" "1 \<le> w_available_cpu w" "512 \<le> w_available_memory_mb w"
    by (auto simp: room_left_def start(2) q demo_worker_def)
  then show ?thesis using s1(3,4) h by (intro bexI[of _ w]) (simp_all add: eligible_def no_locks_def)
qed

theorem submitted_run_completes_witness:
  "\<exists>r s1 s2 b' s3 d. create_queued_run strict_pydantic default_settings ''c'' demo_body 1 demo_db = Inr (r, s1) \<and>
     (\<exists>n. schedule_once s1 default_settings no_locks = Inr (n, s2)) \<and>
     run_outbox_dispatcher default_settings (kafka_publish open_producer)
       (replicate (length (pending 10 s2)) (\<lambda>_. False, None)) \<lparr>kb_started = False, kb_producer = (), kb_acked = []\<rparr> s2 = (d, b', s3) \<and>
     (\<exists>topic event wid x' r'. (topic, uuid_str (r_id r), event) \<in> set (kb_acked b') \<and>
        process_event demo_rt event (Some wid) (demo_exec s3) = (Inr True, x') \<and> finished (ex_db x') (r_id r) r')"
proof -
  let ?b = "\<lparr>kb_started = False, kb_producer = (), kb_acked = []\<rparr>" and ?cid = "''c''"
  let ?ok = "\<lambda>r b' s3. \<exists>q wid topic event x' r'. model_validate strict_pydantic SlowDemoParameters (rc_parameters demo_body) = Inr (SlowParameters q) \<and>
       (topic, uuid_str (r_id r), event) \<in> set (kb_acked b') \<and>
       process_event demo_rt event (Some wid) (demo_exec s3) = (Inr True, x') \<and> slow_outcome demo_rt q (ex_db x') (r_id r) r'"
  obtain r s1 where c: "create_queued_run strict_pydantic default_settings ?cid demo_body 1 demo_db = Inr (r, s1)"
    and s1: "runs s1 = runs demo_db @ [r]" "r_status r = QUEUED" "workers s1 = [demo_worker]"
      "resource_allocations s1 = [demo_lease]" "clock s1 = clock demo_db" "ticks s1 \<le> 10" "next_uuid s1 = 107"
      "r_requested_cpu r = 1" "r_requested_memory_mb r = 512"
    using demo_submit[of 0] by (auto simp: demo_db_def)
  have body: "run_create_ok demo_body" "rc_template_key demo_body = ''slow-demonstration''" "rc_template_version demo_body = ''1.0.0''"
    by (simp_all add: run_create_ok_def demo_body_def)
  have cid: "1 \<le> length ?cid" "length ?cid \<le> 128" by simp_all
  have inv1: "lifecycle_inv s1"
    by (rule create_queued_run_inv(1)[OF demo_lifecycle_inv demo_fk_inv body(1) cid c])
  obtain n s2 where p: "schedule_once s1 default_settings no_locks = Inr (n, s2)"
    using schedule_once_ok[OF inv1, of default_settings no_locks] by metis
  note start = demo_pass_start_of[OF s1(3-6)]
  have q: "r \<in> set (queued_runs (pass_start s1 default_settings no_locks) no_locks)"
    unfolding start by (simp add: queued_runs_def s1(1,2) no_locks_def demo_db_def demo_run_def)
  obtain d b' s3 where dp: "run_outbox_dispatcher default_settings (kafka_publish open_producer)
       (replicate (length (pending 10 s2)) (\<lambda>_. False, None)) ?b s2 = (d, b', s3)" by (metis prod_cases3)
  have acc: "accepting (kafka_publish open_producer)"
    by (simp add: accepting_def kafka_publish_def broker_start_def open_producer_def)
  have "next_uuid s2 \<le> 707" using pass_draws[OF p] by (simp add: start s1(7))
  moreover have "next_uuid s3 = next_uuid s2" by (rule only_outbox_frame[OF dispatcher_only[OF dp[unfolded run_outbox_dispatcher_def]]])
  ultimately have ids: "next_uuid s3 \<le> 16 ^ 32" by simp
  have none: "published_acked (kb_acked ?b) demo_db" by (simp add: published_acked_def demo_db_def)
  have cfg: "outbox_max_attempts default_settings = 10" by (simp add: default_settings_def)
  have rt: "calm demo_rt" "lib_pydantic (rt_lib demo_rt) = strict_pydantic" "ex_db (demo_exec s3) = s3"
      "\<forall>st key data mime. fst (rt_put demo_rt st key data mime) = Inr ()"
    by (simp_all add: calm_def demo_rt_def demo_library_def demo_exec_def)
  have "(\<forall>w\<in>set (workers s2). \<not> eligible no_locks (pass_horizon s1 default_settings no_locks) r w) \<or> ?ok r b' s3"
    by (rule submitted_run_completes[OF demo_platform_inv demo_records c body(1) cid body(2,3) p q acc none _ dp _ rt(1,2) strict_canonical rt(3,4) ids])
      (simp_all add: cfg)
  moreover have "\<exists>w\<in>set (workers s2). eligible no_locks (pass_horizon s1 default_settings no_locks) r w"
    by (rule demo_pass_room[OF s1(1,2,8,9) start(1) s1(3) p start(2)])
  ultimately have "?ok r b' s3" by blast
  then show ?thesis using c p dp by (fastforce simp: slow_outcome_def)
qed

end
