(* ===== verification/Client.thy ===== *)
theory Client
  imports Scripts Responses Journey
begin

text \<open>
  The demonstration script against the platform. Its requests for runs are served by the API on the common
  database, while all other services go on; the replies are those of \<open>Responses\<close>. What the script reports is
  then compared with the database.
\<close>

section \<open>Replies on the wire\<close>

text \<open>
  What the serialisation adds: the texts of tokens, times and JSON values, FastAPI's description of invalid
  input, and the replies that are not JSON.
\<close>

record 'tok wire =
  wi_token :: "'tok \<Rightarrow> string"
  wi_stamp :: "time \<Rightarrow> string"
  wi_dumps :: "json \<Rightarrow> string"
  wi_detail :: json
  wi_other :: "'tok answer \<Rightarrow> http_response"

text \<open>\<open>raise_for_status\<close> accepts the codes from 200 to 299.\<close>

definition json_reply :: "'tok wire \<Rightarrow> int \<Rightarrow> json \<Rightarrow> http_response" where
  "json_reply wi code body =
     \<lparr>hr_failed = (code < 200 \<or> 300 \<le> code), hr_status = code, hr_text = wi_dumps wi body, hr_json = Inr body\<rparr>"

definition http_reply :: "'tok wire \<Rightarrow> 'tok reply \<Rightarrow> http_response" where
  "http_reply wi reply =
     (case reply of
        Answered code a \<Rightarrow> (case answer_body (wi_token wi) (wi_stamp wi) a of None \<Rightarrow> wi_other wi a | Some body \<Rightarrow> json_reply wi code body)
      | Unprocessable \<Rightarrow> json_reply wi 422 (JObj [(''detail'', wi_detail wi)])
      | Rejected r \<Rightarrow> json_reply wi (resp_status r) (resp_content r))"

text \<open>The routes of \<open>api/runs.py\<close> the script uses.\<close>

inductive routed :: "http_request \<Rightarrow> request \<Rightarrow> bool" where
  submission: "hq_method q = ''POST'' \<Longrightarrow> hq_path q = ''/runs'' \<Longrightarrow> routed q (CreateRun body)"
| reading: "hq_method q = ''GET'' \<Longrightarrow> hq_path q = ''/runs/'' @ uuid_str i \<Longrightarrow> i < 16 ^ 32 \<Longrightarrow> routed q (ReadRun i)"
| measures: "hq_method q = ''GET'' \<Longrightarrow> hq_path q = ''/runs/'' @ uuid_str i @ ''/metrics'' \<Longrightarrow> i < 16 ^ 32 \<Longrightarrow>
    routed q (ListMetrics i)"
| files: "hq_method q = ''GET'' \<Longrightarrow> hq_path q = ''/runs/'' @ uuid_str i @ ''/artifacts'' \<Longrightarrow> i < 16 ^ 32 \<Longrightarrow>
    routed q (ListArtifacts i)"

inductive_simps routed_iff: "routed q req"

text \<open>
  The surroundings of the script are the platform: \<open>view\<close> is the database in the state of the world. Time that
  passes, in a request or in a pause, is filled by steps of the platform, and a reply without an error to a
  request for runs is the API's. Everything else (requests that fail, other replies) is left open.
\<close>

definition served ::
  "('tok, 's) api \<Rightarrow> ('b \<Rightarrow> string \<Rightarrow> string \<Rightarrow> event_envelope \<Rightarrow> unit res \<times> 'b) \<Rightarrow> 'tok wire \<Rightarrow> ('w \<Rightarrow> db) \<Rightarrow> 'w outside \<Rightarrow> bool" where
  "served api publish wi view os \<longleftrightarrow>
     (\<forall>q w r w'. os_send os q w = (r, w') \<longrightarrow> acts api publish (view w) (view w')) \<and>
     (\<forall>q req w resp w'. os_send os q w = (Inr resp, w') \<longrightarrow> routed q req \<longrightarrow> \<not> hr_failed resp \<longrightarrow>
        (\<exists>req cl st st' s s1 reply. routed q req \<and> acts api publish (view w) s \<and> serve api cl req (st, s) = (reply, st', s1) \<and>
           acts api publish s1 (view w') \<and> resp = http_reply wi reply)) \<and>
     (\<forall>d w. acts api publish (view w) (view (os_sleep os d w)))"


section \<open>What the replies say\<close>

lemma serve_answered:
  assumes "serve api cl req (st, s) = (reply, st', s1)" "as_public req = None" "reply = Answered code a"
  obtains u r c where "validated (ap_lib api) req = Inr r"
    "handle api (call_id cl) (cl_now cl) u r st (begin_transaction s) = ((Inr a, c), st')"
    "s1 = (case c of None \<Rightarrow> s | Some s' \<Rightarrow> s')"
  using assms unfolding serve_private[OF assms(2)]
  by (auto simp: serve_as_def respond_def Let_def split: sum.splits prod.splits)

lemma serve_rejected:
  assumes "serve api cl req (st, s) = (Rejected r, st', s1)" "as_public req = None"
  shows "\<exists>j. resp_content r = JObj [(''error'', j)]"
  using assms(1) unfolding serve_private[OF assms(2)]
  by (auto simp: serve_as_def respond_def Let_def handle_exception_def app_error_handler_def unexpected_error_handler_def error_body_def
      split: sum.splits prod.splits exn.splits)

lemma begin_transaction_results [simp]:
  "run_metrics (begin_transaction s) = run_metrics s" "artifacts (begin_transaction s) = artifacts s"
  by (simp_all add: begin_transaction_def now_utc_def)

lemma serve_reads:
  "serve api cl (ReadRun i) (st, s) = (Answered code a, st', s1) \<Longrightarrow> s1 = s \<and> (\<exists>r. a = ARun r \<and> get_run s i = Some r)"
  "serve api cl (ListMetrics i) (st, s) = (Answered code a, st', s1) \<Longrightarrow>
     s1 = s \<and> (\<exists>ms. a = AMetricValues ms \<and> length ms = length (filter (\<lambda>m. m_run_id m = i) (run_metrics s)))"
  "serve api cl (ListArtifacts i) (st, s) = (Answered code a, st', s1) \<Longrightarrow>
     s1 = s \<and> (\<exists>as. a = AArtifacts as \<and> length as = length (filter (\<lambda>m. art_run_id m = i) (artifacts s)))"
  by (auto simp: reads_def res_bind_Inr_iff read_run_def get_run_or_404_Inr list_metrics_def list_artifacts_def get_run_def
      elim!: serve_answered[OF _ _ refl])

text \<open>An accepted submission has created the run it names, and it was new.\<close>

lemma serve_submission:
  assumes "serve api cl (CreateRun body) (st, s) = (Answered code a, st', s1)" "platform_inv s"
  obtains r where "a = ARun r" "get_run s (r_id r) = None" "get_run s1 (r_id r) = Some r"
proof -
  obtain u req c where v: "validated (ap_lib api) (CreateRun body) = Inr req"
    and h: "handle api (call_id cl) (cl_now cl) u req st (begin_transaction s) = ((Inr a, c), st')"
    and s1: "s1 = (case c of None \<Rightarrow> s | Some s' \<Rightarrow> s')"
    by (rule serve_answered[OF assms(1) _ refl]) simp
  have body: "req = CreateRun body" "run_create_ok body" using v by (auto simp: check_that_def split: if_splits)
  then obtain r where r: "a = ARun r" and ok: "create_queued_run (ap_pydantic api) (ap_settings api) (call_id cl) body (u_id u) (begin_transaction s) = Inr (r, s1)"
    using h s1 by (auto simp: commits_def create_run_def res_bind_Inr_iff split: sum.splits)
  note inv = platform_invD(1,2)[OF begin_transaction_inv(1)[OF assms(2)]]
  have cid: "1 \<le> length (call_id cl)" "length (call_id cl) \<le> 128" using dispatch_correlation_id_bounds by simp_all
  note q = create_queued_run_inv[OF inv body(2) cid ok]
  have "distinct (map r_id (runs s1))" using q(1) by (simp add: lifecycle_inv_def book_inv_def ids_inv_def)
  then have "r_id r \<notin> r_id ` set (runs s)" "get_run s1 (r_id r) = Some r"
    using q(4) get_row_in[of r_id "runs s1" r] by (auto simp: get_run_def)
  then show thesis using that[OF r] by (simp add: get_run_def get_row_None_iff)
qed


section \<open>The script's steps as steps of the platform\<close>

text \<open>A relation between databases that every step of a script respects; here \<open>acts\<close>.\<close>

definition moves :: "(db \<Rightarrow> db \<Rightarrow> bool) \<Rightarrow> ('w \<Rightarrow> db) \<Rightarrow> ('w, 'a) script \<Rightarrow> bool" where
  "moves R view m \<longleftrightarrow> (\<forall>st r st'. m st = (r, st') \<longrightarrow> R (view (fst st)) (view (fst st')))"

lemma movesD: "moves R view m \<Longrightarrow> m st = (r, st') \<Longrightarrow> R (view (fst st)) (view (fst st'))"
  unfolding moves_def by blast

lemma moves_simple:
  "moves (acts api publish) view (lift_res r)" "moves (acts api publish) view (print_line t)"
  by (auto simp: moves_def lift_res_def print_line_def intro: act_acts.nothing)

lemma moves_bind:
  assumes "moves (acts api publish) view m" "\<And>x. moves (acts api publish) view (f x)"
  shows "moves (acts api publish) view (script_bind m f)"
  unfolding moves_def
proof (intro allI impI)
  fix st r st' assume eq: "script_bind m f st = (r, st')"
  obtain x st1 where m: "m st = (x, st1)" by (cases "m st")
  show "acts api publish (view (fst st)) (view (fst st'))"
    using eq m movesD[OF assms(1) m] acts_trans[OF movesD[OF assms(2)]]
    by (cases x) (auto simp: script_bind_def)
qed

lemma servedD:
  assumes "served api publish wi view os"
  shows "os_send os q w = (r, w') \<Longrightarrow> acts api publish (view w) (view w')"
    and "acts api publish (view w) (view (os_sleep os d w))"
  using assms unfolding served_def by blast+

lemma served_reply:
  assumes "served api publish wi view os" "os_send os q w = (Inr resp, w')" "routed q req" "\<not> hr_failed resp"
  obtains req' cl st st' s s1 reply where "routed q req'" "acts api publish (view w) s"
    "serve api cl req' (st, s) = (reply, st', s1)" "acts api publish s1 (view w')" "resp = http_reply wi reply"
  using assms unfolding served_def by meson

lemma moves_steps:
  assumes "served api publish wi view os"
  shows "moves (acts api publish) view (post_object os bearer path body action)"
    and "moves (acts api publish) view (get_object os token path action)"
    and "moves (acts api publish) view (get_list os token path action)"
proof -
  have call: "moves (acts api publish) view (call os q)" for q
    using servedD(1)[OF assms] by (auto simp: moves_def call_def split: prod.splits)
  show "moves (acts api publish) view (post_object os bearer path body action)"
      "moves (acts api publish) view (get_object os token path action)"
      "moves (acts api publish) view (get_list os token path action)"
    unfolding post_object_def get_object_def get_list_def by (intro moves_bind call moves_simple)+
qed

lemma moves_script:
  assumes "served api publish wi view os"
  shows "moves (acts api publish) view (sign_in_demo os args)"
    and "moves (acts api publish) view (submit_demo os token)"
    and "moves (acts api publish) view (read_status os token rid previous)"
    and "moves (acts api publish) view (report_run os args token rid run)"
proof -
  note steps = moves_steps[OF assms] moves_bind moves_simple
  show "moves (acts api publish) view (sign_in_demo os args)"
    unfolding sign_in_demo_def by (intro steps)
  show "moves (acts api publish) view (read_status os token rid previous)"
    unfolding read_status_def Let_def by (intro steps) (auto intro: moves_simple)
  show "moves (acts api publish) view (report_run os args token rid run)"
    unfolding report_run_def by (intro steps) (auto intro!: steps)
  have "moves (acts api publish) view (submit_named os token stamp)" for stamp
    unfolding submit_named_def by (intro steps)
  then show "moves (acts api publish) view (submit_demo os token)"
    by (auto simp: moves_def submit_demo_def)
qed


section \<open>What the script learns\<close>

lemma object_Inr: "require_object rp resp action = Inr d \<Longrightarrow> \<not> hr_failed resp \<and> hr_json resp = Inr (JObj d)"
  by (auto simp: require_object_def require_json_def split: if_splits sum.splits json.splits)

lemma list_Inr: "require_list rp resp action = Inr vs \<Longrightarrow> \<not> hr_failed resp \<and> hr_json resp = Inr (JList vs)"
  by (auto simp: require_list_def require_json_def split: if_splits sum.splits json.splits)

lemma get_object_Inr:
  assumes "get_object os token path action st = (Inr d, st')"
  obtains resp where "os_send os (get_request token path) (fst st) = (Inr resp, fst st')" "require_object (os_repr os) resp action = Inr d"
    "snd st' = snd st"
  using assms by (cases st) (auto simp: get_object_def script_bind_def call_def lift_res_def Let_def split: prod.splits sum.splits)

lemma get_list_Inr:
  assumes "get_list os token path action st = (Inr d, st')"
  obtains resp where "os_send os (get_request token path) (fst st) = (Inr resp, fst st')" "require_list (os_repr os) resp action = Inr d"
    "snd st' = snd st"
  using assms by (cases st) (auto simp: get_list_def script_bind_def call_def lift_res_def Let_def split: prod.splits sum.splits)

text \<open>A reply in which the script finds what it looks for is the answer of the endpoint.\<close>

lemma answered_object:
  assumes "serve api cl req (st, s) = (reply, st', s1)" "as_public req = None" "\<not> hr_failed (http_reply wi reply)"
    and "hr_json (http_reply wi reply) = Inr (JObj d)" "map_of d k = Some v" "k \<noteq> ''error''"
  obtains code a where "reply = Answered code a"
proof (cases reply)
  case (Rejected r)
  then show thesis using serve_rejected[OF assms(1)[unfolded Rejected] assms(2)] assms(4-6) by (auto simp: http_reply_def json_reply_def)
qed (use assms(3) that in \<open>auto simp: http_reply_def json_reply_def\<close>)

lemma answered_list:
  assumes "serve api cl req (st, s) = (reply, st', s1)" "as_public req = None" "\<not> hr_failed (http_reply wi reply)"
    and "hr_json (http_reply wi reply) = Inr (JList vs)"
  obtains code a where "reply = Answered code a"
proof (cases reply)
  case (Rejected r)
  then show thesis using serve_rejected[OF assms(1)[unfolded Rejected] assms(2)] assms(4) by (auto simp: http_reply_def json_reply_def)
qed (use assms(3) that in \<open>auto simp: http_reply_def json_reply_def\<close>)

lemma uuid_str_len: "uuid_str j \<noteq> uuid_str k @ c # cs" "uuid_str k @ c # cs \<noteq> uuid_str j"
  by (auto dest: arg_cong[where f = length])

lemma routed_run:
  assumes "i < 16 ^ 32"
  shows "routed (get_request token (''/runs/'' @ uuid_str i)) req \<longleftrightarrow> req = ReadRun i"
    "routed (get_request token (''/runs/'' @ uuid_str i @ ''/metrics'')) req \<longleftrightarrow> req = ListMetrics i"
    "routed (get_request token (''/runs/'' @ uuid_str i @ ''/artifacts'')) req \<longleftrightarrow> req = ListArtifacts i"
proof -
  have id: "uuid_str i = uuid_str j \<longleftrightarrow> i = j" if "j < 16 ^ 32" for j using uuid_str_inj assms that by blast
  show "routed (get_request token (''/runs/'' @ uuid_str i)) req \<longleftrightarrow> req = ReadRun i"
    "routed (get_request token (''/runs/'' @ uuid_str i @ ''/metrics'')) req \<longleftrightarrow> req = ListMetrics i"
    "routed (get_request token (''/runs/'' @ uuid_str i @ ''/artifacts'')) req \<longleftrightarrow> req = ListArtifacts i"
    using assms by (auto simp: routed_iff get_request_def id uuid_str_len append_eq_append_conv)
qed

lemma read_status_served:
  assumes "served api publish wi view os" "i < 16 ^ 32"
    and "read_status os token (uuid_str i) previous st = (Inr (run, status), st')"
  shows "\<exists>s r. acts api publish (view (fst st)) s \<and> acts api publish s (view (fst st')) \<and> get_run s i = Some r \<and>
    map_of run ''status'' = Some (JStr (status_value (r_status r)))"
proof -
  obtain st1 v where g: "get_object os token (''/runs/'' @ uuid_str i) ''Run status read'' st = (Inr run, st1)"
    and v: "map_of run ''status'' = Some v" and st': "fst st' = fst st1"
    using assms(3) unfolding read_status_def
    by (auto simp: lift_res_def print_line_def dict_item_def Let_def elim!: script_bind_InrE split: option.splits if_splits prod.splits)
  obtain resp where resp: "os_send os (get_request token (''/runs/'' @ uuid_str i)) (fst st) = (Inr resp, fst st1)"
    and ok: "require_object (os_repr os) resp ''Run status read'' = Inr run"
    by (rule get_object_Inr[OF g])
  obtain cl w w' s s1 reply where s: "acts api publish (view (fst st)) s" "acts api publish s1 (view (fst st1))"
    and sv: "serve api cl (ReadRun i) (w, s) = (reply, w', s1)" and rep: "resp = http_reply wi reply"
    using served_reply[OF assms(1) resp, of "ReadRun i"] object_Inr[OF ok] routed_run(1)[OF assms(2)] by metis
  note body = object_Inr[OF ok, unfolded rep]
  obtain code a where a: "reply = Answered code a"
    by (rule answered_object[OF sv _ conjunct1[OF body] conjunct2[OF body] v]) simp_all
  obtain r where r: "s1 = s" "a = ARun r" "get_run s i = Some r" using serve_reads(1)[OF sv[unfolded a]] by blast
  have "run_body (wi_stamp wi) r = JObj run" using body by (simp add: a r(2) http_reply_def json_reply_def)
  then have "map_of run ''status'' = Some (JStr (status_value (r_status r)))" by (auto simp: run_body_def)
  then show ?thesis using s r(1,3) st' by auto
qed


lemma get_list_served:
  assumes "served api publish wi view os" "get_list os token path action st = (Inr vs, st')"
    and route: "\<And>q. routed (get_request token path) q \<longleftrightarrow> q = req" and req: "req = ListMetrics i \<or> req = ListArtifacts i"
  obtains cl w w' s code a where "acts api publish (view (fst st)) s" "acts api publish s (view (fst st'))"
    "serve api cl req (w, s) = (Answered code a, w', s)" "hr_json (http_reply wi (Answered code a)) = Inr (JList vs)"
proof -
  obtain resp where resp: "os_send os (get_request token path) (fst st) = (Inr resp, fst st')"
    and ok: "require_list (os_repr os) resp action = Inr vs"
    by (rule get_list_Inr[OF assms(2)])
  obtain cl w w' s s1 reply where s: "acts api publish (view (fst st)) s" "acts api publish s1 (view (fst st'))"
    and sv: "serve api cl req (w, s) = (reply, w', s1)" and rep: "resp = http_reply wi reply"
    by (rule served_reply[OF assms(1) resp route[THEN iffD2, OF refl] conjunct1[OF list_Inr[OF ok]]]) (auto simp: route)
  note body = list_Inr[OF ok, unfolded rep]
  obtain code a where a: "reply = Answered code a"
    by (rule answered_list[OF sv _ conjunct1[OF body] conjunct2[OF body]]) (use req in auto)
  have eq: "s1 = s" using req
  proof
    assume "req = ListMetrics i"
    from conjunct1[OF serve_reads(2)[OF sv[unfolded a this]]] show ?thesis .
  next
    assume "req = ListArtifacts i"
    from conjunct1[OF serve_reads(3)[OF sv[unfolded a this]]] show ?thesis .
  qed
  show thesis by (rule that[OF s[unfolded eq] sv[unfolded a eq] conjunct2[OF body, unfolded a]])
qed

lemma counts_served:
  assumes "served api publish wi view os" "i < 16 ^ 32"
  shows "get_list os token (''/runs/'' @ uuid_str i @ ''/metrics'') action st = (Inr vs, st') \<Longrightarrow>
      \<exists>s. acts api publish (view (fst st)) s \<and> acts api publish s (view (fst st')) \<and>
        length vs = length (filter (\<lambda>m. m_run_id m = i) (run_metrics s))"
    and "get_list os token (''/runs/'' @ uuid_str i @ ''/artifacts'') action st = (Inr vs, st') \<Longrightarrow>
      \<exists>s. acts api publish (view (fst st)) s \<and> acts api publish s (view (fst st')) \<and>
        length vs = length (filter (\<lambda>a. art_run_id a = i) (artifacts s))"
proof -
  assume g: "get_list os token (''/runs/'' @ uuid_str i @ ''/metrics'') action st = (Inr vs, st')"
  obtain cl w w' s code a where s: "acts api publish (view (fst st)) s" "acts api publish s (view (fst st'))"
    and sv: "serve api cl (ListMetrics i) (w, s) = (Answered code a, w', s)"
    and body: "hr_json (http_reply wi (Answered code a)) = Inr (JList vs)"
    by (rule get_list_served[OF assms(1) g routed_run(2)[OF assms(2)] disjI1[OF refl]])
  obtain ms where "a = AMetricValues ms" "length ms = length (filter (\<lambda>m. m_run_id m = i) (run_metrics s))"
    using serve_reads(2)[OF sv] by blast
  with body s show "\<exists>s. acts api publish (view (fst st)) s \<and> acts api publish s (view (fst st')) \<and>
      length vs = length (filter (\<lambda>m. m_run_id m = i) (run_metrics s))"
    by (intro exI[of _ s]) (auto simp: http_reply_def json_reply_def)
next
  assume g: "get_list os token (''/runs/'' @ uuid_str i @ ''/artifacts'') action st = (Inr vs, st')"
  obtain cl w w' s code a where s: "acts api publish (view (fst st)) s" "acts api publish s (view (fst st'))"
    and sv: "serve api cl (ListArtifacts i) (w, s) = (Answered code a, w', s)"
    and body: "hr_json (http_reply wi (Answered code a)) = Inr (JList vs)"
    by (rule get_list_served[OF assms(1) g routed_run(3)[OF assms(2)] disjI2[OF refl]])
  obtain as where "a = AArtifacts as" "length as = length (filter (\<lambda>a. art_run_id a = i) (artifacts s))"
    using serve_reads(3)[OF sv] by blast
  with body s show "\<exists>s. acts api publish (view (fst st)) s \<and> acts api publish s (view (fst st')) \<and>
      length vs = length (filter (\<lambda>a. art_run_id a = i) (artifacts s))"
    by (intro exI[of _ s]) (auto simp: http_reply_def json_reply_def)
qed

text \<open>The polling loop returns the row of a moment, in a terminal status.\<close>

definition row_seen :: "('tok, 's) api \<Rightarrow> ('b \<Rightarrow> string \<Rightarrow> string \<Rightarrow> event_envelope \<Rightarrow> unit res \<times> 'b) \<Rightarrow> uuid \<Rightarrow> db \<Rightarrow> db \<Rightarrow> dict \<Rightarrow> bool" where
  "row_seen api publish i s0 s1 run \<longleftrightarrow> (\<exists>s r. acts api publish s0 s \<and> acts api publish s s1 \<and> get_run s i = Some r \<and>
     map_of run ''status'' = Some (JStr (status_value (r_status r))))"

lemma read_status_prints: "set (snd st) \<subseteq> set (snd (snd (read_status os token rid previous st)))"
  unfolding read_status_def get_object_def Let_def
  by (intro script_bind_prints) (auto simp: lift_res_def print_line_def call_def split: prod.splits)

definition poll_served ::
  "('tok, 's) api \<Rightarrow> ('b \<Rightarrow> string \<Rightarrow> string \<Rightarrow> event_envelope \<Rightarrow> unit res \<times> 'b) \<Rightarrow> ('w \<Rightarrow> db) \<Rightarrow> uuid \<Rightarrow> dict \<Rightarrow>
   'w \<times> string list \<Rightarrow> 'w \<times> string list \<Rightarrow> bool" where
  "poll_served api publish view i run st st' \<longleftrightarrow> acts api publish (view (fst st)) (view (fst st')) \<and> set (snd st) \<subseteq> set (snd st') \<and>
     (i < 16 ^ 32 \<longrightarrow> row_seen api publish i (view (fst st)) (view (fst st')) run)"

lemma poll_run_served:
  assumes ret: "poll_run os args token (uuid_str i) deadline previous st = Some r"
    and srv: "served api publish wi view os"
  shows "r = (Inr run, st') \<longrightarrow> poll_served api publish view i run st st'"
proof -
  have "served api publish wi view os' \<longrightarrow> rid = uuid_str i \<longrightarrow> r' = (Inr run, st') \<longrightarrow>
      poll_served api publish view i run st0 st'"
    if "poll_run os' args token rid deadline previous st0 = Some r'" for os' args token rid deadline previous st0 r'
  proof (rule poll_run.raw_induct[where P = "\<lambda>os args token rid deadline previous st r. served api publish wi view os \<longrightarrow>
      rid = uuid_str i \<longrightarrow> r = (Inr run, st') \<longrightarrow> poll_served api publish view i run st st'", OF _ that], intro impI)
    fix poll and os :: "'a outside" and args token rid deadline previous and st :: "'a \<times> string list" and r
    assume IH: "\<And>os args token rid deadline previous st r. poll os args token rid deadline previous st = Some r \<Longrightarrow>
        served api publish wi view os \<longrightarrow> rid = uuid_str i \<longrightarrow> r = (Inr run, st') \<longrightarrow>
        poll_served api publish view i run st st'"
      and eq: "(if os_monotonic os (fst st) < deadline then
          (case read_status os token rid previous st of
             (Inl e, st1) \<Rightarrow> Some (Inl e, st1)
           | (Inr (run, status), w, out) \<Rightarrow>
               if status \<in> set DEMO_TERMINAL_STATUSES then Some (Inr run, w, out)
               else poll os args token rid deadline (Some status) (os_sleep os (da_poll_seconds args) w, out))
        else Some (Inl (DemoError (''Run '' @ rid @ '' did not reach a terminal state within '' @
          fmt_fixed 1 (da_timeout_seconds args) @ '' seconds'')), st)) = Some r"
      and sv: "served api publish wi view os" and rid: "rid = uuid_str i" and r: "r = (Inr run, st')"
    obtain x w out where s: "read_status os token rid previous st = (x, w, out)" by (metis prod_cases3)
    then have grows: "set (snd st) \<subseteq> set out" using read_status_prints[of st os token rid previous] by simp
    obtain d status where x: "x = Inr (d, status)" using eq r s by (cases x) (auto split: if_splits)
    note moved = movesD[OF moves_script(3)[OF sv] s, unfolded fst_conv]
    show "poll_served api publish view i run st st'"
    proof (cases "status \<in> set DEMO_TERMINAL_STATUSES")
      case True
      then have "d = run" "st' = (w, out)" using eq r s x by (auto split: if_splits)
      then show ?thesis
        using read_status_served[OF sv _ s[unfolded x rid]] moved grows by (simp add: poll_served_def row_seen_def)
    next
      case False
      let ?st1 = "(os_sleep os (da_poll_seconds args) w, out)"
      have "poll os args token rid deadline (Some status) ?st1 = Some r" using False eq r s x by (auto split: if_splits)
      from IH[OF this] sv rid r have "poll_served api publish view i run ?st1 st'" by simp
      moreover have "acts api publish (view (fst st)) (view (fst ?st1))" using acts_trans[OF servedD(2)[OF sv] moved] by simp
      ultimately show ?thesis using grows unfolding poll_served_def row_seen_def by (auto intro: acts_trans)
    qed
  qed
  then show ?thesis using assms by blast
qed


lemma acts_onward:
  assumes "acts api publish s s'" "platform_inv s"
  shows "platform_inv s'" "upholds s s'"
  using platform_steps(2)[OF assms(1)] assms(2) by simp_all

lemma acts_get_run: "acts api publish s s' \<Longrightarrow> platform_inv s \<Longrightarrow> get_run s' i = None \<Longrightarrow> get_run s i = None"
  using upholds_statuses[of s s' i] acts_onward[of api publish s s'] by (cases "get_run s i") auto

lemma post_object_Inr:
  assumes "post_object os bearer path body action st = (Inr d, st')"
  obtains resp where "os_send os \<lparr>hq_method = ''POST'', hq_path = path, hq_bearer = bearer, hq_json = Some (JObj body)\<rparr> (fst st) = (Inr resp, fst st')"
    "require_object (os_repr os) resp action = Inr d" "snd st' = snd st"
  using assms by (cases st) (auto simp: post_object_def script_bind_def call_def lift_res_def Let_def split: prod.splits sum.splits)

text \<open>The submission: the request that creates the run, and what is printed.\<close>

lemma run_posted:
  assumes srv: "served api publish wi view os" and inv: "platform_inv (view (fst st))"
    and post: "post_object os bearer ''/runs'' body action st = (Inr d, st')" and v: "map_of d ''id'' = Some v"
  shows "\<exists>i. v = JStr (uuid_str i) \<and> get_run (view (fst st)) i = None \<and> get_run (view (fst st')) i \<noteq> None"
proof -
  let ?q = "\<lparr>hq_method = ''POST'', hq_path = ''/runs'', hq_bearer = bearer, hq_json = Some (JObj body)\<rparr>"
  obtain resp where resp: "os_send os ?q (fst st) = (Inr resp, fst st')" and ok: "require_object (os_repr os) resp action = Inr d"
    by (rule post_object_Inr[OF post])
  have route: "routed ?q req \<longleftrightarrow> (\<exists>b. req = CreateRun b)" for req by (auto simp: routed_iff)
  obtain req cl w w' s s1 reply where req: "routed ?q req" and s: "acts api publish (view (fst st)) s" "acts api publish s1 (view (fst st'))"
    and sv: "serve api cl req (w, s) = (reply, w', s1)" and rep: "resp = http_reply wi reply"
    by (rule served_reply[OF srv resp route[THEN iffD2, OF exI, OF refl] conjunct1[OF object_Inr[OF ok]]])
  obtain b where b: "req = CreateRun b" using req route by blast
  note rb = object_Inr[OF ok, unfolded rep]
  obtain code a where a: "reply = Answered code a"
    by (rule answered_object[OF sv _ conjunct1[OF rb] conjunct2[OF rb] v]) (simp_all add: b)
  note invs = acts_onward(1)[OF s(1) inv]
  obtain r where r: "a = ARun r" "get_run s (r_id r) = None" "get_run s1 (r_id r) = Some r"
    by (rule serve_submission[OF sv[unfolded a b] invs])
  have "run_body (wi_stamp wi) r = JObj d" using rb by (simp add: a r(1) http_reply_def json_reply_def)
  then have "v = JStr (uuid_str (r_id r))" using v by (auto simp: run_body_def id_json_def)
  moreover have "platform_inv s1" using conjunct1[OF serve_inv[OF sv invs]] .
  then have "get_run (view (fst st')) (r_id r) \<noteq> None" using acts_get_run[OF s(2)] r(3) by fastforce
  ultimately show ?thesis using acts_get_run[OF s(1) inv r(2)] by blast
qed

lemma submit_served:
  assumes srv: "served api publish wi view os" and inv: "platform_inv (view (fst st))"
    and sub: "submit_demo os token st = (Inr v, st')"
  shows "\<exists>i. v = JStr (uuid_str i) \<and> get_run (view (fst st)) i = None \<and> get_run (view (fst st')) i \<noteq> None \<and>
    ''Submitted run '' @ uuid_str i \<in> set (snd st')"
proof -
  obtain b1 d1 st1 b2 d2 st2 b3 d3 st3 where p: "post_object os (Some token) ''/projects'' b1 ''Project creation'' st = (Inr d1, st1)"
    and e: "post_object os (Some token) ''/experiments'' b2 ''Experiment creation'' st1 = (Inr d2, st2)"
    and r: "post_object os (Some token) ''/runs'' b3 ''Run submission'' st2 = (Inr d3, st3)" and v: "map_of d3 ''id'' = Some v"
    and st': "fst st' = fst st3" "''Submitted run '' @ py_str (os_repr os) v \<in> set (snd st')"
    using sub unfolding submit_demo_def submit_named_def
    by (auto simp: lift_res_def print_line_def dict_item_def elim!: script_bind_InrE split: option.splits prod.splits)
  have mv: "acts api publish (view (fst st)) (view (fst st2))"
    by (rule acts_trans[OF movesD[OF moves_steps(1)[OF srv] e] movesD[OF moves_steps(1)[OF srv] p]])
  obtain i where i: "v = JStr (uuid_str i)" "get_run (view (fst st2)) i = None" "get_run (view (fst st3)) i \<noteq> None"
    using run_posted[OF srv acts_onward(1)[OF mv inv] r v] by blast
  then show ?thesis using acts_get_run[OF mv inv i(2)] st' by auto
qed

text \<open>The report: the status it insists on and the numbers it prints.\<close>

lemma report_run_served:
  assumes srv: "served api publish wi view os" "i < 16 ^ 32"
    and rep: "report_run os args token (uuid_str i) run st = (Inr u, st')"
  shows "map_of run ''status'' = Some (JStr ''SUCCEEDED'')"
    "\<exists>s. acts api publish (view (fst st)) s \<and> acts api publish s (view (fst st')) \<and>
       ''Metrics recorded: '' @ show_nat (length (filter (\<lambda>m. m_run_id m = i) (run_metrics s))) \<in> set (snd st')"
    "\<exists>s. acts api publish (view (fst st)) s \<and> acts api publish s (view (fst st')) \<and>
       ''Artifacts recorded: '' @ show_nat (length (filter (\<lambda>a. art_run_id a = i) (artifacts s))) \<in> set (snd st')"
proof -
  show "map_of run ''status'' = Some (JStr ''SUCCEEDED'')" using report_run_Inr[OF rep] by blast
  obtain ms st1 as st2 where ms: "get_list os token (''/runs/'' @ uuid_str i @ ''/metrics'') ''Metric read'' st = (Inr ms, st1)"
    and as: "get_list os token (''/runs/'' @ uuid_str i @ ''/artifacts'') ''Artifact metadata read'' st1 = (Inr as, st2)"
    and st': "fst st' = fst st2" "''Metrics recorded: '' @ show_nat (length ms) \<in> set (snd st')"
      "''Artifacts recorded: '' @ show_nat (length as) \<in> set (snd st')"
    using rep unfolding report_run_def
    by (auto simp: lift_res_def print_line_def dict_item_def elim!: script_bind_InrE split: option.splits if_splits prod.splits)
  note m1 = movesD[OF moves_steps(3)[OF srv(1)] ms] and m2 = movesD[OF moves_steps(3)[OF srv(1)] as]
  show "\<exists>s. acts api publish (view (fst st)) s \<and> acts api publish s (view (fst st')) \<and>
       ''Metrics recorded: '' @ show_nat (length (filter (\<lambda>m. m_run_id m = i) (run_metrics s))) \<in> set (snd st')"
    using counts_served(1)[OF srv ms] acts_trans[OF m2] st'(1,2) by metis
  show "\<exists>s. acts api publish (view (fst st)) s \<and> acts api publish s (view (fst st')) \<and>
       ''Artifacts recorded: '' @ show_nat (length (filter (\<lambda>a. art_run_id a = i) (artifacts s))) \<in> set (snd st')"
    using counts_served(2)[OF srv as] acts_trans[OF _ m1] st'(1,3) by metis
qed


text \<open>
  C40. What the demonstration reports is so. Whatever else happens in the platform meanwhile, and whatever the
  server answers to other requests: if the script ends with exit code 0, then the run it has announced
  was created during the script's time and stands in the database as succeeded, for good, and the numbers
  of metrics and artifacts it prints are those of the run's rows at a moment of that time.
\<close>

theorem demo_success_is_real:
  assumes srv: "served api publish wi view os" and inv: "platform_inv (view w)"
    and main: "demo_main os args w = Some (Inr 0, w', out)" and ids: "\<forall>q\<in>set (runs (view w')). r_id q < 16 ^ 32"
  shows "\<exists>i r s1 s2. ''Submitted run '' @ uuid_str i \<in> set out \<and> get_run (view w) i = None \<and>
    get_run (view w') i = Some r \<and> r_status r = SUCCEEDED \<and>
    acts api publish (view w) s1 \<and> acts api publish s1 (view w') \<and>
    ''Metrics recorded: '' @ show_nat (length (filter (\<lambda>m. m_run_id m = i) (run_metrics s1))) \<in> set out \<and>
    acts api publish (view w) s2 \<and> acts api publish s2 (view w') \<and>
    ''Artifacts recorded: '' @ show_nat (length (filter (\<lambda>a. art_run_id a = i) (artifacts s2))) \<in> set out"
proof -
  obtain u where d: "run_demo os args (w, []) = Some (Inr u, w', out)"
    using main by (auto simp: demo_main_def split: if_splits option.splits prod.splits sum.splits)
  then obtain token rid st1 run st2 where
    sub: "script_bind (sign_in_demo os args) (\<lambda>token. script_bind (submit_demo os token)
        (\<lambda>v. lift_res (Inr (token, py_str (os_repr os) v)))) (w, []) = (Inr (token, rid), st1)"
    and poll: "poll_run os args token rid (os_monotonic os (fst st1) + da_timeout_seconds args) None st1 = Some (Inr run, st2)"
    and rep: "report_run os args token rid run st2 = (Inr u, w', out)"
    by (auto simp: run_demo_def split: prod.splits sum.splits option.splits)
  obtain tk st0 v where si: "sign_in_demo os args (w, []) = (Inr tk, st0)" and sb: "submit_demo os tk st0 = (Inr v, st1)"
    and rid: "token = tk" "rid = py_str (os_repr os) v"
    using sub by (auto simp: lift_res_def elim!: script_bind_InrE)
  have m0: "acts api publish (view w) (view (fst st0))" using movesD[OF moves_script(1)[OF srv] si] by simp
  obtain i where i: "v = JStr (uuid_str i)" "get_run (view (fst st0)) i = None" "get_run (view (fst st1)) i \<noteq> None"
      "''Submitted run '' @ uuid_str i \<in> set (snd st1)"
    using submit_served[OF srv acts_onward(1)[OF m0 inv] sb] by blast
  note m1 = acts_trans[OF movesD[OF moves_script(2)[OF srv] sb] m0] and m3 = movesD[OF moves_script(4)[OF srv] rep, unfolded fst_conv]
  have rid': "rid = uuid_str i" using rid(2) i(1) by simp
  have new: "get_run (view w) i = None" by (rule acts_get_run[OF m0 inv i(2)])
  have polled: "poll_served api publish view i run st1 st2"
    using poll_run_served[OF poll[unfolded rid'] srv, of run st2] by simp
  then have m2: "acts api publish (view (fst st1)) (view (fst st2))" by (simp add: poll_served_def)
  note inv1 = acts_onward(1)[OF m1 inv]
  have all: "acts api publish (view (fst st1)) (view w')" by (rule acts_trans[OF m3 m2])
  have inv': "platform_inv (view w')" by (rule acts_onward(1)[OF all inv1])
  obtain q where q: "get_run (view w') i = Some q" using acts_get_run[OF all inv1] i(3) by fastforce
  then have small: "i < 16 ^ 32" using ids get_run_SomeD[OF q] by auto
  note rr = report_run_served[OF srv small rep[unfolded rid']]
  obtain s r where s: "acts api publish (view (fst st1)) s" "acts api publish s (view (fst st2))" "get_run s i = Some r"
      "status_value (r_status r) = ''SUCCEEDED''"
    using polled small rr(1) by (auto simp: poll_served_def row_seen_def)
  then have "r_status r = SUCCEEDED" by (cases "r_status r") simp_all
  then obtain r' where "get_run (view w') i = Some r'" "r_status r' = SUCCEEDED"
    using finished_for_good[OF acts_onward(2)[OF acts_trans[OF m3 s(2)]] _ inv' s(3)] acts_onward(1)[OF s(1) inv1]
    by (auto simp: TERMINAL_STATUSES_def)
  moreover have "''Submitted run '' @ uuid_str i \<in> set out"
    using i(4) polled report_run_Inr[OF rep] by (auto simp: poll_served_def)
  moreover note rr(2,3)[unfolded fst_conv snd_conv]
  ultimately show ?thesis using new acts_trans[OF _ acts_trans[OF m2 m1]] by blast
qed


section \<open>An instance\<close>

interpretation refs_kept: execution_invariant "\<lambda>s. lifecycle_inv s \<and> run_refs s = rs \<and> users s = us" for rs us
  by unfold_locales (auto simp: progress_def)

lemma demo_served:
  assumes "users s = [demo_user]"
  shows "authorise demo_api (demo_call demo_user) req (begin_transaction s) = permitted req (Inr demo_user)"
  using demo_signed_in[of demo_user "begin_transaction s"] assms by (simp add: authorise_def demo_user_def get_user_def)

text \<open>The run of the small example, from its submission to its end.\<close>

lemma demo_history:
  "\<exists>r s1 s4 r4. serve demo_api (demo_call demo_user) (CreateRun demo_body) (Map.empty, demo_db) = (Answered 201 (ARun r), Map.empty, s1) \<and>
     acts demo_api publish s1 s4 \<and> get_run s1 (r_id r) = Some r \<and> r_status r = QUEUED \<and>
     get_run s4 (r_id r) = Some r4 \<and> r_status r4 = SUCCEEDED \<and>
     users s1 = [demo_user] \<and> users s4 = [demo_user] \<and> (\<forall>q\<in>set (runs s4). r_id q < 16 ^ 32)"
proof -
  let ?s0 = "begin_transaction demo_db" and ?cid = "''c''"
  have s0: "?s0 = demo_db\<lparr>ticks := 1\<rparr>" by (simp add: begin_transaction_def now_utc_def demo_db_def)
  obtain r s1 where c: "create_queued_run strict_pydantic default_settings ?cid demo_body 1 ?s0 = Inr (r, s1)"
    and s1: "runs s1 = runs demo_db @ [r]" "r_status r = QUEUED" "workers s1 = [demo_worker]"
      "resource_allocations s1 = [demo_lease]" "clock s1 = clock demo_db" "ticks s1 \<le> 10" "next_uuid s1 = 107"
      "r_requested_cpu r = 1" "r_requested_memory_mb r = 512"
    unfolding s0 using demo_submit[of 1] by auto
  have body: "run_create_ok demo_body" "rc_template_key demo_body = ''slow-demonstration''" "rc_template_version demo_body = ''1.0.0''"
    by (simp_all add: run_create_ok_def demo_body_def)
  have cid: "1 \<le> length ?cid" "length ?cid \<le> 128" by simp_all
  have inv: "platform_inv ?s0" "records_inv ?s0"
    by (rule begin_transaction_inv(1)[OF demo_platform_inv], unfold s0) (simp add: records_inv_def demo_defs)
  note q = create_queued_run_inv[OF platform_invD(1,2)[OF inv(1)] body(1) cid c]
  have call: "call_id (demo_call demo_user) = ?cid" by (simp add: demo_call_def dispatch_correlation_id_def)
  have x: "get_experiment_or_404 ?s0 (rc_experiment_id demo_body) = Inr demo_experiment"
    unfolding s0 by (simp add: get_experiment_or_404_def get_experiment_def demo_defs demo_body_def)
  have api: "ap_settings demo_api = default_settings" "ap_pydantic demo_api = strict_pydantic" by (simp_all add: demo_api_def)
  have sv: "serve demo_api (demo_call demo_user) (CreateRun demo_body) (Map.empty, demo_db) = (Answered 201 (ARun r), Map.empty, s1)"
  proof -
    have u: "users demo_db = [demo_user]" "u_id demo_user = 1" by (simp_all add: demo_db_def demo_user_def)
    have "permitted (CreateRun demo_body) (Inr demo_user) = Inr demo_user"
      by (simp add: demo_user_def researcher_user_def require_roles_def)
    with c x body(1) show ?thesis
      by (simp add: serve_private demo_served[OF u(1)] u(2) serve_as_def check_that_def commits_def create_run_def
          get_experiment_or_404_def call api respond_def)
  qed
  have m1: "acts demo_api publish demo_db s1" by (rule act_acts.more[OF act_acts.nothing act_acts.request[OF sv]])
  have dst1: "distinct (map r_id (runs s1))" using q(1) by (simp add: lifecycle_inv_def book_inv_def ids_inv_def)
  have g1: "get_run s1 (r_id r) = Some r" using get_row_in[OF dst1, of r] s1(1) by (simp add: get_run_def)
  obtain n s2 where p: "schedule_once s1 default_settings no_locks = Inr (n, s2)"
    using schedule_once_ok[OF q(1), of default_settings no_locks] by metis
  have m2: "acts demo_api publish s1 s2"
    by (rule act_acts.more[OF act_acts.nothing act_acts.pass[of _ demo_api, unfolded api, OF p]])
  have adv: "run_refs s2 = run_refs s1" "users s2 = users s1"
    using schedule_once_advances[OF p dst1] by (simp_all add: advances_def progress_def)
  have car: "carries s1 s2" by (rule carrying.schedule_once_closed[OF p dst1])
  note start = demo_pass_start_of[OF s1(3-6)]
  have qd: "r \<in> set (queued_runs (pass_start s1 default_settings no_locks) no_locks)"
    unfolding start(1) by (simp add: queued_runs_def s1(1,2) no_locks_def demo_db_def demo_run_def)
  have "next_uuid s2 \<le> 707" using pass_draws[OF p] by (simp add: start(1) s1(7))
  then have ids: "next_uuid s2 \<le> 16 ^ 32" by simp
  have rt: "calm demo_rt" "lib_pydantic (rt_lib demo_rt) = strict_pydantic" "ex_db (demo_exec s2) = s2"
      "\<forall>st key data mime. fst (rt_put demo_rt st key data mime) = Inr ()"
    by (simp_all add: calm_def demo_rt_def demo_library_def demo_exec_def)
  from q(1) p qd show ?thesis
  proof (cases rule: pass_leases_or_full)
    case full
    then show ?thesis using demo_pass_room[OF s1(1,2,8,9) start(1) s1(3) p start(2)] by blast
  next
    case (leased a m)
    obtain pp x' r' where v: "model_validate strict_pydantic SlowDemoParameters (rc_parameters demo_body) = Inr (SlowParameters pp)"
      and ex: "process_event demo_rt (o_envelope m) (Some (a_worker_id a)) (demo_exec s2) = (Inr True, x')"
      and out: "slow_outcome demo_rt pp (ex_db x') (r_id r) r'"
      using announced_run_executes[OF inv c body(1) cid body(2,3) car only_outbox_refl ids leased(1-5,7,8) rt(1,2) strict_canonical rt(3,4)] by blast
    have "\<not> fail_intentionally pp" using v by (auto simp: demo_body_def validate_slow_def field_def strict_pydantic_def slow_ok_def)
    then have r': "get_run (ex_db x') (r_id r) = Some r'" "r_status r' = SUCCEEDED"
      using out by (simp_all add: slow_outcome_def finished_def)
    have idle: "rt_env demo_rt k t = t" "rt_expired_id demo_rt i = Inr i" for k t i by (simp_all add: demo_rt_def)
    have "act demo_api publish (ex_db (demo_exec s2)) (ex_db x')"
      by (rule act_acts.delivery[OF ex]) (auto simp: idle intro: act_acts.nothing)
    then have "acts demo_api publish s1 (ex_db x')" using act_acts.more[OF m2] by (simp add: rt(3))
    moreover have kept: "run_refs (ex_db x') = run_refs s2 \<and> users (ex_db x') = users s2"
      using refs_kept.process_event_inv[OF _ _ _ ex, of "run_refs s2" "users s2"] leased(4) by (simp add: env_ok_def idle rt(3))
    moreover have "\<forall>q\<in>set (runs (ex_db x')). r_id q < 16 ^ 32"
    proof
      fix z assume "z \<in> set (runs (ex_db x'))"
      then have "r_id z \<in> r_id ` set (runs s1)" using run_refs_ids[of "ex_db x'" s1] kept adv(1) by auto
      then have "r_id z < next_uuid s1" using q(1) by (auto simp: lifecycle_inv_def book_inv_def ids_inv_def)
      then show "r_id z < 16 ^ 32" using s1(7) by simp
    qed
    moreover have "users s1 = [demo_user]" using q(3) by (simp add: same_catalog_def s0 demo_db_def)
    ultimately show ?thesis using sv g1 s1(2) r' adv by auto
  qed
qed


lemma serve_keeps:
  assumes "req = ReadRun i \<or> req = ListMetrics i \<or> req = ListArtifacts i"
  shows "\<exists>reply st'. serve api cl req (st, s) = (reply, st', s)"
  using assms by (auto simp: serve_private serve_as_def reads_def Let_def split: sum.split)

text \<open>
  A server for the script: runs are the API's business, the other requests are answered with a token and an
  identifier. The state of the world is a stage: before the submission, after it, and after the first pause.
\<close>

definition demo_wire :: "'tok wire" where
  "demo_wire = \<lparr>wi_token = (\<lambda>_. []), wi_stamp = (\<lambda>_. []), wi_dumps = (\<lambda>_. []), wi_detail = JNull,
     wi_other = (\<lambda>_. \<lparr>hr_failed = True, hr_status = 500, hr_text = [], hr_json = Inl []\<rparr>)\<rparr>"

definition api_reply :: "request \<Rightarrow> db \<Rightarrow> http_response" where
  "api_reply req s = http_reply demo_wire (fst (serve demo_api (demo_call demo_user) req (Map.empty, s)))"

definition demo_outside :: "(nat \<Rightarrow> db) \<Rightarrow> uuid \<Rightarrow> nat outside" where
  "demo_outside view i =
     \<lparr>os_send = (\<lambda>q k.
        if hq_method q = ''POST'' then
          (if hq_path q = ''/runs'' then (if k = 0 then (Inr (api_reply (CreateRun demo_body) (view 0)), 1) else (Inl (RequestError []), k))
           else (Inr (json_reply (demo_wire :: unit wire) 200 (JObj [(''access_token'', JStr ''t''), (''id'', JStr ''x'')])), k))
        else if hq_path q = ''/runs/'' @ uuid_str i then (Inr (api_reply (ReadRun i) (view k)), k)
        else if hq_path q = ''/runs/'' @ uuid_str i @ ''/metrics'' then (Inr (api_reply (ListMetrics i) (view k)), k)
        else if hq_path q = ''/runs/'' @ uuid_str i @ ''/artifacts'' then (Inr (api_reply (ListArtifacts i) (view k)), k)
        else (Inl (RequestError []), k)),
      os_monotonic = (\<lambda>_. 0), os_sleep = (\<lambda>_ k. if k = 1 then 2 else k), os_stamp = (\<lambda>_. []), os_repr = (\<lambda>_. [])\<rparr>"

lemma demo_replies:
  assumes "users s = [demo_user]" "get_run s i = Some r"
  shows "api_reply (ReadRun i) s = json_reply (demo_wire :: (token_payload \<times> string) wire) 200 (run_body (\<lambda>_. []) r)"
    "\<exists>vs. api_reply (ListMetrics i) s = json_reply (demo_wire :: (token_payload \<times> string) wire) 200 (JList vs)"
    "\<exists>vs. api_reply (ListArtifacts i) s = json_reply (demo_wire :: (token_payload \<times> string) wire) 200 (JList vs)"
proof -
  have g: "get_run (begin_transaction s) i = Some r" using assms(2) by (simp add: get_run_def)
  then show "api_reply (ReadRun i) s = json_reply (demo_wire :: (token_payload \<times> string) wire) 200 (run_body (\<lambda>_. []) r)"
    "\<exists>vs. api_reply (ListMetrics i) s = json_reply (demo_wire :: (token_payload \<times> string) wire) 200 (JList vs)"
    "\<exists>vs. api_reply (ListArtifacts i) s = json_reply (demo_wire :: (token_payload \<times> string) wire) 200 (JList vs)"
    by (simp_all add: api_reply_def serve_private demo_served[OF assms(1)] serve_as_def reads_def respond_def http_reply_def
        read_run_def list_metrics_def list_artifacts_def get_run_or_404_def, simp_all add: demo_wire_def)
      (rule exI, rule refl)+
qed

lemma demo_outside_served:
  assumes create: "serve demo_api (demo_call demo_user) (CreateRun demo_body) (Map.empty, view 0) = (reply, st, view 1)"
    and later: "acts demo_api publish (view 1) (view 2)" and i: "i < 16 ^ 32"
  shows "served demo_api publish demo_wire view (demo_outside view i)"
  unfolding served_def
proof (intro conjI allI impI)
  have m1: "acts demo_api publish (view 0) (view 1)" by (rule act_acts.more[OF act_acts.nothing act_acts.request[OF create]])
  show "acts demo_api publish (view w) (view w')" if "os_send (demo_outside view i) q w = (r, w')" for q w r w'
    using that m1 by (auto simp: demo_outside_def act_acts.nothing split: if_splits)
  show "acts demo_api publish (view w) (view (os_sleep (demo_outside view i) d w))" for d w
    using later by (auto simp: demo_outside_def act_acts.nothing)
next
  fix q req w resp w'
  assume send: "os_send (demo_outside view i) q w = (Inr resp, w')" and route: "routed q req"
  have reply: "\<exists>cl st st' s s1 reply. acts demo_api publish (view w) s \<and> serve demo_api cl req (st, s) = (reply, st', s1) \<and>
      acts demo_api publish s1 (view w) \<and> api_reply req (view w) = http_reply demo_wire reply"
    if req: "req = ReadRun i \<or> req = ListMetrics i \<or> req = ListArtifacts i" for req
  proof -
    obtain rep st' where rep: "serve demo_api (demo_call demo_user) req (Map.empty, view w) = (rep, st', view w)"
      using serve_keeps[OF req, of demo_api "demo_call demo_user" Map.empty "view w"] by (elim exE) (rule that)
    then have "api_reply req (view w) = http_reply demo_wire rep" by (simp add: api_reply_def)
    with rep act_acts.nothing show ?thesis by blast
  qed
  show "\<exists>req cl st st' s s1 reply. routed q req \<and> acts demo_api publish (view w) s \<and> serve demo_api cl req (st, s) = (reply, st', s1) \<and>
      acts demo_api publish s1 (view w') \<and> resp = http_reply demo_wire reply"
    using route
  proof cases
    case (submission body)
    then have "w = 0" "w' = 1" "resp = http_reply demo_wire reply"
      using send create by (auto simp: demo_outside_def api_reply_def split: if_splits)
    then show ?thesis
      using create submission act_acts.nothing routed.submission[OF submission(2,3), of demo_body] by blast
  next
    case (reading j)
    then have "w' = w \<and> resp = api_reply (ReadRun i) (view w) \<and> j = i"
      using send i uuid_str_inj by (auto simp: demo_outside_def uuid_str_len split: if_splits)
    then show ?thesis using reply[of "ReadRun i"] route reading(1) by blast
  next
    case (measures j)
    then have "w' = w \<and> resp = api_reply (ListMetrics i) (view w) \<and> j = i"
      using send i uuid_str_inj by (auto simp: demo_outside_def uuid_str_len split: if_splits)
    then show ?thesis using reply[of "ListMetrics i"] route measures(1) by blast
  next
    case (files j)
    then have "w' = w \<and> resp = api_reply (ListArtifacts i) (view w) \<and> j = i"
      using send i uuid_str_inj by (auto simp: demo_outside_def uuid_str_len split: if_splits)
    then show ?thesis using reply[of "ListArtifacts i"] route files(1) by blast
  qed
qed


text \<open>The script, run against this server.\<close>

lemma demo_script_runs:
  assumes create: "serve demo_api (demo_call demo_user) (CreateRun demo_body) (Map.empty, view 0) = (Answered 201 (ARun r), st, view 1)"
    and r: "get_run (view 1) (r_id r) = Some r" "r_status r = QUEUED" "get_run (view 2) (r_id r) = Some r4" "r_status r4 = SUCCEEDED"
    and us: "users (view 1) = [demo_user]" "users (view 2) = [demo_user]"
  shows "\<exists>out. demo_main (demo_outside view (r_id r)) (default_args (\<lambda>_. None)) 0 = Some (Inr 0, 2, out)"
proof -
  let ?i = "r_id r" and ?os = "demo_outside view (r_id r)" and ?args = "default_args (\<lambda>_. None)"
  let ?wi = "demo_wire :: (token_payload \<times> string) wire"
  have ok: "hr_failed (json_reply wi 200 b) = False" "hr_json (json_reply wi c b) = Inr b" "hr_failed (json_reply wi 201 b) = False" for wi c b
    by (simp_all add: json_reply_def)
  note step = script_bind_def lift_res_def call_def post_object_def get_object_def get_list_def get_request_def print_line_def
    require_object_def require_json_def require_list_def dict_item_def Let_def ok
  have created: "api_reply (CreateRun demo_body) (view 0) = json_reply ?wi 201 (run_body (\<lambda>_. []) r)"
    using create by (simp add: api_reply_def http_reply_def) (simp add: demo_wire_def)
  have key: "py_str rp (JStr t) = t" for rp t by simp
  have si: "sign_in_demo ?os ?args (0, []) = (Inr ''t'', 0, [])"
    by (simp add: sign_in_demo_def step demo_outside_def)
  have sb: "\<exists>out. submit_demo ?os ''t'' (0, []) = (Inr (JStr (uuid_str ?i)), 1, out)"
    by (simp add: submit_demo_def submit_named_def step demo_outside_def created run_body_def id_json_def)
  have read: "\<exists>d out'. read_status ?os ''t'' (uuid_str ?i) prev (k, out) = (Inr (d, status_value (r_status q)), k, out') \<and>
      map_of d ''status'' = Some (JStr (status_value (r_status q)))"
    if "users (view k) = [demo_user]" "get_run (view k) ?i = Some q" for prev k out q
    using demo_replies(1)[OF that] by (simp add: read_status_def step demo_outside_def run_body_def split: option.split)
  obtain out1 where out1: "submit_demo ?os ''t'' (0, []) = (Inr (JStr (uuid_str ?i)), 1, out1)" using sb by blast
  obtain d1 out2 where r1: "read_status ?os ''t'' (uuid_str ?i) None (1, out1) = (Inr (d1, ''QUEUED''), 1, out2)"
    using read[OF us(1) r(1)] r(2) by fastforce
  obtain d2 out3 where r2: "read_status ?os ''t'' (uuid_str ?i) (Some ''QUEUED'') (2, out2) = (Inr (d2, ''SUCCEEDED''), 2, out3)"
    and d2: "map_of d2 ''status'' = Some (JStr ''SUCCEEDED'')"
    using read[OF us(2) r(3)] r(4) by fastforce
  have world: "os_monotonic ?os k = 0" "os_sleep ?os d 1 = 2" for k d by (simp_all add: demo_outside_def)
  have args: "da_timeout_seconds ?args = 60" "args_ok ?args" by (simp_all add: default_args_def args_ok_def)
  have "poll_run ?os ?args ''t'' (uuid_str ?i) 60 (Some ''QUEUED'') (2, out2) = Some (Inr d2, 2, out3)"
    by (subst poll_run.simps) (simp add: world r2 DEMO_TERMINAL_STATUSES_def)
  then have poll: "poll_run ?os ?args ''t'' (uuid_str ?i) 60 None (1, out1) = Some (Inr d2, 2, out3)"
    by (subst poll_run.simps) (simp add: world r1 DEMO_TERMINAL_STATUSES_def del: One_nat_def)
  obtain vs ws where "api_reply (ListMetrics ?i) (view 2) = json_reply ?wi 200 (JList vs)"
      "api_reply (ListArtifacts ?i) (view 2) = json_reply ?wi 200 (JList ws)"
    using demo_replies(2,3)[OF us(2) r(3)] by blast
  then have rep: "\<exists>out. report_run ?os ?args ''t'' (uuid_str ?i) d2 (2, out3) = (Inr (), 2, out)"
    by (simp add: report_run_def step d2 demo_outside_def uuid_str_len)
  then show ?thesis
    by (auto simp: demo_main_def run_demo_def script_bind_def lift_res_def si out1 poll args world simp del: One_nat_def)
qed

theorem demo_success_is_real_witness:
  "\<exists>view i out. served demo_api (kafka_publish open_producer) demo_wire view (demo_outside view i) \<and>
     demo_main (demo_outside view i) (default_args (\<lambda>_. None)) 0 = Some (Inr 0, 2, out) \<and> view 0 = demo_db \<and>
     (\<exists>j r. ''Submitted run '' @ uuid_str j \<in> set out \<and> get_run (view 2) j = Some r \<and> r_status r = SUCCEEDED)"
proof -
  obtain r s1 s4 r4 where h: "serve demo_api (demo_call demo_user) (CreateRun demo_body) (Map.empty, demo_db) = (Answered 201 (ARun r), Map.empty, s1)"
    "acts demo_api (kafka_publish open_producer) s1 s4" "get_run s1 (r_id r) = Some r" "r_status r = QUEUED"
    "get_run s4 (r_id r) = Some r4" "r_status r4 = SUCCEEDED" "users s1 = [demo_user]" "users s4 = [demo_user]"
    "\<forall>q\<in>set (runs s4). r_id q < 16 ^ 32"
    using demo_history by blast
  let ?view = "\<lambda>k :: nat. if k = 0 then demo_db else if k = 1 then s1 else s4"
  have i: "r_id r < 16 ^ 32" using h(9) get_run_SomeD[OF h(5)] by auto
  have srv: "served demo_api (kafka_publish open_producer) demo_wire ?view (demo_outside ?view (r_id r))"
    by (rule demo_outside_served[OF _ _ i]) (use h(1,2) in simp_all)
  obtain out where main: "demo_main (demo_outside ?view (r_id r)) (default_args (\<lambda>_. None)) 0 = Some (Inr 0, 2, out)"
    using demo_script_runs[of ?view r Map.empty r4] h by auto
  have inv: "platform_inv (?view 0)" using demo_platform_inv by simp
  have ids: "\<forall>q\<in>set (runs (?view 2)). r_id q < 16 ^ 32" using h(9) by simp
  from demo_success_is_real[OF srv inv main ids] srv main show ?thesis by (intro exI[of _ ?view]) auto
qed

end
