(* ===== verification/Secrecy.thy ===== *)
theory Secrecy
  imports Api_Properties
begin

text \<open>
  The password hashes of the accounts (\<open>models.py\<close>, \<open>security.py\<close>) and the API: no endpoint reads them
  but the sign-in, and that one only through the verdict of the hasher. The statement is one of
  noninterference: replacing the hashes in the database commutes with serving a request. The rules in
  \<open>blind\<close> say it of the operations the endpoints are built from.
\<close>

definition rehashed_user :: "(user \<Rightarrow> string) \<Rightarrow> user \<Rightarrow> user" where
  "rehashed_user h u = u\<lparr>u_password_hash := h u\<rparr>"

definition rehashed :: "(user \<Rightarrow> string) \<Rightarrow> db \<Rightarrow> db" where
  "rehashed h s = s\<lparr>users := map (rehashed_user h) (users s)\<rparr>"

abbreviation lifted :: "(user \<Rightarrow> string) \<Rightarrow> ('a \<times> db) res \<Rightarrow> ('a \<times> db) res" where
  "lifted h \<equiv> map_sum id (apsnd (rehashed h))"

named_theorems blind

section \<open>The tables and the primitives\<close>

lemma rehashed_user_simps [simp]:
  "u_id (rehashed_user h u) = u_id u" "u_email (rehashed_user h u) = u_email u" "u_role (rehashed_user h u) = u_role u"
  "u_created_at (rehashed_user h u) = u_created_at u" "u_password_hash (rehashed_user h u) = h u"
  by (simp_all add: rehashed_user_def)

lemma rehashed_simps [simp]:
  "users (rehashed h s) = map (rehashed_user h) (users s)" "projects (rehashed h s) = projects s"
  "experiments (rehashed h s) = experiments s" "training_templates (rehashed h s) = training_templates s"
  "runs (rehashed h s) = runs s" "run_parameters (rehashed h s) = run_parameters s" "run_metrics (rehashed h s) = run_metrics s"
  "run_logs (rehashed h s) = run_logs s" "artifacts (rehashed h s) = artifacts s" "run_events (rehashed h s) = run_events s"
  "workers (rehashed h s) = workers s" "resource_allocations (rehashed h s) = resource_allocations s"
  "outbox_messages (rehashed h s) = outbox_messages s" "clock (rehashed h s) = clock s" "ticks (rehashed h s) = ticks s"
  "tx_now (rehashed h s) = tx_now s" "next_uuid (rehashed h s) = next_uuid s" "collation (rehashed h s) = collation s"
  by (simp_all add: rehashed_def)

lemma rehashed_updates [blind]:
  "projects_update f1 (rehashed h s) = rehashed h (projects_update f1 s)"
  "experiments_update f2 (rehashed h s) = rehashed h (experiments_update f2 s)"
  "runs_update f3 (rehashed h s) = rehashed h (runs_update f3 s)"
  "run_parameters_update f4 (rehashed h s) = rehashed h (run_parameters_update f4 s)"
  "run_events_update f5 (rehashed h s) = rehashed h (run_events_update f5 s)"
  "workers_update f6 (rehashed h s) = rehashed h (workers_update f6 s)"
  "resource_allocations_update f7 (rehashed h s) = rehashed h (resource_allocations_update f7 s)"
  "outbox_messages_update f8 (rehashed h s) = rehashed h (outbox_messages_update f8 s)"
  "ticks_update f9 (rehashed h s) = rehashed h (ticks_update f9 s)"
  "tx_now_update f10 (rehashed h s) = rehashed h (tx_now_update f10 s)"
  "next_uuid_update f11 (rehashed h s) = rehashed h (next_uuid_update f11 s)"
  by (simp_all add: rehashed_def)

lemma same_accounts [simp]: "u_id ` rehashed_user h ` set us = u_id ` set us"
  by (simp add: image_image)

lemma get_row_map: "(\<And>x. key (f x) = key x) \<Longrightarrow> get_row key k (map f xs) = map_option f (get_row key k xs)"
  by (induction xs) (simp_all add: get_row_def)

lemma find_map: "(\<And>x. P (f x) = P x) \<Longrightarrow> find P (map f xs) = map_option f (find P xs)"
  by (induction xs) simp_all

lemma get_rehashed [blind]:
  "get_run (rehashed h s) = get_run s" "get_worker (rehashed h s) = get_worker s" "get_project (rehashed h s) = get_project s"
  "get_experiment (rehashed h s) = get_experiment s" "get_template (rehashed h s) = get_template s"
  "get_user (rehashed h s) i = map_option (rehashed_user h) (get_user s i)"
  by (simp_all add: fun_eq_iff get_run_def get_worker_def get_project_def get_experiment_def get_template_def get_user_def get_row_map)

lemma primitives_blind [blind]:
  "now_utc (rehashed h s) = apsnd (rehashed h) (now_utc s)" "uuid4 (rehashed h s) = apsnd (rehashed h) (uuid4 s)"
  "begin_transaction (rehashed h s) = rehashed h (begin_transaction s)"
  "save_worker (rehashed h s) wid f = rehashed h (save_worker s wid f)"
  "refresh_worker_capacity (rehashed h s) wid = rehashed h (refresh_worker_capacity s wid)"
  "extend_leases (rehashed h s) wid t = rehashed h (extend_leases s wid t)"
  "add_event (rehashed h s) rid ty p n md = rehashed h (add_event s rid ty p n md)"
  "add_outbox (rehashed h s) topic key ev = rehashed h (add_outbox s topic key ev)"
  "add_parameter (rehashed h s) rid nm v = rehashed h (add_parameter s rid nm v)"
  by (simp_all add: now_utc_def uuid4_def save_worker_def refresh_worker_capacity_def extend_leases_def add_event_def
      add_outbox_def add_parameter_def begin_transaction_def Let_def rehashed_updates)

lemma lifted_bind [blind]:
  "res_bind (lifted h m) f = res_bind m (\<lambda>y. f (fst y, rehashed h (snd y)))"
  "map_sum id q (res_bind k g) = res_bind k (\<lambda>x. map_sum id q (g x))"
  by (simp_all add: res_bind_def split: sum.split prod.split)

lemma bind_bind: "res_bind (res_bind m f) g = res_bind m (\<lambda>x. res_bind (f x) g)"
  by (simp add: res_bind_def split: sum.split)

lemma bind_mapped [blind]: "res_bind (map_sum id (rehashed h) m) f = res_bind m (\<lambda>s. f (rehashed h s))"
  by (simp add: res_bind_def split: sum.split)

lemma lifted_cases [blind]:
  "map_sum id q (if b then m else m') = (if b then map_sum id q m else map_sum id q m')"
  "map_sum id q (case v of None \<Rightarrow> n | Some x \<Rightarrow> g x) = (case v of None \<Rightarrow> map_sum id q n | Some x \<Rightarrow> map_sum id q (g x))"
  by (simp_all split: option.split)

lemma flush_run_blind [blind]: "flush_run (rehashed h s) r = lifted h (flush_run s r)"
  by (simp add: flush_run_def Let_def blind split: option.split)

lemma transition_blind [blind]:
  "transition_and_flush (rehashed h s) r t ty md f = lifted h (transition_and_flush s r t ty md f)"
  by (simp add: transition_and_flush_def transition_run_def blind case_prod_unfold Let_def bind_bind)

lemma add_parameters_blind [blind]:
  "fold (\<lambda>p s. add_parameter s rid (fst p) (snd p)) ps (rehashed h s) =
   rehashed h (fold (\<lambda>p s. add_parameter s rid (fst p) (snd p)) ps s)"
  by (induction ps arbitrary: s) (auto simp: blind)

lemma insert_run_blind [blind]: "insert_run (rehashed h s) r = map_sum id (rehashed h) (insert_run s r)"
  by (simp add: insert_run_def blind cong: option.case_cong if_cong)

lemma add_outbox_event_blind [blind]:
  "add_outbox_event cfg cid r ty payload (rehashed h s) = map_sum id (rehashed h) (add_outbox_event cfg cid r ty payload s)"
  by (simp add: add_outbox_event_def blind case_prod_unfold Let_def res_bind_def split: sum.split)

section \<open>The endpoints that write\<close>

lemma or_404_blind [blind]:
  "get_project_or_404 (rehashed h s) = get_project_or_404 s" "get_experiment_or_404 (rehashed h s) = get_experiment_or_404 s"
  "get_run_or_404 (rehashed h s) = get_run_or_404 s" "get_worker_or_404 (rehashed h s) = get_worker_or_404 s"
  "ensure_unique_name (rehashed h s) = ensure_unique_name s" "ensure_run_control (rehashed_user h u) = ensure_run_control u"
  "experiment_row_ok (rehashed h s) = experiment_row_ok s" "find_template (rehashed h s) = find_template s"
  "stored_parameters (rehashed h s) = stored_parameters s"
  by (simp_all add: fun_eq_iff get_project_or_404_def get_experiment_or_404_def get_run_or_404_def get_worker_or_404_def
      ensure_unique_name_def ensure_run_control_def experiment_row_ok_def find_template_def stored_parameters_def blind)

lemma catalog_blind [blind]:
  "create_project b (rehashed_user h u) (rehashed h s) = lifted h (create_project b u s)"
  "update_project i pb (rehashed h s) = lifted h (update_project i pb s)"
  "delete_project i (rehashed h s) = map_sum id (rehashed h) (delete_project i s)"
  "create_experiment xb (rehashed_user h u) (rehashed h s) = lifted h (create_experiment xb u s)"
  "update_experiment i xu (rehashed h s) = lifted h (update_experiment i xu s)"
  "delete_experiment i (rehashed h s) = map_sum id (rehashed h) (delete_experiment i s)"
  by (simp_all add: create_project_def update_project_def delete_project_def create_experiment_def update_experiment_def
      delete_experiment_def blind case_prod_unfold Let_def cong: if_cong option.case_cong)

lemma runs_blind [blind]:
  "create_run px cfg cid b (rehashed_user h u) (rehashed h s) = lifted h (create_run px cfg cid b u s)"
  "cancel_run cfg cid i (rehashed_user h u) (rehashed h s) = lifted h (cancel_run cfg cid i u s)"
  "update_run_metadata i mb (rehashed_user h u) (rehashed h s) = lifted h (update_run_metadata i mb u s)"
  by (simp_all add: create_run_def create_queued_run_def cancel_run_def update_run_metadata_def blind case_prod_unfold Let_def
      cong: option.case_cong if_cong)

lemma retry_run_blind [blind]:
  "retry_run px cfg cid i ps (rehashed_user h u) (rehashed h s) = lifted h (retry_run px cfg cid i ps u s)"
  by (simp add: retry_run_def retry_row_def blind case_prod_unfold Let_def cong: option.case_cong if_cong)

lemma workers_blind [blind]:
  "register_endpoint b (rehashed h s) = lifted h (register_endpoint b s)"
  "heartbeat_endpoint cfg i (rehashed h s) = lifted h (heartbeat_endpoint cfg i s)"
  by (auto simp: register_endpoint_def register_worker_def heartbeat_endpoint_def heartbeat_worker_def blind case_prod_unfold Let_def
      split: option.split)


section \<open>The endpoints that read\<close>

lemma listings_blind [blind]:
  "list_projects p n q k a (rehashed h s) = list_projects p n q k a s"
  "list_experiments p n q x t k a (rehashed h s) = list_experiments p n q x t k a s"
  "list_templates (rehashed h s) = list_templates s" "read_template key v (rehashed h s) = read_template key v s"
  "list_runs p n xo so rk a (rehashed h s) = list_runs p n xo so rk a s" "list_workers (rehashed h s) = list_workers s"
  by (cases k; simp add: list_projects_def matching_projects_def list_experiments_def matching_experiments_def
      list_templates_def read_template_def list_runs_def matching_runs_def list_workers_def)+

lemma run_reads_blind [blind]:
  "list_parameters i (rehashed h s) = list_parameters i s" "list_metrics i (rehashed h s) = list_metrics i s"
  "list_logs i (rehashed h s) = list_logs i s" "list_events i (rehashed h s) = list_events i s"
  "list_artifacts i (rehashed h s) = list_artifacts i s" "read_run i (rehashed h s) = read_run i s"
  "read_project i (rehashed h s) = read_project i s" "read_experiment i (rehashed h s) = read_experiment i s"
  "read_worker i (rehashed h s) = read_worker i s"
  "download_artifact get i j (rehashed h s) w = download_artifact get i j s w"
  by (simp_all add: list_parameters_def list_metrics_def list_logs_def list_events_def list_artifacts_def read_run_def
      read_project_def read_experiment_def read_worker_def download_artifact_def blind)

lemma compare_blind [blind]: "compare_runs ids (rehashed h s) = compare_runs ids s"
proof -
  have "comparison_of (rehashed h s) = comparison_of s"
    by (simp add: fun_eq_iff comparison_of_def run_metric_values_def blind)
  then show ?thesis by (simp add: compare_runs_def Let_def)
qed

lemma reports_blind [blind]:
  "platform_summary_of (rehashed h s) = platform_summary_of s" "prometheus_metrics cfg (rehashed h s) = prometheus_metrics cfg s"
  by (simp_all add: platform_summary_of_def prometheus_metrics_def refresh_domain_metrics_def count_status_def
      run_durations_def online_workers_def)

lemma user_response_blind [blind]:
  "user_response_of lib (rehashed_user h u) = user_response_of lib u" "current_user lib (rehashed_user h u) = current_user lib u"
  by (simp_all add: current_user_def user_response_of_def split: option.split)

section \<open>Serving a request\<close>

definition verdicts_kept :: "'tok auth_library \<Rightarrow> (user \<Rightarrow> string) \<Rightarrow> request \<Rightarrow> db \<Rightarrow> bool" where
  "verdicts_kept lib h req s = (case req of
     Public (SignIn b) \<Rightarrow> \<forall>u\<in>set (users s). verify_password lib (si_password b) (h u) =
       verify_password lib (si_password b) (u_password_hash u)
   | _ \<Rightarrow> True)"

lemma sign_in_blind:
  assumes "\<forall>u\<in>set (users s). verify_password lib (si_password b) (h u) = verify_password lib (si_password b) (u_password_hash u)"
  shows "sign_in lib cfg now b (rehashed h s) = sign_in lib cfg now b s"
proof -
  have "create_access_token lib cfg now (rehashed_user h u) = create_access_token lib cfg now u"
    for u
    by (simp add: create_access_token_def token_payload_of_def)
  then show ?thesis using assms by (auto simp: sign_in_def find_map blind dest!: find_SomeD split: option.split cong: if_cong)
qed

lemma commits_blind [blind]:
  "commits f (lifted h m) = apsnd (map_option (rehashed h)) (commits f m)"
  by (cases m) (auto simp: commits_def)

lemma commits_deletion [blind]:
  "commits f (res_bind m (\<lambda>s'. Inr ((), rehashed h s'))) =
   apsnd (map_option (rehashed h)) (commits f (res_bind m (\<lambda>s'. Inr ((), s'))))"
  by (cases m) (auto simp: commits_def)

lemma reads_apsnd [blind]: "apsnd (map_option f) (reads g m) = reads g m"
  by (simp add: reads_def)

lemma handle_blind:
  assumes "as_public r = None"
  shows "handle api cid now (rehashed_user h u) r w (rehashed h s) =
    apfst (apsnd (map_option (rehashed h))) (handle api cid now u r w s)"
  using assms by (cases r) (simp_all add: blind case_prod_unfold Let_def)

lemma authorise_blind: "authorise api call req (rehashed h s) = map_sum id (rehashed_user h) (authorise api call req s)"
proof -
  have c: "get_current_user lib cfg now cr (rehashed h s) = map_sum id (rehashed_user h) (get_current_user lib cfg now cr s)"
    for lib :: "'t auth_library" and cfg now cr
    by (auto simp: get_current_user_def blind split: option.split sum.split prod.split)
  have p: "permitted req (map_sum id (rehashed_user h) m) = map_sum id (rehashed_user h) (permitted req m)" for m
    by (cases m; cases req) (simp_all add: researcher_user_def administrator_user_def require_roles_def)
  show ?thesis by (simp add: authorise_def c p)
qed

text \<open>
  C35. The password hashes of the accounts are secret. Replacing every hash in the database by any
  other text commutes with serving a request: the reply, the artifact store and every other table are the
  same, whatever the request and its headers, and the accounts keep their replaced hashes. A sign-in is the only
  exception, and it depends on the hashes only through the hasher's verdict on the password it carries.
  So no reply, and nothing a request stores, tells more about a hash than such a verdict.
\<close>

theorem password_hashes_stay_secret:
  assumes "verdicts_kept (ap_lib api) h req s"
  shows "serve api call req (w, rehashed h s) = apsnd (apsnd (rehashed h)) (serve api call req (w, s))"
proof (cases "as_public req")
  case None
  then have "as_public r = None" if "validated (ap_lib api) req = Inr r" for r
    using that by (cases req) (auto simp: check_that_def res_bind_Inr_iff split: if_splits)
  with None show ?thesis
    by (auto simp: serve_def Let_def blind authorise_blind serve_as_def handle_blind case_prod_unfold
        split: sum.split option.split)
next
  case (Some p)
  have "handle_public api now q (rehashed h s0) = handle_public api now q s0"
    if v: "validated_public (ap_lib api) p = Inr q" and us: "users s0 = users s" for now q s0
  proof (cases q)
    case (SignIn b)
    then obtain b' where "p = SignIn b'" "si_password b' = si_password b"
      using v by (cases p) (auto simp: res_bind_Inr_iff validate_sign_in_def split: option.splits if_splits)
    then show ?thesis
      using assms Some us SignIn by (cases req) (auto simp: verdicts_kept_def sign_in_blind)
  qed (simp_all add: blind)
  with Some show ?thesis
    by (auto simp: serve_def Let_def blind serve_public_def split: sum.split)
qed

theorem password_hashes_stay_secret_witness:
  "\<exists>u. fst (serve demo_api (demo_call demo_user) Me (Map.empty, rehashed (\<lambda>_. ''another'') demo_db)) = Answered 200 (AUser u) \<and>
     ur_email u = ''ada@example.org''"
proof -
  let ?s = "begin_transaction demo_db"
  have u: "authorise demo_api (demo_call demo_user) Me ?s = Inr demo_user"
    using demo_signed_in[of demo_user ?s] by (simp add: authorise_def get_user_def demo_defs)
  have "fst (serve demo_api (demo_call demo_user) Me (Map.empty, demo_db)) =
      Answered 200 (AUser \<lparr>ur_id = u_id demo_user, ur_email = u_email demo_user, ur_role = u_role demo_user, ur_created_at = u_created_at demo_user\<rparr>)"
    using u by (simp add: serve_def Let_def serve_as_def reads_def current_user_def user_response_of_def demo_api_def demo_auth_def respond_def)
  then show ?thesis
    using password_hashes_stay_secret[of demo_api "\<lambda>_. ''another''" Me demo_db "demo_call demo_user" Map.empty]
    by (simp add: verdicts_kept_def demo_user_def)
qed

end
