(* ===== verification/Seed.thy ===== *)
theory Seed
  imports Security Templates
begin

text \<open>
  Demonstration data (\<open>seed.py\<close>, \<open>cli.py\<close>): the demonstration users and the templates of the registry
  are created when they are missing and brought up to date when they exist. The JSON schema of a
  parameter model is pydantic's (parameter \<open>schema_of\<close>), \<open>salt\<close> is the hasher's random salt.
\<close>

record demo_account =
  du_email :: string
  du_password :: string
  du_role :: role

definition DEMO_USERS :: "demo_account list" where
  "DEMO_USERS =
     [\<lparr>du_email = ''viewer@runscope.dev'', du_password = ''ViewerDemo123!'', du_role = VIEWER\<rparr>,
      \<lparr>du_email = ''researcher@runscope.dev'', du_password = ''ResearcherDemo123!'', du_role = RESEARCHER\<rparr>,
      \<lparr>du_email = ''admin@runscope.dev'', du_password = ''AdminDemo123!'', du_role = ADMINISTRATOR\<rparr>]"

text \<open>An existing user gets the role and, when it has none, the password; an unchanged row is not written.\<close>

definition settle_user :: "'tok auth_library \<Rightarrow> (string \<Rightarrow> nat) \<Rightarrow> demo_account \<Rightarrow> time \<Rightarrow> user \<Rightarrow> user" where
  "settle_user lib salt d now u =
     (let u1 = u\<lparr>u_role := du_role d\<rparr>;
          u2 = (if u_password_hash u1 = [] then u1\<lparr>u_password_hash := hash_password lib (salt (u_email u)) (du_password d)\<rparr> else u1)
      in if u2 = u then u else u2\<lparr>u_updated_at := now\<rparr>)"

definition seed_user ::
  "'tok auth_library \<Rightarrow> (string \<Rightarrow> nat) \<Rightarrow> demo_account \<Rightarrow> nat \<times> db \<Rightarrow> nat \<times> db" where
  "seed_user lib salt d = (\<lambda>(created, s).
     let email = normalize_email (du_email d)
     in case find (\<lambda>u. u_email u = email) (users s) of
          None \<Rightarrow>
            let (uid, s1) = uuid4 s
            in (Suc created, users_update (\<lambda>us. us @ [\<lparr>u_id = uid, u_email = email,
                 u_password_hash = hash_password lib (salt email) (du_password d), u_role = du_role d,
                 u_created_at = tx_now s1, u_updated_at = tx_now s1\<rparr>]) s1)
        | Some u \<Rightarrow> (created, users_update (upd_row u_id (u_id u) (\<lambda>_. settle_user lib salt d (tx_now s) u)) s))"

definition seed_demo_users :: "'tok auth_library \<Rightarrow> (string \<Rightarrow> nat) \<Rightarrow> db \<Rightarrow> nat \<times> db" where
  "seed_demo_users lib salt s = fold (seed_user lib salt) DEMO_USERS (0, begin_transaction s)"

definition seed_template ::
  "(parameter_model \<Rightarrow> dict) \<Rightarrow> template_definition \<Rightarrow> nat \<times> db \<Rightarrow> nat \<times> db" where
  "seed_template schema_of d = (\<lambda>(created, s).
     case find (\<lambda>t. t_key t = td_key d \<and> t_version t = td_version d) (training_templates s) of
       None \<Rightarrow>
         let (tid, s1) = uuid4 s
         in (Suc created, training_templates_update (\<lambda>ts. ts @ [\<lparr>t_id = tid, t_key = td_key d, t_name = td_name d,
              t_description = td_description d, t_version = td_version d,
              t_parameter_schema = schema_of (td_parameter_model d), t_enabled = True, t_created_at = tx_now s1\<rparr>]) s1)
     | Some t \<Rightarrow>
         (created, training_templates_update (upd_row t_id (t_id t) (\<lambda>_. t\<lparr>t_name := td_name d,
            t_description := td_description d, t_parameter_schema := schema_of (td_parameter_model d)\<rparr>)) s))"

definition seed_training_templates :: "(parameter_model \<Rightarrow> dict) \<Rightarrow> db \<Rightarrow> nat \<times> db" where
  "seed_training_templates schema_of s = fold (seed_template schema_of) registry (0, begin_transaction s)"

definition seed_demo_data ::
  "'tok auth_library \<Rightarrow> (string \<Rightarrow> nat) \<Rightarrow> (parameter_model \<Rightarrow> dict) \<Rightarrow> db \<Rightarrow> (nat \<times> nat) \<times> db" where
  "seed_demo_data lib salt schema_of s =
     (let (us, s1) = seed_demo_users lib salt s; (ts, s2) = seed_training_templates schema_of s1
      in ((us, ts), s2))"

text \<open>The message the command prints.\<close>

definition seed_command ::
  "'tok auth_library \<Rightarrow> (string \<Rightarrow> nat) \<Rightarrow> (parameter_model \<Rightarrow> dict) \<Rightarrow> db \<Rightarrow> string \<times> db" where
  "seed_command lib salt schema_of s =
     (let ((us, ts), s1) = seed_demo_data lib salt schema_of s
      in (''Seed complete: '' @ show_nat us @ '' demonstration users and '' @ show_nat ts @ '' training templates created'', s1))"


section \<open>Seeding a list of items\<close>

text \<open>
  The contract of one seeding step: it settles its item, keeps the other items settled, and does
  nothing to an item that is settled.
\<close>

locale seeding =
  fixes items :: "'d set" and step :: "'d \<Rightarrow> 's \<Rightarrow> 's" and settled :: "'d \<Rightarrow> 's \<Rightarrow> bool" and inv :: "'s \<Rightarrow> bool"
  assumes inv_step: "d \<in> items \<Longrightarrow> inv s \<Longrightarrow> inv (step d s)"
    and settles: "d \<in> items \<Longrightarrow> inv s \<Longrightarrow> settled d (step d s)"
    and keeps: "d \<in> items \<Longrightarrow> e \<in> items \<Longrightarrow> inv s \<Longrightarrow> settled d s \<Longrightarrow> settled d (step e s)"
    and idle: "d \<in> items \<Longrightarrow> inv s \<Longrightarrow> settled d s \<Longrightarrow> step d s = s"
begin

lemma fold_inv: "set ds \<subseteq> items \<Longrightarrow> inv s \<Longrightarrow> inv (fold step ds s)"
  by (induction ds arbitrary: s) (auto intro: inv_step)

lemma fold_keeps: "set ds \<subseteq> items \<Longrightarrow> d \<in> items \<Longrightarrow> inv s \<Longrightarrow> settled d s \<Longrightarrow> settled d (fold step ds s)"
  by (induction ds arbitrary: s) (auto intro: inv_step keeps)

lemma fold_settles: "set ds \<subseteq> items \<Longrightarrow> d \<in> set ds \<Longrightarrow> inv s \<Longrightarrow> settled d (fold step ds s)"
proof (induction ds arbitrary: s)
  case (Cons e ds)
  then show ?case using fold_keeps[of ds d "step d s"] inv_step settles by auto
qed simp

lemma fold_idle: "set ds \<subseteq> items \<Longrightarrow> inv s \<Longrightarrow> (\<forall>d\<in>set ds. settled d s) \<Longrightarrow> fold step ds s = s"
  by (induction ds) (auto simp: idle)

end

definition user_settled :: "'tok auth_library \<Rightarrow> (string \<Rightarrow> nat) \<Rightarrow> demo_account \<Rightarrow> nat \<times> db \<Rightarrow> bool" where
  "user_settled lib salt d x = (case get_row u_email (normalize_email (du_email d)) (users (snd x)) of
     None \<Rightarrow> False
   | Some u \<Rightarrow> u_role u = du_role d \<and>
       (u_password_hash u = [] \<longrightarrow> hash_password lib (salt (normalize_email (du_email d))) (du_password d) = []))"

definition users_ok :: "nat \<times> db \<Rightarrow> bool" where
  "users_ok x \<longleftrightarrow> distinct (map u_id (users (snd x))) \<and> distinct (map u_email (users (snd x))) \<and>
     (\<forall>u\<in>set (users (snd x)). u_id u < next_uuid (snd x))"

lemma demo_emails: "distinct (map (\<lambda>d. normalize_email (du_email d)) DEMO_USERS)"
  by code_simp

lemma demo_email_inj:
  "d \<in> set DEMO_USERS \<Longrightarrow> e \<in> set DEMO_USERS \<Longrightarrow> normalize_email (du_email d) = normalize_email (du_email e) \<Longrightarrow> d = e"
  using demo_emails by (auto simp: distinct_map inj_on_def)

text \<open>Looking up a row by a unique column is looking it up in the table keyed by that column.\<close>

lemma find_get_row: "find (\<lambda>u. f u = k) xs = get_row f k xs"
  by (simp add: get_row_def)

lemma get_row_replace:
  assumes "distinct (map key rs)" "distinct (map f rs)" "r \<in> set rs" "f r' = f r"
  shows "get_row f k (upd_row key (key r) (\<lambda>_. r') rs) = (if k = f r then Some r' else get_row f k rs)"
  using assms
proof (induction rs)
  case (Cons q rs)
  show ?case
  proof (cases "q = r")
    case True
    then have "key r \<notin> key ` set rs" using Cons.prems(1) by auto
    then show ?thesis using True Cons.prems(4) by (simp add: upd_row_notin)
  next
    case False
    then have r: "r \<in> set rs" "key q \<noteq> key r" "f q \<noteq> f r" using Cons.prems by (auto simp: image_iff)
    then show ?thesis using Cons by auto
  qed
qed simp

lemma settle_user_fields:
  "u_id (settle_user lib salt d now u) = u_id u" "u_email (settle_user lib salt d now u) = u_email u"
  "u_role (settle_user lib salt d now u) = du_role d"
  "u_password_hash (settle_user lib salt d now u) = [] \<longrightarrow> hash_password lib (salt (u_email u)) (du_password d) = []"
proof -
  define v where "v = (if u_password_hash u = [] then u\<lparr>u_role := du_role d, u_password_hash := hash_password lib (salt (u_email u)) (du_password d)\<rparr>
    else u\<lparr>u_role := du_role d\<rparr>)"
  have v: "u_id v = u_id u" "u_email v = u_email u" "u_role v = du_role d"
      "u_password_hash v = [] \<Longrightarrow> hash_password lib (salt (u_email u)) (du_password d) = []"
    by (auto simp: v_def split: if_splits)
  have "settle_user lib salt d now u = (if v = u then v else v\<lparr>u_updated_at := now\<rparr>)"
    by (simp add: settle_user_def v_def Let_def)
  then show "u_id (settle_user lib salt d now u) = u_id u" "u_email (settle_user lib salt d now u) = u_email u"
    "u_role (settle_user lib salt d now u) = du_role d"
    "u_password_hash (settle_user lib salt d now u) = [] \<longrightarrow> hash_password lib (salt (u_email u)) (du_password d) = []"
    using v by (simp_all split: if_splits)
qed

lemma settle_user_idle:
  "u_role u = du_role d \<Longrightarrow> (u_password_hash u = [] \<Longrightarrow> hash_password lib (salt (u_email u)) (du_password d) = []) \<Longrightarrow>
   settle_user lib salt d now u = u"
  by (cases u) (auto simp: settle_user_def Let_def)

text \<open>The two outcomes of a step on a user: a new row, or one changed in role and missing password.\<close>

lemma seed_user_cases:
  assumes "users_ok (n, s)"
  obtains
    (New) n' s' u where "seed_user lib salt d (n, s) = (n', s')" "get_row u_email (normalize_email (du_email d)) (users s) = None"
      "u_id u = next_uuid s" "u_email u = normalize_email (du_email d)" "u_role u = du_role d"
      "u_password_hash u = hash_password lib (salt (u_email u)) (du_password d)"
      "users s' = users s @ [u]" "next_uuid s' = Suc (next_uuid s)"
  | (Old) n' s' u u' where "seed_user lib salt d (n, s) = (n', s')"
      "get_row u_email (normalize_email (du_email d)) (users s) = Some u" "u \<in> set (users s)" "u_email u = normalize_email (du_email d)"
      "u_id u' = u_id u" "u_email u' = u_email u" "u_role u' = du_role d"
      "u_password_hash u' = [] \<longrightarrow> hash_password lib (salt (u_email u)) (du_password d) = []"
      "s' = users_update (upd_row u_id (u_id u) (\<lambda>_. u')) s" "n' = n"
      "u_role u = du_role d \<longrightarrow> (u_password_hash u = [] \<longrightarrow> hash_password lib (salt (u_email u)) (du_password d) = []) \<longrightarrow> u' = u"
proof (cases "get_row u_email (normalize_email (du_email d)) (users s)")
  case None
  let ?e = "normalize_email (du_email d)"
  let ?u = "\<lparr>u_id = next_uuid s, u_email = ?e, u_password_hash = hash_password lib (salt ?e) (du_password d),
    u_role = du_role d, u_created_at = tx_now s, u_updated_at = tx_now s\<rparr>"
  show thesis
    by (rule New[of "Suc n" "users_update (\<lambda>us. us @ [?u]) (s\<lparr>next_uuid := Suc (next_uuid s)\<rparr>)" ?u])
      (use None in \<open>simp_all add: seed_user_def find_get_row uuid4_def Let_def\<close>)
next
  case (Some u)
  have m: "u \<in> set (users s)" "u_email u = normalize_email (du_email d)" using get_row_SomeD[OF Some] by auto
  show thesis
    by (rule Old[of n "users_update (upd_row u_id (u_id u) (\<lambda>_. settle_user lib salt d (tx_now s) u)) s" u
        "settle_user lib salt d (tx_now s) u"])
      (use Some m settle_user_fields(4)[of lib salt d "tx_now s" u] in
        \<open>simp_all add: seed_user_def find_get_row settle_user_fields(1-3) settle_user_idle\<close>)
qed

lemma users_ok_seed:
  assumes "users_ok x"
  shows "users_ok (seed_user lib salt d x)"
proof -
  obtain n s where x: "x = (n, s)" by fastforce
  have ok: "users_ok (n, s)" using assms x by simp
  have "users_ok (seed_user lib salt d (n, s))"
    using ok
  proof (cases rule: seed_user_cases[of n s lib salt d])
    case (New n' s' u)
    then show ?thesis
      using assms x by (auto simp: users_ok_def get_row_None_iff less_Suc_eq)
  next
    case (Old n' s' u u')
    have "map u_id (users s') = map u_id (users s)" "map u_email (users s') = map u_email (users s)"
    proof -
      show "map u_id (users s') = map u_id (users s)" using Old by (simp add: map_upd_row)
      have "u_email q = u_email u" if "q \<in> set (users s)" "u_id q = u_id u" for q
        using key_inj[of u_id "users s" q u] that Old(3) assms x by (auto simp: users_ok_def)
      then show "map u_email (users s') = map u_email (users s)" using Old by (simp add: map_upd_row)
    qed
    moreover have "\<forall>q\<in>set (users s'). u_id q < next_uuid s"
      using assms x Old by (auto simp: users_ok_def ball_upd_row)
    ultimately show ?thesis using assms x Old by (simp add: users_ok_def)
  qed
  then show ?thesis by (simp add: x)
qed

lemma seed_user_lookup:
  assumes "users_ok (n, s)" "seed_user lib salt d (n, s) = (n', s')"
  shows "k \<noteq> normalize_email (du_email d) \<Longrightarrow> get_row u_email k (users s') = get_row u_email k (users s)"
    and "user_settled lib salt d (n', s')"
proof -
  have "(k \<noteq> normalize_email (du_email d) \<longrightarrow> get_row u_email k (users s') = get_row u_email k (users s)) \<and>
      user_settled lib salt d (n', s')"
    using assms(1)
  proof (cases rule: seed_user_cases[of n s lib salt d])
    case (New m t u)
    then show ?thesis using assms(2) by (auto simp: get_row_append user_settled_def split: option.splits)
  next
    case (Old m t u u')
    have dst: "distinct (map u_id (users s))" "distinct (map u_email (users s))" using assms(1) by (auto simp: users_ok_def)
    have "s' = t" using assms(2) Old(1) by simp
    then have "get_row u_email k (users s') = (if k = u_email u then Some u' else get_row u_email k (users s))" for k
      using get_row_replace[OF dst Old(3,6), of k] Old(9) by simp
    then show ?thesis using Old by (simp add: user_settled_def)
  qed
  then show "k \<noteq> normalize_email (du_email d) \<Longrightarrow> get_row u_email k (users s') = get_row u_email k (users s)"
    "user_settled lib salt d (n', s')" by blast+
qed

interpretation user_seeding: seeding "set DEMO_USERS" "seed_user lib salt" "user_settled lib salt" users_ok for lib salt
proof
  fix d e :: demo_account and x :: "nat \<times> db"
  obtain n s where x: "x = (n, s)" by fastforce
  obtain n' s' where e: "seed_user lib salt e (n, s) = (n', s')" by fastforce
  obtain n'' s'' where d: "seed_user lib salt d (n, s) = (n'', s'')" by fastforce
  show "users_ok x \<Longrightarrow> users_ok (seed_user lib salt d x)" by (rule users_ok_seed)
  show "users_ok x \<Longrightarrow> user_settled lib salt d (seed_user lib salt d x)"
    using seed_user_lookup(2)[OF _ d] by (simp add: x d)
  show "user_settled lib salt d (seed_user lib salt e x)"
    if "d \<in> set DEMO_USERS" "e \<in> set DEMO_USERS" "users_ok x" "user_settled lib salt d x"
  proof (cases "d = e")
    case True
    then show ?thesis using seed_user_lookup(2)[OF _ e] that by (simp add: x e)
  next
    case False
    then have "normalize_email (du_email d) \<noteq> normalize_email (du_email e)" using demo_email_inj that by blast
    then show ?thesis using seed_user_lookup(1)[OF _ e] that by (simp add: x e user_settled_def)
  qed
  show "seed_user lib salt d x = x" if "users_ok x" "user_settled lib salt d x"
  proof -
    have "users_ok (n, s)" using that x by simp
    then show ?thesis
    proof (cases rule: seed_user_cases[of n s lib salt d])
    case (New m t u)
    then show ?thesis using that(2) by (simp add: x user_settled_def)
    next
    case (Old m t u u')
    then have "u' = u" using that(2) by (simp add: x user_settled_def)
    moreover have "upd_row u_id (u_id u) (\<lambda>_. u) (users s) = users s"
      using that(1) Old(3) key_inj[of u_id "users s"] by (intro upd_row_ident) (auto simp: x users_ok_def)
    ultimately show ?thesis using Old by (simp add: x)
    qed
  qed
qed


section \<open>Templates\<close>

definition template_key :: "training_template \<Rightarrow> string \<times> string" where
  "template_key t = (t_key t, t_version t)"

definition template_settled :: "(parameter_model \<Rightarrow> dict) \<Rightarrow> template_definition \<Rightarrow> nat \<times> db \<Rightarrow> bool" where
  "template_settled schema_of d x = (case get_row template_key (td_key d, td_version d) (training_templates (snd x)) of
     None \<Rightarrow> False
   | Some t \<Rightarrow> t_name t = td_name d \<and> t_description t = td_description d \<and>
       t_parameter_schema t = schema_of (td_parameter_model d))"

definition templates_ok :: "nat \<times> db \<Rightarrow> bool" where
  "templates_ok x \<longleftrightarrow> distinct (map t_id (training_templates (snd x))) \<and>
     distinct (map template_key (training_templates (snd x))) \<and>
     (\<forall>t\<in>set (training_templates (snd x)). t_id t < next_uuid (snd x))"

lemma find_template_key:
  "find (\<lambda>t. t_key t = k \<and> t_version t = v) ts = get_row template_key (k, v) ts"
  by (simp add: get_row_def template_key_def)

lemma registry_keys: "distinct (map (\<lambda>d. (td_key d, td_version d)) registry)"
  by (simp add: registry_def)

lemma registry_key_inj:
  "d \<in> set registry \<Longrightarrow> e \<in> set registry \<Longrightarrow> (td_key d, td_version d) = (td_key e, td_version e) \<Longrightarrow> d = e"
  using registry_keys by (auto simp: distinct_map inj_on_def)

lemma seed_template_cases:
  obtains
    (New) n' s' t where "seed_template schema_of d (n, s) = (n', s')"
      "get_row template_key (td_key d, td_version d) (training_templates s) = None"
      "t_id t = next_uuid s" "template_key t = (td_key d, td_version d)" "t_name t = td_name d"
      "t_description t = td_description d" "t_parameter_schema t = schema_of (td_parameter_model d)"
      "training_templates s' = training_templates s @ [t]" "next_uuid s' = Suc (next_uuid s)"
  | (Old) n' s' t t' where "seed_template schema_of d (n, s) = (n', s')"
      "get_row template_key (td_key d, td_version d) (training_templates s) = Some t" "t \<in> set (training_templates s)"
      "template_key t = (td_key d, td_version d)" "t_id t' = t_id t" "template_key t' = template_key t"
      "t' = t\<lparr>t_name := td_name d, t_description := td_description d, t_parameter_schema := schema_of (td_parameter_model d)\<rparr>"
      "s' = training_templates_update (upd_row t_id (t_id t) (\<lambda>_. t')) s" "n' = n"
proof (cases "get_row template_key (td_key d, td_version d) (training_templates s)")
  case None
  let ?t = "\<lparr>t_id = next_uuid s, t_key = td_key d, t_name = td_name d, t_description = td_description d,
    t_version = td_version d, t_parameter_schema = schema_of (td_parameter_model d), t_enabled = True, t_created_at = tx_now s\<rparr>"
  show thesis
    by (rule New[of "Suc n" "training_templates_update (\<lambda>ts. ts @ [?t]) (s\<lparr>next_uuid := Suc (next_uuid s)\<rparr>)" ?t])
      (use None in \<open>simp_all add: seed_template_def find_template_key template_key_def uuid4_def Let_def\<close>)
next
  case (Some t)
  have m: "t \<in> set (training_templates s)" "template_key t = (td_key d, td_version d)" using get_row_SomeD[OF Some] by auto
  let ?t = "t\<lparr>t_name := td_name d, t_description := td_description d, t_parameter_schema := schema_of (td_parameter_model d)\<rparr>"
  have "seed_template schema_of d (n, s) = (n, training_templates_update (upd_row t_id (t_id t) (\<lambda>_. ?t)) s)"
    using Some by (simp add: seed_template_def find_template_key)
  then show thesis
    by (rule Old[of n "training_templates_update (upd_row t_id (t_id t) (\<lambda>_. ?t)) s" t ?t])
      (use Some m in \<open>simp_all add: template_key_def\<close>)
qed


lemma templates_ok_seed:
  assumes "templates_ok x"
  shows "templates_ok (seed_template schema_of d x)"
proof -
  obtain n s where x: "x = (n, s)" by fastforce
  have "templates_ok (seed_template schema_of d (n, s))"
  proof (cases rule: seed_template_cases[of schema_of d n s])
    case (New n' s' t)
    then show ?thesis using assms x by (auto simp: templates_ok_def get_row_None_iff less_Suc_eq)
  next
    case (Old n' s' t t')
    have "map t_id (training_templates s') = map t_id (training_templates s)" using Old by (simp add: map_upd_row)
    moreover have "template_key q = template_key t" if "q \<in> set (training_templates s)" "t_id q = t_id t" for q
      using key_inj[of t_id "training_templates s" q t] that Old(3) assms x by (auto simp: templates_ok_def)
    then have "map template_key (training_templates s') = map template_key (training_templates s)"
      using Old(6,8) by (simp add: map_upd_row)
    moreover have "\<forall>q\<in>set (training_templates s'). t_id q < next_uuid s"
      using assms x Old(3,5,8) by (auto simp: templates_ok_def ball_upd_row)
    ultimately show ?thesis using assms x Old(1,8) by (simp add: templates_ok_def)
  qed
  then show ?thesis by (simp add: x)
qed

lemma seed_template_lookup:
  assumes "templates_ok (n, s)" "seed_template schema_of d (n, s) = (n', s')"
  shows "k \<noteq> (td_key d, td_version d) \<Longrightarrow> get_row template_key k (training_templates s') = get_row template_key k (training_templates s)"
    and "template_settled schema_of d (n', s')"
proof -
  have "(k \<noteq> (td_key d, td_version d) \<longrightarrow> get_row template_key k (training_templates s') = get_row template_key k (training_templates s)) \<and>
      template_settled schema_of d (n', s')"
  proof (cases rule: seed_template_cases[of schema_of d n s])
    case (New m u t)
    then show ?thesis using assms(2) by (auto simp: get_row_append template_settled_def split: option.splits)
  next
    case (Old m u t t')
    have dst: "distinct (map t_id (training_templates s))" "distinct (map template_key (training_templates s))"
      using assms(1) by (auto simp: templates_ok_def)
    have "s' = u" using assms(2) Old(1) by simp
    then have "get_row template_key k (training_templates s') =
        (if k = template_key t then Some t' else get_row template_key k (training_templates s))" for k
      using get_row_replace[OF dst Old(3,6), of k] Old(8) by simp
    then show ?thesis using Old(4,7) by (simp add: template_settled_def)
  qed
  then show "k \<noteq> (td_key d, td_version d) \<Longrightarrow> get_row template_key k (training_templates s') = get_row template_key k (training_templates s)"
    "template_settled schema_of d (n', s')" by blast+
qed

interpretation template_seeding: seeding "set registry" "seed_template schema_of" "template_settled schema_of" templates_ok for schema_of
proof
  fix d e :: template_definition and x :: "nat \<times> db"
  obtain n s where x: "x = (n, s)" by fastforce
  obtain n' s' where e: "seed_template schema_of e (n, s) = (n', s')" by fastforce
  obtain n'' s'' where d: "seed_template schema_of d (n, s) = (n'', s'')" by fastforce
  show "templates_ok x \<Longrightarrow> templates_ok (seed_template schema_of d x)" by (rule templates_ok_seed)
  show "templates_ok x \<Longrightarrow> template_settled schema_of d (seed_template schema_of d x)"
    using seed_template_lookup(2)[OF _ d] by (simp add: x d)
  show "template_settled schema_of d (seed_template schema_of e x)"
    if "d \<in> set registry" "e \<in> set registry" "templates_ok x" "template_settled schema_of d x"
  proof (cases "d = e")
    case True
    then show ?thesis using seed_template_lookup(2)[OF _ e] that by (simp add: x e)
  next
    case False
    then have "(td_key d, td_version d) \<noteq> (td_key e, td_version e)" using registry_key_inj that by blast
    then show ?thesis using seed_template_lookup(1)[OF _ e] that by (simp add: x e template_settled_def)
  qed
  show "seed_template schema_of d x = x" if "templates_ok x" "template_settled schema_of d x"
  proof (cases rule: seed_template_cases[of schema_of d n s])
    case (New m u t)
    then show ?thesis using that(2) by (simp add: x template_settled_def)
  next
    case (Old m u t t')
    then have "t' = t" using that(2) by (simp add: x template_settled_def)
    moreover have "upd_row t_id (t_id t) (\<lambda>_. t) (training_templates s) = training_templates s"
      using that(1) Old(3) key_inj[of t_id "training_templates s"] by (intro upd_row_ident) (auto simp: x templates_ok_def)
    ultimately show ?thesis using Old by (simp add: x)
  qed
qed


section \<open>Seeding twice\<close>

abbreviation demo_email :: "demo_account \<Rightarrow> string" where
  "demo_email d \<equiv> normalize_email (du_email d)"

lemma fold_user_lookup:
  "users_ok x \<Longrightarrow> k \<notin> demo_email ` set ds \<Longrightarrow>
   get_row u_email k (users (snd (fold (seed_user lib salt) ds x))) = get_row u_email k (users (snd x))"
proof (induction ds arbitrary: x)
  case (Cons d ds)
  obtain n s where x: "x = (n, s)" by fastforce
  obtain n' s' where d: "seed_user lib salt d (n, s) = (n', s')" by fastforce
  have "get_row u_email k (users s') = get_row u_email k (users s)"
    using seed_user_lookup(1)[OF _ d, of k] Cons.prems x by simp
  moreover have "users_ok (n', s')" using users_ok_seed[OF Cons.prems(1), of lib salt d] x d by simp
  ultimately show ?case using Cons x d by simp
qed simp

lemma fold_new_user:
  assumes "users_ok x" "distinct (map demo_email ds)" "d \<in> set ds" "get_row u_email (demo_email d) (users (snd x)) = None"
  shows "\<exists>u. get_row u_email (demo_email d) (users (snd (fold (seed_user lib salt) ds x))) = Some u \<and>
    u_password_hash u = hash_password lib (salt (demo_email d)) (du_password d)"
proof -
  obtain as bs where ds: "ds = as @ d # bs" using split_list[OF assms(3)] by blast
  obtain n s where y: "fold (seed_user lib salt) as x = (n, s)" by fastforce
  have out: "demo_email d \<notin> demo_email ` set as" "demo_email d \<notin> demo_email ` set bs" using assms(2) ds by auto
  have ok: "users_ok (n, s)" using assms(1) y[symmetric] by (simp add: fold_invariant[where Q = "\<lambda>_. True"] users_ok_seed)
  have none: "get_row u_email (demo_email d) (users s) = None"
    using fold_user_lookup[OF assms(1) out(1), of lib salt] y assms(4) by simp
  obtain n' s' u where st: "seed_user lib salt d (n, s) = (n', s')"
    and u: "get_row u_email (demo_email d) (users s') = Some u"
      "u_password_hash u = hash_password lib (salt (demo_email d)) (du_password d)"
    using ok by (cases rule: seed_user_cases[of n s lib salt d]) (use none in \<open>auto simp: get_row_append\<close>)
  have "users_ok (n', s')" using users_ok_seed[OF ok, of lib salt d] st by simp
  then show ?thesis using fold_user_lookup[OF _ out(2), of "(n', s')" lib salt] u by (simp add: ds y st)
qed

text \<open>Seeding touches users, templates, the supply of identifiers and the clock, and no other table.\<close>

definition same_elsewhere :: "db \<Rightarrow> db \<Rightarrow> bool" where
  "same_elsewhere s s' \<longleftrightarrow> s' = s\<lparr>users := users s', training_templates := training_templates s', next_uuid := next_uuid s',
     ticks := ticks s', tx_now := tx_now s'\<rparr>"

lemma same_elsewhere_refl: "same_elsewhere s s"
  by (simp add: same_elsewhere_def)

lemma same_elsewhere_trans: "same_elsewhere s s1 \<Longrightarrow> same_elsewhere s1 s' \<Longrightarrow> same_elsewhere s s'"
  unfolding same_elsewhere_def by (cases s; cases s1; cases s') simp

lemma same_elsewhere_begin: "same_elsewhere s (begin_transaction s)"
  by (simp add: same_elsewhere_def begin_transaction_def now_utc_def Let_def)

lemma seed_user_frame:
  "same_elsewhere (snd x) (snd (seed_user lib salt d x))"
  "training_templates (snd (seed_user lib salt d x)) = training_templates (snd x)"
  "next_uuid (snd x) \<le> next_uuid (snd (seed_user lib salt d x))"
  by (auto simp: seed_user_def uuid4_def same_elsewhere_def Let_def split: prod.splits option.splits)

lemma seed_template_frame:
  "same_elsewhere (snd x) (snd (seed_template schema_of d x))"
  "users (snd (seed_template schema_of d x)) = users (snd x)"
  "next_uuid (snd x) \<le> next_uuid (snd (seed_template schema_of d x))"
  by (auto simp: seed_template_def uuid4_def same_elsewhere_def Let_def split: prod.splits option.splits)

lemma fold_user_frame:
  "training_templates (snd (fold (seed_user lib salt) ds x)) = training_templates (snd x)"
  "same_elsewhere (snd x) (snd (fold (seed_user lib salt) ds x))"
proof (induction ds arbitrary: x)
  case (Cons d ds)
  { case 1 show ?case using Cons.IH(1) by (simp add: seed_user_frame) }
  { case 2 show ?case using same_elsewhere_trans[OF seed_user_frame(1) Cons.IH(2)] by simp }
qed (simp_all add: same_elsewhere_refl)

lemma fold_template_frame:
  "users (snd (fold (seed_template schema_of) ds x)) = users (snd x)"
  "same_elsewhere (snd x) (snd (fold (seed_template schema_of) ds x))"
proof (induction ds arbitrary: x)
  case (Cons d ds)
  { case 1 show ?case using Cons.IH(1) by (simp add: seed_template_frame) }
  { case 2 show ?case using same_elsewhere_trans[OF seed_template_frame(1) Cons.IH(2)] by simp }
qed (simp_all add: same_elsewhere_refl)

text \<open>A table has grown by \<open>n\<close> rows at its end; the rows that were there are still there, in the relation \<open>R\<close> to what they were.\<close>

definition grown :: "('a \<Rightarrow> 'a \<Rightarrow> bool) \<Rightarrow> 'a list \<Rightarrow> 'a list \<Rightarrow> nat \<Rightarrow> bool" where
  "grown R xs ys n \<longleftrightarrow> (\<exists>us new. ys = us @ new \<and> length new = n \<and> list_all2 R xs us)"

lemma grown_refl: "(\<And>x. R x x) \<Longrightarrow> grown R xs xs 0"
  by (auto simp: grown_def list_all2_same)

lemma grown_add: "(\<And>x. R x x) \<Longrightarrow> grown R xs (xs @ [y]) 1"
  unfolding grown_def by (intro exI[of _ xs] exI[of _ "[y]"]) (auto simp: list_all2_same)

lemma grown_trans:
  assumes "\<And>x y z. R x y \<Longrightarrow> R y z \<Longrightarrow> R x z" "grown R xs ys m" "grown R ys zs n"
  shows "grown R xs zs (m + n)"
proof -
  obtain us new vs new' where y: "ys = us @ new" "length new = m" "list_all2 R xs us"
    and z: "zs = vs @ new'" "length new' = n" "list_all2 R ys vs"
    using assms(2,3) by (auto simp: grown_def)
  obtain v1 v2 where v: "vs = v1 @ v2" "list_all2 R us v1" "list_all2 R new v2"
    using z(3) unfolding y(1) by (auto simp: list_all2_append1)
  have "list_all2 R xs v1" by (rule list_all2_trans[OF _ y(3) v(2)]) (rule assms(1))
  moreover have "zs = v1 @ (v2 @ new')" using z(1) v(1) by simp
  moreover have "length (v2 @ new') = m + n" using y(2) z(2) list_all2_lengthD[OF v(3)] by simp
  ultimately show ?thesis unfolding grown_def by blast
qed

text \<open>
  What seeding may do to a user that exists: it keeps identity, address, time of creation and any password, and
  one with an address that is not of the demonstration is not touched. A template keeps everything but name,
  description and schema, and one that is not in the registry is not touched.
\<close>

definition user_kept :: "user \<Rightarrow> user \<Rightarrow> bool" where
  "user_kept u u' \<longleftrightarrow> u_id u' = u_id u \<and> u_email u' = u_email u \<and> u_created_at u' = u_created_at u \<and>
     (u_password_hash u \<noteq> [] \<longrightarrow> u_password_hash u' = u_password_hash u) \<and>
     (u_email u \<notin> demo_email ` set DEMO_USERS \<longrightarrow> u' = u)"

definition template_kept :: "training_template \<Rightarrow> training_template \<Rightarrow> bool" where
  "template_kept t t' \<longleftrightarrow> t_id t' = t_id t \<and> t_key t' = t_key t \<and> t_version t' = t_version t \<and>
     t_enabled t' = t_enabled t \<and> t_created_at t' = t_created_at t \<and>
     ((t_key t, t_version t) \<notin> (\<lambda>d. (td_key d, td_version d)) ` set registry \<longrightarrow> t' = t)"

lemma kept_trans:
  "user_kept u v \<Longrightarrow> user_kept v w \<Longrightarrow> user_kept u w" "template_kept t t1 \<Longrightarrow> template_kept t1 t2 \<Longrightarrow> template_kept t t2"
  by (auto simp: user_kept_def template_kept_def)

lemma kept_refl: "user_kept u u" "template_kept t t"
  by (simp_all add: user_kept_def template_kept_def)

lemma grown_replace:
  assumes "distinct (map key rs)" "r \<in> set rs" "\<And>x. R x x" "R r r'"
  shows "grown R rs (upd_row key (key r) (\<lambda>_. r') rs) 0"
proof -
  have "list_all2 R rs (upd_row key (key r) (\<lambda>_. r') rs)"
    unfolding upd_row_def list_all2_map2
    using assms key_inj[OF assms(1) _ assms(2)] by (auto intro!: list.rel_refl_strong)
  then show ?thesis by (auto simp: grown_def)
qed

lemma seed_user_grown:
  assumes "d \<in> set DEMO_USERS" "users_ok (n, s)" "seed_user lib salt d (n, s) = (n', s')"
  shows "\<exists>k. n' = n + k \<and> grown user_kept (users s) (users s') k"
proof (cases "find (\<lambda>u. u_email u = demo_email d) (users s)")
  case None
  then have "n' = n + 1" "\<exists>u. users s' = users s @ [u]"
    using assms(3) by (auto simp: seed_user_def uuid4_def Let_def)
  then show ?thesis using grown_add[of user_kept, OF kept_refl(1)] by metis
next
  case (Some u)
  then have u: "u \<in> set (users s)" "u_email u = demo_email d" using find_SomeD[OF Some] by auto
  have "user_kept u (settle_user lib salt d (tx_now s) u)"
    using u(2) assms(1) by (auto simp: settle_user_def user_kept_def Let_def)
  with Some assms(3) u(1) assms(2) show ?thesis
    by (intro exI[of _ 0]) (auto simp: seed_user_def users_ok_def intro!: grown_replace kept_refl)
qed

lemma seed_template_grown:
  assumes "d \<in> set registry" "templates_ok (n, s)" "seed_template schema_of d (n, s) = (n', s')"
  shows "\<exists>k. n' = n + k \<and> grown template_kept (training_templates s) (training_templates s') k"
proof (cases "find (\<lambda>t. t_key t = td_key d \<and> t_version t = td_version d) (training_templates s)")
  case None
  then have "n' = n + 1" "\<exists>t. training_templates s' = training_templates s @ [t]"
    using assms(3) by (auto simp: seed_template_def uuid4_def Let_def)
  then show ?thesis using grown_add[of template_kept, OF kept_refl(2)] by metis
next
  case (Some t)
  then have t: "t \<in> set (training_templates s)" "t_key t = td_key d" "t_version t = td_version d"
    using find_SomeD[OF Some] by auto
  have "template_kept t (t\<lparr>t_name := td_name d, t_description := td_description d,
      t_parameter_schema := schema_of (td_parameter_model d)\<rparr>)"
    using t(2,3) assms(1) by (auto simp: template_kept_def)
  with Some assms(3) t(1) assms(2) show ?thesis
    by (intro exI[of _ 0]) (auto simp: seed_template_def templates_ok_def intro!: grown_replace kept_refl)
qed

text \<open>Steps that let a table grow and keep an invariant let it grow together.\<close>

lemma fold_grown:
  assumes "set ds \<subseteq> D" "ok x" "\<And>d x. d \<in> D \<Longrightarrow> ok x \<Longrightarrow> ok (step d x)"
    and "\<And>d n s n' s'. d \<in> D \<Longrightarrow> ok (n, s) \<Longrightarrow> step d (n, s) = (n', s') \<Longrightarrow> \<exists>k. n' = n + k \<and> grown R (rows_of s) (rows_of s') k"
    and "\<And>x. R x x" "\<And>x y z. R x y \<Longrightarrow> R y z \<Longrightarrow> R x z"
  shows "\<exists>k. fst (fold step ds x) = fst x + k \<and> grown R (rows_of (snd x)) (rows_of (snd (fold step ds x))) k"
  using assms(1,2)
proof (induction ds arbitrary: x)
  case Nil
  then show ?case using grown_refl[of R] assms(5) by (intro exI[of _ 0]) simp
next
  case (Cons d ds)
  obtain k where k: "fst (step d x) = fst x + k" "grown R (rows_of (snd x)) (rows_of (snd (step d x))) k"
    using assms(4)[of d "fst x" "snd x" "fst (step d x)" "snd (step d x)"] Cons.prems by auto
  obtain j where "fst (fold step ds (step d x)) = fst (step d x) + j"
    "grown R (rows_of (snd (step d x))) (rows_of (snd (fold step ds (step d x)))) j"
    using Cons.IH[of "step d x"] Cons.prems assms(3) by auto
  then show ?case using k grown_trans[OF assms(6) k(2)] by (intro exI[of _ "k + j"]) auto
qed

lemma fold_grows: "(\<And>d x. f x \<le> (f (step d x) :: nat)) \<Longrightarrow> f x \<le> f (fold step ds x)"
  by (induction ds arbitrary: x) (simp, metis fold_simps(2) le_trans)

lemma fold_user_supply: "next_uuid (snd x) \<le> next_uuid (snd (fold (seed_user lib salt) ds x))"
  by (rule fold_grows[of "\<lambda>x. next_uuid (snd x)"]) (rule seed_user_frame)

lemma fold_template_supply: "next_uuid (snd x) \<le> next_uuid (snd (fold (seed_template schema_of) ds x))"
  by (rule fold_grows[of "\<lambda>x. next_uuid (snd x)"]) (rule seed_template_frame)

text \<open>The keys of users and templates, as the database keeps them.\<close>

definition seed_inv :: "db \<Rightarrow> bool" where
  "seed_inv s \<longleftrightarrow> users_ok (0, s) \<and> templates_ok (0, s)"

text \<open>The two loops of a seeding, from the state it starts in.\<close>

lemma seed_demo_data_loops:
  assumes "seed_inv s" "seed_demo_data lib salt schema_of s = (counts, s')"
  obtains x y where "x = fold (seed_user lib salt) DEMO_USERS (0, begin_transaction s)" "users_ok (0, begin_transaction s)"
    "y = fold (seed_template schema_of) registry (0, begin_transaction (snd x))" "templates_ok (0, begin_transaction (snd x))"
    "counts = (fst x, fst y)" "s' = snd y" "users s' = users (snd x)"
proof -
  let ?x = "fold (seed_user lib salt) DEMO_USERS (0, begin_transaction s)"
  let ?y = "fold (seed_template schema_of) registry (0, begin_transaction (snd ?x))"
  have ok: "users_ok (0, begin_transaction s)" "templates_ok (0, begin_transaction s)"
    using assms(1) by (simp_all add: seed_inv_def users_ok_def templates_ok_def)
  then have "templates_ok (0, begin_transaction (snd ?x))"
    using fold_user_supply[of "(0, begin_transaction s)" lib salt DEMO_USERS] by (fastforce simp: templates_ok_def fold_user_frame)
  moreover have "counts = (fst ?x, fst ?y) \<and> s' = snd ?y"
    using assms(2) by (auto simp: seed_demo_data_def seed_demo_users_def seed_training_templates_def split: prod.splits)
  ultimately show thesis using that[OF refl ok(1) refl] by (simp add: fold_template_frame)
qed

lemma seed_demo_data_frame:
  assumes "seed_inv s" "seed_demo_data lib salt schema_of s = (counts, s')"
  shows "same_elsewhere s s'" "grown user_kept (users s) (users s') (fst counts)"
    "grown template_kept (training_templates s) (training_templates s') (snd counts)"
proof -
  obtain x y where x: "x = fold (seed_user lib salt) DEMO_USERS (0, begin_transaction s)" "users_ok (0, begin_transaction s)"
    and y: "y = fold (seed_template schema_of) registry (0, begin_transaction (snd x))" "templates_ok (0, begin_transaction (snd x))"
    and s': "counts = (fst x, fst y)" "s' = snd y" "users s' = users (snd x)"
    by (rule seed_demo_data_loops[OF assms])
  have "same_elsewhere s (snd x)"
    using same_elsewhere_trans[OF same_elsewhere_begin fold_user_frame(2)[of "(0, begin_transaction s)", simplified]] x(1) by simp
  from same_elsewhere_trans[OF this same_elsewhere_trans[OF same_elsewhere_begin
      fold_template_frame(2)[of "(0, begin_transaction (snd x))" schema_of registry, simplified]]]
  show "same_elsewhere s s'" unfolding s'(2) y(1) .
  show "grown user_kept (users s) (users s') (fst counts)"
    using fold_grown[where D = "set DEMO_USERS" and ok = users_ok and step = "seed_user lib salt" and R = user_kept
        and rows_of = users, OF order_refl x(2) users_ok_seed seed_user_grown kept_refl(1) kept_trans(1)]
    unfolding s'(3) s'(1) x(1) by auto
  show "grown template_kept (training_templates s) (training_templates s') (snd counts)"
    using fold_grown[where D = "set registry" and ok = templates_ok and step = "seed_template schema_of" and R = template_kept
        and rows_of = training_templates, OF order_refl y(2) templates_ok_seed seed_template_grown kept_refl(2) kept_trans(2)]
    unfolding s'(1,2) y(1) by (auto simp: x(1) fold_user_frame)
qed

lemma seed_demo_data_settles:
  assumes "seed_inv s" "seed_demo_data lib salt schema_of s = (counts, s')"
  shows "users_ok (0, s')" "templates_ok (0, s')" "d \<in> set DEMO_USERS \<Longrightarrow> user_settled lib salt d (0, s')"
    "e \<in> set registry \<Longrightarrow> template_settled schema_of e (0, s')"
    "k \<notin> demo_email ` set DEMO_USERS \<Longrightarrow> get_row u_email k (users s') = get_row u_email k (users s)"
    "d \<in> set DEMO_USERS \<Longrightarrow> get_row u_email (demo_email d) (users s) = None \<Longrightarrow>
      \<exists>u. get_row u_email (demo_email d) (users s') = Some u \<and> u_password_hash u = hash_password lib (salt (demo_email d)) (du_password d)"
proof -
  obtain x y where x: "x = fold (seed_user lib salt) DEMO_USERS (0, begin_transaction s)" "users_ok (0, begin_transaction s)"
    and y: "y = fold (seed_template schema_of) registry (0, begin_transaction (snd x))" "templates_ok (0, begin_transaction (snd x))"
    and s': "counts = (fst x, fst y)" "s' = snd y" "users s' = users (snd x)"
    by (rule seed_demo_data_loops[OF assms])
  show "users_ok (0, s')"
    using user_seeding.fold_inv[OF order_refl x(2), of lib salt] fold_template_supply[of "(0, begin_transaction (snd x))" schema_of registry]
    by (fastforce simp: users_ok_def x(1) y(1) s'(2) fold_template_frame)
  show "templates_ok (0, s')"
    using template_seeding.fold_inv[OF order_refl y(2), of schema_of] by (simp add: templates_ok_def y(1) s'(2))
  show "user_settled lib salt d (0, s')" if "d \<in> set DEMO_USERS"
    using user_seeding.fold_settles[OF order_refl that x(2), of lib salt] by (simp add: user_settled_def s'(3) x(1))
  show "template_settled schema_of e (0, s')" if "e \<in> set registry"
    using template_seeding.fold_settles[OF order_refl that y(2), of schema_of] by (simp add: template_settled_def s'(2) y(1))
  show "get_row u_email k (users s') = get_row u_email k (users s)" if "k \<notin> demo_email ` set DEMO_USERS"
    using fold_user_lookup[OF x(2) that, of lib salt] by (simp add: s'(3) x(1))
  show "\<exists>u. get_row u_email (demo_email d) (users s') = Some u \<and> u_password_hash u = hash_password lib (salt (demo_email d)) (du_password d)"
    if "d \<in> set DEMO_USERS" "get_row u_email (demo_email d) (users s) = None"
    using fold_new_user[OF x(2) demo_emails that(1), of lib salt] that(2) by (simp add: s'(3) x(1))
qed

text \<open>A state in which everything is settled is not changed by another seeding.\<close>

lemma seed_settled_state:
  assumes "users_ok (0, s)" "templates_ok (0, s)" "\<forall>d\<in>set DEMO_USERS. user_settled lib salt d (0, s)"
    "\<forall>d\<in>set registry. template_settled schema_of d (0, s)"
  shows "seed_demo_data lib salt schema_of s = ((0, 0), begin_transaction (begin_transaction s))"
proof -
  let ?s = "begin_transaction s"
  have "fold (seed_user lib salt) DEMO_USERS (0, ?s) = (0, ?s)"
    using assms(1,3) by (intro user_seeding.fold_idle[OF order_refl]) (simp_all add: users_ok_def user_settled_def)
  moreover have "fold (seed_template schema_of) registry (0, begin_transaction ?s) = (0, begin_transaction ?s)"
    using assms(2,4) by (intro template_seeding.fold_idle[OF order_refl]) (simp_all add: templates_ok_def template_settled_def)
  ultimately show ?thesis by (simp add: seed_demo_data_def seed_demo_users_def seed_training_templates_def)
qed

text \<open>
  C36. Seeding is idempotent and complete. After it every demonstration user exists with the role of
  its entry, one created by it with the hash of its password; every template of the registry exists
  with its name, description and schema. Nothing else is touched: no other table changes, no row of the two is
  removed, as many are added as the counts say, an existing user keeps identity, address, time and password, an
  existing template its key, version and state, and users with other addresses and templates that are not in
  the registry are exactly as before. A second seeding, with whatever salts, creates nothing and leaves users and
  templates as they are.
\<close>

theorem seed_idempotent:
  assumes "seed_inv s" "seed_demo_data lib salt schema_of s = (counts, s')"
    and "\<And>n pw. hash_password lib n pw \<noteq> []"
  shows "(\<forall>d\<in>set DEMO_USERS. \<exists>u. get_row u_email (normalize_email (du_email d)) (users s') = Some u \<and> u_role u = du_role d \<and>
      u_password_hash u \<noteq> [] \<and>
      (get_row u_email (normalize_email (du_email d)) (users s) = None \<longrightarrow>
        u_password_hash u = hash_password lib (salt (normalize_email (du_email d))) (du_password d))) \<and>
    (\<forall>d\<in>set registry. \<exists>t\<in>set (training_templates s'). t_key t = td_key d \<and> t_version t = td_version d \<and>
      t_name t = td_name d \<and> t_description t = td_description d \<and> t_parameter_schema t = schema_of (td_parameter_model d)) \<and>
    (\<forall>k. k \<notin> (\<lambda>d. normalize_email (du_email d)) ` set DEMO_USERS \<longrightarrow>
      get_row u_email k (users s') = get_row u_email k (users s)) \<and>
    s' = s\<lparr>users := users s', training_templates := training_templates s', next_uuid := next_uuid s',
      ticks := ticks s', tx_now := tx_now s'\<rparr> \<and>
    (\<exists>us new. users s' = us @ new \<and> length new = fst counts \<and> list_all2 user_kept (users s) us) \<and>
    (\<exists>ts new. training_templates s' = ts @ new \<and> length new = snd counts \<and>
      list_all2 template_kept (training_templates s) ts) \<and>
    fst (seed_demo_data lib salt' schema_of s') = (0, 0) \<and>
    users (snd (seed_demo_data lib salt' schema_of s')) = users s' \<and>
    training_templates (snd (seed_demo_data lib salt' schema_of s')) = training_templates s'"
proof -
  note frame = seed_demo_data_frame[OF assms(1,2)] and settled = seed_demo_data_settles[OF assms(1,2)]
  have A: "\<exists>u. get_row u_email (demo_email d) (users s') = Some u \<and> u_role u = du_role d \<and> u_password_hash u \<noteq> [] \<and>
      (get_row u_email (demo_email d) (users s) = None \<longrightarrow> u_password_hash u = hash_password lib (salt (demo_email d)) (du_password d))"
    if d: "d \<in> set DEMO_USERS" for d
    using settled(3)[OF d] settled(6)[OF d] assms(3) by (auto simp: user_settled_def split: option.splits)
  have B: "\<exists>t\<in>set (training_templates s'). t_key t = td_key d \<and> t_version t = td_version d \<and>
      t_name t = td_name d \<and> t_description t = td_description d \<and> t_parameter_schema t = schema_of (td_parameter_model d)"
    if "d \<in> set registry" for d
    using settled(4)[OF that] by (auto simp: template_settled_def template_key_def split: option.splits dest!: get_row_SomeD)
  have "user_settled lib salt' d (0, s')" if "d \<in> set DEMO_USERS" for d
    using settled(3)[OF that] assms(3) by (auto simp: user_settled_def split: option.splits)
  then have again: "seed_demo_data lib salt' schema_of s' = ((0, 0), begin_transaction (begin_transaction s'))"
    using settled(1,2,4) by (intro seed_settled_state) blast+
  show ?thesis using A B settled(5) frame unfolding same_elsewhere_def grown_def by (simp add: again)
qed

theorem seed_idempotent_witness:
  "\<exists>counts s'. seed_demo_data demo_auth (\<lambda>_. 0) (\<lambda>_. []) demo_db = (counts, s') \<and>
     (\<exists>u. get_row u_email ''admin@runscope.dev'' (users s') = Some u \<and> u_role u = ADMINISTRATOR) \<and>
     get_row u_email ''ada@example.org'' (users s') = Some demo_user \<and>
     runs s' = runs demo_db \<and> length (users s') = 1 + fst counts \<and>
     fst (seed_demo_data demo_auth (\<lambda>_. 7) (\<lambda>_. []) s') = (0, 0)"
proof -
  obtain counts s' where s': "seed_demo_data demo_auth (\<lambda>_. 0) (\<lambda>_. []) demo_db = (counts, s')" by fastforce
  have inv: "seed_inv demo_db"
    by (simp add: seed_inv_def users_ok_def templates_ok_def demo_defs)
  have h: "hash_password demo_auth n pw \<noteq> []" for n pw by (simp add: hash_password_def demo_auth_def)
  let ?d = "\<lparr>du_email = ''admin@runscope.dev'', du_password = ''AdminDemo123!'', du_role = ADMINISTRATOR\<rparr>"
  have d: "?d \<in> set DEMO_USERS" "normalize_email ''admin@runscope.dev'' = ''admin@runscope.dev''"
    by (simp add: DEMO_USERS_def) code_simp
  have e: "(\<lambda>d. normalize_email (du_email d)) ` set DEMO_USERS = {''viewer@runscope.dev'', ''researcher@runscope.dev'', ''admin@runscope.dev''}"
    by code_simp
  have g: "get_row u_email ''ada@example.org'' (users demo_db) = Some demo_user" by (simp add: demo_defs)
  note * = seed_idempotent[OF inv s' h, of "\<lambda>_. 7"]
  have "\<exists>u. get_row u_email ''admin@runscope.dev'' (users s') = Some u \<and> u_role u = ADMINISTRATOR"
    using conjunct1[OF *] d by fastforce
  moreover have "get_row u_email ''ada@example.org'' (users s') = Some demo_user"
    using conjunct1[OF conjunct2[OF conjunct2[OF *]]] unfolding e g[symmetric] by simp
  moreover have "runs s' = runs demo_db"
    using arg_cong[OF conjunct1[OF conjunct2[OF conjunct2[OF conjunct2[OF *]]]], of runs] by simp
  moreover have "length (users s') = 1 + fst counts"
    using conjunct1[OF conjunct2[OF conjunct2[OF conjunct2[OF conjunct2[OF *]]]]]
    by (auto simp: demo_db_def dest: list_all2_lengthD)
  ultimately show ?thesis using * s' by blast
qed

end
