(* ===== verification/Scheduler_Service.thy ===== *)
theory Scheduler_Service
  imports Schedule_Pass Platform
begin

text \<open>
  The scheduler process (\<open>services/scheduler/runscope_scheduler/main.py\<close>): passes in a loop, the pause
  after each, and the heartbeat key in Redis that the dependency probe of the API looks at. A round is
  given the rows other sessions hold locked, the failure of its database session, if any, and the
  outcome of the Redis call.
\<close>

record scheduler_round =
  sr_locks :: locks
  sr_fault :: "exn option"
  sr_heartbeat :: "unit res"

text \<open>The loop's state: the pause, the heartbeat key with its expiry in seconds, and the database.\<close>

record scheduler_state =
  ss_delay :: rat
  ss_heartbeat :: "(string \<times> int) option"
  ss_db :: db

definition scheduler_iteration :: "settings \<Rightarrow> scheduler_round \<Rightarrow> scheduler_state \<Rightarrow> scheduler_state" where
  "scheduler_iteration cfg rnd st =
     (case (case sr_fault rnd of Some e \<Rightarrow> Inl e | None \<Rightarrow> schedule_once (ss_db st) cfg (sr_locks rnd)) of
        Inl e \<Rightarrow> st\<lparr>ss_delay := min (max (ss_delay st * 2) 1) 10\<rparr>
      | Inr (assigned, s1) \<Rightarrow>
          \<lparr>ss_delay = scheduler_poll_seconds cfg,
           ss_heartbeat = (case sr_heartbeat rnd of
             Inr _ \<Rightarrow> Some (''online'', max 3 (worker_stale_seconds cfg)) | Inl _ \<Rightarrow> ss_heartbeat st),
           ss_db = s1\<rparr>)"

definition run_scheduler :: "settings \<Rightarrow> scheduler_round list \<Rightarrow> db \<Rightarrow> scheduler_state" where
  "run_scheduler cfg rounds s = fold (scheduler_iteration cfg) rounds
     \<lparr>ss_delay = scheduler_poll_seconds cfg, ss_heartbeat = None, ss_db = s\<rparr>"

text \<open>Whatever fails, the loop keeps the invariant, and the pause stays the poll interval or between one and ten seconds.\<close>

lemma scheduler_iteration_ok:
  assumes "lifecycle_inv (ss_db st)" "ss_delay st = scheduler_poll_seconds cfg \<or> 1 \<le> ss_delay st \<and> ss_delay st \<le> 10"
  shows "lifecycle_inv (ss_db (scheduler_iteration cfg rnd st)) \<and>
    (ss_delay (scheduler_iteration cfg rnd st) = scheduler_poll_seconds cfg \<or>
     1 \<le> ss_delay (scheduler_iteration cfg rnd st) \<and> ss_delay (scheduler_iteration cfg rnd st) \<le> 10)"
proof (cases "sr_fault rnd")
  case None
  obtain as s' ms where p: "schedule_once (ss_db st) cfg (sr_locks rnd) = Inr (int (length as), s')"
    "pass_effect (sr_locks rnd) (pass_horizon (ss_db st) cfg (sr_locks rnd))
      (queued_runs (pass_start (ss_db st) cfg (sr_locks rnd)) (sr_locks rnd)) (pass_start (ss_db st) cfg (sr_locks rnd)) s' as ms"
    by (rule schedule_once_ok[OF assms(1)])
  then show ?thesis using None pass_effectD(1)[OF p(2)] by (simp add: scheduler_iteration_def)
qed (use assms in \<open>auto simp: scheduler_iteration_def\<close>)

lemma run_scheduler_ok:
  assumes "lifecycle_inv s"
  shows "lifecycle_inv (ss_db (run_scheduler cfg rounds s)) \<and>
    (ss_delay (run_scheduler cfg rounds s) = scheduler_poll_seconds cfg \<or>
     1 \<le> ss_delay (run_scheduler cfg rounds s) \<and> ss_delay (run_scheduler cfg rounds s) \<le> 10)"
proof -
  have "lifecycle_inv (ss_db (fold (scheduler_iteration cfg) rounds st)) \<and>
      (ss_delay (fold (scheduler_iteration cfg) rounds st) = scheduler_poll_seconds cfg \<or>
       1 \<le> ss_delay (fold (scheduler_iteration cfg) rounds st) \<and> ss_delay (fold (scheduler_iteration cfg) rounds st) \<le> 10)"
    if "lifecycle_inv (ss_db st)" "ss_delay st = scheduler_poll_seconds cfg \<or> 1 \<le> ss_delay st \<and> ss_delay st \<le> 10" for st
    using that
  proof (induction rounds arbitrary: st)
    case (Cons rnd rounds)
    show ?case using Cons.IH[of "scheduler_iteration cfg rnd st"] scheduler_iteration_ok[OF Cons.prems, of rnd] by simp
  qed simp
  then show ?thesis using assms by (simp add: run_scheduler_def)
qed

text \<open>After a round that went well the API's probe finds the scheduler, until the key expires.\<close>

lemma scheduler_probe_healthy:
  assumes "lifecycle_inv s" "sr_fault rnd = None" "is_ok (sr_heartbeat rnd)"
    and "rd_get c ''runscope:scheduler:heartbeat'' = Inr (map_option fst (ss_heartbeat (run_scheduler cfg (rounds @ [rnd]) s)))"
    and "is_ok (rd_close c)"
  shows "probe_scheduler c = Inr ()"
proof -
  let ?st = "run_scheduler cfg rounds s"
  obtain n s' where p: "schedule_once (ss_db ?st) cfg (sr_locks rnd) = Inr (n, s')"
    by (rule schedule_once_ok[OF conjunct1[OF run_scheduler_ok[OF assms(1)]], of cfg rounds cfg "sr_locks rnd"]) blast
  obtain hb close where "sr_heartbeat rnd = Inr hb" "rd_close c = Inr close"
    using assms(3,5) by (auto simp: is_ok_def split: sum.splits)
  then have "ss_heartbeat (run_scheduler cfg (rounds @ [rnd]) s) = Some (''online'', max 3 (worker_stale_seconds cfg))"
    using p assms(2) by (simp add: run_scheduler_def scheduler_iteration_def)
  then show ?thesis using assms(4) \<open>rd_close c = Inr close\<close> by (simp add: probe_scheduler_def finally_do_def)
qed

end
