(* ===== verification/Live_Events.thy ===== *)
theory Live_Events
  imports Session Contracts
begin

text \<open>
  Live events from the publisher to the browser: the Redis bus (\<open>live_events.py\<close>), the server-sent
  events of \<open>runs.stream_run\<close>, and the hook that reads them (\<open>apps/web/src/hooks/useRunStream.ts\<close>). The
  JSON codecs are parameters: \<open>dumps\<close> is \<open>LiveEvent.model_dump_json\<close>, \<open>loads\<close> is
  \<open>LiveEvent.model_validate(json.loads(...))\<close>, \<open>parse\<close> is the browser's \<open>JSON.parse\<close>. What Redis returns to
  each \<open>get_message\<close> call is the list of arrivals; the text of the response reaches the browser in
  arbitrary pieces.
\<close>

section \<open>The bus\<close>

definition channel :: "uuid \<Rightarrow> string" where
  "channel rid = ''runscope:run:'' @ uuid_str rid"

definition mk_live_event :: "uuid \<Rightarrow> string \<Rightarrow> time \<Rightarrow> uuid \<Rightarrow> dict \<Rightarrow> live_event res" where
  "mk_live_event eid ty now rid payload =
     (let e = \<lparr>le_event_id = eid, le_event_type = ty, le_occurred_at = now, le_run_id = rid, le_payload = payload\<rparr>
      in if live_event_ok e then Inr e else Inl ValidationError)"

text \<open>\<open>send\<close> is \<open>redis.publish\<close> on a channel.\<close>

definition publish_live ::
  "(live_event \<Rightarrow> string) \<Rightarrow> ('r \<Rightarrow> string \<Rightarrow> string \<Rightarrow> unit res \<times> 'r) \<Rightarrow> uuid \<Rightarrow> string \<Rightarrow> dict \<Rightarrow> db \<Rightarrow> 'r
    \<Rightarrow> live_event res \<times> db \<times> 'r" where
  "publish_live dumps send rid ty payload s r =
     (let (eid, s1) = uuid4 s; (now, s2) = now_utc s1
      in case mk_live_event eid ty now rid payload of
           Inl e \<Rightarrow> (Inl e, s2, r)
         | Inr event \<Rightarrow>
             (case send r (channel rid) (dumps event) of
                (Inl e, r1) \<Rightarrow> (Inl e, s2, r1)
              | (Inr _, r1) \<Rightarrow> (Inr event, s2, r1)))"

record arrival =
  ar_message :: "string option res"
  ar_uuid :: uuid
  ar_now :: time

text \<open>The events the generator yields, and the exception that ends it, if one does.\<close>

fun subscribe :: "(string \<Rightarrow> live_event res) \<Rightarrow> uuid \<Rightarrow> arrival list \<Rightarrow> live_event list \<times> exn option" where
  "subscribe loads rid [] = ([], None)"
| "subscribe loads rid (a # as) =
     (case ar_message a of
        Inl e \<Rightarrow> ([], Some e)
      | Inr None \<Rightarrow>
          let (es, fin) = subscribe loads rid as
          in (\<lparr>le_event_id = ar_uuid a, le_event_type = ''stream.heartbeat'', le_occurred_at = ar_now a, le_run_id = rid,
               le_payload = []\<rparr> # es, fin)
      | Inr (Some data) \<Rightarrow>
          (case loads data of
             Inl e \<Rightarrow> ([], Some e)
           | Inr event \<Rightarrow> let (es, fin) = subscribe loads rid as in (event # es, fin)))"


section \<open>The response of \<open>stream_run\<close>\<close>

definition frame :: "(live_event \<Rightarrow> string) \<Rightarrow> live_event \<Rightarrow> string" where
  "frame dumps e = ''id: '' @ uuid_str (le_event_id e) @ [CHR 0x0A] @
     ''event: '' @ le_event_type e @ [CHR 0x0A] @ ''data: '' @ dumps e @ [CHR 0x0A, CHR 0x0A]"

text \<open>\<open>gone k\<close>: whether the client had disconnected when the \<open>k\<close>-th event arrived.\<close>

fun stream_frames :: "(live_event \<Rightarrow> string) \<Rightarrow> (nat \<Rightarrow> bool) \<Rightarrow> nat \<Rightarrow> live_event list \<Rightarrow> string" where
  "stream_frames dumps gone k [] = []"
| "stream_frames dumps gone k (e # es) = (if gone k then [] else frame dumps e @ stream_frames dumps gone (Suc k) es)"

definition stream_run ::
  "(live_event \<Rightarrow> string) \<Rightarrow> (string \<Rightarrow> live_event res) \<Rightarrow> (nat \<Rightarrow> bool) \<Rightarrow> uuid \<Rightarrow> arrival list \<Rightarrow> string" where
  "stream_run dumps loads gone rid as =
     ''retry: 2000'' @ [CHR 0x0A, CHR 0x0A] @ stream_frames dumps gone 0 (fst (subscribe loads rid as))"


section \<open>The reader in the browser\<close>

record stream_event =
  se_event_id :: string
  se_event_type :: string

text \<open>The state of the reading loop: the buffer, the identifiers seen in order, and those acted on.\<close>

record reader =
  rd_buffer :: string
  rd_seen :: "string list"
  rd_acted :: "string list"

definition fresh_reader :: reader where
  "fresh_reader = \<lparr>rd_buffer = [], rd_seen = [], rd_acted = []\<rparr>"

fun split_lines :: "string \<Rightarrow> string list" where
  "split_lines [] = [[]]"
| "split_lines (c # cs) =
     (case split_lines cs of
        [] \<Rightarrow> [[c]]
      | l # ls \<Rightarrow> if c = CHR 0x0A then [] # l # ls else (c # l) # ls)"

definition parseSseBlock :: "(string \<Rightarrow> stream_event option) \<Rightarrow> string \<Rightarrow> stream_event option" where
  "parseSseBlock parse block =
     (case find (\<lambda>line. take 6 line = ''data: '') (split_lines block) of
        None \<Rightarrow> None
      | Some line \<Rightarrow> if drop 6 line = [] then None else parse (drop 6 line))"

fun replace_crlf :: "string \<Rightarrow> string" where
  "replace_crlf (a # b # cs) =
     (if a = CHR 0x0D \<and> b = CHR 0x0A then CHR 0x0A # replace_crlf cs else a # replace_crlf (b # cs))"
| "replace_crlf cs = cs"

text \<open>The buffer cut at its first blank line.\<close>

fun cut_block :: "string \<Rightarrow> (string \<times> string) option" where
  "cut_block (a # b # cs) =
     (if a = CHR 0x0A \<and> b = CHR 0x0A then Some ([], cs)
      else map_option (\<lambda>(block, rest). (a # block, rest)) (cut_block (b # cs)))"
| "cut_block cs = None"

definition handle_block :: "(string \<Rightarrow> stream_event option) \<Rightarrow> string \<Rightarrow> reader \<Rightarrow> reader" where
  "handle_block parse block r =
     (case parseSseBlock parse block of
        None \<Rightarrow> r
      | Some e \<Rightarrow>
          if se_event_type e = ''stream.heartbeat'' \<or> se_event_id e \<in> set (rd_seen r) then r
          else let seen = rd_seen r @ [se_event_id e]
               in r\<lparr>rd_seen := (if 500 < length seen then tl seen else seen), rd_acted := rd_acted r @ [se_event_id e]\<rparr>)"

lemma cut_block_length: "cut_block cs = Some (block, rest) \<Longrightarrow> length rest < length cs"
  by (induction cs arbitrary: block rest rule: cut_block.induct) (force split: if_splits)+

function drain :: "(string \<Rightarrow> stream_event option) \<Rightarrow> reader \<Rightarrow> reader" where
  "drain parse r =
     (case cut_block (rd_buffer r) of
        None \<Rightarrow> r
      | Some (block, rest) \<Rightarrow> drain parse ((handle_block parse block r)\<lparr>rd_buffer := rest\<rparr>))"
  by pat_completeness auto
termination
  by (relation "measure (\<lambda>(_, r). length (rd_buffer r))") (auto dest: cut_block_length)

declare drain.simps [simp del]

definition read_piece :: "(string \<Rightarrow> stream_event option) \<Rightarrow> string \<Rightarrow> reader \<Rightarrow> reader" where
  "read_piece parse piece r = drain parse (r\<lparr>rd_buffer := rd_buffer r @ replace_crlf piece\<rparr>)"

definition read_stream :: "(string \<Rightarrow> stream_event option) \<Rightarrow> string list \<Rightarrow> reader \<Rightarrow> reader" where
  "read_stream parse pieces r = fold (read_piece parse) pieces r"



section \<open>Reading in pieces\<close>

lemma cut_block_append: "cut_block cs = Some (block, rest) \<Longrightarrow> cut_block (cs @ ds) = Some (block, rest @ ds)"
  by (induction cs arbitrary: block rest rule: cut_block.induct) (force split: if_splits)+

lemma handle_block_buffer [simp]:
  "handle_block parse b (r\<lparr>rd_buffer := x\<rparr>) = (handle_block parse b r)\<lparr>rd_buffer := x\<rparr>"
  by (simp add: handle_block_def Let_def split: option.split)

lemma drain_append:
  "drain parse (r\<lparr>rd_buffer := rd_buffer r @ ds\<rparr>) =
   drain parse ((drain parse r)\<lparr>rd_buffer := rd_buffer (drain parse r) @ ds\<rparr>)"
proof (induction parse r rule: drain.induct)
  case (1 parse r)
  show ?case
  proof (cases "cut_block (rd_buffer r)")
    case None
    then show ?thesis by (simp add: drain.simps[of parse r])
  next
    case (Some br)
    obtain block rest where br: "br = (block, rest)" by fastforce
    with Some have cut: "cut_block (rd_buffer r) = Some (block, rest)" by simp
    then have "drain parse (r\<lparr>rd_buffer := rd_buffer r @ ds\<rparr>) = drain parse ((handle_block parse block r)\<lparr>rd_buffer := rest @ ds\<rparr>)"
      by (subst drain.simps) (simp add: cut_block_append)
    moreover have "drain parse r = drain parse ((handle_block parse block r)\<lparr>rd_buffer := rest\<rparr>)"
      using cut by (subst drain.simps) simp
    ultimately show ?thesis using "1.IH"[OF Some br[symmetric]] by simp
  qed
qed

lemma replace_crlf_id: "CHR 0x0D \<notin> set cs \<Longrightarrow> replace_crlf cs = cs"
  by (induction cs rule: replace_crlf.induct) auto

text \<open>However the text is cut into pieces, the loop ends as if it had come at once.\<close>

lemma read_stream_pieces:
  assumes "\<forall>p\<in>set pieces. CHR 0x0D \<notin> set p"
  shows "read_stream parse pieces (drain parse r) = drain parse (r\<lparr>rd_buffer := rd_buffer r @ concat pieces\<rparr>)"
  using assms
proof (induction pieces arbitrary: r)
  case Nil
  then show ?case by (simp add: read_stream_def)
next
  case (Cons p ps)
  have "read_piece parse p (drain parse r) = drain parse (r\<lparr>rd_buffer := rd_buffer r @ p\<rparr>)"
    using Cons.prems drain_append[of parse r p] by (simp add: read_piece_def replace_crlf_id)
  then show ?case using Cons.IH[of "r\<lparr>rd_buffer := rd_buffer r @ p\<rparr>"] Cons.prems by (simp add: read_stream_def)
qed


section \<open>Frames\<close>

lemma cut_line:
  "CHR 0x0A \<notin> set l \<Longrightarrow> ys \<noteq> [] \<Longrightarrow> cut_block (l @ ys) = map_option (\<lambda>(b, r). (l @ b, r)) (cut_block ys)"
proof (induction l)
  case Nil
  then show ?case by (simp add: case_prod_beta option.map_ident)
next
  case (Cons a l)
  obtain b cs where "l @ ys = b # cs" using Cons.prems(2) by (cases "l @ ys") auto
  then show ?case using Cons by (auto simp: option.map_comp comp_def case_prod_beta)
qed

lemma cut_newline: "y \<noteq> CHR 0x0A \<Longrightarrow> cut_block (CHR 0x0A # y # ys) = map_option (\<lambda>(b, r). (CHR 0x0A # b, r)) (cut_block (y # ys))"
  by simp

lemma split_line: "CHR 0x0A \<notin> set l \<Longrightarrow> split_lines (l @ CHR 0x0A # ys) = l # split_lines ys"
proof (induction l)
  case Nil
  have "split_lines ys \<noteq> []" by (induction ys) (auto split: list.splits)
  then show ?case by (auto split: list.splits)
qed auto

lemma split_last_line: "CHR 0x0A \<notin> set l \<Longrightarrow> split_lines l = [l]"
  by (induction l) auto

text \<open>What the codecs are relied on for: an event is one non-empty line of JSON, which the browser reads.\<close>

definition browser_reads :: "(live_event \<Rightarrow> string) \<Rightarrow> (string \<Rightarrow> stream_event option) \<Rightarrow> live_event \<Rightarrow> bool" where
  "browser_reads dumps parse e \<longleftrightarrow> dumps e \<noteq> [] \<and> CHR 0x0A \<notin> set (dumps e) \<and> CHR 0x0D \<notin> set (dumps e) \<and>
     parse (dumps e) = Some \<lparr>se_event_id = uuid_str (le_event_id e), se_event_type = le_event_type e\<rparr>"

definition one_line :: "string \<Rightarrow> bool" where
  "one_line t \<longleftrightarrow> CHR 0x0A \<notin> set t \<and> CHR 0x0D \<notin> set t"

definition frame_block :: "(live_event \<Rightarrow> string) \<Rightarrow> live_event \<Rightarrow> string" where
  "frame_block dumps e = (''id: '' @ uuid_str (le_event_id e)) @ CHR 0x0A # (''event: '' @ le_event_type e) @ CHR 0x0A #
     ''data: '' @ dumps e"

lemma of_char_newline: "\<not> (48 :: nat) \<le> of_char CHR 0x0A" "\<not> (48 :: nat) \<le> of_char CHR 0x0D"
  by simp_all

lemma uuid_str_line: "one_line (uuid_str u)"
proof -
  have "(48 :: nat) \<le> of_char (digit_char k)" if "k < 16" for k
    using that by (simp add: digit_char_def)
  then have "digit_char k \<noteq> CHR 0x0A \<and> digit_char k \<noteq> CHR 0x0D" if "k < 16" for k
    using that of_char_newline by metis
  then have "digit_char (n mod 16) \<noteq> CHR 0x0A" "digit_char (n mod 16) \<noteq> CHR 0x0D" for n by simp_all
  from this[symmetric] have "one_line (hex_of 32 u)" by (auto simp: hex_of_def one_line_def)
  then show ?thesis by (auto simp: uuid_str_def Let_def one_line_def dest: in_set_takeD in_set_dropD)
qed

lemma frame_eq: "frame dumps e = frame_block dumps e @ [CHR 0x0A, CHR 0x0A]"
  by (simp add: frame_def frame_block_def)

lemma cut_frame:
  assumes "one_line (le_event_type e)" "CHR 0x0A \<notin> set (dumps e)"
  shows "cut_block (frame dumps e @ rest) = Some (frame_block dumps e, rest)"
proof -
  have l: "CHR 0x0A \<notin> set (''id: '' @ uuid_str (le_event_id e))" "CHR 0x0A \<notin> set (''event: '' @ le_event_type e)"
    "CHR 0x0A \<notin> set (''data: '' @ dumps e)"
    using assms uuid_str_line[of "le_event_id e"] by (auto simp: one_line_def)
  have "cut_block ((''data: '' @ dumps e) @ CHR 0x0A # CHR 0x0A # rest) = Some (''data: '' @ dumps e, rest)"
    using cut_line[OF l(3), of "CHR 0x0A # CHR 0x0A # rest"] by simp
  then have "cut_block ((''event: '' @ le_event_type e) @ CHR 0x0A # (''data: '' @ dumps e) @ CHR 0x0A # CHR 0x0A # rest) =
      Some ((''event: '' @ le_event_type e) @ CHR 0x0A # ''data: '' @ dumps e, rest)"
    using cut_line[OF l(2), of "CHR 0x0A # (''data: '' @ dumps e) @ CHR 0x0A # CHR 0x0A # rest"] by simp
  then have "cut_block ((''id: '' @ uuid_str (le_event_id e)) @ CHR 0x0A # (''event: '' @ le_event_type e) @ CHR 0x0A #
      (''data: '' @ dumps e) @ CHR 0x0A # CHR 0x0A # rest) = Some (frame_block dumps e, rest)"
    using cut_line[OF l(1), of "CHR 0x0A # (''event: '' @ le_event_type e) @ CHR 0x0A #
      (''data: '' @ dumps e) @ CHR 0x0A # CHR 0x0A # rest"] by (simp add: frame_block_def)
  then show ?thesis by (simp add: frame_def)
qed

lemma parse_frame_block:
  assumes "one_line (le_event_type e)" "CHR 0x0A \<notin> set (dumps e)" "dumps e \<noteq> []"
  shows "parseSseBlock parse (frame_block dumps e) = parse (dumps e)"
proof -
  have l: "CHR 0x0A \<notin> set (''id: '' @ uuid_str (le_event_id e))" "CHR 0x0A \<notin> set (''event: '' @ le_event_type e)"
    "CHR 0x0A \<notin> set (''data: '' @ dumps e)"
    using assms uuid_str_line[of "le_event_id e"] by (auto simp: one_line_def)
  have "split_lines (frame_block dumps e) = [''id: '' @ uuid_str (le_event_id e), ''event: '' @ le_event_type e, ''data: '' @ dumps e]"
    unfolding frame_block_def by (simp only: split_line[OF l(1)] split_line[OF l(2)] split_last_line[OF l(3)])
  then show ?thesis using assms(3) by (simp add: parseSseBlock_def)
qed

text \<open>What reading one event amounts to.\<close>

definition notice :: "live_event \<Rightarrow> reader \<Rightarrow> reader" where
  "notice e r =
     (if le_event_type e = ''stream.heartbeat'' \<or> uuid_str (le_event_id e) \<in> set (rd_seen r) then r
      else let seen = rd_seen r @ [uuid_str (le_event_id e)]
           in r\<lparr>rd_seen := (if 500 < length seen then tl seen else seen), rd_acted := rd_acted r @ [uuid_str (le_event_id e)]\<rparr>)"

lemma notice_buffer [simp]: "rd_buffer (notice e r) = rd_buffer r"
  by (simp add: notice_def Let_def)

lemma fold_notice_buffer: "fold notice es (r\<lparr>rd_buffer := b\<rparr>) = (fold notice es r)\<lparr>rd_buffer := b\<rparr>"
proof (induction es arbitrary: r)
  case (Cons e es)
  have "notice e (r\<lparr>rd_buffer := b\<rparr>) = (notice e r)\<lparr>rd_buffer := b\<rparr>" by (simp add: notice_def Let_def)
  then show ?case using Cons.IH by simp
qed simp

lemma drain_frame:
  assumes "one_line (le_event_type e)" "browser_reads dumps parse e" "rd_buffer r = frame dumps e @ rest"
  shows "drain parse r = drain parse ((notice e r)\<lparr>rd_buffer := rest\<rparr>)"
proof -
  have e: "CHR 0x0A \<notin> set (dumps e)" "dumps e \<noteq> []"
    "parse (dumps e) = Some \<lparr>se_event_id = uuid_str (le_event_id e), se_event_type = le_event_type e\<rparr>"
    using assms(2) by (simp_all add: browser_reads_def)
  have "handle_block parse (frame_block dumps e) r = notice e r"
    using parse_frame_block[of e dumps parse] assms(1) e by (simp add: handle_block_def notice_def Let_def)
  then show ?thesis using cut_frame[of e dumps rest] assms(1,3) e(1) by (subst drain.simps) simp
qed

lemma drain_frames:
  assumes "\<forall>e\<in>set es. one_line (le_event_type e) \<and> browser_reads dumps parse e" "rd_buffer r = concat (map (frame dumps) es)"
  shows "drain parse r = (fold notice es r)\<lparr>rd_buffer := []\<rparr>"
  using assms
proof (induction es arbitrary: r)
  case Nil
  then show ?case by (simp add: drain.simps[of parse r])
next
  case (Cons e es)
  have "drain parse r = drain parse ((notice e r)\<lparr>rd_buffer := concat (map (frame dumps) es)\<rparr>)"
    using Cons.prems by (intro drain_frame[where dumps = dumps]) simp_all
  also have "\<dots> = (fold notice es ((notice e r)\<lparr>rd_buffer := concat (map (frame dumps) es)\<rparr>))\<lparr>rd_buffer := []\<rparr>"
    using Cons.prems(1) by (intro Cons.IH) simp_all
  also have "\<dots> = (fold notice es (notice e r))\<lparr>rd_buffer := []\<rparr>" by (simp add: fold_notice_buffer)
  finally show ?case by simp
qed


section \<open>From the publisher to the browser\<close>

text \<open>The messages that arrive are the published events, between timeouts; then the generator yields them in order.\<close>

definition messages :: "arrival list \<Rightarrow> string list" where
  "messages as = concat (map (\<lambda>a. case ar_message a of Inr (Some m) \<Rightarrow> [m] | _ \<Rightarrow> []) as)"

abbreviation heartbeat_event :: "live_event \<Rightarrow> bool" where
  "heartbeat_event e \<equiv> le_event_type e = ''stream.heartbeat''"

lemma subscribe_published:
  assumes "list_all (is_ok \<circ> ar_message) as" "messages as = map dumps pub"
    and "\<forall>e\<in>set pub. loads (dumps e) = Inr e \<and> \<not> heartbeat_event e"
  shows "filter (\<lambda>e. \<not> heartbeat_event e) (fst (subscribe loads rid as)) = pub"
  using assms
proof (induction as arbitrary: pub)
  case (Cons a as)
  show ?case
  proof (cases "ar_message a")
    case (Inl e)
    with Cons.prems show ?thesis by simp
  next
    case (Inr m)
    show ?thesis
    proof (cases m)
      case None
      then show ?thesis using Inr Cons.prems Cons.IH[of pub] by (simp add: messages_def case_prod_beta)
    next
      case (Some data)
      then obtain e pub' where pub: "pub = e # pub'" "data = dumps e" "messages as = map dumps pub'"
        using Inr Cons.prems(2) by (auto simp: messages_def map_eq_Cons_conv Cons_eq_map_conv)
      then show ?thesis
        using Inr Some Cons.prems Cons.IH[of pub'] by (simp add: case_prod_beta)
    qed
  qed
qed (simp add: messages_def)

lemma notice_all:
  assumes "distinct (map (uuid_str \<circ> le_event_id) (filter (\<lambda>e. \<not> heartbeat_event e) es))"
    and "set (map (uuid_str \<circ> le_event_id) (filter (\<lambda>e. \<not> heartbeat_event e) es)) \<inter> set (rd_seen r) = {}"
  shows "rd_acted (fold notice es r) = rd_acted r @ map (uuid_str \<circ> le_event_id) (filter (\<lambda>e. \<not> heartbeat_event e) es)"
  using assms
proof (induction es arbitrary: r)
  case (Cons e es)
  show ?case
  proof (cases "heartbeat_event e")
    case True
    then show ?thesis using Cons by (simp add: notice_def)
  next
    case False
    then have new: "uuid_str (le_event_id e) \<notin> set (rd_seen r)" using Cons.prems(2) by auto
    have seen: "set (rd_seen (notice e r)) \<subseteq> insert (uuid_str (le_event_id e)) (set (rd_seen r))"
      using list.set_sel(2)[of "rd_seen r @ [uuid_str (le_event_id e)]"] by (auto simp: notice_def Let_def split: if_splits)
    have acted: "rd_acted (notice e r) = rd_acted r @ [uuid_str (le_event_id e)]"
      using False new by (simp add: notice_def Let_def)
    have "rd_acted (fold notice es (notice e r)) =
        rd_acted (notice e r) @ map (uuid_str \<circ> le_event_id) (filter (\<lambda>e. \<not> heartbeat_event e) es)"
    proof (rule Cons.IH)
      show "distinct (map (uuid_str \<circ> le_event_id) (filter (\<lambda>e. \<not> heartbeat_event e) es))"
        using Cons.prems(1) False by (simp add: comp_def)
      have "uuid_str (le_event_id e) \<notin> set (map (uuid_str \<circ> le_event_id) (filter (\<lambda>e. \<not> heartbeat_event e) es))"
        "set (map (uuid_str \<circ> le_event_id) (filter (\<lambda>e. \<not> heartbeat_event e) es)) \<inter> set (rd_seen r) = {}"
        using Cons.prems False by auto
      then show "set (map (uuid_str \<circ> le_event_id) (filter (\<lambda>e. \<not> heartbeat_event e) es)) \<inter> set (rd_seen (notice e r)) = {}"
        using seen by blast
    qed
    then show ?thesis using False acted by simp
  qed
qed simp

lemma stream_frames_connected: "stream_frames dumps (\<lambda>_. False) k es = concat (map (frame dumps) es)"
  by (induction es arbitrary: k) simp_all

lemma frames_no_cr:
  assumes "\<forall>e\<in>set es. one_line (le_event_type e) \<and> browser_reads dumps parse e"
  shows "CHR 0x0D \<notin> set (concat (map (frame dumps) es))"
proof -
  have "CHR 0x0D \<notin> set (frame dumps e)" if "e \<in> set es" for e
    using assms that uuid_str_line[of "le_event_id e"] by (auto simp: frame_def one_line_def browser_reads_def)
  then show ?thesis by auto
qed

lemma read_frames:
  assumes es: "\<forall>e\<in>set es. one_line (le_event_type e) \<and> browser_reads dumps parse e"
    and pieces: "concat pieces = ''retry: 2000'' @ [CHR 0x0A, CHR 0x0A] @ concat (map (frame dumps) es)"
  shows "read_stream parse pieces fresh_reader = fold notice es fresh_reader"
proof -
  have "CHR 0x0D \<notin> set (concat pieces)" unfolding pieces using frames_no_cr[OF es] by simp
  then have cr: "\<forall>p\<in>set pieces. CHR 0x0D \<notin> set p" by auto
  let ?all = "fresh_reader\<lparr>rd_buffer := concat pieces\<rparr>" and ?es = "fresh_reader\<lparr>rd_buffer := concat (map (frame dumps) es)\<rparr>"
  have "drain parse fresh_reader = fresh_reader" by (subst drain.simps) (simp add: fresh_reader_def)
  then have "read_stream parse pieces fresh_reader = drain parse ?all"
    using read_stream_pieces[OF cr, of parse fresh_reader] by (simp add: fresh_reader_def)
  also have "\<dots> = drain parse ?es"
  proof -
    have "cut_block (concat pieces) = Some (''retry: 2000'', concat (map (frame dumps) es))" by (simp add: pieces)
    moreover have "handle_block parse ''retry: 2000'' fresh_reader = fresh_reader"
      by (simp add: handle_block_def parseSseBlock_def)
    ultimately show ?thesis by (subst drain.simps) simp
  qed
  also have "\<dots> = (fold notice es ?es)\<lparr>rd_buffer := []\<rparr>" by (rule drain_frames[OF es]) simp
  also have "\<dots> = fold notice es (fresh_reader\<lparr>rd_buffer := []\<rparr>)" by (simp add: fold_notice_buffer)
  also have "fresh_reader\<lparr>rd_buffer := []\<rparr> = fresh_reader" by (simp add: fresh_reader_def)
  finally show ?thesis .
qed

text \<open>
  C39. Live events reach the browser. Suppose the messages that arrive on a run's channel are the
  published events, in order, with any number of timeouts in between, the JSON codecs round-trip, and
  the event types are single lines. Then, however the text of the response is cut into pieces on its
  way, the browser's reader ends with an empty buffer and has acted exactly once on every published
  event, in the order of publication, and on nothing else: heartbeats and the retry block are passed
  over.
\<close>

theorem live_events_reach_browser:
  assumes arrivals: "list_all (is_ok \<circ> ar_message) as" "messages as = map dumps pub"
    and codec: "\<forall>e\<in>set pub. loads (dumps e) = Inr e"
      "\<forall>e\<in>set (fst (subscribe loads rid as)). browser_reads dumps parse e"
    and types: "\<forall>e\<in>set pub. one_line (le_event_type e) \<and> le_event_type e \<noteq> ''stream.heartbeat''"
    and ids: "distinct (map (uuid_str \<circ> le_event_id) pub)"
    and pieces: "concat pieces = stream_run dumps loads (\<lambda>_. False) rid as"
  shows "rd_acted (read_stream parse pieces fresh_reader) = map (uuid_str \<circ> le_event_id) pub \<and>
    rd_buffer (read_stream parse pieces fresh_reader) = []"
proof -
  let ?es = "fst (subscribe loads rid as)"
  have pub: "filter (\<lambda>e. \<not> heartbeat_event e) ?es = pub"
    using subscribe_published[OF arrivals] codec(1) types by blast
  have "one_line (le_event_type e)" if "e \<in> set ?es" for e
  proof (cases "heartbeat_event e")
    case False
    then have "e \<in> set pub" using that unfolding pub[symmetric] by simp
    then show ?thesis using types by blast
  qed (simp add: one_line_def)
  then have read: "read_stream parse pieces fresh_reader = fold notice ?es fresh_reader"
    using codec(2) pieces by (intro read_frames[where dumps = dumps]) (auto simp: stream_run_def stream_frames_connected)
  have "rd_buffer (fold notice es r) = rd_buffer r" for es r by (induction es arbitrary: r) simp_all
  then show ?thesis
    using notice_all[of ?es fresh_reader] ids unfolding read pub by (simp add: fresh_reader_def)
qed

definition demo_live :: "uuid \<Rightarrow> live_event" where
  "demo_live i = \<lparr>le_event_id = i, le_event_type = ''run.status'', le_occurred_at = 0, le_run_id = 11, le_payload = []\<rparr>"

definition demo_dumps :: "live_event \<Rightarrow> string" where
  "demo_dumps e = (if heartbeat_event e then ''{}'' else ''{'' @ uuid_str (le_event_id e) @ ''}'')"

definition demo_arrivals :: "arrival list" where
  "demo_arrivals = map (\<lambda>m. \<lparr>ar_message = Inr m, ar_uuid = 9, ar_now = 0\<rparr>)
     [Some (demo_dumps (demo_live 1)), None, Some (demo_dumps (demo_live 2))]"

definition demo_loads :: "string \<Rightarrow> live_event res" where
  "demo_loads d = (if d = demo_dumps (demo_live 1) then Inr (demo_live 1) else Inr (demo_live 2))"

definition demo_parse :: "string \<Rightarrow> stream_event option" where
  "demo_parse d = Some (if d = ''{}'' then \<lparr>se_event_id = uuid_str 9, se_event_type = ''stream.heartbeat''\<rparr>
     else \<lparr>se_event_id = butlast (tl d), se_event_type = ''run.status''\<rparr>)"

theorem live_events_reach_browser_witness:
  "rd_acted (read_stream demo_parse [stream_run demo_dumps demo_loads (\<lambda>_. False) 11 demo_arrivals] fresh_reader) =
     [uuid_str 1, uuid_str 2]"
proof -
  have ne: "uuid_str u \<noteq> []" for u by (simp add: uuid_str_def Let_def)
  have inj: "uuid_str 1 \<noteq> uuid_str 2"
  proof
    assume "uuid_str 1 = uuid_str 2"
    from arg_cong[OF this, of uuid_parse] show False by (simp add: uuid_parse_str)
  qed
  have l2: "demo_loads (demo_dumps (demo_live 2)) = Inr (demo_live 2)" "demo_loads (demo_dumps (demo_live 1)) = Inr (demo_live 1)"
    using inj by (simp_all add: demo_loads_def demo_dumps_def demo_live_def)
  have es: "fst (subscribe demo_loads 11 demo_arrivals) = [demo_live 1, \<lparr>le_event_id = 9, le_event_type = ''stream.heartbeat'',
      le_occurred_at = 0, le_run_id = 11, le_payload = []\<rparr>, demo_live 2]"
    using l2 by (simp add: demo_arrivals_def)
  have reads: "browser_reads demo_dumps demo_parse (demo_live u)" for u
    using uuid_str_line[of u] ne[of u] by (auto simp: browser_reads_def demo_dumps_def demo_live_def demo_parse_def one_line_def)
  have hb: "browser_reads demo_dumps demo_parse \<lparr>le_event_id = 9, le_event_type = ''stream.heartbeat'',
      le_occurred_at = 0, le_run_id = 11, le_payload = []\<rparr>"
    by (simp add: browser_reads_def demo_dumps_def demo_parse_def)
  have "rd_acted (read_stream demo_parse [stream_run demo_dumps demo_loads (\<lambda>_. False) 11 demo_arrivals] fresh_reader) =
      map (uuid_str \<circ> le_event_id) [demo_live 1, demo_live 2]"
    by (rule conjunct1[OF live_events_reach_browser[where dumps = demo_dumps and loads = demo_loads and rid = 11 and as = demo_arrivals]])
      (use l2 es reads hb inj in \<open>auto simp: demo_arrivals_def messages_def demo_live_def one_line_def\<close>)
  then show ?thesis by (simp add: demo_live_def)
qed

end
