(* ===== verification/Migrations.thy ===== *)
theory Migrations
  imports Models
begin

text \<open>
  The schema migrations (\<open>services/api/alembic\<close>) and the tables that the ORM classes of \<open>models.py\<close>
  declare. A migration is its list of operations, executed against a schema: enumeration types, tables
  with their columns and constraints, and indexes. An operation that PostgreSQL refuses raises; a run
  of migrations is one transaction, so it then leaves the schema as it was.
\<close>

section \<open>Schemas\<close>

datatype coltype = UuidT | StringT nat | IntegerT | FloatT | BooleanT | JsonT | DateTimeTz | EnumT string

record column =
  cn_name :: string
  cn_type :: coltype
  cn_nullable :: bool
  cn_default_now :: bool

datatype ondelete = Restrict | Cascade | Set_Null

record fkey =
  fk_name :: "string option"
  fk_column :: string
  fk_table :: string
  fk_target :: string
  fk_ondelete :: ondelete

record uniq =
  uq_name :: "string option"
  uq_columns :: "string list"

record tbl =
  tb_name :: string
  tb_columns :: "column list"
  tb_primary :: "string list"
  tb_foreign :: "fkey list"
  tb_unique :: "uniq list"

record idx =
  ix_name :: string
  ix_table :: string
  ix_columns :: "string list"
  ix_unique :: bool
  ix_where :: "string option"

record schema =
  sc_enums :: "(string \<times> string list) list"
  sc_tables :: "tbl list"
  sc_indexes :: "idx list"

definition empty_schema :: schema where
  "empty_schema = \<lparr>sc_enums = [], sc_tables = [], sc_indexes = []\<rparr>"

definition column_names :: "tbl \<Rightarrow> string list" where
  "column_names t = map cn_name (tb_columns t)"

definition get_table :: "schema \<Rightarrow> string \<Rightarrow> tbl option" where
  "get_table s n = find (\<lambda>t. tb_name t = n) (sc_tables s)"

fun enum_of :: "coltype \<Rightarrow> string list" where
  "enum_of (EnumT e) = [e]"
| "enum_of t = []"

definition table_enums :: "tbl \<Rightarrow> string list" where
  "table_enums t = concat (map (enum_of \<circ> cn_type) (tb_columns t))"


section \<open>Operations\<close>

datatype ddl =
    CreateEnum string "string list" bool
  | DropEnum string
  | CreateTable tbl
  | DropTable string
  | CreateIndex idx
  | DropIndex string string
  | CreateForeignKey string fkey
  | DropConstraint string string

definition duplicate_object :: exn where
  "duplicate_object = OtherError ''DuplicateObject''"

definition undefined_object :: exn where
  "undefined_object = OtherError ''UndefinedObject''"

definition dependent_objects :: exn where
  "dependent_objects = OtherError ''DependentObjectsStillExist''"

text \<open>Tables and indexes share one name space.\<close>

definition relation_names :: "schema \<Rightarrow> string list" where
  "relation_names s = map tb_name (sc_tables s) @ map ix_name (sc_indexes s)"

definition foreign_ok :: "schema \<Rightarrow> tbl \<Rightarrow> fkey \<Rightarrow> bool" where
  "foreign_ok s t f \<longleftrightarrow> fk_column f \<in> set (column_names t) \<and>
     (if fk_table f = tb_name t then fk_target f \<in> set (column_names t)
      else case get_table s (fk_table f) of None \<Rightarrow> False | Some u \<Rightarrow> fk_target f \<in> set (column_names u))"

definition table_shape :: "tbl \<Rightarrow> bool" where
  "table_shape t \<longleftrightarrow> distinct (column_names t) \<and> set (tb_primary t) \<subseteq> set (column_names t) \<and>
     list_all (\<lambda>q. set (uq_columns q) \<subseteq> set (column_names t)) (tb_unique t)"

definition table_ok :: "schema \<Rightarrow> tbl \<Rightarrow> bool" where
  "table_ok s t \<longleftrightarrow> table_shape t \<and> list_all (\<lambda>e. e \<in> set (map fst (sc_enums s))) (table_enums t) \<and> list_all (foreign_ok s t) (tb_foreign t)"

fun exec_ddl :: "ddl \<Rightarrow> schema \<Rightarrow> schema res" where
  "exec_ddl (CreateEnum n vs checkfirst) s =
     (if n \<in> set (map fst (sc_enums s)) then if checkfirst then Inr s else Inl duplicate_object
      else Inr (s\<lparr>sc_enums := sc_enums s @ [(n, vs)]\<rparr>))"
| "exec_ddl (DropEnum n) s =
     (if list_ex (\<lambda>t. n \<in> set (table_enums t)) (sc_tables s) then Inl dependent_objects
      else Inr (s\<lparr>sc_enums := filter (\<lambda>e. fst e \<noteq> n) (sc_enums s)\<rparr>))"
| "exec_ddl (CreateTable t) s =
     (if tb_name t \<in> set (relation_names s) then Inl duplicate_object
      else if \<not> table_ok s t then Inl undefined_object
      else Inr (s\<lparr>sc_tables := sc_tables s @ [t]\<rparr>))"
| "exec_ddl (DropTable n) s =
     (if n \<notin> set (map tb_name (sc_tables s)) then Inl undefined_object
      else if list_ex (\<lambda>t. tb_name t \<noteq> n \<and> list_ex (\<lambda>f. fk_table f = n) (tb_foreign t)) (sc_tables s)
      then Inl dependent_objects
      else Inr (s\<lparr>sc_tables := filter (\<lambda>t. tb_name t \<noteq> n) (sc_tables s),
                  sc_indexes := filter (\<lambda>i. ix_table i \<noteq> n) (sc_indexes s)\<rparr>))"
| "exec_ddl (CreateIndex i) s =
     (if ix_name i \<in> set (relation_names s) then Inl duplicate_object
      else case get_table s (ix_table i) of
             None \<Rightarrow> Inl undefined_object
           | Some t \<Rightarrow> if set (ix_columns i) \<subseteq> set (column_names t)
                       then Inr (s\<lparr>sc_indexes := sc_indexes s @ [i]\<rparr>) else Inl undefined_object)"
| "exec_ddl (DropIndex n tn) s =
     (if list_ex (\<lambda>i. ix_name i = n) (sc_indexes s)
      then Inr (s\<lparr>sc_indexes := filter (\<lambda>i. ix_name i \<noteq> n) (sc_indexes s)\<rparr>) else Inl undefined_object)"
| "exec_ddl (CreateForeignKey n f) s =
     (case get_table s n of
        None \<Rightarrow> Inl undefined_object
      | Some t \<Rightarrow>
          if list_ex (\<lambda>g. fk_name g = fk_name f) (tb_foreign t) then Inl duplicate_object
          else if \<not> foreign_ok s t f then Inl undefined_object
          else Inr (s\<lparr>sc_tables := map (\<lambda>t. if tb_name t = n then t\<lparr>tb_foreign := tb_foreign t @ [f]\<rparr> else t) (sc_tables s)\<rparr>))"
| "exec_ddl (DropConstraint c n) s =
     (case get_table s n of
        None \<Rightarrow> Inl undefined_object
      | Some t \<Rightarrow>
          if \<not> list_ex (\<lambda>g. fk_name g = Some c) (tb_foreign t) then Inl undefined_object
          else Inr (s\<lparr>sc_tables := map (\<lambda>t. if tb_name t = n
                 then t\<lparr>tb_foreign := filter (\<lambda>g. fk_name g \<noteq> Some c) (tb_foreign t)\<rparr> else t) (sc_tables s)\<rparr>))"


section \<open>The migrations\<close>

definition col :: "string \<Rightarrow> coltype \<Rightarrow> column" where
  "col n t = \<lparr>cn_name = n, cn_type = t, cn_nullable = False, cn_default_now = False\<rparr>"

definition null_col :: "string \<Rightarrow> coltype \<Rightarrow> column" where
  "null_col n t = \<lparr>cn_name = n, cn_type = t, cn_nullable = True, cn_default_now = False\<rparr>"

definition stamp_col :: "string \<Rightarrow> column" where
  "stamp_col n = \<lparr>cn_name = n, cn_type = DateTimeTz, cn_nullable = False, cn_default_now = True\<rparr>"

definition foreign :: "string \<Rightarrow> string \<Rightarrow> ondelete \<Rightarrow> fkey" where
  "foreign c t od = \<lparr>fk_name = None, fk_column = c, fk_table = t, fk_target = ''id'', fk_ondelete = od\<rparr>"

definition index :: "string \<Rightarrow> string \<Rightarrow> string list \<Rightarrow> idx" where
  "index n t cs = \<lparr>ix_name = n, ix_table = t, ix_columns = cs, ix_unique = False, ix_where = None\<rparr>"

record revision =
  rv_id :: string
  rv_down :: "string option"
  rv_upgrade :: "ddl list"
  rv_downgrade :: "ddl list"

definition users_table :: tbl where
  "users_table = \<lparr>tb_name = ''users'', tb_columns =
     [col ''id'' UuidT, col ''email'' (StringT 320), col ''password_hash'' (StringT 255),
      col ''role'' (EnumT ''user_role''), stamp_col ''created_at'', stamp_col ''updated_at''],
     tb_primary = [''id''], tb_foreign = [], tb_unique = []\<rparr>"

text \<open>The generic \<open>sa.Enum\<close> of the first migration creates its type together with the table.\<close>

definition rev_0001 :: revision where
  "rev_0001 = \<lparr>rv_id = ''0001'', rv_down = None,
     rv_upgrade =
       [CreateEnum ''user_role'' [''viewer'', ''researcher'', ''administrator''] False,
        CreateTable users_table,
        CreateIndex ((index ''ix_users_email'' ''users'' [''email''])\<lparr>ix_unique := True\<rparr>)],
     rv_downgrade = [DropIndex ''ix_users_email'' ''users'', DropTable ''users'', DropEnum ''user_role'']\<rparr>"

definition projects_table :: tbl where
  "projects_table = \<lparr>tb_name = ''projects'', tb_columns =
     [col ''id'' UuidT, col ''name'' (StringT 120), col ''description'' (StringT 2000), col ''created_by'' UuidT,
      stamp_col ''created_at'', stamp_col ''updated_at''],
     tb_primary = [''id''], tb_foreign = [foreign ''created_by'' ''users'' Restrict], tb_unique = []\<rparr>"

definition experiments_table :: tbl where
  "experiments_table = \<lparr>tb_name = ''experiments'', tb_columns =
     [col ''id'' UuidT, col ''project_id'' UuidT, col ''name'' (StringT 120), col ''description'' (StringT 4000),
      col ''tags'' JsonT, col ''created_by'' UuidT, stamp_col ''created_at'', stamp_col ''updated_at''],
     tb_primary = [''id''],
     tb_foreign = [foreign ''created_by'' ''users'' Restrict, foreign ''project_id'' ''projects'' Restrict],
     tb_unique = [\<lparr>uq_name = Some ''uq_experiments_project_name'', uq_columns = [''project_id'', ''name'']\<rparr>]\<rparr>"

definition rev_0002 :: revision where
  "rev_0002 = \<lparr>rv_id = ''0002'', rv_down = Some ''0001'',
     rv_upgrade =
       [CreateTable projects_table,
        CreateIndex (index ''ix_projects_created_by_created_at'' ''projects'' [''created_by'', ''created_at'']),
        CreateIndex (index ''ix_projects_name'' ''projects'' [''name'']),
        CreateTable experiments_table,
        CreateIndex (index ''ix_experiments_created_by'' ''experiments'' [''created_by'']),
        CreateIndex (index ''ix_experiments_project_created_at'' ''experiments'' [''project_id'', ''created_at'']),
        CreateIndex (index ''ix_experiments_name'' ''experiments'' [''name''])],
     rv_downgrade =
       [DropIndex ''ix_experiments_name'' ''experiments'', DropIndex ''ix_experiments_project_created_at'' ''experiments'',
        DropIndex ''ix_experiments_created_by'' ''experiments'', DropTable ''experiments'',
        DropIndex ''ix_projects_name'' ''projects'', DropIndex ''ix_projects_created_by_created_at'' ''projects'',
        DropTable ''projects'']\<rparr>"

definition RUN_STATUS_VALUES :: "string list" where
  "RUN_STATUS_VALUES = [''DRAFT'', ''QUEUED'', ''SCHEDULING'', ''RUNNING'', ''SUCCEEDED'', ''FAILED'', ''CANCELLING'',
     ''CANCELLED'', ''RETRYING'']"

definition training_templates_table :: tbl where
  "training_templates_table = \<lparr>tb_name = ''training_templates'', tb_columns =
     [col ''id'' UuidT, col ''key'' (StringT 100), col ''name'' (StringT 160), col ''description'' (StringT 2000),
      col ''version'' (StringT 40), col ''parameter_schema'' JsonT, col ''enabled'' BooleanT, stamp_col ''created_at''],
     tb_primary = [''id''], tb_foreign = [],
     tb_unique = [\<lparr>uq_name = Some ''uq_training_templates_key_version'', uq_columns = [''key'', ''version'']\<rparr>]\<rparr>"

definition runs_table :: tbl where
  "runs_table = \<lparr>tb_name = ''runs'', tb_columns =
     [col ''id'' UuidT, col ''experiment_id'' UuidT, col ''template_id'' UuidT, col ''status'' (EnumT ''run_status''),
      col ''priority'' IntegerT, col ''requested_cpu'' FloatT, col ''requested_memory_mb'' IntegerT,
      null_col ''assigned_worker_id'' UuidT, col ''attempt_number'' IntegerT, null_col ''parent_run_id'' UuidT,
      col ''created_by'' UuidT, stamp_col ''created_at'', null_col ''queued_at'' DateTimeTz,
      null_col ''started_at'' DateTimeTz, null_col ''completed_at'' DateTimeTz, null_col ''failure_code'' (StringT 100),
      null_col ''failure_message'' (StringT 2000), col ''notes'' (StringT 4000), col ''tags'' JsonT, col ''version'' IntegerT],
     tb_primary = [''id''],
     tb_foreign = [foreign ''created_by'' ''users'' Restrict, foreign ''experiment_id'' ''experiments'' Restrict,
       foreign ''parent_run_id'' ''runs'' Restrict, foreign ''template_id'' ''training_templates'' Restrict],
     tb_unique = []\<rparr>"

definition run_parameters_table :: tbl where
  "run_parameters_table = \<lparr>tb_name = ''run_parameters'', tb_columns =
     [col ''id'' UuidT, col ''run_id'' UuidT, col ''name'' (StringT 100), col ''value'' JsonT],
     tb_primary = [''id''], tb_foreign = [foreign ''run_id'' ''runs'' Cascade],
     tb_unique = [\<lparr>uq_name = Some ''uq_run_parameters_run_name'', uq_columns = [''run_id'', ''name'']\<rparr>]\<rparr>"

definition run_metrics_table :: tbl where
  "run_metrics_table = \<lparr>tb_name = ''run_metrics'', tb_columns =
     [col ''id'' UuidT, col ''run_id'' UuidT, col ''name'' (StringT 100), col ''value'' FloatT, col ''step'' IntegerT,
      stamp_col ''recorded_at''],
     tb_primary = [''id''], tb_foreign = [foreign ''run_id'' ''runs'' Cascade], tb_unique = []\<rparr>"

definition run_logs_table :: tbl where
  "run_logs_table = \<lparr>tb_name = ''run_logs'', tb_columns =
     [col ''id'' UuidT, col ''run_id'' UuidT, col ''sequence_number'' IntegerT, col ''level'' (StringT 20),
      col ''message'' (StringT 4000), stamp_col ''recorded_at''],
     tb_primary = [''id''], tb_foreign = [foreign ''run_id'' ''runs'' Cascade],
     tb_unique = [\<lparr>uq_name = Some ''uq_run_logs_run_sequence'', uq_columns = [''run_id'', ''sequence_number'']\<rparr>]\<rparr>"

definition artifacts_table :: tbl where
  "artifacts_table = \<lparr>tb_name = ''artifacts'', tb_columns =
     [col ''id'' UuidT, col ''run_id'' UuidT, col ''name'' (StringT 255), col ''storage_key'' (StringT 500),
      col ''mime_type'' (StringT 200), col ''size_bytes'' IntegerT, col ''checksum'' (StringT 64), stamp_col ''created_at''],
     tb_primary = [''id''], tb_foreign = [foreign ''run_id'' ''runs'' Cascade],
     tb_unique = [\<lparr>uq_name = Some ''uq_artifacts_run_name'', uq_columns = [''run_id'', ''name'']\<rparr>,
       \<lparr>uq_name = None, uq_columns = [''storage_key'']\<rparr>]\<rparr>"

definition run_events_table :: tbl where
  "run_events_table = \<lparr>tb_name = ''run_events'', tb_columns =
     [col ''id'' UuidT, col ''run_id'' UuidT, col ''event_type'' (StringT 100),
      null_col ''previous_status'' (EnumT ''run_status''), null_col ''new_status'' (EnumT ''run_status''),
      col ''metadata'' JsonT, stamp_col ''created_at''],
     tb_primary = [''id''], tb_foreign = [foreign ''run_id'' ''runs'' Cascade], tb_unique = []\<rparr>"

definition rev_0003_downgrade :: "ddl list" where
  "rev_0003_downgrade =
       [DropIndex ''ix_run_events_run_created_at'' ''run_events'', DropTable ''run_events'',
        DropIndex ''ix_artifacts_run_created_at'' ''artifacts'', DropTable ''artifacts'',
        DropIndex ''ix_run_logs_run_recorded_at'' ''run_logs'', DropTable ''run_logs'',
        DropIndex ''ix_run_metrics_run_recorded_at'' ''run_metrics'', DropIndex ''ix_run_metrics_run_name_step'' ''run_metrics'',
        DropTable ''run_metrics'', DropIndex ''ix_run_parameters_run_id'' ''run_parameters'', DropTable ''run_parameters'',
        DropIndex ''ix_runs_status_priority_created_at'' ''runs'', DropIndex ''ix_runs_experiment_created_at'' ''runs'',
        DropIndex ''ix_runs_created_by'' ''runs'', DropTable ''runs'',
        DropIndex ''ix_training_templates_enabled_key'' ''training_templates'', DropTable ''training_templates'',
        DropEnum ''run_status'']"

definition rev_0003 :: revision where
  "rev_0003 = \<lparr>rv_id = ''0003'', rv_down = Some ''0002'',
     rv_upgrade =
       [CreateEnum ''run_status'' RUN_STATUS_VALUES True,
        CreateTable training_templates_table,
        CreateIndex (index ''ix_training_templates_enabled_key'' ''training_templates'' [''enabled'', ''key'']),
        CreateTable runs_table,
        CreateIndex (index ''ix_runs_created_by'' ''runs'' [''created_by'']),
        CreateIndex (index ''ix_runs_experiment_created_at'' ''runs'' [''experiment_id'', ''created_at'']),
        CreateIndex (index ''ix_runs_status_priority_created_at'' ''runs'' [''status'', ''priority'', ''created_at'']),
        CreateTable run_parameters_table,
        CreateIndex (index ''ix_run_parameters_run_id'' ''run_parameters'' [''run_id'']),
        CreateTable run_metrics_table,
        CreateIndex (index ''ix_run_metrics_run_name_step'' ''run_metrics'' [''run_id'', ''name'', ''step'']),
        CreateIndex (index ''ix_run_metrics_run_recorded_at'' ''run_metrics'' [''run_id'', ''recorded_at'']),
        CreateTable run_logs_table,
        CreateIndex (index ''ix_run_logs_run_recorded_at'' ''run_logs'' [''run_id'', ''recorded_at'']),
        CreateTable artifacts_table,
        CreateIndex (index ''ix_artifacts_run_created_at'' ''artifacts'' [''run_id'', ''created_at'']),
        CreateTable run_events_table,
        CreateIndex (index ''ix_run_events_run_created_at'' ''run_events'' [''run_id'', ''created_at''])],
     rv_downgrade = rev_0003_downgrade\<rparr>"

definition outbox_messages_table :: tbl where
  "outbox_messages_table = \<lparr>tb_name = ''outbox_messages'', tb_columns =
     [col ''id'' UuidT, col ''topic'' (StringT 200), col ''partition_key'' (StringT 200), col ''envelope'' JsonT,
      stamp_col ''created_at'', null_col ''published_at'' DateTimeTz, col ''publish_attempts'' IntegerT,
      null_col ''last_error'' (StringT 500)],
     tb_primary = [''id''], tb_foreign = [], tb_unique = []\<rparr>"

definition processed_messages_table :: tbl where
  "processed_messages_table = \<lparr>tb_name = ''processed_messages'', tb_columns =
     [col ''id'' UuidT, col ''event_id'' UuidT, col ''consumer_name'' (StringT 100), stamp_col ''processed_at''],
     tb_primary = [''id''], tb_foreign = [],
     tb_unique = [\<lparr>uq_name = Some ''uq_processed_event_consumer'', uq_columns = [''event_id'', ''consumer_name'']\<rparr>]\<rparr>"

definition rev_0004 :: revision where
  "rev_0004 = \<lparr>rv_id = ''0004'', rv_down = Some ''0003'',
     rv_upgrade =
       [CreateTable outbox_messages_table,
        CreateIndex (index ''ix_outbox_messages_unpublished_created'' ''outbox_messages'' [''published_at'', ''created_at'']),
        CreateTable processed_messages_table,
        CreateIndex (index ''ix_processed_messages_processed_at'' ''processed_messages'' [''processed_at''])],
     rv_downgrade =
       [DropIndex ''ix_processed_messages_processed_at'' ''processed_messages'', DropTable ''processed_messages'',
        DropIndex ''ix_outbox_messages_unpublished_created'' ''outbox_messages'', DropTable ''outbox_messages'']\<rparr>"

definition WORKER_STATUS_VALUES :: "string list" where
  "WORKER_STATUS_VALUES = [''ONLINE'', ''OFFLINE'', ''STALE'']"

definition workers_table :: tbl where
  "workers_table = \<lparr>tb_name = ''workers'', tb_columns =
     [col ''id'' UuidT, col ''name'' (StringT 120), col ''status'' (EnumT ''worker_status''), col ''total_cpu'' FloatT,
      col ''available_cpu'' FloatT, col ''total_memory_mb'' IntegerT, col ''available_memory_mb'' IntegerT,
      col ''current_run_count'' IntegerT, col ''last_heartbeat_at'' DateTimeTz, stamp_col ''created_at'', stamp_col ''updated_at''],
     tb_primary = [''id''], tb_foreign = [], tb_unique = [\<lparr>uq_name = None, uq_columns = [''name'']\<rparr>]\<rparr>"

definition resource_allocations_table :: tbl where
  "resource_allocations_table = \<lparr>tb_name = ''resource_allocations'', tb_columns =
     [col ''id'' UuidT, col ''run_id'' UuidT, col ''worker_id'' UuidT, col ''cpu'' FloatT, col ''memory_mb'' IntegerT,
      col ''lease_token'' UuidT, col ''lease_expires_at'' DateTimeTz, null_col ''released_at'' DateTimeTz],
     tb_primary = [''id''],
     tb_foreign = [foreign ''run_id'' ''runs'' Restrict, foreign ''worker_id'' ''workers'' Restrict],
     tb_unique = [\<lparr>uq_name = None, uq_columns = [''lease_token'']\<rparr>]\<rparr>"

definition rev_0005 :: revision where
  "rev_0005 = \<lparr>rv_id = ''0005'', rv_down = Some ''0004'',
     rv_upgrade =
       [CreateEnum ''worker_status'' WORKER_STATUS_VALUES True,
        CreateTable workers_table,
        CreateIndex (index ''ix_workers_status_heartbeat'' ''workers'' [''status'', ''last_heartbeat_at'']),
        CreateForeignKey ''runs'' ((foreign ''assigned_worker_id'' ''workers'' Set_Null)
          \<lparr>fk_name := Some ''fk_runs_assigned_worker_id_workers''\<rparr>),
        CreateTable resource_allocations_table,
        CreateIndex (index ''ix_resource_allocations_worker_released'' ''resource_allocations'' [''worker_id'', ''released_at'']),
        CreateIndex (index ''ix_resource_allocations_lease_expires'' ''resource_allocations'' [''lease_expires_at'']),
        CreateIndex ((index ''uq_resource_allocations_active_run'' ''resource_allocations'' [''run_id''])
          \<lparr>ix_unique := True, ix_where := Some ''released_at IS NULL''\<rparr>)],
     rv_downgrade =
       [DropIndex ''uq_resource_allocations_active_run'' ''resource_allocations'',
        DropIndex ''ix_resource_allocations_lease_expires'' ''resource_allocations'',
        DropIndex ''ix_resource_allocations_worker_released'' ''resource_allocations'', DropTable ''resource_allocations'',
        DropConstraint ''fk_runs_assigned_worker_id_workers'' ''runs'', DropIndex ''ix_workers_status_heartbeat'' ''workers'',
        DropTable ''workers'', DropEnum ''worker_status'']\<rparr>"

definition revisions :: "revision list" where
  "revisions = [rev_0001, rev_0002, rev_0003, rev_0004, rev_0005]"


section \<open>Running migrations\<close>

record database =
  dbv_revision :: "string option"
  dbv_schema :: schema

text \<open>The revisions above and below the current one, found by the \<open>down_revision\<close> of each.\<close>

fun upgrades :: "nat \<Rightarrow> string option \<Rightarrow> revision list" where
  "upgrades 0 cur = []"
| "upgrades (Suc n) cur =
     (case find (\<lambda>r. rv_down r = cur) revisions of None \<Rightarrow> [] | Some r \<Rightarrow> r # upgrades n (Some (rv_id r)))"

fun downgrades :: "nat \<Rightarrow> string option \<Rightarrow> revision list" where
  "downgrades 0 cur = []"
| "downgrades (Suc n) cur =
     (case find (\<lambda>r. Some (rv_id r) = cur) revisions of None \<Rightarrow> [] | Some r \<Rightarrow> r # downgrades n (rv_down r))"

definition run_upgrade :: "revision \<Rightarrow> database \<Rightarrow> database res" where
  "run_upgrade r d = res_bind (res_fold exec_ddl (rv_upgrade r) (dbv_schema d))
     (\<lambda>s. Inr \<lparr>dbv_revision = Some (rv_id r), dbv_schema = s\<rparr>)"

definition run_downgrade :: "revision \<Rightarrow> database \<Rightarrow> database res" where
  "run_downgrade r d = res_bind (res_fold exec_ddl (rv_downgrade r) (dbv_schema d))
     (\<lambda>s. Inr \<lparr>dbv_revision = rv_down r, dbv_schema = s\<rparr>)"

definition do_run_migrations :: "(revision \<Rightarrow> database \<Rightarrow> database res) \<Rightarrow> revision list \<Rightarrow> database \<Rightarrow> unit res \<times> database" where
  "do_run_migrations step rs d = (case res_fold step rs d of Inl e \<Rightarrow> (Inl e, d) | Inr d' \<Rightarrow> (Inr (), d'))"


section \<open>The tables of the ORM classes\<close>

text \<open>
  A \<open>mapped_column\<close> with its options, and the table the metadata of a class gives: a foreign key on the
  column is an unnamed constraint, \<open>unique\<close> without \<open>index\<close> an unnamed unique constraint, and \<open>index\<close>
  an index named after the table and the column.
\<close>

record mapped =
  mp_column :: column
  mp_primary :: bool
  mp_foreign :: "(string \<times> string \<times> ondelete) option"
  mp_unique :: bool
  mp_index :: bool

definition mapped_column :: "column \<Rightarrow> mapped" where
  "mapped_column c = \<lparr>mp_column = c, mp_primary = False, mp_foreign = None, mp_unique = False, mp_index = False\<rparr>"

definition id_column :: mapped where
  "id_column = (mapped_column (col ''id'' UuidT))\<lparr>mp_primary := True\<rparr>"

definition ref_column :: "column \<Rightarrow> string \<Rightarrow> ondelete \<Rightarrow> mapped" where
  "ref_column c t od = (mapped_column c)\<lparr>mp_foreign := Some (t, ''id'', od)\<rparr>"

definition timestamp_mixin :: "mapped list" where
  "timestamp_mixin = [mapped_column (stamp_col ''created_at''), mapped_column (stamp_col ''updated_at'')]"

record orm_class =
  oc_table :: string
  oc_columns :: "mapped list"
  oc_unique :: "uniq list"
  oc_indexes :: "idx list"

definition class_table :: "orm_class \<Rightarrow> tbl" where
  "class_table c = \<lparr>tb_name = oc_table c, tb_columns = map mp_column (oc_columns c),
     tb_primary = map (cn_name \<circ> mp_column) (filter mp_primary (oc_columns c)),
     tb_foreign = List.map_filter (\<lambda>m. map_option (\<lambda>(t, x, od). \<lparr>fk_name = None, fk_column = cn_name (mp_column m),
       fk_table = t, fk_target = x, fk_ondelete = od\<rparr>) (mp_foreign m)) (oc_columns c),
     tb_unique = oc_unique c @ map (\<lambda>m. \<lparr>uq_name = None, uq_columns = [cn_name (mp_column m)]\<rparr>)
       (filter (\<lambda>m. mp_unique m \<and> \<not> mp_index m) (oc_columns c))\<rparr>"

definition class_indexes :: "orm_class \<Rightarrow> idx list" where
  "class_indexes c = oc_indexes c @ map (\<lambda>m. \<lparr>ix_name = ''ix_'' @ oc_table c @ ''_'' @ cn_name (mp_column m),
     ix_table = oc_table c, ix_columns = [cn_name (mp_column m)], ix_unique = mp_unique m, ix_where = None\<rparr>)
     (filter mp_index (oc_columns c))"

definition model_enums :: "(string \<times> string list) list" where
  "model_enums = [(''user_role'', map role_value [VIEWER, RESEARCHER, ADMINISTRATOR]),
     (''run_status'', map status_value [DRAFT, QUEUED, SCHEDULING, RUNNING, SUCCEEDED, FAILED, CANCELLING, CANCELLED, RETRYING]),
     (''worker_status'', map worker_status_value [ONLINE, OFFLINE, STALE])]"

definition class_User :: orm_class where
  "class_User = \<lparr>oc_table = ''users'', oc_columns =
     [id_column, (mapped_column (col ''email'' (StringT 320)))\<lparr>mp_unique := True, mp_index := True\<rparr>,
      mapped_column (col ''password_hash'' (StringT 255)), mapped_column (col ''role'' (EnumT ''user_role''))] @ timestamp_mixin,
     oc_unique = [], oc_indexes = []\<rparr>"

definition class_Project :: orm_class where
  "class_Project = \<lparr>oc_table = ''projects'', oc_columns =
     [id_column, mapped_column (col ''name'' (StringT 120)), mapped_column (col ''description'' (StringT 2000)),
      ref_column (col ''created_by'' UuidT) ''users'' Restrict] @ timestamp_mixin,
     oc_unique = [],
     oc_indexes = [index ''ix_projects_created_by_created_at'' ''projects'' [''created_by'', ''created_at''],
       index ''ix_projects_name'' ''projects'' [''name'']]\<rparr>"

definition class_Experiment :: orm_class where
  "class_Experiment = \<lparr>oc_table = ''experiments'', oc_columns =
     [id_column, ref_column (col ''project_id'' UuidT) ''projects'' Restrict, mapped_column (col ''name'' (StringT 120)),
      mapped_column (col ''description'' (StringT 4000)), mapped_column (col ''tags'' JsonT),
      ref_column (col ''created_by'' UuidT) ''users'' Restrict] @ timestamp_mixin,
     oc_unique = [\<lparr>uq_name = Some ''uq_experiments_project_name'', uq_columns = [''project_id'', ''name'']\<rparr>],
     oc_indexes = [index ''ix_experiments_project_created_at'' ''experiments'' [''project_id'', ''created_at''],
       index ''ix_experiments_created_by'' ''experiments'' [''created_by''],
       index ''ix_experiments_name'' ''experiments'' [''name'']]\<rparr>"

definition class_TrainingTemplate :: orm_class where
  "class_TrainingTemplate = \<lparr>oc_table = ''training_templates'', oc_columns =
     [id_column, mapped_column (col ''key'' (StringT 100)), mapped_column (col ''name'' (StringT 160)),
      mapped_column (col ''description'' (StringT 2000)), mapped_column (col ''version'' (StringT 40)),
      mapped_column (col ''parameter_schema'' JsonT), mapped_column (col ''enabled'' BooleanT), mapped_column (stamp_col ''created_at'')],
     oc_unique = [\<lparr>uq_name = Some ''uq_training_templates_key_version'', uq_columns = [''key'', ''version'']\<rparr>],
     oc_indexes = [index ''ix_training_templates_enabled_key'' ''training_templates'' [''enabled'', ''key'']]\<rparr>"

definition class_Run :: orm_class where
  "class_Run = \<lparr>oc_table = ''runs'', oc_columns =
     [id_column, ref_column (col ''experiment_id'' UuidT) ''experiments'' Restrict,
      ref_column (col ''template_id'' UuidT) ''training_templates'' Restrict, mapped_column (col ''status'' (EnumT ''run_status'')),
      mapped_column (col ''priority'' IntegerT), mapped_column (col ''requested_cpu'' FloatT),
      mapped_column (col ''requested_memory_mb'' IntegerT), ref_column (null_col ''assigned_worker_id'' UuidT) ''workers'' Set_Null,
      mapped_column (col ''attempt_number'' IntegerT), ref_column (null_col ''parent_run_id'' UuidT) ''runs'' Restrict,
      ref_column (col ''created_by'' UuidT) ''users'' Restrict, mapped_column (stamp_col ''created_at''),
      mapped_column (null_col ''queued_at'' DateTimeTz), mapped_column (null_col ''started_at'' DateTimeTz),
      mapped_column (null_col ''completed_at'' DateTimeTz), mapped_column (null_col ''failure_code'' (StringT 100)),
      mapped_column (null_col ''failure_message'' (StringT 2000)), mapped_column (col ''notes'' (StringT 4000)),
      mapped_column (col ''tags'' JsonT), mapped_column (col ''version'' IntegerT)],
     oc_unique = [],
     oc_indexes = [index ''ix_runs_experiment_created_at'' ''runs'' [''experiment_id'', ''created_at''],
       index ''ix_runs_status_priority_created_at'' ''runs'' [''status'', ''priority'', ''created_at''],
       index ''ix_runs_created_by'' ''runs'' [''created_by'']]\<rparr>"

definition class_RunParameter :: orm_class where
  "class_RunParameter = \<lparr>oc_table = ''run_parameters'', oc_columns =
     [id_column, (ref_column (col ''run_id'' UuidT) ''runs'' Cascade)\<lparr>mp_index := True\<rparr>,
      mapped_column (col ''name'' (StringT 100)), mapped_column (col ''value'' JsonT)],
     oc_unique = [\<lparr>uq_name = Some ''uq_run_parameters_run_name'', uq_columns = [''run_id'', ''name'']\<rparr>], oc_indexes = []\<rparr>"

definition class_RunMetric :: orm_class where
  "class_RunMetric = \<lparr>oc_table = ''run_metrics'', oc_columns =
     [id_column, ref_column (col ''run_id'' UuidT) ''runs'' Cascade, mapped_column (col ''name'' (StringT 100)),
      mapped_column (col ''value'' FloatT), mapped_column (col ''step'' IntegerT), mapped_column (stamp_col ''recorded_at'')],
     oc_unique = [],
     oc_indexes = [index ''ix_run_metrics_run_name_step'' ''run_metrics'' [''run_id'', ''name'', ''step''],
       index ''ix_run_metrics_run_recorded_at'' ''run_metrics'' [''run_id'', ''recorded_at'']]\<rparr>"

definition class_RunLog :: orm_class where
  "class_RunLog = \<lparr>oc_table = ''run_logs'', oc_columns =
     [id_column, ref_column (col ''run_id'' UuidT) ''runs'' Cascade, mapped_column (col ''sequence_number'' IntegerT),
      mapped_column (col ''level'' (StringT 20)), mapped_column (col ''message'' (StringT 4000)), mapped_column (stamp_col ''recorded_at'')],
     oc_unique = [\<lparr>uq_name = Some ''uq_run_logs_run_sequence'', uq_columns = [''run_id'', ''sequence_number'']\<rparr>],
     oc_indexes = [index ''ix_run_logs_run_recorded_at'' ''run_logs'' [''run_id'', ''recorded_at'']]\<rparr>"

definition class_Artifact :: orm_class where
  "class_Artifact = \<lparr>oc_table = ''artifacts'', oc_columns =
     [id_column, ref_column (col ''run_id'' UuidT) ''runs'' Cascade, mapped_column (col ''name'' (StringT 255)),
      (mapped_column (col ''storage_key'' (StringT 500)))\<lparr>mp_unique := True\<rparr>, mapped_column (col ''mime_type'' (StringT 200)),
      mapped_column (col ''size_bytes'' IntegerT), mapped_column (col ''checksum'' (StringT 64)), mapped_column (stamp_col ''created_at'')],
     oc_unique = [\<lparr>uq_name = Some ''uq_artifacts_run_name'', uq_columns = [''run_id'', ''name'']\<rparr>],
     oc_indexes = [index ''ix_artifacts_run_created_at'' ''artifacts'' [''run_id'', ''created_at'']]\<rparr>"

definition class_RunEvent :: orm_class where
  "class_RunEvent = \<lparr>oc_table = ''run_events'', oc_columns =
     [id_column, ref_column (col ''run_id'' UuidT) ''runs'' Cascade, mapped_column (col ''event_type'' (StringT 100)),
      mapped_column (null_col ''previous_status'' (EnumT ''run_status'')), mapped_column (null_col ''new_status'' (EnumT ''run_status'')),
      mapped_column (col ''metadata'' JsonT), mapped_column (stamp_col ''created_at'')],
     oc_unique = [], oc_indexes = [index ''ix_run_events_run_created_at'' ''run_events'' [''run_id'', ''created_at'']]\<rparr>"

definition class_Worker :: orm_class where
  "class_Worker = \<lparr>oc_table = ''workers'', oc_columns =
     [id_column, (mapped_column (col ''name'' (StringT 120)))\<lparr>mp_unique := True\<rparr>,
      mapped_column (col ''status'' (EnumT ''worker_status'')), mapped_column (col ''total_cpu'' FloatT),
      mapped_column (col ''available_cpu'' FloatT), mapped_column (col ''total_memory_mb'' IntegerT),
      mapped_column (col ''available_memory_mb'' IntegerT), mapped_column (col ''current_run_count'' IntegerT),
      mapped_column (col ''last_heartbeat_at'' DateTimeTz)] @ timestamp_mixin,
     oc_unique = [], oc_indexes = [index ''ix_workers_status_heartbeat'' ''workers'' [''status'', ''last_heartbeat_at'']]\<rparr>"

definition class_ResourceAllocation :: orm_class where
  "class_ResourceAllocation = \<lparr>oc_table = ''resource_allocations'', oc_columns =
     [id_column, ref_column (col ''run_id'' UuidT) ''runs'' Restrict, ref_column (col ''worker_id'' UuidT) ''workers'' Restrict,
      mapped_column (col ''cpu'' FloatT), mapped_column (col ''memory_mb'' IntegerT),
      (mapped_column (col ''lease_token'' UuidT))\<lparr>mp_unique := True\<rparr>, mapped_column (col ''lease_expires_at'' DateTimeTz),
      mapped_column (null_col ''released_at'' DateTimeTz)],
     oc_unique = [],
     oc_indexes = [index ''ix_resource_allocations_worker_released'' ''resource_allocations'' [''worker_id'', ''released_at''],
       index ''ix_resource_allocations_lease_expires'' ''resource_allocations'' [''lease_expires_at''],
       (index ''uq_resource_allocations_active_run'' ''resource_allocations'' [''run_id''])
         \<lparr>ix_unique := True, ix_where := Some ''released_at IS NULL''\<rparr>]\<rparr>"

definition class_OutboxMessage :: orm_class where
  "class_OutboxMessage = \<lparr>oc_table = ''outbox_messages'', oc_columns =
     [id_column, mapped_column (col ''topic'' (StringT 200)), mapped_column (col ''partition_key'' (StringT 200)),
      mapped_column (col ''envelope'' JsonT), mapped_column (stamp_col ''created_at''), mapped_column (null_col ''published_at'' DateTimeTz),
      mapped_column (col ''publish_attempts'' IntegerT), mapped_column (null_col ''last_error'' (StringT 500))],
     oc_unique = [],
     oc_indexes = [index ''ix_outbox_messages_unpublished_created'' ''outbox_messages'' [''published_at'', ''created_at'']]\<rparr>"

definition class_ProcessedMessage :: orm_class where
  "class_ProcessedMessage = \<lparr>oc_table = ''processed_messages'', oc_columns =
     [id_column, mapped_column (col ''event_id'' UuidT), mapped_column (col ''consumer_name'' (StringT 100)),
      mapped_column (stamp_col ''processed_at'')],
     oc_unique = [\<lparr>uq_name = Some ''uq_processed_event_consumer'', uq_columns = [''event_id'', ''consumer_name'']\<rparr>],
     oc_indexes = [index ''ix_processed_messages_processed_at'' ''processed_messages'' [''processed_at'']]\<rparr>"

definition orm_classes :: "orm_class list" where
  "orm_classes = [class_User, class_Project, class_Experiment, class_TrainingTemplate, class_Run, class_RunParameter,
     class_RunMetric, class_RunLog, class_Artifact, class_RunEvent, class_Worker, class_ResourceAllocation,
     class_OutboxMessage, class_ProcessedMessage]"

definition metadata_schema :: schema where
  "metadata_schema = \<lparr>sc_enums = model_enums, sc_tables = map class_table orm_classes,
     sc_indexes = concat (map class_indexes orm_classes)\<rparr>"

text \<open>Equality up to the order of columns, constraints, tables and indexes and the names of foreign keys.\<close>

definition same_items :: "'a list \<Rightarrow> 'a list \<Rightarrow> bool" where
  "same_items xs ys \<longleftrightarrow> length xs = length ys \<and> list_all (\<lambda>x. x \<in> set ys) xs \<and> list_all (\<lambda>y. y \<in> set xs) ys"

definition same_table :: "tbl \<Rightarrow> tbl \<Rightarrow> bool" where
  "same_table t u \<longleftrightarrow> tb_name t = tb_name u \<and> same_items (tb_columns t) (tb_columns u) \<and> tb_primary t = tb_primary u \<and>
     same_items (map (\<lambda>f. f\<lparr>fk_name := None\<rparr>) (tb_foreign t)) (map (\<lambda>f. f\<lparr>fk_name := None\<rparr>) (tb_foreign u)) \<and>
     same_items (tb_unique t) (tb_unique u)"

definition same_schema :: "schema \<Rightarrow> schema \<Rightarrow> bool" where
  "same_schema s s' \<longleftrightarrow> same_items (sc_enums s) (sc_enums s') \<and> same_items (sc_indexes s) (sc_indexes s') \<and>
     same_items (map tb_name (sc_tables s)) (map tb_name (sc_tables s')) \<and>
     list_all (\<lambda>t. case get_table s' (tb_name t) of None \<Rightarrow> False | Some u \<Rightarrow> same_table t u) (sc_tables s)"

end
