(* ===== verification/Migration_Roundtrip.thy ===== *)
theory Migration_Roundtrip
  imports Migrations
begin

text \<open>
  Every downgrade undoes its upgrade. This is proved once for scripts that only create objects and
  scripts that drop them in reverse order, on arbitrary schemas; the five migrations are such pairs.
\<close>

section \<open>Downgrades undo upgrades\<close>

text \<open>The schemas PostgreSQL admits: what is referred to is there.\<close>

definition schema_wf :: "schema \<Rightarrow> bool" where
  "schema_wf s \<longleftrightarrow> distinct (map tb_name (sc_tables s)) \<and>
     (\<forall>t\<in>set (sc_tables s). set (table_enums t) \<subseteq> fst ` set (sc_enums s) \<and>
        fk_table ` set (tb_foreign t) \<subseteq> tb_name ` set (sc_tables s)) \<and>
     ix_table ` set (sc_indexes s) \<subseteq> tb_name ` set (sc_tables s)"

fun undo :: "ddl \<Rightarrow> ddl" where
  "undo (CreateEnum n vs checkfirst) = DropEnum n"
| "undo (CreateTable t) = DropTable (tb_name t)"
| "undo (CreateIndex i) = DropIndex (ix_name i) (ix_table i)"
| "undo (CreateForeignKey n f) = DropConstraint (the (fk_name f)) n"
| "undo op = op"

text \<open>The operations that only create, under names not yet taken.\<close>

fun creates :: "string set \<Rightarrow> ddl \<Rightarrow> bool" where
  "creates E (CreateEnum n vs checkfirst) \<longleftrightarrow> n \<in> E"
| "creates E (CreateForeignKey n f) \<longleftrightarrow> fk_name f \<noteq> None"
| "creates E (CreateTable t) \<longleftrightarrow> True"
| "creates E (CreateIndex i) \<longleftrightarrow> True"
| "creates E op \<longleftrightarrow> False"

lemma get_tableD: "get_table s n = Some t \<Longrightarrow> t \<in> set (sc_tables s) \<and> n = tb_name t"
  by (auto simp: get_table_def dest: find_SomeD)

lemma foreign_ok_table: "foreign_ok s t f \<Longrightarrow> fk_table f \<in> insert (tb_name t) (tb_name ` set (sc_tables s))"
  using get_tableD[of s "fk_table f"] by (auto simp: foreign_ok_def split: if_splits option.splits)

lemma filter_fresh: "k \<notin> f ` set xs \<Longrightarrow> filter (\<lambda>x. f x \<noteq> k) xs = xs"
  by (auto simp: filter_id_conv)

lemma find_map_same: "find P xs = Some x \<Longrightarrow> (\<And>y. P (g y) = P y) \<Longrightarrow> find P (map g xs) = Some (g x)"
  by (induction xs) (auto split: if_splits)

lemma schema_wf_map:
  assumes "schema_wf s" "\<And>t. tb_name (g t) = tb_name t" "\<And>t. table_enums (g t) = table_enums t"
    and "\<And>t. t \<in> set (sc_tables s) \<Longrightarrow> fk_table ` set (tb_foreign (g t)) \<subseteq> tb_name ` set (sc_tables s)"
  shows "schema_wf (s\<lparr>sc_tables := map g (sc_tables s)\<rparr>)"
proof -
  have "tb_name ` g ` set (sc_tables s) = tb_name ` set (sc_tables s)" using assms(2) by (simp add: image_image)
  moreover have "tb_name \<circ> g = tb_name" using assms(2) by (simp add: fun_eq_iff)
  ultimately show ?thesis using assms(1,3,4) by (simp add: schema_wf_def)
qed

lemma undo_step:
  assumes wf: "schema_wf s" and ok: "exec_ddl op s = Inr s'" and c: "creates E op" "E \<inter> fst ` set (sc_enums s) = {}"
  shows "exec_ddl (undo op) s' = Inr s \<and> schema_wf s'"
proof (cases op)
  case (CreateEnum n vs cf)
  then have fresh: "n \<notin> fst ` set (sc_enums s)" and s': "s' = s\<lparr>sc_enums := sc_enums s @ [(n, vs)]\<rparr>"
    using ok c by (auto split: if_splits)
  have "\<forall>t\<in>set (sc_tables s). n \<notin> set (table_enums t)" using wf fresh by (auto simp: schema_wf_def)
  then have "exec_ddl (undo op) s' = Inr s"
    using fresh filter_fresh[OF fresh] by (simp add: CreateEnum s' list_ex_iff)
  moreover have "schema_wf s'" using wf by (auto simp: schema_wf_def s')
  ultimately show ?thesis by blast
next
  case (CreateTable t)
  then have fresh: "tb_name t \<notin> tb_name ` set (sc_tables s)" "table_ok s t" and s': "s' = s\<lparr>sc_tables := sc_tables s @ [t]\<rparr>"
    using ok by (auto simp: relation_names_def split: if_splits)
  have refs: "\<forall>u\<in>set (sc_tables s). \<forall>f\<in>set (tb_foreign u). fk_table f \<noteq> tb_name t"
    using wf fresh(1) unfolding schema_wf_def by (metis image_subset_iff)
  have ixs: "tb_name t \<notin> ix_table ` set (sc_indexes s)" using wf fresh(1) by (auto simp: schema_wf_def)
  have "exec_ddl (undo op) s' = Inr s"
    using refs filter_fresh[OF fresh(1)] filter_fresh[OF ixs] by (auto simp: CreateTable s' list_ex_iff)
  moreover have "schema_wf s'"
    unfolding schema_wf_def s' using wf fresh foreign_ok_table[of s t]
    by (auto simp: schema_wf_def table_ok_def list_all_iff image_subset_iff subset_iff) blast+
  ultimately show ?thesis by blast
next
  case (CreateIndex i)
  then obtain t where fresh: "ix_name i \<notin> ix_name ` set (sc_indexes s)" and t: "get_table s (ix_table i) = Some t"
    and s': "s' = s\<lparr>sc_indexes := sc_indexes s @ [i]\<rparr>"
    using ok by (auto simp: relation_names_def split: if_splits option.splits)
  have "exec_ddl (undo op) s' = Inr s" using filter_fresh[OF fresh] by (simp add: CreateIndex s')
  moreover have "ix_table i \<in> tb_name ` set (sc_tables s)"
    using get_tableD[OF t] by simp
  then have "schema_wf s'" using wf by (auto simp: schema_wf_def s')
  ultimately show ?thesis by blast
next
  case (CreateForeignKey n f)
  let ?add = "\<lambda>t. if tb_name t = n then t\<lparr>tb_foreign := tb_foreign t @ [f]\<rparr> else t"
  obtain t c where t: "get_table s n = Some t" "\<not> list_ex (\<lambda>g. fk_name g = fk_name f) (tb_foreign t)" "foreign_ok s t f"
    and nm: "fk_name f = Some c" and s': "s' = s\<lparr>sc_tables := map ?add (sc_tables s)\<rparr>"
    using ok c(1) CreateForeignKey by (auto split: if_splits option.splits)
  have uniq: "u = t" if "u \<in> set (sc_tables s)" "tb_name u = n" for u
    using wf get_tableD[OF t(1)] that by (auto simp: schema_wf_def dest: inj_onD[OF conjunct2[OF distinct_map[THEN iffD1]]])
  have get': "get_table s' n = Some (?add t)"
    using find_map_same[of "\<lambda>t. tb_name t = n" "sc_tables s" t ?add] t(1) by (simp add: get_table_def s')
  have "map (\<lambda>t. if tb_name t = n then t\<lparr>tb_foreign := filter (\<lambda>g. fk_name g \<noteq> Some c) (tb_foreign t)\<rparr> else t) (map ?add (sc_tables s)) =
      sc_tables s"
    using uniq t(2) nm by (auto simp: list_ex_iff intro!: map_idI tbl.equality filter_fresh)
  then have "exec_ddl (undo op) s' = Inr s"
    using get' get_tableD[OF t(1)] nm by (simp add: CreateForeignKey s' list_ex_iff comp_def)
  moreover have "schema_wf s'"
  proof -
    have target: "fk_table f \<in> tb_name ` set (sc_tables s)" using foreign_ok_table[OF t(3)] get_tableD[OF t(1)] by auto
    then show ?thesis
      using wf unfolding s' by (intro schema_wf_map) (auto simp: table_enums_def schema_wf_def)
  qed
  ultimately show ?thesis by blast
qed (use c in simp_all)

text \<open>A script of such operations, with its enumeration types new and different, is undone in reverse order.\<close>

fun enums_created :: "ddl list \<Rightarrow> string list" where
  "enums_created (CreateEnum n vs checkfirst # ops) = n # enums_created ops"
| "enums_created (op # ops) = enums_created ops"
| "enums_created [] = []"

lemma res_fold_append: "res_fold f (xs @ ys) s = res_bind (res_fold f xs s) (res_fold f ys)"
  by (induction xs arbitrary: s) (auto simp: res_bind_def split: sum.splits)

lemma exec_enums:
  "exec_ddl op s = Inr s' \<Longrightarrow> creates E op \<Longrightarrow>
   fst ` set (sc_enums s') \<subseteq> fst ` set (sc_enums s) \<union> set (enums_created [op])"
  by (cases op) (auto split: if_splits option.splits)

lemma undo_script:
  assumes "schema_wf s" "res_fold exec_ddl ops s = Inr s'" "list_all (creates UNIV) ops"
    and "distinct (enums_created ops)" "set (enums_created ops) \<inter> fst ` set (sc_enums s) = {}"
  shows "res_fold exec_ddl (map undo (rev ops)) s' = Inr s \<and> schema_wf s' \<and>
    fst ` set (sc_enums s') \<subseteq> fst ` set (sc_enums s) \<union> set (enums_created ops)"
  using assms
proof (induction ops arbitrary: s)
  case (Cons op ops)
  obtain s1 where s1: "exec_ddl op s = Inr s1" "res_fold exec_ddl ops s1 = Inr s'"
    using Cons.prems(2) by (auto simp: res_bind_Inr_iff)
  have split: "enums_created (op # ops) = enums_created [op] @ enums_created ops" by (cases op) simp_all
  have c: "creates (set (enums_created [op])) op" using Cons.prems(3) by (cases op) simp_all
  have fresh: "set (enums_created [op]) \<inter> fst ` set (sc_enums s) = {}" using Cons.prems(5) unfolding split by auto
  note step = undo_step[OF Cons.prems(1) s1(1) c fresh]
  note new = exec_enums[OF s1(1) c]
  have "set (enums_created ops) \<inter> fst ` set (sc_enums s1) = {}"
    using new Cons.prems(4,5) unfolding split by auto
  from Cons.IH[OF conjunct2[OF step] s1(2) _ _ this] Cons.prems(3,4)
  have "res_fold exec_ddl (map undo (rev ops)) s' = Inr s1" "schema_wf s'"
    "fst ` set (sc_enums s') \<subseteq> fst ` set (sc_enums s1) \<union> set (enums_created ops)"
    unfolding split by auto
  then show ?case using step new unfolding split by (auto simp: res_fold_append)
qed auto


section \<open>The chain of revisions\<close>

abbreviation new_enums :: "revision \<Rightarrow> string list" where
  "new_enums r \<equiv> enums_created (rv_upgrade r)"

definition reversible :: "revision \<Rightarrow> bool" where
  "reversible r \<longleftrightarrow> rv_downgrade r = map undo (rev (rv_upgrade r)) \<and> list_all (creates UNIV) (rv_upgrade r)"

lemma revisions_reversible: "list_all reversible revisions"
  by (simp add: revisions_def reversible_def rev_0001_def rev_0002_def rev_0003_def rev_0003_downgrade_def rev_0004_def rev_0005_def index_def foreign_def
      users_table_def projects_table_def experiments_table_def training_templates_table_def runs_table_def
      run_parameters_table_def run_metrics_table_def run_logs_table_def artifacts_table_def run_events_table_def
      outbox_messages_table_def processed_messages_table_def workers_table_def resource_allocations_table_def)

lemma revisions_enums: "concat (map new_enums revisions) = [''user_role'', ''run_status'', ''worker_status'']"
  by (simp add: revisions_def rev_0001_def rev_0002_def rev_0003_def rev_0004_def rev_0005_def)

fun linked :: "string option \<Rightarrow> revision list \<Rightarrow> bool" where
  "linked cur [] = True"
| "linked cur (r # rs) = (rv_down r = cur \<and> linked (Some (rv_id r)) rs)"

fun last_id :: "string option \<Rightarrow> revision list \<Rightarrow> string option" where
  "last_id cur [] = cur"
| "last_id cur (r # rs) = last_id (Some (rv_id r)) rs"

lemma upgrades_linked: "linked cur (upgrades n cur) \<and> set (upgrades n cur) \<subseteq> set revisions"
  by (induction n cur rule: upgrades.induct) (auto split: option.splits dest: find_SomeD)

lemma rev_ids:
  "rv_id rev_0001 = ''0001''" "rv_id rev_0002 = ''0002''" "rv_id rev_0003 = ''0003''" "rv_id rev_0004 = ''0004''" "rv_id rev_0005 = ''0005''"
  "rv_down rev_0001 = None" "rv_down rev_0002 = Some ''0001''" "rv_down rev_0003 = Some ''0002''" "rv_down rev_0004 = Some ''0003''"
  "rv_down rev_0005 = Some ''0004''"
  by (simp_all add: rev_0001_def rev_0002_def rev_0003_def rev_0004_def rev_0005_def)

lemma rev_id_unique: "r \<in> set revisions \<Longrightarrow> find (\<lambda>q. rv_id q = rv_id r) revisions = Some r"
  by (simp add: revisions_def) (elim disjE; simp add: rev_ids)

lemma downgrades_path:
  assumes "linked cur rs" "set rs \<subseteq> set revisions"
  shows "downgrades (length rs + k) (last_id cur rs) = rev rs @ downgrades k cur"
  using assms
proof (induction rs arbitrary: cur k)
  case (Cons r rs)
  have "downgrades (length rs + Suc k) (last_id (Some (rv_id r)) rs) = rev rs @ downgrades (Suc k) (Some (rv_id r))"
    using Cons.prems by (intro Cons.IH) simp_all
  then show ?case using Cons.prems rev_id_unique[of r] by simp
qed simp

lemma upgrades_from:
  "upgrades n (Some ''0005'') = []" "upgrades n (Some ''0004'') = take n [rev_0005]"
  "upgrades n (Some ''0003'') = take n [rev_0004, rev_0005]" "upgrades n (Some ''0002'') = take n [rev_0003, rev_0004, rev_0005]"
  "upgrades n (Some ''0001'') = take n [rev_0002, rev_0003, rev_0004, rev_0005]" "upgrades n None = take n revisions"
proof -
  show e: "upgrades n (Some ''0005'') = []" for n by (cases n) (simp_all add: revisions_def rev_ids)
  show d: "upgrades n (Some ''0004'') = take n [rev_0005]" for n by (cases n) (simp_all add: revisions_def rev_ids e)
  show c: "upgrades n (Some ''0003'') = take n [rev_0004, rev_0005]" for n by (cases n) (simp_all add: revisions_def rev_ids d)
  show b: "upgrades n (Some ''0002'') = take n [rev_0003, rev_0004, rev_0005]" for n by (cases n) (simp_all add: revisions_def rev_ids c)
  show a: "upgrades n (Some ''0001'') = take n [rev_0002, rev_0003, rev_0004, rev_0005]" for n
    by (cases n) (simp_all add: revisions_def rev_ids b)
  show "upgrades n None = take n revisions" by (cases n) (simp_all add: revisions_def rev_ids a)
qed

lemma upgrades_segment: "\<exists>k. upgrades n cur = take n (drop k revisions)"
proof (cases "find (\<lambda>r. rv_down r = cur) revisions")
  case None
  then have "upgrades n cur = []" by (cases n) simp_all
  then show ?thesis by (intro exI[of _ 5]) (simp add: revisions_def)
next
  case (Some r)
  then have "r \<in> set revisions" "cur = rv_down r" by (auto dest: find_SomeD)
  then consider "cur = None" | "cur = Some ''0001''" | "cur = Some ''0002''" | "cur = Some ''0003''" | "cur = Some ''0004''"
    unfolding revisions_def by (simp add: rev_ids) (elim disjE; simp add: rev_ids)
  then show ?thesis
    by cases (force simp: upgrades_from revisions_def intro: exI[of _ 0] exI[of _ 1] exI[of _ 2] exI[of _ 3] exI[of _ 4])+
qed

lemma upgrades_enums: "distinct (concat (map new_enums (upgrades n cur)))"
proof -
  obtain k where k: "upgrades n cur = take n (drop k revisions)" using upgrades_segment by blast
  have split: "revisions = take k revisions @ take n (drop k revisions) @ drop n (drop k revisions)" by (simp del: drop_drop)
  have "distinct (concat (map new_enums revisions))" by (simp add: revisions_enums)
  then show ?thesis unfolding k by (subst (asm) split) (simp only: map_append concat_append distinct_append)
qed

lemma chain_roundtrip:
  assumes "list_all reversible rs" "linked cur rs" "schema_wf s" "distinct (concat (map new_enums rs))"
    and "set (concat (map new_enums rs)) \<inter> fst ` set (sc_enums s) = {}"
    and "res_fold run_upgrade rs \<lparr>dbv_revision = cur, dbv_schema = s\<rparr> = Inr d"
  shows "res_fold run_downgrade (rev rs) d = Inr \<lparr>dbv_revision = cur, dbv_schema = s\<rparr> \<and> dbv_revision d = last_id cur rs"
  using assms
proof (induction rs arbitrary: cur s)
  case (Cons r rs)
  obtain d1 where d1: "run_upgrade r \<lparr>dbv_revision = cur, dbv_schema = s\<rparr> = Inr d1" "res_fold run_upgrade rs d1 = Inr d"
    using Cons.prems(6) by (auto simp: res_bind_Inr_iff)
  then obtain s1 where s1: "res_fold exec_ddl (rv_upgrade r) s = Inr s1"
    "res_fold run_upgrade rs \<lparr>dbv_revision = Some (rv_id r), dbv_schema = s1\<rparr> = Inr d"
    unfolding run_upgrade_def by (auto simp: res_bind_Inr_iff)
  have rv: "rv_downgrade r = map undo (rev (rv_upgrade r))" "list_all (creates UNIV) (rv_upgrade r)"
    using Cons.prems(1) by (simp_all add: reversible_def)
  have dst: "distinct (new_enums r)" "set (new_enums r) \<inter> fst ` set (sc_enums s) = {}"
    using Cons.prems(4,5) by auto
  note step = undo_script[OF Cons.prems(3) s1(1) rv(2) dst]
  have "set (new_enums r) \<inter> set (concat (map new_enums rs)) = {}"
    "set (concat (map new_enums rs)) \<inter> fst ` set (sc_enums s) = {}" using Cons.prems(4,5) by auto
  then have "set (concat (map new_enums rs)) \<inter> fst ` set (sc_enums s1) = {}" using step by blast
  from Cons.IH[OF _ _ _ _ this s1(2)] step Cons.prems(1,2,4)
  have "res_fold run_downgrade (rev rs) d = Inr \<lparr>dbv_revision = Some (rv_id r), dbv_schema = s1\<rparr>"
    "dbv_revision d = last_id (Some (rv_id r)) rs" by simp_all
  moreover have "run_downgrade r \<lparr>dbv_revision = Some (rv_id r), dbv_schema = s1\<rparr> = Inr \<lparr>dbv_revision = cur, dbv_schema = s\<rparr>"
    using step rv(1) Cons.prems(2) by (simp add: run_downgrade_def)
  ultimately show ?case by (simp add: res_fold_append)
qed auto

end
