(* ===== verification/Migration_Properties.thy ===== *)
theory Migration_Properties
  imports Migration_Roundtrip
begin

text \<open>
  The migrations lead from an empty database to exactly the schema the ORM classes declare, and
  downgrading restores what was there before.
\<close>

named_theorems schema_simps

lemmas table_defs = users_table_def projects_table_def experiments_table_def training_templates_table_def
  runs_table_def run_parameters_table_def run_metrics_table_def run_logs_table_def
  artifacts_table_def run_events_table_def outbox_messages_table_def processed_messages_table_def
  workers_table_def resource_allocations_table_def
lemmas column_defs = col_def null_col_def stamp_col_def

lemma table_names [schema_simps]:
  "tb_name users_table = ''users''"
  "tb_name projects_table = ''projects''"
  "tb_name experiments_table = ''experiments''"
  "tb_name training_templates_table = ''training_templates''"
  "tb_name runs_table = ''runs''"
  "tb_name run_parameters_table = ''run_parameters''"
  "tb_name run_metrics_table = ''run_metrics''"
  "tb_name run_logs_table = ''run_logs''"
  "tb_name artifacts_table = ''artifacts''"
  "tb_name run_events_table = ''run_events''"
  "tb_name outbox_messages_table = ''outbox_messages''"
  "tb_name processed_messages_table = ''processed_messages''"
  "tb_name workers_table = ''workers''"
  "tb_name resource_allocations_table = ''resource_allocations''"
  by (simp_all add: table_defs)

lemma table_columns [schema_simps]:
  "column_names users_table =
     [''id'', ''email'', ''password_hash'', ''role'', ''created_at'', ''updated_at'']"
  "column_names projects_table =
     [''id'', ''name'', ''description'', ''created_by'', ''created_at'', ''updated_at'']"
  "column_names experiments_table =
     [''id'', ''project_id'', ''name'', ''description'', ''tags'', ''created_by'', ''created_at'',
     ''updated_at'']"
  "column_names training_templates_table =
     [''id'', ''key'', ''name'', ''description'', ''version'', ''parameter_schema'', ''enabled'',
     ''created_at'']"
  "column_names runs_table =
     [''id'', ''experiment_id'', ''template_id'', ''status'', ''priority'', ''requested_cpu'',
     ''requested_memory_mb'', ''assigned_worker_id'', ''attempt_number'', ''parent_run_id'', ''created_by'',
     ''created_at'', ''queued_at'', ''started_at'', ''completed_at'', ''failure_code'', ''failure_message'',
     ''notes'', ''tags'', ''version'']"
  "column_names run_parameters_table =
     [''id'', ''run_id'', ''name'', ''value'']"
  "column_names run_metrics_table =
     [''id'', ''run_id'', ''name'', ''value'', ''step'', ''recorded_at'']"
  "column_names run_logs_table =
     [''id'', ''run_id'', ''sequence_number'', ''level'', ''message'', ''recorded_at'']"
  "column_names artifacts_table =
     [''id'', ''run_id'', ''name'', ''storage_key'', ''mime_type'', ''size_bytes'', ''checksum'',
     ''created_at'']"
  "column_names run_events_table =
     [''id'', ''run_id'', ''event_type'', ''previous_status'', ''new_status'', ''metadata'', ''created_at'']"
  "column_names outbox_messages_table =
     [''id'', ''topic'', ''partition_key'', ''envelope'', ''created_at'', ''published_at'',
     ''publish_attempts'', ''last_error'']"
  "column_names processed_messages_table =
     [''id'', ''event_id'', ''consumer_name'', ''processed_at'']"
  "column_names workers_table =
     [''id'', ''name'', ''status'', ''total_cpu'', ''available_cpu'', ''total_memory_mb'',
     ''available_memory_mb'', ''current_run_count'', ''last_heartbeat_at'', ''created_at'', ''updated_at'']"
  "column_names resource_allocations_table =
     [''id'', ''run_id'', ''worker_id'', ''cpu'', ''memory_mb'', ''lease_token'', ''lease_expires_at'',
     ''released_at'']"
  by (simp_all add: column_names_def table_defs column_defs)

lemma table_enum_types [schema_simps]:
  "table_enums users_table = [''user_role'']"
  "table_enums projects_table = []"
  "table_enums experiments_table = []"
  "table_enums training_templates_table = []"
  "table_enums runs_table = [''run_status'']"
  "table_enums run_parameters_table = []"
  "table_enums run_metrics_table = []"
  "table_enums run_logs_table = []"
  "table_enums artifacts_table = []"
  "table_enums run_events_table = [''run_status'', ''run_status'']"
  "table_enums outbox_messages_table = []"
  "table_enums processed_messages_table = []"
  "table_enums workers_table = [''worker_status'']"
  "table_enums resource_allocations_table = []"
  by (simp_all add: table_enums_def table_defs column_defs)

lemma table_foreign [schema_simps]:
  "tb_foreign users_table = []"
  "tb_foreign projects_table = [foreign ''created_by'' ''users'' Restrict]"
  "tb_foreign experiments_table = [foreign ''created_by'' ''users'' Restrict,
     foreign ''project_id'' ''projects'' Restrict]"
  "tb_foreign training_templates_table = []"
  "tb_foreign runs_table = [foreign ''created_by'' ''users'' Restrict,
     foreign ''experiment_id'' ''experiments'' Restrict,
     foreign ''parent_run_id'' ''runs'' Restrict,
     foreign ''template_id'' ''training_templates'' Restrict]"
  "tb_foreign run_parameters_table = [foreign ''run_id'' ''runs'' Cascade]"
  "tb_foreign run_metrics_table = [foreign ''run_id'' ''runs'' Cascade]"
  "tb_foreign run_logs_table = [foreign ''run_id'' ''runs'' Cascade]"
  "tb_foreign artifacts_table = [foreign ''run_id'' ''runs'' Cascade]"
  "tb_foreign run_events_table = [foreign ''run_id'' ''runs'' Cascade]"
  "tb_foreign outbox_messages_table = []"
  "tb_foreign processed_messages_table = []"
  "tb_foreign workers_table = []"
  "tb_foreign resource_allocations_table = [foreign ''run_id'' ''runs'' Restrict,
     foreign ''worker_id'' ''workers'' Restrict]"
  by (simp_all add: table_defs)

lemma table_shapes [schema_simps]:
  "table_shape users_table"
  "table_shape projects_table"
  "table_shape experiments_table"
  "table_shape training_templates_table"
  "table_shape runs_table"
  "table_shape run_parameters_table"
  "table_shape run_metrics_table"
  "table_shape run_logs_table"
  "table_shape artifacts_table"
  "table_shape run_events_table"
  "table_shape outbox_messages_table"
  "table_shape processed_messages_table"
  "table_shape workers_table"
  "table_shape resource_allocations_table"
  by (simp_all add: table_shape_def column_names_def table_defs column_defs)

lemma index_simps [schema_simps]:
  "ix_name (index n t cs) = n" "ix_table (index n t cs) = t" "ix_columns (index n t cs) = cs"
  by (simp_all add: index_def)

lemma foreign_simps [schema_simps]:
  "fk_column (foreign c t od) = c" "fk_table (foreign c t od) = t" "fk_target (foreign c t od) = ''id''"
  "fk_name (foreign c t od) = None"
  by (simp_all add: foreign_def)

lemma column_names_foreign [schema_simps]: "column_names (t\<lparr>tb_foreign := fs\<rparr>) = column_names t"
  by (simp add: column_names_def)

section \<open>The schema at the head\<close>

text \<open>What a creating operation adds.\<close>

fun created :: "ddl \<Rightarrow> schema \<Rightarrow> schema" where
  "created (CreateEnum n vs checkfirst) s = s\<lparr>sc_enums := sc_enums s @ [(n, vs)]\<rparr>"
| "created (CreateTable t) s = s\<lparr>sc_tables := sc_tables s @ [t]\<rparr>"
| "created (CreateIndex i) s = s\<lparr>sc_indexes := sc_indexes s @ [i]\<rparr>"
| "created (CreateForeignKey n f) s =
     s\<lparr>sc_tables := map (\<lambda>t. if tb_name t = n then t\<lparr>tb_foreign := tb_foreign t @ [f]\<rparr> else t) (sc_tables s)\<rparr>"
| "created op s = s"

definition schema_at :: "revision list \<Rightarrow> schema" where
  "schema_at rs = fold (\<lambda>r. fold created (rv_upgrade r)) rs empty_schema"

lemmas rev_defs = rev_0001_def rev_0002_def rev_0003_def rev_0004_def rev_0005_def
lemmas check_defs = relation_names_def table_ok_def foreign_ok_def get_table_def

lemma up_1: "res_fold exec_ddl (rv_upgrade rev_0001) (schema_at []) = Inr (schema_at [rev_0001])"
  by (simp add: schema_at_def rev_defs empty_schema_def check_defs schema_simps)

lemma up_2: "res_fold exec_ddl (rv_upgrade rev_0002) (schema_at [rev_0001]) = Inr (schema_at [rev_0001, rev_0002])"
  by (simp add: schema_at_def rev_defs empty_schema_def check_defs schema_simps)

lemma up_3: "res_fold exec_ddl (rv_upgrade rev_0003) (schema_at [rev_0001, rev_0002]) = Inr (schema_at [rev_0001, rev_0002, rev_0003])"
  by (simp add: schema_at_def rev_defs empty_schema_def check_defs schema_simps)

lemma up_4: "res_fold exec_ddl (rv_upgrade rev_0004) (schema_at [rev_0001, rev_0002, rev_0003]) =
    Inr (schema_at [rev_0001, rev_0002, rev_0003, rev_0004])"
  by (simp add: schema_at_def rev_defs empty_schema_def check_defs schema_simps)

lemma up_5: "res_fold exec_ddl (rv_upgrade rev_0005) (schema_at [rev_0001, rev_0002, rev_0003, rev_0004]) = Inr (schema_at revisions)"
  by (simp add: schema_at_def revisions_def rev_defs empty_schema_def check_defs schema_simps)

lemma upgrade_head: "res_fold run_upgrade (upgrades 5 None) \<lparr>dbv_revision = None, dbv_schema = empty_schema\<rparr> =
    Inr \<lparr>dbv_revision = Some ''0005'', dbv_schema = schema_at revisions\<rparr>"
proof -
  have "upgrades 5 None = revisions" by (simp add: eval_nat_numeral revisions_def rev_defs)
  moreover have "empty_schema = schema_at []" by (simp add: schema_at_def)
  ultimately show ?thesis
    unfolding revisions_def using up_1 up_2 up_3 up_4 up_5[unfolded revisions_def]
    by (simp add: run_upgrade_def) (simp add: rev_0005_def)
qed

text \<open>Each table of a migration is the table of its class.\<close>

lemma same_items_refl [simp]: "same_items xs xs"
  by (simp add: same_items_def list_all_iff)

lemmas class_defs = class_User_def class_Project_def class_Experiment_def class_TrainingTemplate_def
  class_RunParameter_def class_RunMetric_def class_RunLog_def class_Artifact_def
  class_RunEvent_def class_Worker_def class_ResourceAllocation_def class_OutboxMessage_def
  class_ProcessedMessage_def class_Run_def
lemmas mapping_defs = class_table_def class_indexes_def mapped_column_def id_column_def ref_column_def timestamp_mixin_def
  List.map_filter_def

definition runs_table_head :: tbl where
  "runs_table_head = runs_table\<lparr>tb_foreign := tb_foreign runs_table @
     [(foreign ''assigned_worker_id'' ''workers'' Set_Null)\<lparr>fk_name := Some ''fk_runs_assigned_worker_id_workers''\<rparr>]\<rparr>"

lemma class_tables:
  "same_table users_table (class_table class_User)"
  "same_table projects_table (class_table class_Project)"
  "same_table experiments_table (class_table class_Experiment)"
  "same_table training_templates_table (class_table class_TrainingTemplate)"
  "same_table run_parameters_table (class_table class_RunParameter)"
  "same_table run_metrics_table (class_table class_RunMetric)"
  "same_table run_logs_table (class_table class_RunLog)"
  "same_table artifacts_table (class_table class_Artifact)"
  "same_table run_events_table (class_table class_RunEvent)"
  "same_table workers_table (class_table class_Worker)"
  "same_table resource_allocations_table (class_table class_ResourceAllocation)"
  "same_table outbox_messages_table (class_table class_OutboxMessage)"
  "same_table processed_messages_table (class_table class_ProcessedMessage)"
  "same_table runs_table_head (class_table class_Run)"
  by (simp_all add: same_table_def table_defs runs_table_head_def class_defs mapping_defs column_defs foreign_def)
    (simp_all add: same_items_def)

lemma head_tables: "sc_tables (schema_at revisions) =
    [users_table, projects_table, experiments_table, training_templates_table, runs_table_head, run_parameters_table,
     run_metrics_table, run_logs_table, artifacts_table, run_events_table, outbox_messages_table, processed_messages_table,
     workers_table, resource_allocations_table]"
  by (simp add: schema_at_def revisions_def rev_defs empty_schema_def runs_table_head_def table_names)

lemma same_itemsI:
  assumes "xs = map ((!) ys) ps" "distinct ps" "length ps = length ys" "list_all (\<lambda>p. p < length ys) ps"
  shows "same_items xs ys"
proof -
  have "set ps = {..<length ys}"
    using assms(2-4) by (intro card_subset_eq) (auto simp: list_all_iff distinct_card)
  moreover have "set ys = (!) ys ` {..<length ys}" by (auto simp: in_set_conv_nth)
  ultimately have "set xs = set ys" by (simp add: assms(1))
  then show ?thesis using assms(1,3) by (simp add: same_items_def list_all_iff)
qed

lemma head_indexes: "same_items (sc_indexes (schema_at revisions)) (sc_indexes metadata_schema)"
  by (rule same_itemsI[where ps = "[0, 1, 2, 4, 3, 5, 6, 9, 7, 8, 10, 11, 12, 13, 14, 15, 20, 21, 16, 17, 18, 19]"])
    (simp_all add: schema_at_def revisions_def rev_defs empty_schema_def metadata_schema_def orm_classes_def class_defs
      mapping_defs column_defs index_def)

lemma head_enums: "same_items (sc_enums (schema_at revisions)) (sc_enums metadata_schema)"
  by (simp add: schema_at_def revisions_def rev_defs empty_schema_def metadata_schema_def model_enums_def
      RUN_STATUS_VALUES_def WORKER_STATUS_VALUES_def)

lemma class_names:
  "map tb_name (sc_tables metadata_schema) = [''users'', ''projects'', ''experiments'', ''training_templates'', ''runs'',
     ''run_parameters'', ''run_metrics'', ''run_logs'', ''artifacts'', ''run_events'', ''workers'', ''resource_allocations'',
     ''outbox_messages'', ''processed_messages'']"
  by (simp add: metadata_schema_def orm_classes_def class_table_def class_defs)

lemma class_table_names: "tb_name (class_table c) = oc_table c"
  by (simp add: class_table_def)

lemma class_oc_tables:
  "oc_table class_User = ''users''" "oc_table class_Project = ''projects''" "oc_table class_Experiment = ''experiments''"
  "oc_table class_TrainingTemplate = ''training_templates''" "oc_table class_Run = ''runs''"
  "oc_table class_RunParameter = ''run_parameters''" "oc_table class_RunMetric = ''run_metrics''"
  "oc_table class_RunLog = ''run_logs''" "oc_table class_Artifact = ''artifacts''" "oc_table class_RunEvent = ''run_events''"
  "oc_table class_Worker = ''workers''" "oc_table class_ResourceAllocation = ''resource_allocations''"
  "oc_table class_OutboxMessage = ''outbox_messages''" "oc_table class_ProcessedMessage = ''processed_messages''"
  by (simp_all add: class_defs)

lemma head_matches: "same_schema (schema_at revisions) metadata_schema"
proof -
  have "tb_name runs_table_head = ''runs''" by (simp add: runs_table_head_def table_names)
  then have names: "map tb_name (sc_tables (schema_at revisions)) = map ((!) (map tb_name (sc_tables metadata_schema)))
      [0, 1, 2, 3, 4, 5, 6, 7, 8, 9, 12, 13, 10, 11]"
    by (simp add: head_tables table_names class_names)
  have "list_all (\<lambda>t. case get_table metadata_schema (tb_name t) of None \<Rightarrow> False | Some u \<Rightarrow> same_table t u)
      (sc_tables (schema_at revisions))"
    using class_tables \<open>tb_name runs_table_head = ''runs''\<close>
    by (simp add: head_tables table_names get_table_def metadata_schema_def orm_classes_def class_table_names class_oc_tables)
  moreover have "same_items (map tb_name (sc_tables (schema_at revisions))) (map tb_name (sc_tables metadata_schema))"
    by (rule same_itemsI[OF names]) (simp_all add: class_names)
  ultimately show ?thesis using head_indexes head_enums by (simp add: same_schema_def)
qed


section \<open>Properties of the migrations\<close>

text \<open>
  C37. The migrated database has the type the program is written for: all five migrations run on an
  empty database, in the order of their \<open>down_revision\<close>, and the result has exactly the enumerations
  with their values, the tables with their columns (types, lengths, nullability, defaults), primary
  keys, foreign keys with their delete rules, unique constraints and indexes that the classes of
  \<open>models.py\<close> declare; only the order of things and the name of one foreign key differ.
\<close>

theorem migrated_schema_matches_models:
  "\<exists>s. do_run_migrations run_upgrade (upgrades 5 None) \<lparr>dbv_revision = None, dbv_schema = empty_schema\<rparr> =
       (Inr (), \<lparr>dbv_revision = Some ''0005'', dbv_schema = s\<rparr>) \<and> same_schema s metadata_schema"
  using upgrade_head head_matches by (simp add: do_run_migrations_def)

text \<open>
  C38. Migrations can be undone. From any database the migrations can run on (at whatever revision, with
  whatever other objects, as long as the enumeration types to be created are new), upgrading by any
  number of revisions and then downgrading by the number of revisions that were applied restores the
  schema exactly, including the recorded revision; no downgrade is refused because an object it drops
  is missing or still referred to.
\<close>

theorem downgrade_undoes_upgrade:
  assumes "schema_wf (dbv_schema d)"
    and "set (concat (map new_enums (upgrades n (dbv_revision d)))) \<inter> fst ` set (sc_enums (dbv_schema d)) = {}"
    and "do_run_migrations run_upgrade (upgrades n (dbv_revision d)) d = (Inr (), d')"
  shows "do_run_migrations run_downgrade (downgrades (length (upgrades n (dbv_revision d))) (dbv_revision d')) d' = (Inr (), d)"
proof -
  let ?rs = "upgrades n (dbv_revision d)"
  have d: "\<lparr>dbv_revision = dbv_revision d, dbv_schema = dbv_schema d\<rparr> = d" by simp
  have up: "res_fold run_upgrade ?rs d = Inr d'"
    using assms(3) by (auto simp: do_run_migrations_def split: sum.splits)
  note lk = upgrades_linked[of "dbv_revision d" n]
  have "list_all reversible ?rs" using lk revisions_reversible by (auto simp: list_all_iff)
  from chain_roundtrip[OF this conjunct1[OF lk] assms(1) upgrades_enums assms(2), unfolded d, OF up]
  have "res_fold run_downgrade (rev ?rs) d' = Inr d" "dbv_revision d' = last_id (dbv_revision d) ?rs" by simp_all
  moreover have "downgrades (length ?rs) (last_id (dbv_revision d) ?rs) = rev ?rs"
    using downgrades_path[OF conjunct1[OF lk] conjunct2[OF lk], of 0] by simp
  ultimately show ?thesis by (simp add: do_run_migrations_def)
qed

theorem downgrade_undoes_upgrade_witness:
  "\<exists>d'. do_run_migrations run_upgrade (upgrades 5 None) \<lparr>dbv_revision = None, dbv_schema = empty_schema\<rparr> = (Inr (), d') \<and>
     do_run_migrations run_downgrade (downgrades 5 (Some ''0005'')) d' = (Inr (), \<lparr>dbv_revision = None, dbv_schema = empty_schema\<rparr>)"
proof -
  have up: "do_run_migrations run_upgrade (upgrades 5 None) \<lparr>dbv_revision = None, dbv_schema = empty_schema\<rparr> =
      (Inr (), \<lparr>dbv_revision = Some ''0005'', dbv_schema = schema_at revisions\<rparr>)"
    using upgrade_head by (simp add: do_run_migrations_def)
  have "length (upgrades 5 None) = 5" by (simp add: upgrades_from revisions_def)
  then show ?thesis
    using downgrade_undoes_upgrade[of "\<lparr>dbv_revision = None, dbv_schema = empty_schema\<rparr>" 5] up
    by (simp add: schema_wf_def empty_schema_def)
qed

end
