(* ===== verification/Spec2Isabelle.thy ===== *)
theory Spec2Isabelle
  imports Client Secrecy Seed Scheduler_Service Live_Events Migration_Properties
begin

text \<open>
  RunScope is a platform for machine-learning runs. This development models its Python code (the services
  under \<open>src/services\<close>, the contracts under \<open>src/packages/contracts\<close> and the scripts under \<open>src/scripts\<close>) and
  proves what makes it correct.

  \<^bold>\<open>The parts and how they interact.\<close> Users talk to the API. Creating a run validates the parameters of a
  trusted template, stores the run as \<open>QUEUED\<close> and, in the same transaction, puts an event into the outbox
  table. A dispatcher publishes outbox rows to Kafka and marks them. The scheduler polls the database: it
  settles the runs of expired leases, then gives each queued run, by priority, a lease on a worker with enough
  free CPU and memory, and announces the assignment through the outbox. A worker consumes these
  announcements, checks the lease by its token, executes the run in several transactions (with heartbeats that
  extend its leases beside it), stores logs, metrics and artifacts, and releases the lease. Live events go
  through Redis and server-sent events to the browser. Cancellation, retry, comparison and downloads are API
  requests on the same tables. All services share one PostgreSQL database, whose schema is made by five migrations.

  \<^bold>\<open>Theories and sources.\<close> Paths are relative to \<open>src/services/api/runscope_api\<close> unless they say otherwise.
  \<^item> \<open>Prelude\<close>: rewrite collections, rows by key, Python's string functions, ordered selection. \<open>Errors\<close>: JSON
    values, exceptions and their responses (\<open>errors.py\<close>, \<open>middleware.py\<close>). \<open>Contracts\<close>: message envelopes
    (\<open>src/packages/contracts\<close>). \<open>Config\<close>: settings (\<open>config.py\<close>). \<open>Models\<close>: one record per table and the state record
    \<open>db\<close> of all tables (\<open>models.py\<close>). \<open>Session\<close>: what the code uses of an ORM session, with the optimistic
    lock on runs. \<open>Example\<close>: a small database for concrete instances.
  \<^item> \<open>State_Machine\<close>: transition table and \<open>transition_run\<close> (\<open>state_machine.py\<close>). \<open>Worker_Registry\<close>: registration,
    heartbeats, capacity, release (\<open>worker_registry.py\<close>). \<open>Lifecycle\<close>: the invariant that ties status, lease,
    audit trail and capacity together, and the relations between states that all services respect.
  \<^item> \<open>Scheduler\<close>, \<open>Schedule_Pass\<close>: one pass and what it guarantees
    (\<open>src/services/scheduler/runscope_scheduler/service.py\<close>). \<open>Scheduler_Service\<close>: the process around it (\<open>main.py\<close> there).
  \<^item> \<open>Outbox\<close>: dispatcher and Kafka producer (\<open>outbox.py\<close>, \<open>broker.py\<close>). \<open>Storage\<close>: artifact stores with retries
    (\<open>storage.py\<close>). \<open>Templates\<close>: parameter models, registry and executor (\<open>templates/\<close>).
  \<^item> \<open>Run_Execution\<close>: creation and execution of runs (\<open>run_execution.py\<close>); \<open>Execution_Proofs\<close>: what execution keeps
    under interference; \<open>Execution_Outcomes\<close>: what creation and an undisturbed execution produce.
  \<^item> \<open>Listing\<close>, \<open>Security\<close>, \<open>Api_Catalog\<close>, \<open>Api_Runs\<close>, \<open>Run_Commands\<close>, \<open>Platform\<close>: pages and search, sign-in and roles,
    the endpoints for projects, experiments, runs, workers, health and metrics (\<open>security.py\<close>, \<open>metrics.py\<close>, \<open>api/\<close>,
    \<open>schemas/\<close>). \<open>Api\<close>: requests, permissions, validation and answers of the whole application (\<open>main.py\<close>, \<open>db.py\<close>);
    \<open>Api_Properties\<close>: what every request respects. \<open>Secrecy\<close>: the API without a view of the password hashes.
    \<open>Responses\<close>: the bodies of all answers. \<open>Logging\<close>: redaction and log lines (\<open>logging.py\<close>).
  \<^item> \<open>Worker_Service\<close>: event processing, heartbeats, consumer and reconnecting loop
    (\<open>src/services/worker/runscope_worker/main.py\<close>, \<open>broker.py\<close>). \<open>Live_Events\<close>: \<open>live_events.py\<close>, \<open>stream_run\<close> of
    \<open>api/runs.py\<close>, and the reader \<open>src/apps/web/src/hooks/useRunStream.ts\<close>. \<open>Seed\<close>: \<open>seed.py\<close>, \<open>cli.py\<close>.
  \<^item> \<open>Migrations\<close>, \<open>Migration_Roundtrip\<close>, \<open>Migration_Properties\<close>: the revisions of \<open>src/services/api/alembic\<close> and
    the tables the ORM classes declare. \<open>Scripts\<close>: \<open>src/scripts/demo.py\<close>, \<open>src/scripts/verify.py\<close>.
  \<^item> \<open>System\<close>: all services together, as a step relation. \<open>Journey\<close>: one run through all of them, from its
    submission to its end. \<open>Client\<close>: the demonstration script, with the API as its server and the platform at work.

  \<^bold>\<open>State and operations.\<close> A function of the source is one definition of the same name (suffixed where HOL
  has the name already). It takes the state and returns the next one, with \<open>Inl\<close> an exception or \<open>Inr\<close> a
  result where it may raise. A database transaction that raises leaves the database as it was. Execution is not
  one transaction: at each await (training, upload, pause) the other sessions may change the database, by
  the parameter \<open>rt_env\<close>, while the session's object stays as it was loaded. \<open>System.act\<close> closes this loop:
  there the other sessions are the platform's own services, in any order, to any depth.

  \<^bold>\<open>Interfaces.\<close> \<open>table\<close> (laws of a table addressed by its key), interpreted on five tables of \<open>Models\<close>;
  \<open>lease_book\<close> (releasing removes exactly one entry), on the registry; \<open>acked_broker\<close> (a publish that returns was
  acknowledged), on the Kafka producer; \<open>artifact_store\<close> (reading back what was put), on the local store; \<open>seeding\<close>
  (idempotent steps), on users and on templates; \<open>execution_invariant\<close> (what survives execution under
  interference), on the lifecycle invariant, on everything the platform upholds, on "this assignment is spent" and on who
  and what runs and users are;
  \<open>pass_relation\<close> (what a scheduling pass keeps because each of its writes does), on \<open>advances\<close>, by which no spent
  assignment is revived, and on \<open>carries\<close>, by which a run reaches its worker with everything that was submitted.

  \<^bold>\<open>What is shown.\<close>
  \<^item> The platform: whatever the services do in any interleaving, status, leases, capacity, audit trail, foreign
    keys and catalog stay consistent, runs change only with their version, the history of events is only appended
    to, so that statuses move along the transition table only, and an assignment is executed at most once,
    however often its message is delivered. Conversely a submitted run gets through: unless no worker
    has room, one pass leases it, the dispatcher publishes the announcement, and the worker that receives it
    executes the run with the submitted parameters to its recorded end. (That theorem is about one order of
    events, without interference, and asks that the identifiers drawn fit 128 bits, as a UUID does.)
  \<^item> The scheduler: it never overcommits a worker, settles exactly the leases that expired or whose worker is silent,
    announces exactly the leases it makes, leaves no run waiting that fits, and never prefers a run of lower priority
    for the same resources.
  \<^item> Lifecycle and registry: the life of a run is a path of the documented diagram with the right timestamps; a
    finished run was running; release refines removal from an abstract book; heartbeats and registrations exactly.
  \<^item> Execution: the rows creation writes, the complete record of a slow run, the result of a classification run or
    its failure (and what remains of it when the handler cannot read the run's key), cancellation at the next
    checkpoint, retries as new runs.
  \<^item> Outbox: a batch sends the oldest messages in order up to the first failure, no row is lost and none is marked
    without being acknowledged, the outbox drains while the broker works, delays are bounded.
  \<^item> Storage: bounded retries, paths below the root, round trips of both stores and of a download.
  \<^item> API: only the entitled change data, a request that is not answered changes nothing and carries its correlation
    identifier, password hashes influence nothing but the verdict on a sign-in, pages partition a listing in its order,
    tokens expire, every number reported is the tables', logs lose the sensitive values and nothing else, seeding is
    idempotent and touches nothing else.
  \<^item> Schema: the migrations yield exactly the schema the classes declare, and downgrades undo upgrades.
  \<^item> Live events reach the browser once each and in order. The demonstration script ends, and what it reports
    of its run is so in the database.

  \<^bold>\<open>Libraries as parameters.\<close> Kafka, Redis and S3 clients, PyJWT, pwdlib, email-validator, pydantic's coercions and
  JSON schemas, scikit-learn, JSON codecs, the file system's state, the HTTP client, the wall clock and
  \<open>uuid4\<close> (a counter: identifiers are not drawn twice). Where a property relies on their documented behaviour
  this is a hypothesis by name, and the witness instantiates it.

  \<^bold>\<open>Idealisations.\<close> Floats are exact rationals; characters are those of HOL's \<open>char\<close>; the database's \<open>lower\<close> is
  Python's; the file system has no symbolic links; an API request is one atomic transaction, and so is a pass of
  the scheduler: the code reads the run of an expired lease without a lock, so a commit of another service
  between this read and the flush makes the pass raise \<open>StaleDataError\<close> and roll back until the next round, which
  is not modelled; rows another transaction has locked are an argument of the scheduler and the dispatcher; the
  exceptions of PyJWT are one, since all of them are caught together; a lost connection to the
  database is a failed round of the scheduler's loop and is not modelled elsewhere; what reading the key of an expired object
  yields after a rollback (the identifier or \<open>MissingGreenlet\<close>) is the parameter \<open>rt_expired_id\<close>; seeding runs
  before the services and is not a step of \<open>System.act\<close>.

  \<^bold>\<open>Loops and bounds.\<close> The loops over rows are recursions over lists (batches of 50 messages, 100 queued runs, as in
  the code). Service loops are folds over arbitrarily many rounds. Retries recurse over the list of attempt
  numbers. \<open>upgrades\<close> and \<open>downgrades\<close> take as fuel the number of revisions to go, at most five since there are
  five. The polling loop of the demonstration is a partial function that returns whenever the clock runs
  (\<open>poll_run_returns\<close>).

  \<^bold>\<open>Not modelled.\<close> CORS headers, command lines, \<open>asyncio\<close> start-up and
  shutdown, Alembic's offline mode, the texts of serialised JSON (parameters), the user interface but for the reader
  of live events, load tests, containers and dashboards. These hold no logic of the platform or are the
  frameworks' own.
\<close>

end
